(* ===== verification/Prelude.thy ===== *)
theory Prelude
  imports Main "HOL-Library.Signed_Division" "HOL-Library.Word" "HOL-Library.Char_ord"
    "HOL-Library.List_Lexorder"
begin

text \<open>
  Shared vocabulary of the development: how Go's machine integers, instants, identifiers,
  strings and error results are represented, with the generic lemmas every component uses.

  \<^item> \<open>int\<close> and \<open>int64\<close> of the source are integers in the range of \<open>in_i64\<close>; every arithmetic
    operation of the source is followed by \<open>i64\<close>, the two's complement wrap-around at 64 bits.
    Division truncates towards zero (\<open>sdiv\<close>).
  \<^item> A \<open>time.Time\<close> is its instant in nanoseconds since the Unix epoch, in UTC; a
    \<open>time.Duration\<close> is a number of nanoseconds.
  \<^item> A \<open>uuid.UUID\<close> is its 128 bits; \<open>bytes.Compare\<close> on it is the order of the word.
  \<^item> A Go \<open>string\<close> or \<open>[]byte\<close> is the list of its bytes; a pointer is an option.
  \<^item> A call that returns \<open>(T, error)\<close> returns \<open>'err + T\<close>, \<open>Inl\<close> being the error.
\<close>

named_theorems go_int "laws of wrapping 64-bit integer arithmetic"
named_theorems model_defs "definitions unfolded when a branch of the model is followed"

section \<open>64-bit integers\<close>

type_synonym uuid = "128 word"
type_synonym time = int
type_synonym duration = int

definition in_i64 :: "int \<Rightarrow> bool" where
  "in_i64 k \<longleftrightarrow> - (2 ^ 63) \<le> k \<and> k < 2 ^ 63"

definition i64 :: "int \<Rightarrow> int" where
  "i64 k = (k + 2 ^ 63) mod 2 ^ 64 - 2 ^ 63"

lemma i64_range [simp, go_int]: "in_i64 (i64 k)"
proof -
  have "0 \<le> (k + 2 ^ 63) mod 2 ^ 64" and "(k + 2 ^ 63) mod 2 ^ 64 < (2 ^ 64 :: int)"
    by simp_all
  then show ?thesis by (simp add: in_i64_def i64_def)
qed

lemma i64_id [go_int]: "in_i64 k \<Longrightarrow> i64 k = k"
  by (simp add: in_i64_def i64_def)

lemma i64_idem [simp, go_int]: "i64 (i64 k) = i64 k"
  by (simp add: i64_id)

lemma i64_0 [simp]: "i64 0 = 0"
  by (simp add: i64_def)

lemma i64_1 [simp]: "i64 1 = 1"
  by (simp add: i64_def)

text \<open>Wrapping is congruence modulo \<open>2 ^ 64\<close>, so inner wraps of a sum can be dropped.\<close>

lemma i64_eq_iff: "i64 a = i64 b \<longleftrightarrow> a mod 2 ^ 64 = b mod 2 ^ 64"
proof -
  have "i64 a = i64 b \<longleftrightarrow> (a + 2 ^ 63) mod 2 ^ 64 = (b + 2 ^ 63) mod (2 ^ 64 :: int)"
    by (simp add: i64_def)
  also have "\<dots> \<longleftrightarrow> (2 ^ 64 :: int) dvd (a + 2 ^ 63) - (b + 2 ^ 63)"
    by (rule mod_eq_dvd_iff)
  also have "\<dots> \<longleftrightarrow> (2 ^ 64 :: int) dvd a - b" by simp
  also have "\<dots> \<longleftrightarrow> a mod 2 ^ 64 = b mod 2 ^ 64"
    by (rule mod_eq_dvd_iff [symmetric])
  finally show ?thesis .
qed

lemma i64_mod: "i64 a mod 2 ^ 64 = a mod 2 ^ 64"
  using i64_eq_iff [of "i64 a" a] by simp

lemma i64_add_left [simp, go_int]: "i64 (i64 a + b) = i64 (a + b)"
  by (metis i64_eq_iff i64_mod mod_add_left_eq)

lemma i64_add_right [simp, go_int]: "i64 (a + i64 b) = i64 (a + b)"
  by (metis i64_eq_iff i64_mod mod_add_right_eq)

lemma i64_diff_left [simp, go_int]: "i64 (i64 a - b) = i64 (a - b)"
  by (metis i64_eq_iff i64_mod mod_diff_left_eq)

lemma i64_diff_right [simp, go_int]: "i64 (a - i64 b) = i64 (a - b)"
  by (metis i64_eq_iff i64_mod mod_diff_right_eq)

lemma i64_nonneg_le: "0 \<le> a \<Longrightarrow> a \<le> b \<Longrightarrow> in_i64 b \<Longrightarrow> i64 a = a"
  by (rule i64_id) (simp add: in_i64_def)

lemma sdiv_pos: "0 \<le> a \<Longrightarrow> 0 < b \<Longrightarrow> a sdiv b = a div (b :: int)"
  by (cases "a = 0") (simp_all add: signed_divide_int_def)

section \<open>Results\<close>

definition is_ok :: "'e + 'a \<Rightarrow> bool" where
  "is_ok r = (case r of Inl _ \<Rightarrow> False | Inr _ \<Rightarrow> True)"

lemma is_ok_simps [simp]: "is_ok (Inr x)" "\<not> is_ok (Inl e)"
  by (simp_all add: is_ok_def)

lemma not_is_ok: "\<not> is_ok r \<longleftrightarrow> (\<exists>e. r = Inl e)"
  by (cases r) simp_all

section \<open>Decimal numbers\<close>

fun digits_rev :: "nat \<Rightarrow> string" where
  "digits_rev n =
     (if n < 10 then [char_of (48 + n)] else char_of (48 + n mod 10) # digits_rev (n div 10))"

declare digits_rev.simps [simp del]

definition FormatInt :: "int \<Rightarrow> string" where
  "FormatInt n = (if n < 0 then CHR ''-'' # rev (digits_rev (nat (- n))) else rev (digits_rev (nat n)))"

fun digits_value :: "string \<Rightarrow> nat" where
  "digits_value [] = 0"
| "digits_value (c # cs) = (of_char c - 48) + 10 * digits_value cs"

lemma of_char_digit: "n < 10 \<Longrightarrow> of_char (char_of (48 + n) :: char) = (48 + n :: nat)"
  by (simp add: of_char_of)

lemma digits_rev_value: "digits_value (digits_rev n) = n"
proof (induction n rule: digits_rev.induct)
  case (1 n)
  then show ?case
    by (subst digits_rev.simps) (simp add: of_char_digit)
qed

lemma digits_rev_chars: "c \<in> set (digits_rev n) \<Longrightarrow> 48 \<le> (of_char c :: nat)"
proof (induction n rule: digits_rev.induct)
  case (1 n)
  then show ?case
    by (subst (asm) digits_rev.simps) (auto simp: of_char_digit split: if_splits)
qed

lemma digits_rev_inj: "digits_rev m = digits_rev n \<Longrightarrow> m = n"
  by (metis digits_rev_value)

lemma digits_rev_no_sign: "rev (digits_rev n) \<noteq> CHR ''-'' # cs"
proof
  assume "rev (digits_rev n) = CHR ''-'' # cs"
  then have "CHR ''-'' \<in> set (digits_rev n)" by (metis list.set_intros(1) set_rev)
  then show False using digits_rev_chars by fastforce
qed

lemma FormatInt_inj: "FormatInt m = FormatInt n \<Longrightarrow> m = n"
  using digits_rev_no_sign [of "nat m" "rev (digits_rev (nat (- n)))"]
    digits_rev_no_sign [of "nat n" "rev (digits_rev (nat (- m)))", symmetric]
  by (auto simp: FormatInt_def dest!: digits_rev_inj split: if_splits)

end
