(* ===== verification/Metering.thy ===== *)
theory Metering
  imports Prelude
begin

text \<open>
  Token usage, money and rates: \<open>core/domains/usage.go\<close>, \<open>estimate.go\<close>, \<open>money.go\<close> and
  \<open>pricing.go\<close>. Amounts are nanodollars in 64-bit integers, so the wrap-around of every product
  and sum is part of the model. The float renderings of \<open>money.go\<close> are not modelled.
\<close>

section \<open>Definitions\<close>

record TokenUsage =
  tu_Input :: int
  tu_Output :: int
  tu_CacheWrite :: int
  tu_CacheRead :: int
  tu_Reasoning :: int

definition zero_usage :: TokenUsage where
  "zero_usage = \<lparr>tu_Input = 0, tu_Output = 0, tu_CacheWrite = 0, tu_CacheRead = 0,
     tu_Reasoning = 0\<rparr>"

definition Total :: "TokenUsage \<Rightarrow> int" where
  "Total u = i64 (i64 (i64 (tu_Input u + tu_Output u) + tu_CacheRead u) + tu_CacheWrite u)"

record PromptSize =
  ps_TextBytes :: int
  ps_Messages :: int
  ps_MediaParts :: int

definition bytesPerToken :: int where "bytesPerToken = 4"
definition messageOverheadTokens :: int where "messageOverheadTokens = 4"
definition mediaPartTokens :: int where "mediaPartTokens = 1000"

definition EstimateTokens :: "PromptSize \<Rightarrow> int \<Rightarrow> int \<Rightarrow> int \<Rightarrow> TokenUsage" where
  "EstimateTokens p maxOutput choices defaultMaxOutput =
     (let input = i64 (i64 (i64 (i64 (ps_TextBytes p + bytesPerToken) - 1) sdiv bytesPerToken +
                    i64 (ps_Messages p * messageOverheadTokens)) +
                    i64 (ps_MediaParts p * mediaPartTokens));
          maxOutput' = (if maxOutput \<le> 0 then defaultMaxOutput else maxOutput);
          choices' = (if choices < 1 then 1 else choices)
      in zero_usage\<lparr>tu_Input := input, tu_Output := i64 (maxOutput' * choices')\<rparr>)"

text \<open>\<open>PerMillionTokens.Cost\<close>: the product is taken in \<open>int64\<close> before the division.\<close>

definition PerMillionTokens_Cost :: "int \<Rightarrow> int \<Rightarrow> int" where
  "PerMillionTokens_Cost p n = i64 (p * n) sdiv 1000000"

record Rates =
  r_Input :: int
  r_Output :: int
  r_CacheRead :: int
  r_CacheWrite :: int

definition zero_rates :: Rates where
  "zero_rates = \<lparr>r_Input = 0, r_Output = 0, r_CacheRead = 0, r_CacheWrite = 0\<rparr>"

definition Rates_Cost :: "Rates \<Rightarrow> TokenUsage \<Rightarrow> int" where
  "Rates_Cost r u =
     i64 (i64 (i64 (PerMillionTokens_Cost (r_Input r) (tu_Input u) +
                    PerMillionTokens_Cost (r_Output r) (tu_Output u)) +
               PerMillionTokens_Cost (r_CacheRead r) (tu_CacheRead u)) +
          PerMillionTokens_Cost (r_CacheWrite r) (tu_CacheWrite u))"

definition IsFree :: "Rates \<Rightarrow> bool" where
  "IsFree r \<longleftrightarrow> r = zero_rates"

datatype rates_error = NegativeRate string int | CacheReadExceedsInput int int

text \<open>
  The loop of \<open>Rates.Validate\<close> ranges over a Go map, whose iteration order is unspecified:
  \<open>order\<close> is the order of one run, a permutation of \<open>rate_names\<close>.
\<close>

definition rate_names :: "string list" where
  "rate_names = [''input'', ''output'', ''cache_read'', ''cache_write'']"

definition rate_of :: "Rates \<Rightarrow> string \<Rightarrow> int" where
  "rate_of r name =
     (if name = ''input'' then r_Input r
      else if name = ''output'' then r_Output r
      else if name = ''cache_read'' then r_CacheRead r
      else r_CacheWrite r)"

fun negative_rate :: "Rates \<Rightarrow> string list \<Rightarrow> rates_error option" where
  "negative_rate r [] = None"
| "negative_rate r (name # names) =
     (if rate_of r name < 0 then Some (NegativeRate name (rate_of r name))
      else negative_rate r names)"

definition Rates_Validate :: "string list \<Rightarrow> Rates \<Rightarrow> rates_error option" where
  "Rates_Validate order r =
     (case negative_rate r order of
        Some e \<Rightarrow> Some e
      | None \<Rightarrow>
          if r_CacheRead r > r_Input r \<and> r_Input r > 0
          then Some (CacheReadExceedsInput (r_CacheRead r) (r_Input r))
          else None)"

record Counterfactual =
  cf_Target :: string
  cf_Cost :: int

record CostBreakdown =
  cb_Actual :: int
  cb_PriceTableVersion :: string
  cb_Counterfactuals :: "Counterfactual list"
  cb_UnpricedComparisons :: "string list"

definition Delta :: "CostBreakdown \<Rightarrow> string \<Rightarrow> int option" where
  "Delta c target =
     map_option (\<lambda>cf. i64 (cb_Actual c - cf_Cost cf))
       (List.find (\<lambda>cf. cf_Target cf = target) (cb_Counterfactuals c))"

text \<open>The exact cost, over unbounded integers and with one division for each kind of token.\<close>

definition exact_cost :: "Rates \<Rightarrow> TokenUsage \<Rightarrow> int" where
  "exact_cost r u =
     r_Input r * tu_Input u div 1000000 + r_Output r * tu_Output u div 1000000 +
     r_CacheRead r * tu_CacheRead u div 1000000 + r_CacheWrite r * tu_CacheWrite u div 1000000"

definition nonneg_usage :: "TokenUsage \<Rightarrow> bool" where
  "nonneg_usage u \<longleftrightarrow> 0 \<le> tu_Input u \<and> 0 \<le> tu_Output u \<and> 0 \<le> tu_CacheRead u \<and>
     0 \<le> tu_CacheWrite u"

definition nonneg_rates :: "Rates \<Rightarrow> bool" where
  "nonneg_rates r \<longleftrightarrow> 0 \<le> r_Input r \<and> 0 \<le> r_Output r \<and> 0 \<le> r_CacheRead r \<and>
     0 \<le> r_CacheWrite r"

text \<open>No product of a rate with a count, and not their sum, leaves the range of \<open>int64\<close>.\<close>

definition cost_fits :: "Rates \<Rightarrow> TokenUsage \<Rightarrow> bool" where
  "cost_fits r u \<longleftrightarrow>
     r_Input r * tu_Input u + r_Output r * tu_Output u +
     r_CacheRead r * tu_CacheRead u + r_CacheWrite r * tu_CacheWrite u < 2 ^ 63"

section \<open>Lemmas\<close>

lemma PerMillionTokens_Cost_exact:
  assumes "0 \<le> p" "0 \<le> n" "p * n < 2 ^ 63"
  shows "PerMillionTokens_Cost p n = p * n div 1000000"
proof -
  have nn: "0 \<le> p * n" using assms by simp
  then have "in_i64 (p * n)" using assms(3) by (simp add: in_i64_def)
  then show ?thesis using nn by (simp add: PerMillionTokens_Cost_def i64_id sdiv_pos)
qed

lemma million_div_le: "0 \<le> (a :: int) \<Longrightarrow> a div 1000000 \<le> a"
  by simp

lemma Rates_Cost_exact:
  assumes "nonneg_rates r" "nonneg_usage u" "cost_fits r u"
  shows "Rates_Cost r u = exact_cost r u" and "0 \<le> exact_cost r u" and "exact_cost r u < 2 ^ 63"
proof -
  define a where "a = r_Input r * tu_Input u"
  define b where "b = r_Output r * tu_Output u"
  define c where "c = r_CacheRead r * tu_CacheRead u"
  define d where "d = r_CacheWrite r * tu_CacheWrite u"
  have nn: "0 \<le> a" "0 \<le> b" "0 \<le> c" "0 \<le> d"
    using assms(1,2) by (simp_all add: nonneg_rates_def nonneg_usage_def a_def b_def c_def d_def)
  have sum: "a + b + c + d < 2 ^ 63"
    using assms(3) by (simp add: cost_fits_def a_def b_def c_def d_def)
  have ec: "exact_cost r u = a div 1000000 + b div 1000000 + c div 1000000 + d div 1000000"
    by (simp add: exact_cost_def a_def b_def c_def d_def)
  have le: "a div 1000000 \<le> a" "b div 1000000 \<le> b" "c div 1000000 \<le> c" "d div 1000000 \<le> d"
    using nn by (simp_all add: million_div_le)
  have pos: "0 \<le> a div 1000000" "0 \<le> b div 1000000" "0 \<le> c div 1000000" "0 \<le> d div 1000000"
    using nn by simp_all
  show "0 \<le> exact_cost r u" using pos by (simp add: ec)
  show lt: "exact_cost r u < 2 ^ 63" using le sum unfolding ec by linarith
  have parts: "a < 2 ^ 63" "b < 2 ^ 63" "c < 2 ^ 63" "d < 2 ^ 63"
    using nn sum by linarith+
  have "PerMillionTokens_Cost (r_Input r) (tu_Input u) = a div 1000000"
    "PerMillionTokens_Cost (r_Output r) (tu_Output u) = b div 1000000"
    "PerMillionTokens_Cost (r_CacheRead r) (tu_CacheRead u) = c div 1000000"
    "PerMillionTokens_Cost (r_CacheWrite r) (tu_CacheWrite u) = d div 1000000"
    using assms(1,2) parts unfolding a_def b_def c_def d_def nonneg_rates_def nonneg_usage_def
    by (simp_all only: PerMillionTokens_Cost_exact)
  then have "Rates_Cost r u = i64 (exact_cost r u)"
    by (simp add: Rates_Cost_def ec)
  then show "Rates_Cost r u = exact_cost r u"
    using \<open>0 \<le> exact_cost r u\<close> lt by (simp add: i64_id in_i64_def)
qed

end
