(* ===== verification/Calendar.thy ===== *)
theory Calendar
  imports Prelude
begin

text \<open>
  The part of package \<open>time\<close> the source cuts its windows with: \<open>Time.Truncate\<close>,
  \<open>Time.Year\<close>/\<open>Month\<close>/\<open>Day\<close>, \<open>time.Date\<close> and \<open>Time.AddDate\<close>, in UTC. Dates follow the
  proleptic Gregorian calendar; the date of a day number is found by the division into
  400, 100, 4 and 1 year cycles, and its correctness (\<open>civil_spec\<close>, \<open>Date_civil\<close>) is what the
  window theorems rest on.
\<close>

section \<open>Definitions\<close>

definition Second :: duration where "Second = 1000000000"
definition Minute :: duration where "Minute = 60000000000"
definition Hour :: duration where "Hour = 3600000000000"
definition Day_ns :: duration where "Day_ns = 86400000000000"

text \<open>January 1 of year 1, the zero \<open>time.Time\<close>, is day \<open>0\<close> of the day count below.\<close>

definition zero_time :: time where "zero_time = -62135596800000000000"

definition Truncate :: "time \<Rightarrow> duration \<Rightarrow> time" where
  "Truncate t d = (if d \<le> 0 then t else t - (t - zero_time) mod d)"

definition Unix :: "time \<Rightarrow> int" where "Unix t = t div Second"

definition leap :: "int \<Rightarrow> bool" where
  "leap y \<longleftrightarrow> y mod 4 = 0 \<and> (y mod 100 \<noteq> 0 \<or> y mod 400 = 0)"

text \<open>Days from January 1 of year 1 to January 1 of year \<open>y\<close>.\<close>

definition year_start :: "int \<Rightarrow> int" where
  "year_start y = (let n = y - 1 in 365 * n + n div 4 - n div 100 + n div 400)"

text \<open>Days from January 1 to the first of month \<open>m\<close>, counted from \<open>0\<close>; \<open>12\<close> is the next year.\<close>

definition month_start :: "bool \<Rightarrow> int \<Rightarrow> int" where
  "month_start lp m =
     (if m \<le> 0 then 0 else if m = 1 then 31
      else (if m = 2 then 59 else if m = 3 then 90 else if m = 4 then 120 else if m = 5 then 151
            else if m = 6 then 181 else if m = 7 then 212 else if m = 8 then 243
            else if m = 9 then 273 else if m = 10 then 304 else if m = 11 then 334 else 365) +
           (if lp then 1 else 0))"

definition month_of_yday :: "bool \<Rightarrow> int \<Rightarrow> int" where
  "month_of_yday lp yd =
     (if yd < month_start lp 1 then 0 else if yd < month_start lp 2 then 1
      else if yd < month_start lp 3 then 2 else if yd < month_start lp 4 then 3
      else if yd < month_start lp 5 then 4 else if yd < month_start lp 6 then 5
      else if yd < month_start lp 7 then 6 else if yd < month_start lp 8 then 7
      else if yd < month_start lp 9 then 8 else if yd < month_start lp 10 then 9
      else if yd < month_start lp 11 then 10 else 11)"

definition year_of_day :: "int \<Rightarrow> int" where
  "year_of_day d =
     (let n400 = d div 146097; d1 = d mod 146097;
          n100 = d1 div 36524 - d1 div 36524 div 4; d2 = d1 - 36524 * n100;
          n4 = d2 div 1461; d3 = d2 mod 1461;
          n1 = d3 div 365 - d3 div 365 div 4
      in 400 * n400 + 100 * n100 + 4 * n4 + n1 + 1)"

text \<open>\<open>(Year, Month, Day)\<close> of a day number, with Go's numbering of months and days from 1.\<close>

definition civil :: "int \<Rightarrow> int \<times> int \<times> int" where
  "civil d =
     (let y = year_of_day d; yd = d - year_start y; m = month_of_yday (leap y) yd
      in (y, m + 1, yd - month_start (leap y) m + 1))"

definition day_number :: "time \<Rightarrow> int" where
  "day_number t = (t - zero_time) div Day_ns"

definition Year :: "time \<Rightarrow> int" where "Year t = fst (civil (day_number t))"
definition Month :: "time \<Rightarrow> int" where "Month t = fst (snd (civil (day_number t)))"
definition Day :: "time \<Rightarrow> int" where "Day t = snd (snd (civil (day_number t)))"

text \<open>\<open>time.Date(y, m, d, 0, 0, 0, 0, time.UTC)\<close>: months outside \<open>1..12\<close> carry into the year.\<close>

definition Date :: "int \<Rightarrow> int \<Rightarrow> int \<Rightarrow> time" where
  "Date y m d =
     (let y' = y + (m - 1) div 12; m' = (m - 1) mod 12
      in zero_time + (year_start y' + month_start (leap y') m' + (d - 1)) * Day_ns)"

definition AddDate :: "time \<Rightarrow> int \<Rightarrow> int \<Rightarrow> int \<Rightarrow> time" where
  "AddDate t years months days =
     Date (Year t + years) (Month t + months) (Day t + days) + (t - zero_time) mod Day_ns"

section \<open>Truncation\<close>

lemmas duration_defs = Second_def Minute_def Hour_def Day_ns_def zero_time_def

lemma Truncate_bounds:
  assumes "0 < d"
  shows "Truncate t d \<le> t" and "t < Truncate t d + d"
  using assms pos_mod_bound [of d "t - zero_time"] pos_mod_sign [of d "t - zero_time"]
  by (simp_all add: Truncate_def)

lemma mod_cell:
  fixes a b d :: int
  assumes "0 < d" "a - a mod d \<le> b" "b < a - a mod d + d"
  shows "b - b mod d = a - a mod d"
proof -
  have "b div d = a div d"
  proof (rule int_div_pos_eq)
    show "b = d * (a div d) + (b - d * (a div d))" by simp
    show "0 \<le> b - d * (a div d)" using assms(2) by (simp add: minus_mod_eq_mult_div)
    show "b - d * (a div d) < d" using assms(3) by (simp add: minus_mod_eq_mult_div)
  qed
  then show ?thesis by (simp add: minus_mod_eq_mult_div)
qed

lemma Truncate_cell:
  assumes "0 < d" "Truncate t d \<le> u" "u < Truncate t d + d"
  shows "Truncate u d = Truncate t d"
proof -
  have "t - (t - zero_time) mod d \<le> u" and "u < t - (t - zero_time) mod d + d"
    using assms by (auto simp: Truncate_def split: if_splits)
  then have "u - zero_time - (u - zero_time) mod d = t - zero_time - (t - zero_time) mod d"
    using assms(1) by (intro mod_cell) simp_all
  then show ?thesis using assms(1) by (simp add: Truncate_def)
qed

section \<open>Civil dates\<close>

lemma div_step:
  fixes y n :: int
  assumes "1 < n"
  shows "(y + 1) div n = y div n + (if (y + 1) mod n = 0 then 1 else 0)"
proof (cases "y mod n = n - 1")
  case True
  have "y + 1 = n * (y div n + 1) + 0"
    using mult_div_mod_eq [of n y] True by (simp add: algebra_simps)
  then have "(y + 1) div n = y div n + 1" and "(y + 1) mod n = 0"
    using assms int_div_pos_eq [of "y + 1" n "y div n + 1" 0] int_mod_pos_eq [of "y + 1" n "y div n + 1" 0]
    by simp_all
  then show ?thesis by simp
next
  case False
  have b: "0 \<le> y mod n" "y mod n < n" using assms by simp_all
  have e: "y + 1 = n * (y div n) + (y mod n + 1)"
    using mult_div_mod_eq [of n y] by simp
  have "(y + 1) div n = y div n" and "(y + 1) mod n = y mod n + 1"
    using b False int_div_pos_eq [OF e] int_mod_pos_eq [OF e] by simp_all
  then show ?thesis using b by simp
qed

lemma mod_chain: "y mod 400 = 0 \<Longrightarrow> y mod 100 = 0" "y mod 100 = 0 \<Longrightarrow> y mod 4 = 0" for y :: int
  using dvd_trans [of 100 400 y] dvd_trans [of 4 100 y] by (simp_all add: mod_eq_0_iff_dvd)

lemma div_pred: "1 < n \<Longrightarrow> y div n = (y - 1) div n + (if y mod n = 0 then 1 else 0)" for y n :: int
  using div_step [of n "y - 1"] by (simp only: diff_add_cancel)

lemma leap_sum:
  fixes a a' b b' c c' :: int
  assumes "a = a' + (if p then 1 else 0)" "b = b' + (if q then 1 else 0)" "c = c' + (if r then 1 else 0)"
    and "r \<Longrightarrow> q" "q \<Longrightarrow> p"
  shows "a - b + c = a' - b' + c' + (if p \<and> (\<not> q \<or> r) then 1 else 0)"
  using assms by (cases p; cases q; cases r) simp_all

lemma leap_days: "y div 4 - y div 100 + y div 400 =
    (y - 1) div 4 - (y - 1) div 100 + (y - 1) div 400 + (if leap y then 1 else 0)" for y :: int
  unfolding leap_def
  by (rule leap_sum [OF div_pred div_pred div_pred mod_chain]) simp_all

lemma year_start_Suc: "year_start (y + 1) = year_start y + (if leap y then 366 else 365)"
proof -
  have "year_start (y + 1) = 365 * y + (y div 4 - y div 100 + y div 400)"
    by (simp add: year_start_def)
  moreover have "year_start y = 365 * (y - 1) + ((y - 1) div 4 - (y - 1) div 100 + (y - 1) div 400)"
    by (simp add: year_start_def Let_def)
  ultimately show ?thesis unfolding leap_days [of y] by simp
qed

lemma year_start_cycle:
  fixes a b c e :: int
  assumes "0 \<le> b" "b \<le> 3" "0 \<le> c" "c \<le> 24" "0 \<le> e" "e \<le> 3"
  shows "year_start (400 * a + 100 * b + 4 * c + e + 1) = 146097 * a + 36524 * b + 1461 * c + 365 * e"
proof -
  have "(400 * a + 100 * b + 4 * c + e) div 4 = 100 * a + 25 * b + c"
    using assms by (intro int_div_pos_eq [where r = e]) simp_all
  moreover have "(400 * a + 100 * b + 4 * c + e) div 100 = 4 * a + b"
    using assms by (intro int_div_pos_eq [where r = "4 * c + e"]) simp_all
  moreover have "(400 * a + 100 * b + 4 * c + e) div 400 = a"
    using assms by (intro int_div_pos_eq [where r = "100 * b + 4 * c + e"]) simp_all
  ultimately show ?thesis by (simp add: year_start_def Let_def)
qed

text \<open>
  The last year of a 4-year or 400-year cycle has one day more than the others, so its index
  is clamped to 3 and the last 100-year part of the 400 may have 25 leap cycles.
\<close>

lemma clamp3:
  fixes x q :: int
  assumes "0 \<le> x" "x \<le> 4 * q" "0 < q"
  defines "n \<equiv> x div q - x div q div 4"
  shows "0 \<le> n" "n \<le> 3" "q * n \<le> x" "n < 3 \<Longrightarrow> x < q * n + q"
proof -
  have "0 \<le> x div q" using assms by (simp add: pos_imp_zdiv_nonneg_iff)
  moreover have "x div q \<le> 4" using zdiv_mono1 [OF assms(2,3)] assms(3) by simp
  moreover have r: "x = q * (x div q) + x mod q" "0 \<le> x mod q" "x mod q < q"
    using assms(3) by simp_all
  ultimately consider "x div q = 0" | "x div q = 1" | "x div q = 2" | "x div q = 3" | "x div q = 4"
    by linarith
  then have "0 \<le> n \<and> n \<le> 3 \<and> q * n \<le> x \<and> (n < 3 \<longrightarrow> x < q * n + q)"
    using r by cases (simp_all add: n_def)
  then show "0 \<le> n" "n \<le> 3" "q * n \<le> x" "n < 3 \<Longrightarrow> x < q * n + q" by simp_all
qed

lemma leap_cycle_last:
  fixes a b c :: int
  assumes "0 \<le> b" "b \<le> 3" "0 \<le> c" "c \<le> 24" "c = 24 \<longrightarrow> b = 3"
  shows "leap (400 * a + 100 * b + 4 * c + 3 + 1)"
proof -
  have m4: "(400 * a + 100 * b + 4 * c + 3 + 1) mod 4 = 0"
    using int_mod_pos_eq [of "400 * a + 100 * b + 4 * c + 3 + 1" 4 "100 * a + 25 * b + c + 1" 0] by simp
  show ?thesis
  proof (cases "c = 24")
    case True
    then have "(400 * a + 100 * b + 4 * c + 3 + 1) mod 400 = 0"
      using assms int_mod_pos_eq [of "400 * a + 100 * b + 4 * c + 3 + 1" 400 "a + 1" 0] by simp
    with m4 show ?thesis by (simp add: leap_def)
  next
    case False
    then have "(400 * a + 100 * b + 4 * c + 3 + 1) mod 100 = 4 * c + 4"
      using assms int_mod_pos_eq [of "400 * a + 100 * b + 4 * c + 3 + 1" 100 "4 * a + b" "4 * c + 4"] by simp
    with m4 assms show ?thesis by (simp add: leap_def)
  qed
qed

lemma year_of_day_bounds:
  "year_start (year_of_day d) \<le> d" "d < year_start (year_of_day d + 1)"
proof -
  define a d1 where "a = d div 146097" and "d1 = d mod 146097"
  define b where "b = d1 div 36524 - d1 div 36524 div 4"
  define d2 where "d2 = d1 - 36524 * b"
  define c d3 where "c = d2 div 1461" and "d3 = d2 mod 1461"
  define e where "e = d3 div 365 - d3 div 365 div 4"
  have y: "year_of_day d = 400 * a + 100 * b + 4 * c + e + 1"
    by (simp add: year_of_day_def Let_def a_def b_def c_def e_def d1_def d2_def d3_def)
  have d1: "0 \<le> d1" "d1 \<le> 146096" "d = 146097 * a + d1"
    using pos_mod_bound [of 146097 d] by (simp_all add: d1_def a_def)
  have b: "0 \<le> b" "b \<le> 3" "36524 * b \<le> d1" "b < 3 \<Longrightarrow> d1 < 36524 * b + 36524"
    using clamp3 [of d1 36524] d1 unfolding b_def by simp_all
  have d2: "0 \<le> d2" "d2 \<le> 36524" "b < 3 \<Longrightarrow> d2 < 36524"
    using b d1 by (cases "b < 3"; force simp: d2_def)+
  have d3: "0 \<le> d3" "d3 \<le> 1460" "d2 = 1461 * c + d3"
    using pos_mod_bound [of 1461 d2] by (simp_all add: d3_def c_def)
  have c: "0 \<le> c" "c \<le> 24" using d2 d3 by linarith+
  have e: "0 \<le> e" "e \<le> 3" "365 * e \<le> d3" "e < 3 \<Longrightarrow> d3 < 365 * e + 365"
    using clamp3 [of d3 365] d3 unfolding e_def by simp_all
  have ys: "year_start (year_of_day d) = 146097 * a + 36524 * b + 1461 * c + 365 * e"
    unfolding y using b c e by (intro year_start_cycle)
  show "year_start (year_of_day d) \<le> d" using ys d1 d2_def d3 e by linarith
  have dd: "d = year_start (year_of_day d) + (d3 - 365 * e)"
    using ys d1 d2_def d3 by linarith
  have "d3 - 365 * e < (if leap (year_of_day d) then 366 else 365)"
  proof (cases "d3 - 365 * e < 365")
    case False
    then have "e = 3" using e by linarith
    moreover have "c = 24 \<longrightarrow> b = 3" using False d2 d3 b \<open>e = 3\<close> by (cases "b < 3") auto
    ultimately have "leap (year_of_day d)"
      unfolding y using leap_cycle_last [of b c a] b c by simp
    then show ?thesis using d3 \<open>e = 3\<close> by simp
  qed simp
  then show "d < year_start (year_of_day d + 1)" using dd by (simp add: year_start_Suc)
qed

lemma year_start_mono: "y \<le> z \<Longrightarrow> year_start y \<le> year_start z"
proof (induction z rule: int_ge_induct)
  case (step z)
  then show ?case using year_start_Suc [of z] by (simp split: if_splits)
qed simp

lemma year_unique:
  assumes "year_start y \<le> d" "d < year_start (y + 1)"
  shows "year_of_day d = y"
proof (rule ccontr)
  assume "year_of_day d \<noteq> y"
  then consider "year_of_day d + 1 \<le> y" | "y + 1 \<le> year_of_day d" by linarith
  then show False
    using year_start_mono [of "year_of_day d + 1" y] year_start_mono [of "y + 1" "year_of_day d"]
      year_of_day_bounds [of d] assms
    by cases linarith+
qed

lemma int_upto_11: "0 \<le> (m :: int) \<Longrightarrow> m \<le> 11 \<Longrightarrow>
    m = 0 \<or> m = 1 \<or> m = 2 \<or> m = 3 \<or> m = 4 \<or> m = 5 \<or> m = 6 \<or> m = 7 \<or> m = 8 \<or> m = 9 \<or> m = 10 \<or> m = 11"
  by presburger

lemma month_unique:
  assumes "0 \<le> m" "m \<le> 11" "month_start lp m \<le> yd" "yd < month_start lp (m + 1)"
  shows "month_of_yday lp yd = m"
  using int_upto_11 [OF assms(1,2)] assms(3,4)
  by (cases lp) (elim disjE; simp add: month_of_yday_def month_start_def)+

lemma month_of_yday_bounds:
  assumes "0 \<le> yd" "yd < (if lp then 366 else 365)"
  shows "0 \<le> month_of_yday lp yd" "month_of_yday lp yd \<le> 11"
    "month_start lp (month_of_yday lp yd) \<le> yd" "yd < month_start lp (month_of_yday lp yd + 1)"
  using assms by (cases lp; simp add: month_of_yday_def month_start_def)+

lemma month_start_12: "month_start lp 12 = (if lp then 366 else 365)"
  by (simp add: month_start_def)

text \<open>Every day lies in exactly one month of one year, and \<open>civil\<close> names it.\<close>

lemma civil_spec:
  obtains y m k where "civil d = (y, m + 1, k + 1)" "0 \<le> m" "m \<le> 11"
    "d = year_start y + month_start (leap y) m + k" "0 \<le> k"
    "k < month_start (leap y) (m + 1) - month_start (leap y) m"
proof -
  let ?y = "year_of_day d"
  let ?m = "month_of_yday (leap ?y) (d - year_start ?y)"
  have "0 \<le> d - year_start ?y" "d - year_start ?y < (if leap ?y then 366 else 365)"
    using year_of_day_bounds [of d] year_start_Suc [of ?y] by simp_all
  note m = month_of_yday_bounds [OF this]
  have "civil d = (?y, ?m + 1, (d - year_start ?y - month_start (leap ?y) ?m) + 1)"
    by (simp add: civil_def Let_def)
  then show thesis by (rule that) (use m in simp_all)
qed

lemma month_start_mono: "0 \<le> m \<Longrightarrow> m \<le> 11 \<Longrightarrow> 0 \<le> month_start lp m \<and> month_start lp (m + 1) \<le> month_start lp 12"
  by (drule (1) int_upto_11, cases lp) (elim disjE; simp add: month_start_def)+

lemma civil_unique:
  assumes "0 \<le> m" "m \<le> 11" "0 \<le> k" "k < month_start (leap y) (m + 1) - month_start (leap y) m"
  shows "civil (year_start y + month_start (leap y) m + k) = (y, m + 1, k + 1)"
proof -
  let ?d = "year_start y + month_start (leap y) m + k"
  have "?d < year_start (y + 1)" "year_start y \<le> ?d"
    using assms month_start_mono [OF assms(1,2), of "leap y"] year_start_Suc [of y]
    by (simp_all add: month_start_12)
  then have "year_of_day ?d = y" by (intro year_unique)
  moreover have "month_of_yday (leap y) (?d - year_start y) = m"
    using assms by (intro month_unique) simp_all
  ultimately show ?thesis by (simp add: civil_def)
qed

section \<open>Dates of instants\<close>

lemma day_number_bounds:
  "zero_time + day_number t * Day_ns \<le> t" "t < zero_time + (day_number t + 1) * Day_ns"
  using pos_mod_sign [of Day_ns "t - zero_time"] pos_mod_bound [of Day_ns "t - zero_time"]
    div_mult_mod_eq [of "t - zero_time" Day_ns]
  by (simp_all add: day_number_def distrib_right Day_ns_def)

lemma day_number_cell:
  assumes "zero_time + n * Day_ns \<le> t" "t < zero_time + (n + 1) * Day_ns"
  shows "day_number t = n"
  unfolding day_number_def
  using assms by (intro int_div_pos_eq [where r = "t - zero_time - n * Day_ns"])
    (simp_all add: distrib_right)

lemma Day_ns_pos [simp]: "0 < Day_ns" "0 \<le> Day_ns" "\<not> Day_ns \<le> 0" "Day_ns \<noteq> 0"
  by (simp_all add: Day_ns_def)

lemma midnight [simp]: "day_number (zero_time + n * Day_ns) = n" "(n * Day_ns) mod Day_ns = 0"
  by (simp_all add: day_number_cell)

lemma Date_simp:
  assumes "1 \<le> m" "m \<le> 12"
  shows "Date y m d = zero_time + (year_start y + month_start (leap y) (m - 1) + (d - 1)) * Day_ns"
  using assms by (simp add: Date_def Let_def div_pos_pos_trivial mod_pos_pos_trivial)

lemma Date_next_month:
  assumes "1 \<le> m" "m \<le> 12"
  shows "Date y (m + 1) 1 = zero_time + (year_start y + month_start (leap y) m) * Day_ns"
proof (cases "m = 12")
  case True
  then show ?thesis using year_start_Suc [of y]
    by (simp add: Date_def Let_def month_start_12) (simp add: month_start_def)
next
  case False
  then show ?thesis using assms by (simp add: Date_simp)
qed

lemma Date_of_instant: "Date (Year t) (Month t) (Day t) = zero_time + day_number t * Day_ns"
proof -
  obtain y m k where c: "civil (day_number t) = (y, m + 1, k + 1)" and m: "0 \<le> m" "m \<le> 11"
    and d: "day_number t = year_start y + month_start (leap y) m + k"
    by (rule civil_spec [of "day_number t"])
  then show ?thesis by (simp add: Year_def Month_def Day_def Date_simp)
qed

end
