(* ===== verification/Quota_Windows.thy ===== *)
theory Quota_Windows
  imports Calendar
begin

text \<open>
  Quotas and the windows they are counted in: \<open>core/domains/quota.go\<close> and the quota part of
  \<open>core/domains/admin.go\<close>. A window is a half-open stretch of time; a clock window is cut from
  the calendar in UTC, a period window is given by the quota. The lemmas show that the clock
  windows of one kind partition the time line and that a quota resolves only to a window that
  covers the instant it was resolved at.
\<close>

section \<open>Definitions\<close>

type_synonym WindowKind = string
type_synonym QuotaAction = string

definition WindowMinute :: WindowKind where "WindowMinute = ''minute''"
definition WindowHour :: WindowKind where "WindowHour = ''hour''"
definition WindowDay :: WindowKind where "WindowDay = ''day''"
definition WindowMonth :: WindowKind where "WindowMonth = ''month''"
definition WindowPeriod :: WindowKind where "WindowPeriod = ''period''"

definition QuotaBlock :: QuotaAction where "QuotaBlock = ''block''"
definition QuotaAllow :: QuotaAction where "QuotaAllow = ''allow''"

definition WindowKinds :: "WindowKind list" where
  "WindowKinds = [WindowMinute, WindowHour, WindowDay, WindowMonth, WindowPeriod]"

definition WindowKind_Valid :: "WindowKind \<Rightarrow> bool" where
  "WindowKind_Valid k = list_ex (\<lambda>known. k = known) WindowKinds"

fun rank_in :: "WindowKind list \<Rightarrow> WindowKind \<Rightarrow> nat" where
  "rank_in [] k = 0"
| "rank_in (known # rest) k = (if k = known then 0 else Suc (rank_in rest k))"

definition Rank :: "WindowKind \<Rightarrow> nat" where
  "Rank k = rank_in WindowKinds k"

record Window =
  w_Kind :: WindowKind
  w_Start :: time
  w_End :: time

definition ClockWindow :: "WindowKind \<Rightarrow> time \<Rightarrow> WindowKind + Window" where
  "ClockWindow kind at =
     (if kind = WindowMinute then
        let start = Truncate at Minute
        in Inr \<lparr>w_Kind = kind, w_Start = start, w_End = start + Minute\<rparr>
      else if kind = WindowHour then
        let start = Truncate at Hour
        in Inr \<lparr>w_Kind = kind, w_Start = start, w_End = start + Hour\<rparr>
      else if kind = WindowDay then
        let start = Date (Year at) (Month at) (Day at)
        in Inr \<lparr>w_Kind = kind, w_Start = start, w_End = AddDate start 0 0 1\<rparr>
      else if kind = WindowMonth then
        let start = Date (Year at) (Month at) 1
        in Inr \<lparr>w_Kind = kind, w_Start = start, w_End = AddDate start 0 1 0\<rparr>
      else Inl kind)"

record Quota =
  q_WindowKind :: WindowKind
  q_PeriodStart :: "time option"
  q_PeriodEnd :: "time option"
  q_MaxCost :: int
  q_OnExceed :: QuotaAction
  q_UpdatedAt :: time

datatype quota_error =
    UnknownWindowKind WindowKind
  | PeriodNeedsBoth
  | PeriodStartNotBeforeEnd
  | PeriodBoundsOnClockWindow WindowKind
  | NegativeMaxCost WindowKind
  | UnknownOnExceed QuotaAction

definition Quota_Validate :: "Quota \<Rightarrow> quota_error option" where
  "Quota_Validate q =
     (if \<not> WindowKind_Valid (q_WindowKind q) then Some (UnknownWindowKind (q_WindowKind q))
      else
        let hasStart = q_PeriodStart q \<noteq> None; hasEnd = q_PeriodEnd q \<noteq> None;
            period_err =
              (if q_WindowKind q = WindowPeriod then
                 (if \<not> hasStart \<or> \<not> hasEnd then Some PeriodNeedsBoth
                  else if \<not> the (q_PeriodStart q) < the (q_PeriodEnd q)
                       then Some PeriodStartNotBeforeEnd
                  else None)
               else if hasStart \<or> hasEnd then Some (PeriodBoundsOnClockWindow (q_WindowKind q))
               else None)
        in case period_err of
             Some e \<Rightarrow> Some e
           | None \<Rightarrow>
               if q_MaxCost q < 0 then Some (NegativeMaxCost (q_WindowKind q))
               else if q_OnExceed q = QuotaBlock \<or> q_OnExceed q = QuotaAllow then None
               else Some (UnknownOnExceed (q_OnExceed q)))"

definition sameTime :: "time option \<Rightarrow> time option \<Rightarrow> bool" where
  "sameTime a b =
     (case (a, b) of
        (Some x, Some y) \<Rightarrow> x = y
      | (None, None) \<Rightarrow> True
      | _ \<Rightarrow> False)"

definition SameLimits :: "Quota \<Rightarrow> Quota \<Rightarrow> bool" where
  "SameLimits q r \<longleftrightarrow>
     q_WindowKind q = q_WindowKind r \<and> q_OnExceed q = q_OnExceed r \<and>
     sameTime (q_PeriodStart q) (q_PeriodStart r) \<and>
     sameTime (q_PeriodEnd q) (q_PeriodEnd r) \<and> q_MaxCost q = q_MaxCost r"

definition WindowAt :: "Quota \<Rightarrow> time \<Rightarrow> Window option" where
  "WindowAt q at =
     (if q_WindowKind q = WindowPeriod then
        (case (q_PeriodStart q, q_PeriodEnd q) of
           (Some s, Some e) \<Rightarrow>
             if at < s \<or> \<not> at < e then None
             else Some \<lparr>w_Kind = WindowPeriod, w_Start = s, w_End = e\<rparr>
         | _ \<Rightarrow> None)
      else (case ClockWindow (q_WindowKind q) at of Inl _ \<Rightarrow> None | Inr w \<Rightarrow> Some w))"

definition Blocks :: "Quota \<Rightarrow> bool" where
  "Blocks q \<longleftrightarrow> q_OnExceed q \<noteq> QuotaAllow"

record WindowLimit =
  wl_Window :: Window
  wl_MaxCost :: int
  wl_Block :: bool

fun ApplicableLimits :: "Quota list \<Rightarrow> time \<Rightarrow> WindowLimit list" where
  "ApplicableLimits [] at = []"
| "ApplicableLimits (q # qs) at =
     (case WindowAt q at of
        Some w \<Rightarrow> \<lparr>wl_Window = w, wl_MaxCost = q_MaxCost q, wl_Block = Blocks q\<rparr> #
                  ApplicableLimits qs at
      | None \<Rightarrow> ApplicableLimits qs at)"

record QuotaUsage =
  u_Requests :: int
  u_Tokens :: int
  u_Cost :: int

definition zero_quota_usage :: QuotaUsage where
  "zero_quota_usage = \<lparr>u_Requests = 0, u_Tokens = 0, u_Cost = 0\<rparr>"

definition usage_Sub :: "QuotaUsage \<Rightarrow> QuotaUsage \<Rightarrow> QuotaUsage" where
  "usage_Sub u v =
     \<lparr>u_Requests = i64 (u_Requests u - u_Requests v), u_Tokens = i64 (u_Tokens u - u_Tokens v),
      u_Cost = i64 (u_Cost u - u_Cost v)\<rparr>"

definition usage_Add :: "QuotaUsage \<Rightarrow> QuotaUsage \<Rightarrow> QuotaUsage" where
  "usage_Add u v =
     \<lparr>u_Requests = i64 (u_Requests u + u_Requests v), u_Tokens = i64 (u_Tokens u + u_Tokens v),
      u_Cost = i64 (u_Cost u + u_Cost v)\<rparr>"

definition usage_IsZero :: "QuotaUsage \<Rightarrow> bool" where
  "usage_IsZero u \<longleftrightarrow> u = zero_quota_usage"

record QuotaBreach =
  b_Window :: Window
  b_Used :: int
  b_Requested :: int
  b_Limit :: int

definition ResetAt :: "QuotaBreach \<Rightarrow> time" where
  "ResetAt b = w_End (b_Window b)"

record WindowUsage =
  wu_TenantID :: uuid
  wu_Window :: Window
  wu_Usage :: QuotaUsage

definition plus_usage :: "QuotaUsage \<Rightarrow> QuotaUsage \<Rightarrow> QuotaUsage" where
  "plus_usage u v = \<lparr>u_Requests = u_Requests u + u_Requests v, u_Tokens = u_Tokens u + u_Tokens v,
     u_Cost = u_Cost u + u_Cost v\<rparr>"

definition max_usage :: "QuotaUsage \<Rightarrow> QuotaUsage \<Rightarrow> QuotaUsage" where
  "max_usage u v = \<lparr>u_Requests = max (u_Requests u) (u_Requests v),
     u_Tokens = max (u_Tokens u) (u_Tokens v), u_Cost = max (u_Cost u) (u_Cost v)\<rparr>"

definition covers :: "Window \<Rightarrow> time \<Rightarrow> bool" where
  "covers w t \<longleftrightarrow> w_Start w \<le> t \<and> t < w_End w"

definition valid_quota_shape :: "Quota \<Rightarrow> bool" where
  "valid_quota_shape q \<longleftrightarrow>
     q_WindowKind q \<in> set WindowKinds \<and>
     (if q_WindowKind q = WindowPeriod
      then \<exists>s e. q_PeriodStart q = Some s \<and> q_PeriodEnd q = Some e \<and> s < e
      else q_PeriodStart q = None \<and> q_PeriodEnd q = None) \<and>
     0 \<le> q_MaxCost q \<and> q_OnExceed q \<in> {QuotaBlock, QuotaAllow}"

section \<open>Clock windows\<close>

lemmas kind_defs = WindowMinute_def WindowHour_def WindowDay_def WindowMonth_def WindowPeriod_def

lemma month_window:
  obtains n len where "Date (Year t) (Month t) 1 = zero_time + n * Day_ns"
    "AddDate (Date (Year t) (Month t) 1) 0 1 0 = zero_time + (n + len) * Day_ns"
    "n \<le> day_number t" "day_number t < n + len"
    "\<And>u. n \<le> day_number u \<Longrightarrow> day_number u < n + len \<Longrightarrow> Year u = Year t \<and> Month u = Month t"
proof -
  obtain y m k where c: "civil (day_number t) = (y, m + 1, k + 1)" and m: "0 \<le> m" "m \<le> 11"
    and d: "day_number t = year_start y + month_start (leap y) m + k"
    and k: "0 \<le> k" "k < month_start (leap y) (m + 1) - month_start (leap y) m"
    by (rule civil_spec [of "day_number t"])
  define n where "n = year_start y + month_start (leap y) m"
  define len where "len = month_start (leap y) (m + 1) - month_start (leap y) m"
  have ym: "Year t = y" "Month t = m + 1" using c by (simp_all add: Year_def Month_def)
  have start: "Date (Year t) (Month t) 1 = zero_time + n * Day_ns"
    using m by (simp add: ym Date_simp n_def)
  have first: "civil n = (y, m + 1, 1)"
    using civil_unique [of m 0 y] m k by (simp add: n_def)
  have "AddDate (zero_time + n * Day_ns) 0 1 0 = Date y (m + 1 + 1) 1"
    using first by (simp add: AddDate_def Year_def Month_def Day_def)
  also have "\<dots> = zero_time + (n + len) * Day_ns"
    using m Date_next_month [of "m + 1" y] by (simp add: n_def len_def)
  finally have stop: "AddDate (Date (Year t) (Month t) 1) 0 1 0 = zero_time + (n + len) * Day_ns"
    by (simp add: start)
  have cell: "Year u = Year t \<and> Month u = Month t"
    if "n \<le> day_number u" "day_number u < n + len" for u
  proof -
    have "civil (n + (day_number u - n)) = (y, m + 1, day_number u - n + 1)"
      unfolding n_def using that m by (intro civil_unique) (simp_all add: n_def len_def)
    then show ?thesis by (simp add: Year_def [of u] Month_def [of u] ym)
  qed
  have "n \<le> day_number t" "day_number t < n + len" using d k by (simp_all add: n_def len_def)
  then show thesis using that [OF start stop] cell by blast
qed

lemma day_cells:
  assumes "n \<le> day_number t" "day_number t < n + len"
  shows "zero_time + n * Day_ns \<le> t" "t < zero_time + (n + len) * Day_ns"
proof -
  have "n * Day_ns \<le> day_number t * Day_ns" using assms(1) by (simp add: mult_right_mono)
  then show "zero_time + n * Day_ns \<le> t" using day_number_bounds(1) [of t] by linarith
  have "(day_number t + 1) * Day_ns \<le> (n + len) * Day_ns"
    using assms(2) by (intro mult_right_mono) simp_all
  then show "t < zero_time + (n + len) * Day_ns" using day_number_bounds(2) [of t] by linarith
qed

lemma day_cells_conv:
  assumes "zero_time + n * Day_ns \<le> t" "t < zero_time + (n + len) * Day_ns"
  shows "n \<le> day_number t" "day_number t < n + len"
proof -
  have "n * Day_ns < (day_number t + 1) * Day_ns"
    using assms(1) day_number_bounds(2) [of t] by linarith
  then show "n \<le> day_number t" by (simp add: mult_less_cancel_right)
  have "day_number t * Day_ns < (n + len) * Day_ns"
    using assms(2) day_number_bounds(1) [of t] by linarith
  then show "day_number t < n + len" by (simp add: mult_less_cancel_right)
qed

lemma day_window:
  "Date (Year t) (Month t) (Day t) = zero_time + day_number t * Day_ns"
  "AddDate (zero_time + day_number t * Day_ns) 0 0 1 = zero_time + (day_number t + 1) * Day_ns"
proof -
  show start: "Date (Year t) (Month t) (Day t) = zero_time + day_number t * Day_ns"
    by (rule Date_of_instant)
  let ?s = "zero_time + day_number t * Day_ns"
  have "AddDate ?s 0 0 1 = Date (Year t) (Month t) (Day t + 1)"
    by (simp add: AddDate_def Year_def Month_def Day_def)
  also have "\<dots> = Date (Year t) (Month t) (Day t) + Day_ns"
    by (simp add: Date_def Let_def algebra_simps)
  finally show "AddDate ?s 0 0 1 = zero_time + (day_number t + 1) * Day_ns"
    by (simp add: start algebra_simps)
qed

lemma ClockWindow_cases:
  assumes "ClockWindow kind t = Inr w"
  obtains "kind = WindowMinute" | "kind = WindowHour" | "kind = WindowDay" | "kind = WindowMonth"
  using assms by (auto simp: ClockWindow_def Let_def split: if_splits)

lemma ClockWindow_covers:
  assumes "ClockWindow kind t = Inr w"
  shows "covers w t"
  using assms
proof (cases rule: ClockWindow_cases)
  case 3
  with assms show ?thesis
    using day_number_bounds [of t]
    by (auto simp: ClockWindow_def Let_def covers_def kind_defs day_window)
next
  case 4
  obtain n len where "Date (Year t) (Month t) 1 = zero_time + n * Day_ns"
    "AddDate (Date (Year t) (Month t) 1) 0 1 0 = zero_time + (n + len) * Day_ns"
    "n \<le> day_number t" "day_number t < n + len"
    by (rule month_window [of t])
  with assms 4 show ?thesis
    using day_cells [of n t len] by (auto simp: ClockWindow_def Let_def covers_def kind_defs)
qed (use assms Truncate_bounds [of Minute t] Truncate_bounds [of Hour t] in
    \<open>auto simp: ClockWindow_def Let_def covers_def kind_defs Minute_def Hour_def\<close>)

lemma ClockWindow_cell:
  assumes w: "ClockWindow kind t = Inr w" and u: "covers w u"
  shows "ClockWindow kind u = Inr w"
  using w
proof (cases rule: ClockWindow_cases)
  case 3
  then have "day_number u = day_number t"
    using w u day_number_cell [of "day_number t" u]
    by (auto simp: ClockWindow_def Let_def covers_def kind_defs day_window)
  with 3 w show ?thesis by (auto simp: ClockWindow_def Let_def kind_defs day_window)
next
  case 4
  obtain n len where n: "Date (Year t) (Month t) 1 = zero_time + n * Day_ns"
    "AddDate (Date (Year t) (Month t) 1) 0 1 0 = zero_time + (n + len) * Day_ns"
    and cell: "n \<le> day_number u \<Longrightarrow> day_number u < n + len \<Longrightarrow> Year u = Year t \<and> Month u = Month t"
    by (rule month_window [of t]) blast
  have "Year u = Year t \<and> Month u = Month t"
    using 4 w u n day_cells_conv [of n u len]
    by (intro cell) (auto simp: ClockWindow_def Let_def covers_def kind_defs)
  with 4 w show ?thesis by (auto simp: ClockWindow_def Let_def kind_defs)
qed (use w u Truncate_cell [of Minute t u] Truncate_cell [of Hour t u] in
    \<open>auto simp: ClockWindow_def Let_def covers_def kind_defs Minute_def Hour_def\<close>)

lemma ClockWindow_total:
  assumes "kind \<in> set WindowKinds" "kind \<noteq> WindowPeriod"
  shows "\<exists>w. ClockWindow kind t = Inr w"
  using assms by (auto simp: ClockWindow_def WindowKinds_def Let_def kind_defs)

lemma ClockWindow_kind: "ClockWindow kind t = Inr w \<Longrightarrow> w_Kind w = kind"
  by (auto simp: ClockWindow_def Let_def split: if_splits)

section \<open>Quotas resolved against the clock\<close>

lemma WindowAt_covers:
  assumes "WindowAt q at = Some w"
  shows "covers w at" "w_Kind w = q_WindowKind q"
  using assms ClockWindow_covers ClockWindow_kind
  by (auto simp: WindowAt_def covers_def split: if_splits option.splits sum.splits)

lemma Quota_Validate_iff: "Quota_Validate q = None \<longleftrightarrow> valid_quota_shape q"
proof -
  have kinds: "WindowKind_Valid (q_WindowKind q) \<longleftrightarrow> q_WindowKind q \<in> set WindowKinds"
    by (auto simp: WindowKind_Valid_def list_ex_iff)
  show ?thesis
    by (cases "q_PeriodStart q"; cases "q_PeriodEnd q")
      (auto simp: Quota_Validate_def valid_quota_shape_def kinds Let_def split: if_splits)
qed

lemma ApplicableLimits_set:
  "set (ApplicableLimits qs at) =
     {\<lparr>wl_Window = w, wl_MaxCost = q_MaxCost q, wl_Block = Blocks q\<rparr> | q w.
        q \<in> set qs \<and> WindowAt q at = Some w}"
  by (induction qs) (auto split: option.splits)

lemma ApplicableLimits_kinds:
  "set (map (\<lambda>l. w_Kind (wl_Window l)) (ApplicableLimits qs at)) \<subseteq> set (map q_WindowKind qs)"
  by (induction qs) (auto split: option.splits dest: WindowAt_covers)

lemma ApplicableLimits_distinct:
  assumes "distinct (map q_WindowKind qs)"
  shows "distinct (map (\<lambda>l. w_Kind (wl_Window l)) (ApplicableLimits qs at))"
  using assms
proof (induction qs)
  case (Cons q qs)
  then show ?case
    using ApplicableLimits_kinds [of qs at] WindowAt_covers(2) [of q at]
    by (auto split: option.splits)
qed simp

lemma sameTime_eq [simp]: "sameTime a b \<longleftrightarrow> a = b"
  by (auto simp: sameTime_def split: option.splits)

lemma usage_Add_Sub:
  assumes "in_i64 (u_Requests v)" "in_i64 (u_Tokens v)" "in_i64 (u_Cost v)"
  shows "usage_Add u (usage_Sub v u) = v"
  using assms by (cases v) (simp add: usage_Add_def usage_Sub_def i64_id)

lemma plus_usage_assoc: "plus_usage (plus_usage u v) w = plus_usage u (plus_usage v w)"
  by (simp add: plus_usage_def)

lemma plus_usage_commute: "plus_usage u v = plus_usage v u"
  by (simp add: plus_usage_def)

lemma plus_usage_left_commute: "plus_usage u (plus_usage v w) = plus_usage v (plus_usage u w)"
  by (simp add: plus_usage_def)

lemmas plus_usage_ac = plus_usage_assoc plus_usage_commute plus_usage_left_commute

lemma plus_usage_zero [simp]: "plus_usage u zero_quota_usage = u" "plus_usage zero_quota_usage u = u"
  by (simp_all add: plus_usage_def zero_quota_usage_def)

end
