(* ===== verification/Decisions.thy ===== *)
theory Decisions
  imports Metering Quota_Windows
begin

text \<open>
  The records one request leaves behind: what was asked (\<open>core/domains/facts.go\<close>), where it was
  sent (\<open>core/domains/routing.go\<close>), what happened (\<open>core/domains/outcome.go\<close>), the decision
  log entry made of them (\<open>core/domains/decision.go\<close>, \<open>decision-id.go\<close>), and the questions the
  log can be asked (\<open>core/domains/report.go\<close>, the specifications of \<open>ports/store.go\<close>).
\<close>

section \<open>Definitions\<close>

subsection \<open>Outcomes\<close>

type_synonym Status = string
type_synonym Tenant = string

definition StatusOK :: Status where "StatusOK = ''ok''"
definition StatusExhausted :: Status where "StatusExhausted = ''exhausted''"
definition StatusTruncated :: Status where "StatusTruncated = ''truncated''"
definition StatusClientDisconnect :: Status where "StatusClientDisconnect = ''client_disconnect''"
definition StatusPolicyBlocked :: Status where "StatusPolicyBlocked = ''policy_blocked''"

lemmas status_defs = StatusOK_def StatusExhausted_def StatusTruncated_def
  StatusClientDisconnect_def StatusPolicyBlocked_def

record AttemptFailure =
  af_Kind :: string
  af_StatusCode :: int
  af_Message :: string
  af_Retryable :: bool

record Attempt =
  at_Target :: string
  at_StartedAt :: time
  at_DurationMs :: int
  at_Failure :: "AttemptFailure option"

record Outcome =
  o_Status :: Status
  o_Attempts :: "Attempt list"
  o_Usage :: TokenUsage
  o_TTFTMs :: int
  o_TotalMs :: int

definition ChosenTarget :: "Outcome \<Rightarrow> string" where
  "ChosenTarget out =
     (if o_Attempts out = [] then ''''
      else let final = last (o_Attempts out)
           in if at_Failure final \<noteq> None then '''' else at_Target final)"

datatype outcome_error =
    OutcomeNoStatus
  | ExhaustedHasTTFT
  | ExhaustedNamesTarget string
  | NoAttemptSucceeded Status

definition Outcome_Validate :: "Outcome \<Rightarrow> outcome_error option" where
  "Outcome_Validate out =
     (if o_Status out = '''' then Some OutcomeNoStatus
      else if o_Status out = StatusExhausted \<and> o_TTFTMs out \<noteq> 0 then Some ExhaustedHasTTFT
      else if o_Status out = StatusExhausted \<and> ChosenTarget out \<noteq> ''''
           then Some (ExhaustedNamesTarget (ChosenTarget out))
      else if o_Status out \<noteq> StatusExhausted \<and> 0 < length (o_Attempts out) \<and> ChosenTarget out = ''''
           then Some (NoAttemptSucceeded (o_Status out))
      else None)"

subsection \<open>Requests and ladders\<close>

definition DefaultTenant :: Tenant where "DefaultTenant = ''default''"
definition MaxMetadataKeys :: int where "MaxMetadataKeys = 32"
definition MaxMetadataLen :: int where "MaxMetadataLen = 256"
definition MaxTenantLen :: int where "MaxTenantLen = 256"

record RequestFacts =
  rf_Tenant :: Tenant
  rf_KeyID :: uuid
  rf_Metadata :: "string \<rightharpoonup> string"
  rf_RequestedModel :: string
  rf_Stream :: bool
  rf_WantsUsage :: bool
  rf_ReceivedAt :: time
  rf_PromptSize :: PromptSize
  rf_MaxOutputTokens :: int
  rf_Choices :: int

record TargetRef =
  tr_Name :: string
  tr_Provider :: string
  tr_UpstreamModel :: string
  tr_Region :: string

type_synonym ReasonKind = string

definition ReasonModelAlias :: ReasonKind where "ReasonModelAlias = ''model_alias''"
definition ReasonRuleMatch :: ReasonKind where "ReasonRuleMatch = ''rule_match''"

record Reason =
  re_Kind :: ReasonKind
  re_ModelAlias :: string
  re_RuleName :: string
  re_PolicyVersion :: int

record Ladder =
  la_Targets :: "TargetRef list"
  la_Reason :: Reason

definition Ladder_IsEmpty :: "Ladder \<Rightarrow> bool" where
  "Ladder_IsEmpty l \<longleftrightarrow> length (la_Targets l) = 0"

definition zero_Reason :: Reason where
  "zero_Reason = \<lparr>re_Kind = '''', re_ModelAlias = '''', re_RuleName = '''', re_PolicyVersion = 0\<rparr>"

definition zero_Ladder :: Ladder where
  "zero_Ladder = \<lparr>la_Targets = [], la_Reason = zero_Reason\<rparr>"

subsection \<open>Decisions\<close>

text \<open>
  Printing and parsing a UUID belong to a package outside the repository: \<open>uuid_str\<close> and
  \<open>uuid_parse\<close>.
\<close>

type_synonym DecisionID = uuid

definition idPrefix :: string where "idPrefix = ''dec_''"

fun strip_prefix :: "string \<Rightarrow> string \<Rightarrow> string option" where
  "strip_prefix [] s = Some s"
| "strip_prefix (p # ps) (c # cs) = (if p = c then strip_prefix ps cs else None)"
| "strip_prefix (p # ps) [] = None"

definition TrimPrefix :: "string \<Rightarrow> string \<Rightarrow> string" where
  "TrimPrefix s prefix = (case strip_prefix prefix s of Some rest \<Rightarrow> rest | None \<Rightarrow> s)"

definition ParseDecisionID :: "(string \<Rightarrow> uuid option) \<Rightarrow> string \<Rightarrow> string + DecisionID" where
  "ParseDecisionID uuid_parse s =
     (case uuid_parse (TrimPrefix s idPrefix) of None \<Rightarrow> Inl s | Some u \<Rightarrow> Inr u)"

definition DecisionID_String :: "(uuid \<Rightarrow> string) \<Rightarrow> DecisionID \<Rightarrow> string" where
  "DecisionID_String uuid_str d = idPrefix @ uuid_str d"

definition DecisionID_IsZero :: "DecisionID \<Rightarrow> bool" where
  "DecisionID_IsZero d \<longleftrightarrow> d = 0"

record RequestSummary =
  rs_RequestedModel :: string
  rs_Stream :: bool
  rs_WantsUsage :: bool
  rs_Metadata :: "string \<rightharpoonup> string"

record RoutingDecision =
  rd_ID :: DecisionID
  rd_OccurredAt :: time
  rd_Tenant :: Tenant
  rd_KeyID :: uuid
  rd_Request :: RequestSummary
  rd_Ladder :: Ladder
  rd_Outcome :: Outcome
  rd_Cost :: "CostBreakdown option"

definition NewRoutingDecision ::
  "DecisionID \<Rightarrow> RequestFacts \<Rightarrow> Ladder \<Rightarrow> Outcome \<Rightarrow> RoutingDecision" where
  "NewRoutingDecision did facts ladder outcome =
     \<lparr>rd_ID = did, rd_OccurredAt = rf_ReceivedAt facts, rd_Tenant = rf_Tenant facts,
      rd_KeyID = rf_KeyID facts,
      rd_Request = \<lparr>rs_RequestedModel = rf_RequestedModel facts, rs_Stream = rf_Stream facts,
        rs_WantsUsage = rf_WantsUsage facts, rs_Metadata = rf_Metadata facts\<rparr>,
      rd_Ladder = ladder, rd_Outcome = outcome, rd_Cost = None\<rparr>"

subsection \<open>Report and audit queries\<close>

type_synonym GroupBy = string

definition GroupByNone :: GroupBy where "GroupByNone = ''none''"
definition GroupByModel :: GroupBy where "GroupByModel = ''model''"
definition GroupByTarget :: GroupBy where "GroupByTarget = ''target''"
definition GroupByStatus :: GroupBy where "GroupByStatus = ''status''"
definition GroupByMetadata :: GroupBy where "GroupByMetadata = ''metadata''"
definition GroupByDay :: GroupBy where "GroupByDay = ''day''"

definition GroupBys :: "GroupBy list" where
  "GroupBys = [GroupByNone, GroupByModel, GroupByTarget, GroupByStatus, GroupByMetadata, GroupByDay]"

definition GroupBy_Valid :: "GroupBy \<Rightarrow> bool" where
  "GroupBy_Valid g = list_ex (\<lambda>known. g = known) GroupBys"

record ReportSpec =
  sp_Tenant :: Tenant
  sp_Since :: time
  sp_Until :: time
  sp_GroupBy :: GroupBy
  sp_MetaKey :: string
  sp_Limit :: int

definition DefaultReportLimit :: int where "DefaultReportLimit = 500"
definition MaxReportLimit :: int where "MaxReportLimit = 5000"

datatype report_error =
    ReportRangeRequired
  | ReportRangeOrder
  | ReportNeedsMetaKey
  | ReportLimitNegative
  | ReportLimitTooHigh int
  | ReportUnknownGrouping GroupBy

definition ReportSpec_Validate :: "ReportSpec \<Rightarrow> report_error option" where
  "ReportSpec_Validate s =
     (if sp_Since s = zero_time \<or> sp_Until s = zero_time then Some ReportRangeRequired
      else if \<not> sp_Since s < sp_Until s then Some ReportRangeOrder
      else if sp_GroupBy s = GroupByMetadata \<and> sp_MetaKey s = '''' then Some ReportNeedsMetaKey
      else if sp_Limit s < 0 then Some ReportLimitNegative
      else if sp_Limit s > MaxReportLimit then Some (ReportLimitTooHigh (sp_Limit s))
      else if sp_GroupBy s \<noteq> '''' \<and> \<not> GroupBy_Valid (sp_GroupBy s)
           then Some (ReportUnknownGrouping (sp_GroupBy s))
      else None)"

record AuditCursor =
  ac_At :: time
  ac_ID :: uuid

record AuditQuery =
  aq_Tenant :: Tenant
  aq_Since :: time
  aq_Until :: time
  aq_After :: "AuditCursor option"
  aq_Limit :: int

definition DefaultAuditLimit :: int where "DefaultAuditLimit = 50"
definition MaxAuditLimit :: int where "MaxAuditLimit = 500"

datatype audit_query_error =
    AuditTenantRequired
  | AuditRangeRequired
  | AuditRangeOrder
  | AuditLimitNegative
  | AuditLimitTooHigh int

definition AuditQuery_Validate :: "AuditQuery \<Rightarrow> audit_query_error option" where
  "AuditQuery_Validate q =
     (if aq_Tenant q = '''' then Some AuditTenantRequired
      else if aq_Since q = zero_time \<or> aq_Until q = zero_time then Some AuditRangeRequired
      else if \<not> aq_Since q < aq_Until q then Some AuditRangeOrder
      else if aq_Limit q < 0 then Some AuditLimitNegative
      else if aq_Limit q > MaxAuditLimit then Some (AuditLimitTooHigh (aq_Limit q))
      else None)"

record Comparison =
  cm_Cost :: int
  cm_Requests :: int

definition Comparison_IsPartial :: "Comparison \<Rightarrow> int \<Rightarrow> bool" where
  "Comparison_IsPartial c groupRequests \<longleftrightarrow> cm_Requests c < groupRequests"

definition Savings :: "int \<Rightarrow> (string \<rightharpoonup> Comparison) \<Rightarrow> string \<Rightarrow> int \<times> bool" where
  "Savings cost comparisons vs =
     (case comparisons vs of None \<Rightarrow> (0, False) | Some cf \<Rightarrow> (i64 (cost - cm_Cost cf), True))"

section \<open>Facts\<close>

lemma ChosenTarget_snoc [simp]:
  "o_Attempts out = as @ [a] \<Longrightarrow> ChosenTarget out = (if at_Failure a = None then at_Target a else '''')"
  by (simp add: ChosenTarget_def)

lemma strip_prefix_append [simp]: "strip_prefix p (p @ s) = Some s"
  by (induction p) simp_all

text \<open>The printed form of a decision id parses back to it, as does the bare UUID text.\<close>

lemma DecisionID_parse:
  assumes "\<And>u. uuid_parse (uuid_str u) = Some u" "\<And>u. take 4 (uuid_str u) \<noteq> idPrefix"
  shows "ParseDecisionID uuid_parse (DecisionID_String uuid_str d) = Inr d"
    and "ParseDecisionID uuid_parse (uuid_str d) = Inr d"
proof -
  show "ParseDecisionID uuid_parse (DecisionID_String uuid_str d) = Inr d"
    by (simp add: ParseDecisionID_def DecisionID_String_def TrimPrefix_def assms(1))
  have "strip_prefix p s \<noteq> None \<Longrightarrow> take (length p) s = p" for p s
    by (induction p s rule: strip_prefix.induct) (auto split: if_splits)
  from this [of idPrefix "uuid_str d"] have "strip_prefix idPrefix (uuid_str d) = None"
    using assms(2) [of d] by (cases "strip_prefix idPrefix (uuid_str d)") (simp_all add: idPrefix_def numeral_eq_Suc)
  then show "ParseDecisionID uuid_parse (uuid_str d) = Inr d"
    by (simp add: ParseDecisionID_def TrimPrefix_def assms(1))
qed

lemma Outcome_Validate_cases:
  "Outcome_Validate out = None \<longleftrightarrow>
     o_Status out \<noteq> '''' \<and>
     (if o_Status out = StatusExhausted then o_TTFTMs out = 0 \<and> ChosenTarget out = ''''
      else o_Attempts out = [] \<or> ChosenTarget out \<noteq> '''')"
  by (auto simp: Outcome_Validate_def)

end
