(* ===== verification/Quota_Counters.thy ===== *)
theory Quota_Counters
  imports Quota_Windows
begin

text \<open>
  The port between the enforcer and the live counters, \<open>ports/quota.go\<close> (\<open>QuotaCounters\<close>,
  \<open>CounterReservation\<close>). \<open>spec_reserve\<close> is the abstract check-and-reserve: all limits are looked
  at together, nothing is reserved when a counter is missing or a blocking limit would be crossed.

  The locale \<open>quota_counters\<close> states the laws of the port, as its comments promise them:
  \<open>Reserve\<close> answers \<open>spec_reserve\<close> and adds the amount to every window or to none, \<open>Seed\<close> raises
  and never lowers, \<open>Adjust\<close> reaches only counters that exist.
\<close>

section \<open>Definitions\<close>

record CounterReservation =
  cr_Missing :: "Window list"
  cr_Blocked :: "QuotaBreach option"
  cr_Soft :: "QuotaBreach list"

definition no_reservation :: CounterReservation where
  "no_reservation = \<lparr>cr_Missing = [], cr_Blocked = None, cr_Soft = []\<rparr>"

text \<open>Values whose sums of two are exact as Lua numbers; \<open>2 ^ 52\<close> nanodollars are 4.5 million dollars.\<close>

definition lua_exact :: "int \<Rightarrow> bool" where
  "lua_exact n \<longleftrightarrow> \<bar>n\<bar> \<le> 2 ^ 52"

definition usage_exact :: "QuotaUsage \<Rightarrow> bool" where
  "usage_exact u \<longleftrightarrow> lua_exact (u_Requests u) \<and> lua_exact (u_Tokens u) \<and> lua_exact (u_Cost u)"

definition crosses :: "(WindowLimit \<Rightarrow> QuotaUsage option) \<Rightarrow> QuotaUsage \<Rightarrow> WindowLimit \<Rightarrow> bool" where
  "crosses view amount l \<longleftrightarrow>
     (case view l of Some u \<Rightarrow> u_Cost u + u_Cost amount > wl_MaxCost l | None \<Rightarrow> False)"

definition breach_of :: "(WindowLimit \<Rightarrow> QuotaUsage option) \<Rightarrow> QuotaUsage \<Rightarrow> WindowLimit \<Rightarrow> QuotaBreach" where
  "breach_of view amount l =
     \<lparr>b_Window = wl_Window l, b_Used = (case view l of Some u \<Rightarrow> u_Cost u | None \<Rightarrow> 0),
      b_Requested = u_Cost amount, b_Limit = wl_MaxCost l\<rparr>"

definition spec_reserve ::
  "(WindowLimit \<Rightarrow> QuotaUsage option) \<Rightarrow> WindowLimit list \<Rightarrow> QuotaUsage \<Rightarrow> CounterReservation" where
  "spec_reserve view limits amount =
     (let missing = filter (\<lambda>l. view l = None) limits in
      if missing \<noteq> [] then no_reservation\<lparr>cr_Missing := map wl_Window missing\<rparr>
      else case List.find (\<lambda>l. wl_Block l \<and> crosses view amount l) limits of
             Some l \<Rightarrow> no_reservation\<lparr>cr_Blocked := Some (breach_of view amount l)\<rparr>
           | None \<Rightarrow> no_reservation\<lparr>cr_Soft := map (breach_of view amount)
                      (filter (\<lambda>l. \<not> wl_Block l \<and> crosses view amount l) limits)\<rparr>)"

definition granted :: "CounterReservation \<Rightarrow> bool" where
  "granted r \<longleftrightarrow> cr_Missing r = [] \<and> cr_Blocked r = None"

definition raised :: "QuotaUsage \<Rightarrow> QuotaUsage option \<Rightarrow> QuotaUsage" where
  "raised v cur = (case cur of None \<Rightarrow> v | Some u \<Rightarrow> max_usage u v)"

definition nonneg_quota_usage :: "QuotaUsage \<Rightarrow> bool" where
  "nonneg_quota_usage u \<longleftrightarrow> 0 \<le> u_Requests u \<and> 0 \<le> u_Tokens u \<and> 0 \<le> u_Cost u"

definition usage_sum_in_i64 :: "QuotaUsage \<Rightarrow> QuotaUsage \<Rightarrow> bool" where
  "usage_sum_in_i64 u a \<longleftrightarrow> in_i64 (u_Requests u + u_Requests a) \<and> in_i64 (u_Tokens u + u_Tokens a) \<and>
     in_i64 (u_Cost u + u_Cost a)"

section \<open>The abstract check-and-reserve\<close>

lemma raised_same: "raised v (Some (raised v cur)) = raised v cur"
  by (simp add: raised_def max_usage_def split: option.split)

lemma raised_exact:
  "usage_exact v \<Longrightarrow> (\<And>u. cur = Some u \<Longrightarrow> usage_exact u) \<Longrightarrow> usage_exact (raised v cur)"
  by (cases cur) (auto simp: raised_def usage_exact_def max_usage_def max_def)

lemma spec_reserve_cong:
  assumes "\<And>l. l \<in> set limits \<Longrightarrow> view l = view' l"
  shows "spec_reserve view limits amount = spec_reserve view' limits amount"
proof -
  have eq: "crosses view amount l = crosses view' amount l" "breach_of view amount l = breach_of view' amount l"
    if "l \<in> set limits" for l
    using assms [OF that] by (simp_all add: crosses_def breach_of_def)
  have f: "filter (\<lambda>l. view l = None) limits = filter (\<lambda>l. view' l = None) limits"
    "filter (\<lambda>l. \<not> wl_Block l \<and> crosses view amount l) limits = filter (\<lambda>l. \<not> wl_Block l \<and> crosses view' amount l) limits"
    using assms eq by (auto intro!: filter_cong)
  have "List.find (\<lambda>l. wl_Block l \<and> crosses view amount l) ls = List.find (\<lambda>l. wl_Block l \<and> crosses view' amount l) ls"
    if "set ls \<subseteq> set limits" for ls
    using that by (induction ls) (simp_all add: eq)
  then have g: "List.find (\<lambda>l. wl_Block l \<and> crosses view amount l) limits =
      List.find (\<lambda>l. wl_Block l \<and> crosses view' amount l) limits" by simp
  have m: "map (breach_of view amount) (filter (\<lambda>l. \<not> wl_Block l \<and> crosses view' amount l) limits) =
      map (breach_of view' amount) (filter (\<lambda>l. \<not> wl_Block l \<and> crosses view' amount l) limits)"
    using eq by auto
  show ?thesis
  proof (cases "List.find (\<lambda>l. wl_Block l \<and> crosses view' amount l) limits")
    case None
    then show ?thesis by (simp add: spec_reserve_def Let_def f g m)
  next
    case (Some l)
    then have "l \<in> set limits" by (auto simp: find_Some_iff)
    with Some show ?thesis by (simp add: spec_reserve_def Let_def f g eq)
  qed
qed

lemma granted_caps:
  assumes "granted (spec_reserve view limits amount)" "l \<in> set limits"
  shows "\<exists>u. view l = Some u \<and> (wl_Block l \<longrightarrow> u_Cost u + u_Cost amount \<le> wl_MaxCost l)"
proof -
  have none: "filter (\<lambda>l. view l = None) limits = []"
    and find: "List.find (\<lambda>l. wl_Block l \<and> crosses view amount l) limits = None"
    using assms(1) by (auto simp: granted_def spec_reserve_def no_reservation_def Let_def split: if_splits option.splits)
  from none assms(2) obtain u where u: "view l = Some u" by (auto simp: filter_empty_conv)
  moreover have "\<not> (wl_Block l \<and> crosses view amount l)" using find assms(2) by (auto simp: find_None_iff)
  ultimately show ?thesis by (auto simp: crosses_def)
qed

lemma blocked_crosses:
  assumes "cr_Blocked (spec_reserve view limits amount) = Some b"
  shows "\<exists>l \<in> set limits. wl_Block l \<and> b = breach_of view amount l \<and> b_Used b + b_Requested b > b_Limit b"
proof -
  from assms obtain l where "List.find (\<lambda>l. wl_Block l \<and> crosses view amount l) limits = Some l"
    and b: "b = breach_of view amount l"
    by (auto simp: spec_reserve_def no_reservation_def Let_def split: if_splits option.splits)
  then have "l \<in> set limits" "wl_Block l" "crosses view amount l" by (auto simp: find_Some_iff)
  with b show ?thesis by (auto simp: crosses_def breach_of_def split: option.splits)
qed

lemma spec_reserve_exclusive:
  "cr_Missing (spec_reserve view limits amount) = [] \<or> cr_Blocked (spec_reserve view limits amount) = None"
  "\<not> granted (spec_reserve view limits amount) \<Longrightarrow> cr_Soft (spec_reserve view limits amount) = []"
  by (auto simp: spec_reserve_def granted_def no_reservation_def Let_def split: option.splits if_splits)

lemma spec_reserve_missing:
  "cr_Missing (spec_reserve view limits amount) = map wl_Window (filter (\<lambda>l. view l = None) limits)"
  by (auto simp: spec_reserve_def no_reservation_def Let_def split: option.splits)

section \<open>The contract of the port\<close>

locale quota_counters =
  fixes Reserve :: "uuid \<Rightarrow> WindowLimit list \<Rightarrow> QuotaUsage \<Rightarrow> 'c \<Rightarrow> ('ce + CounterReservation) \<times> 'c"
    and Seed :: "WindowUsage list \<Rightarrow> 'c \<Rightarrow> 'ce option \<times> 'c"
    and Adjust :: "uuid \<Rightarrow> Window list \<Rightarrow> QuotaUsage \<Rightarrow> 'c \<Rightarrow> 'ce option \<times> 'c"
    and counter :: "'c \<Rightarrow> 'k \<Rightarrow> QuotaUsage option"
    and key :: "uuid \<Rightarrow> Window \<Rightarrow> 'k"
    and healthy :: "'c \<Rightarrow> bool"
    and open_window :: "'c \<Rightarrow> Window \<Rightarrow> bool"
  assumes reserve:
    "healthy c \<Longrightarrow> distinct (map (\<lambda>l. key t (wl_Window l)) limits) \<Longrightarrow> usage_exact amount \<Longrightarrow>
     \<forall>l \<in> set limits. lua_exact (wl_MaxCost l) \<and> open_window c (wl_Window l) \<and>
       (\<forall>u. counter c (key t (wl_Window l)) = Some u \<longrightarrow> usage_exact u) \<Longrightarrow>
     r = spec_reserve (\<lambda>l. counter c (key t (wl_Window l))) limits amount \<Longrightarrow>
     \<exists>c'. Reserve t limits amount c = (Inr r, c') \<and> healthy c' \<and> open_window c' = open_window c \<and>
       (\<forall>k. counter c' k =
          (if granted r \<and> k \<in> (\<lambda>l. key t (wl_Window l)) ` set limits
           then map_option (\<lambda>u. plus_usage u amount) (counter c k) else counter c k))"
  and seed:
    "healthy c \<Longrightarrow> \<forall>s \<in> set seeds. wu_TenantID s = t \<Longrightarrow>
     distinct (map (\<lambda>s. key t (wu_Window s)) seeds) \<Longrightarrow>
     \<forall>s \<in> set seeds. usage_exact (wu_Usage s) \<and> nonneg_quota_usage (wu_Usage s) \<and>
       open_window c (wu_Window s) \<and> (\<forall>u. counter c (key t (wu_Window s)) = Some u \<longrightarrow> usage_exact u) \<Longrightarrow>
     \<exists>c'. Seed seeds c = (None, c') \<and> healthy c' \<and> open_window c' = open_window c \<and>
       (\<forall>k. counter c' k =
          (case List.find (\<lambda>s. key t (wu_Window s) = k) seeds of
             Some s \<Rightarrow> Some (raised (wu_Usage s) (counter c k)) | None \<Rightarrow> counter c k))"
  and adjust:
    "healthy c \<Longrightarrow> distinct (map (key t) windows) \<Longrightarrow>
     \<forall>w \<in> set windows. \<forall>u. counter c (key t w) = Some u \<longrightarrow> usage_sum_in_i64 u delta \<Longrightarrow>
     \<exists>c'. Adjust t windows delta c = (None, c') \<and> healthy c' \<and> open_window c' = open_window c \<and>
       (\<forall>k. counter c' k =
          (if k \<in> key t ` set windows then map_option (\<lambda>u. plus_usage u delta) (counter c k)
           else counter c k))"

end
