(* ===== verification/Postgres.thy ===== *)
theory Postgres
  imports Prelude
begin

text \<open>
  How the repositories of \<open>adapters/repositories\<close> use the database: single statements, and
  transactions opened with \<open>Begin\<close>, left with \<open>Commit\<close> and rolled back by the deferred
  \<open>Rollback\<close> on every other path. The queries themselves (\<open>db/queries\<close>) are the functions the
  repositories pass in.

  A call to the server consumes one entry of \<open>pg_faults\<close>: \<open>PgOk\<close> runs it, \<open>PgErr\<close> fails it
  without effect, \<open>PgLost\<close> runs it and loses the answer, which matters for a commit: the caller
  sees an error for a transaction that was applied. An exhausted list stands for a healthy server.
\<close>

section \<open>Definitions\<close>

datatype pg_fault = PgOk | PgErr | PgLost

record 'db pg =
  pg_db :: 'db
  pg_faults :: "pg_fault list"

definition pg_next :: "'db pg \<Rightarrow> pg_fault" where
  "pg_next p = (case pg_faults p of [] \<Rightarrow> PgOk | f # _ \<Rightarrow> f)"

definition pg_pop :: "'db pg \<Rightarrow> 'db pg" where
  "pg_pop p = p\<lparr>pg_faults := tl (pg_faults p)\<rparr>"

definition pg_stmt :: "'err \<Rightarrow> ('db \<Rightarrow> ('err + 'a) \<times> 'db) \<Rightarrow> 'db pg \<Rightarrow> ('err + 'a) \<times> 'db pg" where
  "pg_stmt down stmt p =
     (let (res, db') = stmt (pg_db p) in
      case pg_next p of
        PgOk \<Rightarrow> (res, (pg_pop p)\<lparr>pg_db := db'\<rparr>)
      | PgErr \<Rightarrow> (Inl down, pg_pop p)
      | PgLost \<Rightarrow> (Inl down, (pg_pop p)\<lparr>pg_db := db'\<rparr>))"

definition with_tx :: "'err \<Rightarrow> ('db pg \<Rightarrow> ('err + 'a) \<times> 'db pg) \<Rightarrow> 'db pg \<Rightarrow> ('err + 'a) \<times> 'db pg" where
  "with_tx down body p =
     (if pg_next p \<noteq> PgOk then (Inl down, pg_pop p)
      else
        let (res, q) = body (pg_pop p) in
        case res of
          Inl e \<Rightarrow> (Inl e, q\<lparr>pg_db := pg_db p\<rparr>)
        | Inr a \<Rightarrow>
            (case pg_next q of
               PgOk \<Rightarrow> (Inr a, pg_pop q)
             | PgErr \<Rightarrow> (Inl down, (pg_pop q)\<lparr>pg_db := pg_db p\<rparr>)
             | PgLost \<Rightarrow> (Inl down, pg_pop q)))"

text \<open>How Go code sequences calls that may fail: \<open>if err != nil { return err }\<close> after each.\<close>

definition pg_return :: "'a \<Rightarrow> 'db pg \<Rightarrow> ('err + 'a) \<times> 'db pg" where
  "pg_return a p = (Inr a, p)"

definition pg_fail :: "'err \<Rightarrow> 'db pg \<Rightarrow> ('err + 'a) \<times> 'db pg" where
  "pg_fail e p = (Inl e, p)"

definition pg_bind :: "('db pg \<Rightarrow> ('err + 'a) \<times> 'db pg) \<Rightarrow> ('a \<Rightarrow> 'db pg \<Rightarrow> ('err + 'b) \<times> 'db pg) \<Rightarrow>
    'db pg \<Rightarrow> ('err + 'b) \<times> 'db pg" where
  "pg_bind m f p = (case m p of (Inl e, q) \<Rightarrow> (Inl e, q) | (Inr a, q) \<Rightarrow> f a q)"

text \<open>The same with the error inspected.\<close>

definition pg_try :: "('db pg \<Rightarrow> ('err + 'a) \<times> 'db pg) \<Rightarrow> ('err + 'a \<Rightarrow> 'db pg \<Rightarrow> ('err + 'b) \<times> 'db pg) \<Rightarrow>
    'db pg \<Rightarrow> ('err + 'b) \<times> 'db pg" where
  "pg_try m f p = (case m p of (r, q) \<Rightarrow> f r q)"

text \<open>A server whose errors are definite: no answer is lost.\<close>

definition pg_definite :: "'db pg \<Rightarrow> bool" where
  "pg_definite p \<longleftrightarrow> PgLost \<notin> set (pg_faults p)"

definition pg_up :: "'db pg \<Rightarrow> bool" where
  "pg_up p \<longleftrightarrow> set (pg_faults p) \<subseteq> {PgOk}"

section \<open>Facts\<close>

lemma pg_up_next [simp]: "pg_up p \<Longrightarrow> pg_next p = PgOk"
  by (cases "pg_faults p") (auto simp: pg_up_def pg_next_def)

lemma pg_pop_simps [simp]: "pg_db (pg_pop p) = pg_db p" "pg_faults (pg_pop p) = tl (pg_faults p)"
  by (simp_all add: pg_pop_def)

lemma pg_definite_pop [simp]: "pg_definite p \<Longrightarrow> pg_definite (pg_pop p)"
  by (cases "pg_faults p") (simp_all add: pg_definite_def)

lemma pg_up_pop [simp]: "pg_up p \<Longrightarrow> pg_up (pg_pop p)"
  by (cases "pg_faults p") (simp_all add: pg_up_def)

lemma pg_up_db [simp]: "pg_up (p\<lparr>pg_db := d\<rparr>) = pg_up p"
  by (simp add: pg_up_def)

lemma pg_definite_db [simp]: "pg_definite (p\<lparr>pg_db := d\<rparr>) = pg_definite p"
  by (simp add: pg_definite_def)

lemma pg_definite_next: "pg_definite p \<Longrightarrow> pg_next p \<noteq> PgLost"
  by (auto simp: pg_definite_def pg_next_def split: list.splits)

lemma pg_stmt_definite: "pg_definite p \<Longrightarrow> pg_stmt down stmt p = (r, q) \<Longrightarrow> pg_definite q"
  by (auto simp: pg_stmt_def split: prod.splits pg_fault.splits)

text \<open>The successful runs of a sequence, for following a body statement by statement.\<close>

lemma pg_return_iff [simp]: "pg_return a p = (r, q) \<longleftrightarrow> r = Inr a \<and> q = p"
  by (auto simp: pg_return_def)

lemma pg_fail_iff [simp]: "pg_fail e p = (r, q) \<longleftrightarrow> r = Inl e \<and> q = p"
  by (auto simp: pg_fail_def)

lemma pg_bind_Inr: "pg_bind m f p = (Inr b, r) \<longleftrightarrow> (\<exists>a q. m p = (Inr a, q) \<and> f a q = (Inr b, r))"
  by (auto simp: pg_bind_def split: prod.splits sum.splits)

lemma pg_stmt_Inr:
  "pg_stmt down stmt p = (Inr a, q) \<longleftrightarrow>
     pg_next p = PgOk \<and> (\<exists>db. stmt (pg_db p) = (Inr a, db) \<and> q = (pg_pop p)\<lparr>pg_db := db\<rparr>)"
  by (auto simp: pg_stmt_def Let_def split: prod.splits pg_fault.splits)

lemma pg_stmt_up: "pg_up p \<Longrightarrow> stmt (pg_db p) = (r, db) \<Longrightarrow> pg_stmt down stmt p = (r, (pg_pop p)\<lparr>pg_db := db\<rparr>)"
  by (simp add: pg_stmt_def)

text \<open>Bodies that never turn a definite server into one that loses answers: all that are built
  from the steps above.\<close>

definition definite_body :: "('db pg \<Rightarrow> 'r \<times> 'db pg) \<Rightarrow> bool" where
  "definite_body m \<longleftrightarrow> (\<forall>p. pg_definite p \<longrightarrow> pg_definite (snd (m p)))"

named_theorems definite_intros "bodies that keep a definite server definite"

lemma definite_return [definite_intros]: "definite_body (pg_return a)"
  by (simp add: definite_body_def pg_return_def)

lemma definite_fail [definite_intros]: "definite_body (pg_fail e)"
  by (simp add: definite_body_def pg_fail_def)

lemma definite_stmt [definite_intros]: "definite_body (pg_stmt down stmt)"
  by (auto simp: definite_body_def pg_stmt_def split: prod.splits pg_fault.splits)

lemma definite_bind [definite_intros]:
  "definite_body m \<Longrightarrow> (\<And>a. definite_body (f a)) \<Longrightarrow> definite_body (pg_bind m f)"
  by (force simp: definite_body_def pg_bind_def split: prod.splits sum.splits)

lemma definite_try [definite_intros]:
  "definite_body m \<Longrightarrow> (\<And>r. definite_body (f r)) \<Longrightarrow> definite_body (pg_try m f)"
  by (force simp: definite_body_def pg_try_def split: prod.splits)

lemma definite_if [definite_intros]: "definite_body m \<Longrightarrow> definite_body n \<Longrightarrow> definite_body (if b then m else n)"
  by simp

lemma definite_option [definite_intros]:
  "definite_body m \<Longrightarrow> (\<And>a. definite_body (f a)) \<Longrightarrow> definite_body (case x of None \<Rightarrow> m | Some a \<Rightarrow> f a)"
  by (cases x) auto

lemma definite_sum [definite_intros]:
  "(\<And>e. definite_body (f e)) \<Longrightarrow> (\<And>a. definite_body (g a)) \<Longrightarrow> definite_body (case x of Inl e \<Rightarrow> f e | Inr a \<Rightarrow> g a)"
  by (cases x) auto

lemma definite_prod [definite_intros]:
  "(\<And>a b. definite_body (f a b)) \<Longrightarrow> definite_body (case x of (a, b) \<Rightarrow> f a b)"
  by (cases x) auto

text \<open>A transaction that succeeds left what its body made; one that fails left nothing of it,
  unless the answer to its commit was lost.\<close>

lemma with_tx_Inr:
  assumes "with_tx down body p = (Inr a, q)"
  shows "\<exists>b. body (pg_pop p) = (Inr a, b) \<and> pg_db q = pg_db b"
  using assms by (auto simp: with_tx_def Let_def split: if_splits prod.splits sum.splits pg_fault.splits)

lemma with_tx_Inl:
  assumes "with_tx down body p = (Inl e, q)"
  shows "pg_db q = pg_db p \<or>
    (\<exists>a b. body (pg_pop p) = (Inr a, b) \<and> pg_db q = pg_db b \<and> pg_next b = PgLost)"
  using assms by (auto simp: with_tx_def Let_def split: if_splits prod.splits sum.splits pg_fault.splits)

lemma with_tx_definite:
  assumes "with_tx down body p = (r, q)" "pg_definite p"
    and "\<And>p r q. body p = (r, q) \<Longrightarrow> pg_definite p \<Longrightarrow> pg_definite q"
  shows "pg_definite q"
  using assms(1,2) assms(3) [of "pg_pop p"]
  by (auto simp: with_tx_def Let_def split: if_splits prod.splits sum.splits pg_fault.splits)

lemma with_tx_rollback:
  assumes "with_tx down body p = (Inl e, q)" "pg_definite p"
    and "\<And>p r q. body p = (r, q) \<Longrightarrow> pg_definite p \<Longrightarrow> pg_definite q"
  shows "pg_db q = pg_db p"
  using with_tx_Inl [OF assms(1)] assms(2) assms(3) [of "pg_pop p"] pg_definite_next by fastforce

lemma definite_tx [definite_intros]: "definite_body body \<Longrightarrow> definite_body (with_tx down body)"
  unfolding definite_body_def by (metis prod.collapse snd_conv with_tx_definite)

lemma with_tx_definite_Inl:
  "with_tx down body p = (Inl e, q) \<Longrightarrow> pg_definite p \<Longrightarrow> definite_body body \<Longrightarrow> pg_db q = pg_db p"
  by (rule with_tx_rollback) (auto simp: definite_body_def split_pairs)

text \<open>Bodies that keep a predicate of the database, whatever the server does to their statements.\<close>

definition keeps_body :: "('db \<Rightarrow> bool) \<Rightarrow> ('db pg \<Rightarrow> 'r \<times> 'db pg) \<Rightarrow> bool" where
  "keeps_body I m \<longleftrightarrow> (\<forall>p. I (pg_db p) \<longrightarrow> I (pg_db (snd (m p))))"

named_theorems keeps_intros "bodies that keep a predicate of the database"

lemma keeps_bodyD: "keeps_body I m \<Longrightarrow> m p = (r, q) \<Longrightarrow> I (pg_db p) \<Longrightarrow> I (pg_db q)"
  unfolding keeps_body_def by (metis snd_conv)

lemma keeps_return [keeps_intros]: "keeps_body I (pg_return a)"
  by (simp add: keeps_body_def pg_return_def)

lemma keeps_fail [keeps_intros]: "keeps_body I (pg_fail e)"
  by (simp add: keeps_body_def pg_fail_def)

lemma keeps_stmt: "(\<And>db. I db \<Longrightarrow> I (snd (stmt db))) \<Longrightarrow> keeps_body I (pg_stmt down stmt)"
  by (auto simp: keeps_body_def pg_stmt_def split_beta split: pg_fault.splits)

lemma keeps_bind [keeps_intros]:
  "keeps_body I m \<Longrightarrow> (\<And>a. keeps_body I (f a)) \<Longrightarrow> keeps_body I (pg_bind m f)"
  by (force simp: keeps_body_def pg_bind_def split: prod.splits sum.splits)

lemma keeps_try [keeps_intros]:
  "keeps_body I m \<Longrightarrow> (\<And>r. keeps_body I (f r)) \<Longrightarrow> keeps_body I (pg_try m f)"
  by (force simp: keeps_body_def pg_try_def split: prod.splits)

lemma keeps_if [keeps_intros]: "keeps_body I m \<Longrightarrow> keeps_body I n \<Longrightarrow> keeps_body I (if b then m else n)"
  by simp

lemma keeps_option [keeps_intros]:
  "keeps_body I m \<Longrightarrow> (\<And>a. keeps_body I (f a)) \<Longrightarrow> keeps_body I (case x of None \<Rightarrow> m | Some a \<Rightarrow> f a)"
  by (cases x) auto

lemma keeps_sum [keeps_intros]:
  "(\<And>e. keeps_body I (f e)) \<Longrightarrow> (\<And>a. keeps_body I (g a)) \<Longrightarrow> keeps_body I (case x of Inl e \<Rightarrow> f e | Inr a \<Rightarrow> g a)"
  by (cases x) auto

lemma keeps_prod [keeps_intros]: "(\<And>a b. keeps_body I (f a b)) \<Longrightarrow> keeps_body I (case x of (a, b) \<Rightarrow> f a b)"
  by (cases x) auto

lemma keeps_tx [keeps_intros]:
  assumes "keeps_body I body"
  shows "keeps_body I (with_tx down body)"
proof -
  have "I (pg_db (snd (with_tx down body p)))" if "I (pg_db p)" for p
  proof -
    obtain r q where q: "with_tx down body p = (r, q)" by fastforce
    have "pg_db q = pg_db p \<or> (\<exists>a b. body (pg_pop p) = (Inr a, b) \<and> pg_db q = pg_db b)"
      using with_tx_Inr [of down body p _ q] with_tx_Inl [of down body p _ q] q by (cases r) blast+
    then show ?thesis using that q keeps_bodyD [OF assms] by fastforce
  qed
  then show ?thesis by (simp add: keeps_body_def)
qed

section \<open>The contract of a transaction\<close>

text \<open>
  What every client of a transaction relies on: it commits the whole of a body that succeeds, and
  a failure the server reports definitely leaves the database as it was. \<open>AdminRepo.InTx\<close>,
  \<open>AdminUserRepo.inTx\<close> and \<open>AdminCredentialRepo.inTx\<close> promise it to the admin use cases.
\<close>

locale tx_runner =
  fixes inTx :: "('db pg \<Rightarrow> ('err + 'a) \<times> 'db pg) \<Rightarrow> 'db pg \<Rightarrow> ('err + 'a) \<times> 'db pg"
  assumes commits: "inTx body p = (Inr a, q) \<Longrightarrow> \<exists>s t. body s = (Inr a, t) \<and> pg_db s = pg_db p \<and> pg_db q = pg_db t"
    and aborts: "inTx body p = (Inl e, q) \<Longrightarrow> pg_definite p \<Longrightarrow> definite_body body \<Longrightarrow> pg_db q = pg_db p"
begin

lemma all_or_nothing:
  assumes "inTx body p = (r, q)" "pg_definite p" "definite_body body"
    and "\<And>s a t. body s = (Inr a, t) \<Longrightarrow> R (pg_db s) (pg_db t)"
  shows "pg_db q = pg_db p \<or> ((\<exists>a. r = Inr a) \<and> R (pg_db p) (pg_db q))"
proof (cases r)
  case (Inl e)
  then show ?thesis using aborts assms(1-3) by blast
next
  case (Inr a)
  then show ?thesis using commits [of body p a q] assms(1,4) by metis
qed

lemma keeps:
  assumes "inTx body p = (r, q)" "pg_definite p" "definite_body body" "I (pg_db p)"
    and "\<And>s a t. body s = (Inr a, t) \<Longrightarrow> I (pg_db s) \<Longrightarrow> I (pg_db t)"
  shows "I (pg_db q)"
  using all_or_nothing [OF assms(1-3), of "\<lambda>d e. I d \<longrightarrow> I e"] assms(4,5) by auto

end

interpretation pg_tx: tx_runner "with_tx down"
  by unfold_locales (metis pg_pop_simps(1) with_tx_Inr, rule with_tx_definite_Inl)

end
