(* ===== verification/Usage_Flusher.thy ===== *)
theory Usage_Flusher
  imports Quota_Windows Postgres "HOL-Library.Multiset"
begin

text \<open>
  The durable side of the quota counters: \<open>usecases/quota/flusher.go\<close>, the background writer that
  sums usage per counter and writes it in batches, and the repository it writes to,
  \<open>adapters/repositories/usage_counters.go\<close> with \<open>db/queries/usage_counters.sql\<close>.

  \<open>Add\<close>, the channel receive, the ticker and \<open>Close\<close> interleave freely: \<open>flusher_step\<close> is one
  step of any of them and \<open>flusher_run\<close> a history, which also collects the deltas dropped. The
  lemmas show that no usage is lost or counted twice on the way to the database
  (\<open>flusher_conservation\<close>), that the pending map stays within its bound, that a batch is the same
  for every iteration order of the map, and that a closed flusher drains.
\<close>

section \<open>Definitions\<close>

subsection \<open>The repository\<close>

type_synonym usage_counters = "uuid \<times> WindowKind \<times> time \<Rightarrow> QuotaUsage option"

datatype usage_error = UsageDbDown | UsageOutOfRange

definition row_of :: "uuid \<Rightarrow> Window \<Rightarrow> uuid \<times> WindowKind \<times> time" where
  "row_of t w = (t, w_Kind w, w_Start w)"

text \<open>The columns are \<open>bigint\<close>: the server refuses a sum outside \<open>int64\<close>.\<close>

definition AddUsageCounterDelta ::
  "WindowUsage \<Rightarrow> usage_counters \<Rightarrow> (usage_error + unit) \<times> usage_counters" where
  "AddUsageCounterDelta d tbl =
     (let k = row_of (wu_TenantID d) (wu_Window d);
          new = (case tbl k of None \<Rightarrow> wu_Usage d | Some u \<Rightarrow> plus_usage u (wu_Usage d))
      in if in_i64 (u_Requests new) \<and> in_i64 (u_Tokens new) \<and> in_i64 (u_Cost new)
         then (Inr (), tbl(k \<mapsto> new)) else (Inl UsageOutOfRange, tbl))"

definition GetUsageCounter ::
  "uuid \<Rightarrow> Window \<Rightarrow> usage_counters \<Rightarrow> (usage_error + QuotaUsage option) \<times> usage_counters" where
  "GetUsageCounter t w tbl = (Inr (tbl (row_of t w)), tbl)"

definition UsageCounterRepo_Get ::
  "uuid \<Rightarrow> Window \<Rightarrow> usage_counters pg \<Rightarrow> (usage_error + QuotaUsage) \<times> usage_counters pg" where
  "UsageCounterRepo_Get t w p =
     (case pg_stmt UsageDbDown (GetUsageCounter t w) p of
        (Inl e, p') \<Rightarrow> (Inl e, p')
      | (Inr None, p') \<Rightarrow> (Inr zero_quota_usage, p')
      | (Inr (Some u), p') \<Rightarrow> (Inr u, p'))"

fun add_deltas_tx :: "WindowUsage list \<Rightarrow> usage_counters pg \<Rightarrow> (usage_error + unit) \<times> usage_counters pg" where
  "add_deltas_tx [] p = (Inr (), p)"
| "add_deltas_tx (d # ds) p =
     (case pg_stmt UsageDbDown (AddUsageCounterDelta d) p of
        (Inl e, p') \<Rightarrow> (Inl e, p')
      | (Inr _, p') \<Rightarrow> add_deltas_tx ds p')"

definition UsageCounterRepo_AddDeltas ::
  "WindowUsage list \<Rightarrow> usage_counters pg \<Rightarrow> usage_error option \<times> usage_counters pg" where
  "UsageCounterRepo_AddDeltas deltas p =
     (if deltas = [] then (None, p)
      else case with_tx UsageDbDown (add_deltas_tx deltas) p of
             (Inl e, p') \<Rightarrow> (Some e, p')
           | (Inr _, p') \<Rightarrow> (None, p'))"

subsection \<open>The flusher\<close>

record counterKey =
  ck_tenant :: uuid
  ck_kind :: WindowKind
  ck_start :: int

definition counter_key :: "WindowUsage \<Rightarrow> counterKey" where
  "counter_key d = \<lparr>ck_tenant = wu_TenantID d, ck_kind = w_Kind (wu_Window d),
     ck_start = Unix (w_Start (wu_Window d))\<rparr>"

record Flusher =
  fl_interval :: duration
  fl_maxKeys :: int
  fl_ch :: "WindowUsage list"
  fl_pending :: "(counterKey \<times> WindowUsage) list"
  fl_dropped :: int
  fl_written :: int
  fl_closed :: bool
  fl_done :: bool

definition NewFlusher :: "duration \<Rightarrow> int \<Rightarrow> Flusher" where
  "NewFlusher interval buffer =
     (let interval = (if interval \<le> 0 then Second else interval);
          buffer = (if buffer \<le> 0 then 8192 else buffer)
      in \<lparr>fl_interval = interval, fl_maxKeys = buffer, fl_ch = [], fl_pending = [],
          fl_dropped = 0, fl_written = 0, fl_closed = False, fl_done = False\<rparr>)"

definition drop_deltas :: "int \<Rightarrow> Flusher \<Rightarrow> Flusher" where
  "drop_deltas n f = f\<lparr>fl_dropped := i64 (fl_dropped f + n)\<rparr>"

definition Flusher_Add :: "WindowUsage \<Rightarrow> Flusher \<Rightarrow> Flusher" where
  "Flusher_Add d f =
     (if fl_closed f then drop_deltas 1 f
      else if int (length (fl_ch f)) < fl_maxKeys f then f\<lparr>fl_ch := fl_ch f @ [d]\<rparr>
      else drop_deltas 1 f)"

fun alist_put :: "'k \<Rightarrow> 'v \<Rightarrow> ('k \<times> 'v) list \<Rightarrow> ('k \<times> 'v) list" where
  "alist_put k v [] = [(k, v)]"
| "alist_put k v ((k', v') # rest) =
     (if k' = k then (k, v) # rest else (k', v') # alist_put k v rest)"

definition merge :: "WindowUsage \<Rightarrow> Flusher \<Rightarrow> Flusher" where
  "merge d f =
     (let k = counter_key d in
      case map_of (fl_pending f) k of
        Some cur \<Rightarrow>
          f\<lparr>fl_pending := alist_put k (cur\<lparr>wu_Usage := usage_Add (wu_Usage cur) (wu_Usage d)\<rparr>) (fl_pending f)\<rparr>
      | None \<Rightarrow>
          if int (length (fl_pending f)) \<ge> fl_maxKeys f then drop_deltas 1 f
          else f\<lparr>fl_pending := alist_put k d (fl_pending f)\<rparr>)"

text \<open>
  The order \<open>sort.Slice\<close> is given. Sorting is modelled by insertion; \<open>sort_batch_perm\<close> shows that
  on pending deltas every sorting algorithm and every map iteration order give the same batch.
\<close>

definition batch_less :: "WindowUsage \<Rightarrow> WindowUsage \<Rightarrow> bool" where
  "batch_less a b \<longleftrightarrow>
     (if wu_TenantID a \<noteq> wu_TenantID b then wu_TenantID a < wu_TenantID b
      else if w_Kind (wu_Window a) \<noteq> w_Kind (wu_Window b)
           then w_Kind (wu_Window a) < w_Kind (wu_Window b)
      else w_Start (wu_Window a) < w_Start (wu_Window b))"

fun insert_batch :: "WindowUsage \<Rightarrow> WindowUsage list \<Rightarrow> WindowUsage list" where
  "insert_batch d [] = [d]"
| "insert_batch d (x # xs) = (if batch_less d x then d # x # xs else x # insert_batch d xs)"

definition sort_batch :: "WindowUsage list \<Rightarrow> WindowUsage list" where
  "sort_batch ds = foldr insert_batch ds []"

definition flush_write ::
  "(WindowUsage list \<Rightarrow> 'd \<Rightarrow> 'e option \<times> 'd) \<Rightarrow> Flusher \<Rightarrow> 'd \<Rightarrow> Flusher \<times> 'd" where
  "flush_write AddDeltas f d =
     (if length (fl_pending f) = 0 then (f, d)
      else
        let batch = sort_batch (map snd (fl_pending f)) in
        case AddDeltas batch d of
          (Some e, d') \<Rightarrow> (f, d')
        | (None, d') \<Rightarrow>
            (f\<lparr>fl_written := i64 (fl_written f + int (length batch)), fl_pending := []\<rparr>, d'))"

definition Flusher_Close :: "Flusher \<Rightarrow> Flusher" where
  "Flusher_Close f = (if \<not> fl_closed f then f\<lparr>fl_closed := True\<rparr> else f)"

text \<open>One turn of the loop: a delta received, the closed channel seen empty, or the ticker.\<close>

definition loop_recv :: "Flusher \<Rightarrow> Flusher" where
  "loop_recv f = (case fl_ch f of [] \<Rightarrow> f | d # rest \<Rightarrow> merge d (f\<lparr>fl_ch := rest\<rparr>))"

definition loop_closed ::
  "(WindowUsage list \<Rightarrow> 'd \<Rightarrow> 'e option \<times> 'd) \<Rightarrow> Flusher \<Rightarrow> 'd \<Rightarrow> Flusher \<times> 'd" where
  "loop_closed AddDeltas f d = (let (f', d') = flush_write AddDeltas f d in (f'\<lparr>fl_done := True\<rparr>, d'))"

definition loop_tick ::
  "(WindowUsage list \<Rightarrow> 'd \<Rightarrow> 'e option \<times> 'd) \<Rightarrow> Flusher \<Rightarrow> 'd \<Rightarrow> Flusher \<times> 'd" where
  "loop_tick AddDeltas f d = (if length (fl_pending f) > 0 then flush_write AddDeltas f d else (f, d))"

subsection \<open>Interleavings\<close>

datatype flusher_event = EvAdd WindowUsage | EvRecv | EvDrained | EvTick | EvClose

text \<open>\<open>flusher_step AddDeltas e lost s s'\<close>: event \<open>e\<close> takes \<open>s\<close> to \<open>s'\<close>, dropping \<open>lost\<close>.\<close>

inductive flusher_step ::
  "(WindowUsage list \<Rightarrow> 'd \<Rightarrow> 'e option \<times> 'd) \<Rightarrow> flusher_event \<Rightarrow> WindowUsage list \<Rightarrow>
   Flusher \<times> 'd \<Rightarrow> Flusher \<times> 'd \<Rightarrow> bool"
  for AddDeltas where
  add: "flusher_step AddDeltas (EvAdd d)
          (if fl_closed f \<or> \<not> int (length (fl_ch f)) < fl_maxKeys f then [d] else [])
          (f, s) (Flusher_Add d f, s)"
| recv: "\<not> fl_done f \<Longrightarrow> fl_ch f = d # rest \<Longrightarrow>
         flusher_step AddDeltas EvRecv
          (if map_of (fl_pending f) (counter_key d) = None \<and> int (length (fl_pending f)) \<ge> fl_maxKeys f
           then [d] else [])
          (f, s) (loop_recv f, s)"
| drained: "\<not> fl_done f \<Longrightarrow> fl_closed f \<Longrightarrow> fl_ch f = [] \<Longrightarrow>
         flusher_step AddDeltas EvDrained [] (f, s) (loop_closed AddDeltas f s)"
| tick: "\<not> fl_done f \<Longrightarrow> flusher_step AddDeltas EvTick [] (f, s) (loop_tick AddDeltas f s)"
| close: "flusher_step AddDeltas EvClose [] (f, s) (Flusher_Close f, s)"

inductive flusher_run ::
  "(WindowUsage list \<Rightarrow> 'd \<Rightarrow> 'e option \<times> 'd) \<Rightarrow> flusher_event list \<Rightarrow> WindowUsage list \<Rightarrow>
   Flusher \<times> 'd \<Rightarrow> Flusher \<times> 'd \<Rightarrow> bool"
  for AddDeltas where
  nil: "flusher_run AddDeltas [] [] s s"
| snoc: "flusher_run AddDeltas es lost s s' \<Longrightarrow> flusher_step AddDeltas e l s' s'' \<Longrightarrow>
         flusher_run AddDeltas (es @ [e]) (lost @ l) s s''"

definition offered :: "flusher_event list \<Rightarrow> WindowUsage list" where
  "offered es = concat (map (\<lambda>e. case e of EvAdd d \<Rightarrow> [d] | _ \<Rightarrow> []) es)"

text \<open>The usage a list of deltas carries for one row of the table.\<close>

definition delta_row :: "WindowUsage \<Rightarrow> uuid \<times> WindowKind \<times> time" where
  "delta_row d = row_of (wu_TenantID d) (wu_Window d)"

fun usage_at :: "uuid \<times> WindowKind \<times> time \<Rightarrow> WindowUsage list \<Rightarrow> QuotaUsage" where
  "usage_at r [] = zero_quota_usage"
| "usage_at r (d # ds) =
     plus_usage (if delta_row d = r then wu_Usage d else zero_quota_usage) (usage_at r ds)"

definition wrap_usage :: "QuotaUsage \<Rightarrow> QuotaUsage" where
  "wrap_usage u = \<lparr>u_Requests = i64 (u_Requests u), u_Tokens = i64 (u_Tokens u), u_Cost = i64 (u_Cost u)\<rparr>"

text \<open>Windows of one kind never start twice within a second.\<close>

definition one_start :: "WindowUsage list \<Rightarrow> bool" where
  "one_start ds \<longleftrightarrow> (\<forall>a \<in> set ds. \<forall>b \<in> set ds. counter_key a = counter_key b \<longrightarrow> delta_row a = delta_row b)"

text \<open>What a row holds, counting what is on its way to it and what was dropped.\<close>

definition held_usage ::
  "('d \<Rightarrow> uuid \<times> WindowKind \<times> time \<Rightarrow> QuotaUsage) \<Rightarrow> Flusher \<Rightarrow> 'd \<Rightarrow> WindowUsage list \<Rightarrow>
   uuid \<times> WindowKind \<times> time \<Rightarrow> QuotaUsage" where
  "held_usage stored f s lost r =
     plus_usage (stored s r) (usage_at r (map snd (fl_pending f) @ fl_ch f @ lost))"

definition rows_of :: "WindowUsage list \<Rightarrow> Flusher \<Rightarrow> bool" where
  "rows_of ds f \<longleftrightarrow> set (fl_ch f) \<subseteq> set ds \<and>
     (\<forall>(k, v) \<in> set (fl_pending f). \<exists>d \<in> set ds. counter_key d = k \<and> delta_row d = delta_row v)"

definition flusher_inv :: "Flusher \<Rightarrow> bool" where
  "flusher_inv f \<longleftrightarrow>
     0 < fl_maxKeys f \<and> int (length (fl_ch f)) \<le> fl_maxKeys f \<and>
     int (length (fl_pending f)) \<le> fl_maxKeys f \<and> distinct (map fst (fl_pending f)) \<and>
     (\<forall>(k, d) \<in> set (fl_pending f). k = counter_key d) \<and>
     (fl_done f \<longrightarrow> fl_closed f \<and> fl_ch f = [])"

section \<open>Sums of deltas\<close>

lemma usage_at_append [simp]: "usage_at r (xs @ ys) = plus_usage (usage_at r xs) (usage_at r ys)"
  by (induction xs) (simp_all add: plus_usage_assoc)

lemma usage_at_insert: "usage_at r (insert_batch d ds) = usage_at r (d # ds)"
  by (induction ds) (simp_all add: plus_usage_ac)

lemma usage_at_sort [simp]: "usage_at r (sort_batch ds) = usage_at r ds"
  by (induction ds) (simp_all add: sort_batch_def usage_at_insert)

lemma wrap_plus_left: "wrap_usage (plus_usage (wrap_usage u) v) = wrap_usage (plus_usage u v)"
  by (simp add: wrap_usage_def plus_usage_def)

lemma wrap_plus_right: "wrap_usage (plus_usage u (wrap_usage v)) = wrap_usage (plus_usage u v)"
  by (simp add: wrap_usage_def plus_usage_def)

lemma wrap_plus_cong:
  "wrap_usage u = wrap_usage u' \<Longrightarrow> wrap_usage v = wrap_usage v' \<Longrightarrow>
   wrap_usage (plus_usage u v) = wrap_usage (plus_usage u' v')"
  by (metis wrap_plus_left wrap_plus_right)

lemma usage_Add_wrap: "usage_Add u v = wrap_usage (plus_usage u v)"
  by (simp add: usage_Add_def wrap_usage_def plus_usage_def)

lemma delta_row_usage [simp]: "delta_row (d\<lparr>wu_Usage := u\<rparr>) = delta_row d"
  by (simp add: delta_row_def)

lemma counter_key_usage [simp]: "counter_key (d\<lparr>wu_Usage := u\<rparr>) = counter_key d"
  by (simp add: counter_key_def)

lemma alist_put_new: "map_of al k = None \<Longrightarrow> alist_put k v al = al @ [(k, v)]"
  by (induction al) (auto split: if_splits)

lemma alist_put_keys: "map_of al k = Some c \<Longrightarrow> map fst (alist_put k v al) = map fst al"
  by (induction al) (auto split: if_splits)

lemma alist_put_set: "(k', v') \<in> set (alist_put k v al) \<Longrightarrow> (k', v') = (k, v) \<or> (k', v') \<in> set al"
  by (induction al) (auto split: if_splits)

lemma alist_put_usage:
  assumes "map_of al k = Some cur" "delta_row cur = delta_row d"
  shows "wrap_usage (usage_at r (map snd (alist_put k (cur\<lparr>wu_Usage := usage_Add (wu_Usage cur) (wu_Usage d)\<rparr>) al))) =
    wrap_usage (plus_usage (usage_at r (map snd al)) (usage_at r [d]))"
  using assms(1)
proof (induction al)
  case (Cons p al)
  show ?case
  proof (cases "fst p = k")
    case True
    with Cons.prems have "snd p = cur" by (cases p) simp
    with True assms(2) show ?thesis
      by (cases p) (simp add: usage_Add_wrap wrap_plus_left wrap_plus_right plus_usage_ac)
  next
    case False
    with Cons have ih: "wrap_usage (usage_at r (map snd (alist_put k (cur\<lparr>wu_Usage := usage_Add (wu_Usage cur)
        (wu_Usage d)\<rparr>) al))) = wrap_usage (plus_usage (usage_at r (map snd al)) (usage_at r [d]))"
      by (cases p) simp
    from wrap_plus_cong [OF refl this, of "if delta_row (snd p) = r then wu_Usage (snd p) else zero_quota_usage"]
    show ?thesis
      using False by (cases p; cases "delta_row d = r"; cases "delta_row (snd p) = r") (simp_all add: plus_usage_assoc)
  qed
qed simp

section \<open>The batch\<close>

lemma batch_less_trans: "batch_less a b \<Longrightarrow> batch_less b c \<Longrightarrow> batch_less a c"
  by (auto simp: batch_less_def split: if_splits dest: less_trans)

lemma batch_less_irrefl [simp]: "\<not> batch_less a a"
  by (simp add: batch_less_def)

lemma batch_less_total: "delta_row a \<noteq> delta_row b \<Longrightarrow> batch_less a b \<or> batch_less b a"
  by (auto simp: batch_less_def delta_row_def row_of_def)

lemma set_insert_batch [simp]: "set (insert_batch d xs) = insert d (set xs)"
  by (induction xs) auto

lemma mset_insert_batch [simp]: "mset (insert_batch d xs) = add_mset d (mset xs)"
  by (induction xs) auto

lemma mset_sort_batch [simp]: "mset (sort_batch ds) = mset ds"
  by (induction ds) (simp_all add: sort_batch_def)

lemma set_sort_batch [simp]: "set (sort_batch ds) = set ds"
  by (metis mset_sort_batch set_mset_mset)

lemma insert_batch_sorted:
  assumes "sorted_wrt batch_less xs" "\<And>x. x \<in> set xs \<Longrightarrow> delta_row x \<noteq> delta_row d"
  shows "sorted_wrt batch_less (insert_batch d xs)"
  using assms
proof (induction xs)
  case (Cons x xs)
  then show ?case
    using batch_less_total [of x d] by (fastforce dest: batch_less_trans)
qed simp

lemma sort_batch_Cons: "sort_batch (d # ds) = insert_batch d (sort_batch ds)"
  by (simp add: sort_batch_def)

lemma sort_batch_sorted: "distinct (map delta_row ds) \<Longrightarrow> sorted_wrt batch_less (sort_batch ds)"
proof (induction ds)
  case (Cons d ds)
  then show ?case unfolding sort_batch_Cons by (intro insert_batch_sorted) (auto simp: image_iff)
qed (simp add: sort_batch_def)

lemma sorted_batch_unique:
  assumes "sorted_wrt batch_less xs" "sorted_wrt batch_less ys" "mset xs = mset ys"
  shows "xs = ys"
  using assms
proof (induction xs arbitrary: ys)
  case (Cons x xs)
  then obtain y ys' where ys: "ys = y # ys'" by (cases ys) auto
  have "x = y"
  proof (rule ccontr)
    assume "x \<noteq> y"
    then have "y \<in> set xs" "x \<in> set ys'"
      using Cons.prems(3) ys by (metis mset_eq_setD set_ConsD list.set_intros(1))+
    then have "batch_less x y" "batch_less y x" using Cons.prems(1,2) ys by auto
    then show False using batch_less_trans by fastforce
  qed
  with Cons ys show ?case by simp
qed simp

text \<open>Any sort of any listing of the pending deltas gives the batch: the iteration order of the
  map and the algorithm do not matter.\<close>

lemma sort_batch_perm:
  assumes "distinct (map delta_row ds)" "mset ds' = mset ds" "sorted_wrt batch_less xs" "mset xs = mset ds'"
  shows "xs = sort_batch ds"
  using assms by (intro sorted_batch_unique sort_batch_sorted) simp_all

section \<open>Interleavings\<close>

lemma merge_fields [simp]:
  "fl_maxKeys (merge d f) = fl_maxKeys f" "fl_ch (merge d f) = fl_ch f"
  "fl_closed (merge d f) = fl_closed f" "fl_done (merge d f) = fl_done f"
  by (simp_all add: merge_def drop_deltas_def Let_def split: option.splits)

lemma flush_write_cases:
  obtains (keep) d' where "flush_write AddDeltas f d = (f, d')"
      "d' = d \<and> fl_pending f = [] \<or> (\<exists>e. AddDeltas (sort_batch (map snd (fl_pending f))) d = (Some e, d'))"
    | (ok) d' where "AddDeltas (sort_batch (map snd (fl_pending f))) d = (None, d')"
      "flush_write AddDeltas f d =
        (f\<lparr>fl_written := i64 (fl_written f + int (length (sort_batch (map snd (fl_pending f))))), fl_pending := []\<rparr>, d')"
proof (cases "fl_pending f")
  case Nil
  then show thesis using keep [of d] by (simp add: flush_write_def)
next
  case (Cons p ps)
  obtain r d' where "AddDeltas (sort_batch (map snd (fl_pending f))) d = (r, d')" by fastforce
  with Cons show thesis
    using keep [of d'] ok [of d'] by (cases r) (simp_all add: flush_write_def Let_def)
qed

lemma flusher_inv_new: "flusher_inv (NewFlusher interval buffer)"
  by (simp add: flusher_inv_def NewFlusher_def Let_def)

lemma flusher_inv_merge:
  assumes "flusher_inv f"
  shows "flusher_inv (merge d f)"
proof (cases "map_of (fl_pending f) (counter_key d)")
  case None
  then have "counter_key d \<notin> set (map fst (fl_pending f))" by (simp add: map_of_eq_None_iff)
  with None assms show ?thesis
    by (auto simp: merge_def Let_def flusher_inv_def drop_deltas_def alist_put_new)
next
  case (Some cur)
  have len: "length (alist_put (counter_key d) v (fl_pending f)) = length (fl_pending f)" for v
    using alist_put_keys [OF Some, of v] by (metis length_map)
  have "(counter_key d, cur) \<in> set (fl_pending f)" using Some by (rule map_of_SomeD)
  with assms have "counter_key cur = counter_key d" by (auto simp: flusher_inv_def)
  then have "k = counter_key v" if "(k, v) \<in> set (alist_put (counter_key d)
      (cur\<lparr>wu_Usage := usage_Add (wu_Usage cur) (wu_Usage d)\<rparr>) (fl_pending f))" for k v
    using alist_put_set [OF that] assms by (auto simp: flusher_inv_def)
  with assms show ?thesis
    by (auto simp: merge_def Let_def Some flusher_inv_def alist_put_keys [OF Some] len)
qed

lemma flusher_inv_write: "flusher_inv f \<Longrightarrow> flush_write AddDeltas f d = (f', d') \<Longrightarrow> flusher_inv f'"
  by (cases AddDeltas f d rule: flush_write_cases) (auto simp: flusher_inv_def)

lemma flush_write_fields:
  "flush_write AddDeltas f d = (f', d') \<Longrightarrow>
   fl_ch f' = fl_ch f \<and> fl_closed f' = fl_closed f \<and> fl_done f' = fl_done f \<and> fl_maxKeys f' = fl_maxKeys f"
  by (cases AddDeltas f d rule: flush_write_cases) auto

lemma loop_tick_cases:
  assumes "(f', s') = loop_tick AddDeltas f s"
  obtains "flush_write AddDeltas f s = (f', s')" | "f' = f" "s' = s"
  using assms by (cases "length (fl_pending f) > 0") (auto simp: loop_tick_def)

lemma flusher_inv_recv: "flusher_inv f \<Longrightarrow> \<not> fl_done f \<Longrightarrow> flusher_inv (loop_recv f)"
  by (auto simp: loop_recv_def flusher_inv_def [of "f\<lparr>fl_ch := _\<rparr>"] flusher_inv_def [of f]
      intro!: flusher_inv_merge split: list.split)

lemma flusher_inv_step:
  assumes "flusher_step AddDeltas e l (f, s) (f', s')" "flusher_inv f"
  shows "flusher_inv f'"
  using assms(1)
proof cases
  case (add d)
  then show ?thesis using assms(2) by (auto simp: flusher_inv_def Flusher_Add_def drop_deltas_def)
next
  case (recv d rest)
  then show ?thesis using assms(2) by (simp add: flusher_inv_recv)
next
  case drained
  obtain g t where w: "flush_write AddDeltas f s = (g, t)" by fastforce
  with drained have "f' = g\<lparr>fl_done := True\<rparr>" by (simp add: loop_closed_def)
  then show ?thesis
    using flusher_inv_write [OF assms(2) w] flush_write_fields [OF w] drained
    by (simp add: flusher_inv_def)
next
  case tick
  then show ?thesis
    using assms(2) flusher_inv_write [OF assms(2)] by (elim loop_tick_cases) auto
next
  case close
  then show ?thesis using assms(2) by (auto simp: flusher_inv_def Flusher_Close_def)
qed

lemma flusher_inv_run:
  assumes "flusher_run AddDeltas es lost s s'" "flusher_inv (fst s)"
  shows "flusher_inv (fst s')"
  using assms
proof (induction rule: flusher_run.induct)
  case (snoc es lost s s' e l s'')
  then show ?case by (cases s'; cases s'') (auto intro: flusher_inv_step)
qed simp

section \<open>The store, and conservation of usage\<close>

text \<open>
  What the flusher and the enforcer rely on: a batch is added as a whole or, with an error, not at
  all; on a store that may lose answers (\<open>sound\<close> fails) an error may also follow a batch that was
  applied.
\<close>

locale usage_store =
  fixes AddDeltas :: "WindowUsage list \<Rightarrow> 'd \<Rightarrow> 'e option \<times> 'd"
    and Get :: "uuid \<Rightarrow> Window \<Rightarrow> 'd \<Rightarrow> ('e + QuotaUsage) \<times> 'd"
    and stored :: "'d \<Rightarrow> uuid \<times> WindowKind \<times> time \<Rightarrow> QuotaUsage"
    and sound :: "'d \<Rightarrow> bool"
    and up :: "'d \<Rightarrow> bool"
  assumes add_ok: "AddDeltas ds s = (None, s') \<Longrightarrow> stored s' r = plus_usage (stored s r) (usage_at r ds)"
    and add_atomic: "AddDeltas ds s = (Some e, s') \<Longrightarrow>
      stored s' = stored s \<or> stored s' = (\<lambda>r. plus_usage (stored s r) (usage_at r ds))"
    and add_rollback: "sound s \<Longrightarrow> AddDeltas ds s = (Some e, s') \<Longrightarrow> stored s' = stored s"
    and add_sound: "sound s \<Longrightarrow> AddDeltas ds s = (x, s') \<Longrightarrow> sound s'"
    and get_ok: "Get t w s = (Inr u, s') \<Longrightarrow> u = stored s (row_of t w)"
    and get_same: "Get t w s = (y, s') \<Longrightarrow> stored s' = stored s \<and> (sound s \<longrightarrow> sound s')"
    and get_up: "up s \<Longrightarrow> \<exists>u s'. Get t w s = (Inr u, s') \<and> up s'"
begin

lemma write_held:
  assumes "flush_write AddDeltas f s = (f', s')" "sound s"
  shows "held_usage stored f' s' lost r = held_usage stored f s lost r" "sound s'"
proof -
  have "held_usage stored f' s' lost r = held_usage stored f s lost r \<and> sound s'"
  proof (cases AddDeltas f s rule: flush_write_cases)
    case (keep d')
    with assms add_rollback [OF assms(2)] add_sound [OF assms(2)] show ?thesis
      by (auto simp: held_usage_def)
  next
    case (ok d')
    with assms add_ok [OF ok(1)] add_sound [OF assms(2) ok(1)] show ?thesis
      by (auto simp: held_usage_def plus_usage_assoc)
  qed
  then show "held_usage stored f' s' lost r = held_usage stored f s lost r" "sound s'" by simp_all
qed

lemma write_rows: "flush_write AddDeltas f s = (f', s') \<Longrightarrow> rows_of ds f \<Longrightarrow> rows_of ds f'"
  by (cases AddDeltas f s rule: flush_write_cases) (auto simp: rows_of_def)

lemma merge_held:
  assumes "rows_of ds (f\<lparr>fl_ch := d # rest\<rparr>)" "one_start ds"
  defines "l \<equiv> if map_of (fl_pending f) (counter_key d) = None \<and> int (length (fl_pending f)) \<ge> fl_maxKeys f
           then [d] else []"
  shows "wrap_usage (held_usage stored (merge d f) s (lost @ l) r) = wrap_usage (plus_usage (held_usage stored f s lost r) (usage_at r [d]))"
proof (cases "map_of (fl_pending f) (counter_key d)")
  case None
  then show ?thesis
    by (simp add: held_usage_def merge_def Let_def l_def alist_put_new drop_deltas_def plus_usage_ac)
next
  case (Some cur)
  have "d \<in> set ds" using assms(1) by (simp add: rows_of_def)
  moreover obtain d0 where "d0 \<in> set ds" "counter_key d0 = counter_key d" "delta_row d0 = delta_row cur"
    using assms(1) map_of_SomeD [OF Some] by (auto simp: rows_of_def)
  ultimately have row: "delta_row cur = delta_row d" using assms(2) unfolding one_start_def by metis
  let ?p = "alist_put (counter_key d) (cur\<lparr>wu_Usage := usage_Add (wu_Usage cur) (wu_Usage d)\<rparr>) (fl_pending f)"
  have "wrap_usage (plus_usage (usage_at r (map snd ?p)) (plus_usage (stored s r) (usage_at r (fl_ch f @ lost)))) =
    wrap_usage (plus_usage (plus_usage (usage_at r (map snd (fl_pending f))) (usage_at r [d]))
      (plus_usage (stored s r) (usage_at r (fl_ch f @ lost))))"
    by (rule wrap_plus_cong [OF alist_put_usage [OF Some row] refl])
  then show ?thesis by (simp add: held_usage_def merge_def Let_def Some l_def plus_usage_ac)
qed

lemma step_held:
  assumes "flusher_step AddDeltas e l (f, s) (f', s')" "rows_of ds f" "one_start ds" "sound s"
  shows "wrap_usage (held_usage stored f' s' (lost @ l) r) =
    wrap_usage (plus_usage (held_usage stored f s lost r) (usage_at r (offered [e])))" "sound s'"
    "set (offered [e]) \<subseteq> set ds \<Longrightarrow> rows_of ds f'"
proof -
  have "wrap_usage (held_usage stored f' s' (lost @ l) r) = wrap_usage (plus_usage (held_usage stored f s lost r) (usage_at r (offered [e])))
    \<and> sound s' \<and> (set (offered [e]) \<subseteq> set ds \<longrightarrow> rows_of ds f')"
    using assms(1)
  proof cases
    case (add d)
    then show ?thesis using assms(2,4)
      by (auto simp: held_usage_def Flusher_Add_def drop_deltas_def offered_def rows_of_def plus_usage_ac)
  next
    case (recv d rest)
    let ?f = "f\<lparr>fl_ch := rest\<rparr>"
    have "rows_of ds (?f\<lparr>fl_ch := d # rest\<rparr>)" using assms(2) recv by (simp add: rows_of_def)
    from merge_held [OF this assms(3), of s lost r] have
      "wrap_usage (held_usage stored f' s' (lost @ l) r) = wrap_usage (held_usage stored f s lost r)"
      using recv by (simp add: loop_recv_def held_usage_def plus_usage_ac)
    moreover have "rows_of ds f'"
      using assms(2) recv by (auto simp: rows_of_def loop_recv_def merge_def Let_def drop_deltas_def
          dest!: alist_put_set map_of_SomeD split: option.split)
    ultimately show ?thesis using assms(4) recv by (simp add: offered_def)
  next
    case drained
    obtain g t where w: "flush_write AddDeltas f s = (g, t)" by fastforce
    with drained have "f' = g\<lparr>fl_done := True\<rparr>" "s' = t" by (simp_all add: loop_closed_def)
    then show ?thesis
      using write_held [OF w assms(4)] write_rows [OF w assms(2)] drained
      by (simp add: held_usage_def offered_def rows_of_def)
  next
    case tick
    from tick(3) show ?thesis
    proof (cases rule: loop_tick_cases)
      case 1
      then show ?thesis
        using write_held [OF 1 assms(4)] write_rows [OF 1 assms(2)] tick by (simp add: offered_def)
    qed (use tick assms(2,4) in \<open>simp add: offered_def\<close>)
  next
    case close
    then show ?thesis using assms(2,4) by (simp add: held_usage_def offered_def rows_of_def Flusher_Close_def)
  qed
  then show "wrap_usage (held_usage stored f' s' (lost @ l) r) =
    wrap_usage (plus_usage (held_usage stored f s lost r) (usage_at r (offered [e])))" "sound s'"
    "set (offered [e]) \<subseteq> set ds \<Longrightarrow> rows_of ds f'"
    by simp_all
qed

text \<open>
  Conservation: what the store gained, what is pending, what is queued and what was dropped add up
  to what was offered, on every row and in every interleaving.
\<close>

lemma conservation:
  assumes "flusher_run AddDeltas es lost (f, s) (f', s')" "one_start ds" "sound s" "rows_of ds f"
    and "set (offered es) \<subseteq> set ds"
  shows "wrap_usage (held_usage stored f' s' lost r) = wrap_usage (plus_usage (held_usage stored f s [] r) (usage_at r (offered es)))
    \<and> sound s' \<and> rows_of ds f'"
  using assms
proof (induction es lost "(f, s)" "(f', s')" arbitrary: f' s' rule: flusher_run.induct)
  case nil
  then show ?case by (simp add: offered_def)
next
  case (snoc es lost s1 e l)
  obtain f1 t where s1: "s1 = (f1, t)" by fastforce
  have off: "offered (es @ [e]) = offered es @ offered [e]" by (simp add: offered_def)
  with snoc s1 have ih: "wrap_usage (held_usage stored f1 t lost r) = wrap_usage (plus_usage (held_usage stored f s [] r) (usage_at r (offered es)))"
    "sound t" "rows_of ds f1" by auto
  note st = step_held [OF snoc.hyps(3) [unfolded s1] ih(3) snoc.prems(1) ih(2)]
  have "wrap_usage (held_usage stored f' s' (lost @ l) r) =
    wrap_usage (plus_usage (plus_usage (held_usage stored f s [] r) (usage_at r (offered es))) (usage_at r (offered [e])))"
    unfolding st(1) by (rule wrap_plus_cong [OF ih(1) refl])
  then show ?case using st(2,3) snoc.prems(4) off by (simp add: plus_usage_assoc)
qed

end

section \<open>The repository is such a store\<close>

definition stored_usage :: "usage_counters pg \<Rightarrow> uuid \<times> WindowKind \<times> time \<Rightarrow> QuotaUsage" where
  "stored_usage p r = (case pg_db p r of None \<Rightarrow> zero_quota_usage | Some u \<Rightarrow> u)"

lemma add_deltas_tx_definite: "add_deltas_tx ds p = (r, q) \<Longrightarrow> pg_definite p \<Longrightarrow> pg_definite q"
proof (induction ds arbitrary: p)
  case (Cons d ds)
  then show ?case
    by (auto split: prod.splits sum.splits dest: pg_stmt_definite)
qed simp

lemma add_deltas_tx_ok:
  "add_deltas_tx ds p = (Inr u, q) \<Longrightarrow> stored_usage q r = plus_usage (stored_usage p r) (usage_at r ds)"
proof (induction ds arbitrary: p)
  case (Cons d ds)
  then obtain v p' where s: "pg_stmt UsageDbDown (AddUsageCounterDelta d) p = (Inr v, p')"
    and rest: "add_deltas_tx ds p' = (Inr u, q)"
    by (auto split: prod.splits sum.splits)
  have "stored_usage p' r = plus_usage (stored_usage p r) (if delta_row d = r then wu_Usage d else zero_quota_usage)"
    using s by (auto simp: pg_stmt_def AddUsageCounterDelta_def stored_usage_def Let_def delta_row_def
        split: prod.splits pg_fault.splits if_splits option.splits)
  with Cons.IH [OF rest] show ?case by (simp add: plus_usage_assoc)
qed simp

interpretation usage_repo: usage_store UsageCounterRepo_AddDeltas UsageCounterRepo_Get stored_usage pg_definite pg_up
proof
  fix ds :: "WindowUsage list" and s s' r e and x :: "usage_error option"
  show "UsageCounterRepo_AddDeltas ds s = (None, s') \<Longrightarrow>
      stored_usage s' r = plus_usage (stored_usage s r) (usage_at r ds)"
    by (auto simp: UsageCounterRepo_AddDeltas_def stored_usage_def split: if_splits prod.splits sum.splits
        dest!: with_tx_Inr add_deltas_tx_ok [where r = r])
  show "UsageCounterRepo_AddDeltas ds s = (Some e, s') \<Longrightarrow> stored_usage s' = stored_usage s \<or>
      stored_usage s' = (\<lambda>r. plus_usage (stored_usage s r) (usage_at r ds))"
  proof -
    assume "UsageCounterRepo_AddDeltas ds s = (Some e, s')"
    then have "with_tx UsageDbDown (add_deltas_tx ds) s = (Inl e, s')"
      by (auto simp: UsageCounterRepo_AddDeltas_def split: if_splits prod.splits sum.splits)
    from with_tx_Inl [OF this] show ?thesis
    proof (elim disjE exE conjE)
      fix a b
      assume "add_deltas_tx ds (pg_pop s) = (Inr a, b)" "pg_db s' = pg_db b"
      then have "stored_usage s' r = plus_usage (stored_usage s r) (usage_at r ds)" for r
        using add_deltas_tx_ok [of ds "pg_pop s" a b r] by (simp add: stored_usage_def)
      then show ?thesis by blast
    qed (auto simp: stored_usage_def fun_eq_iff)
  qed
  show "pg_definite s \<Longrightarrow> UsageCounterRepo_AddDeltas ds s = (Some e, s') \<Longrightarrow> stored_usage s' = stored_usage s"
    using with_tx_rollback [of UsageDbDown "add_deltas_tx ds" s e s'] add_deltas_tx_definite
    by (fastforce simp: UsageCounterRepo_AddDeltas_def stored_usage_def split: if_splits prod.splits sum.splits)
  show "pg_definite s \<Longrightarrow> UsageCounterRepo_AddDeltas ds s = (x, s') \<Longrightarrow> pg_definite s'"
    using with_tx_definite [of UsageDbDown "add_deltas_tx ds" s _ s'] add_deltas_tx_definite
    by (fastforce simp: UsageCounterRepo_AddDeltas_def split: if_splits prod.splits sum.splits)
next
  fix t w u and s s' :: "usage_counters pg" and y :: "usage_error + QuotaUsage"
  show "UsageCounterRepo_Get t w s = (Inr u, s') \<Longrightarrow> u = stored_usage s (row_of t w)"
    by (auto simp: UsageCounterRepo_Get_def pg_stmt_def GetUsageCounter_def stored_usage_def
        split: prod.splits sum.splits option.splits pg_fault.splits)
  show "UsageCounterRepo_Get t w s = (y, s') \<Longrightarrow>
      stored_usage s' = stored_usage s \<and> (pg_definite s \<longrightarrow> pg_definite s')"
    by (auto simp: UsageCounterRepo_Get_def pg_stmt_def GetUsageCounter_def stored_usage_def fun_eq_iff
        split: prod.splits sum.splits option.splits pg_fault.splits)
  show "pg_up s \<Longrightarrow> \<exists>u s'. UsageCounterRepo_Get t w s = (Inr u, s') \<and> pg_up s'"
    by (cases "pg_db s (row_of t w)")
      (auto simp: UsageCounterRepo_Get_def pg_stmt_def GetUsageCounter_def pg_up_next)
qed

end
