(* ===== verification/Quota_Enforcer.thy ===== *)
theory Quota_Enforcer
  imports Decisions Quota_Counters Usage_Flusher
begin

text \<open>
  The enforcer, \<open>usecases/quota/enforcer.go\<close>, the request path's view of quotas
  (\<open>ports/quota.go\<close>). The ports it is built on (\<open>TenantReader\<close>, \<open>QuotaReader\<close>,
  \<open>UsageCounterRepository\<close>, \<open>QuotaCounters\<close>, \<open>PricingTable\<close>) are the fields of \<open>quota_ports\<close>,
  functions on the state of the backend each stands for; the backends' states are fields of the
  enforcer, next to its own.

  The lemmas of the locale \<open>quota_counters\<close> proved here say what a reservation and its
  reconciliation do to the counters; \<open>Redis_Quota\<close> instantiates them with the Redis adapter.
\<close>

section \<open>Definitions\<close>

type_synonym OnUnavailable = string

definition FailOpen :: OnUnavailable where "FailOpen = ''open''"
definition FailClosed :: OnUnavailable where "FailClosed = ''closed''"
definition maxSeedRounds :: nat where "maxSeedRounds = 3"

record quota_Config =
  qc_OnUnavailable :: OnUnavailable
  qc_DefaultMaxOutput :: int
  qc_LimitsTTL :: duration
  qc_FlushInterval :: duration
  qc_FlushBuffer :: int
  qc_ResyncInterval :: duration

record tenantLimits =
  tl_tenantID :: uuid
  tl_quotas :: "Quota list"
  tl_fetched :: time

definition zero_tenantLimits :: tenantLimits where
  "zero_tenantLimits = \<lparr>tl_tenantID = 0, tl_quotas = [], tl_fetched = zero_time\<rparr>"

datatype tenant_read_error = TenantNotFound | TenantReadFailed

record ('c, 'ce, 'd, 'de, 't) quota_ports =
  qp_GetByExternalID :: "string \<Rightarrow> 't \<Rightarrow> (tenant_read_error + uuid) \<times> 't"
  qp_List :: "uuid \<Rightarrow> 't \<Rightarrow> (tenant_read_error + Quota list) \<times> 't"
  qp_Get :: "uuid \<Rightarrow> Window \<Rightarrow> 'd \<Rightarrow> ('de + QuotaUsage) \<times> 'd"
  qp_AddDeltas :: "WindowUsage list \<Rightarrow> 'd \<Rightarrow> 'de option \<times> 'd"
  qp_Reserve :: "uuid \<Rightarrow> WindowLimit list \<Rightarrow> QuotaUsage \<Rightarrow> 'c \<Rightarrow> ('ce + CounterReservation) \<times> 'c"
  qp_Seed :: "WindowUsage list \<Rightarrow> 'c \<Rightarrow> 'ce option \<times> 'c"
  qp_Adjust :: "uuid \<Rightarrow> Window list \<Rightarrow> QuotaUsage \<Rightarrow> 'c \<Rightarrow> 'ce option \<times> 'c"
  qp_RatesAt :: "(time \<Rightarrow> string \<Rightarrow> (Rates \<times> string) option) option"

record ('c, 'd, 't) Enforcer =
  en_cfg :: quota_Config
  en_flusher :: Flusher
  en_limits :: "(Tenant \<times> tenantLimits) list"
  en_wake :: bool
  en_stopped :: bool
  en_unavailable :: int
  en_unpriced :: int
  en_degraded :: bool
  en_resyncs :: int
  en_counters :: 'c
  en_durable :: 'd
  en_tenants :: 't

definition New_config :: "quota_Config \<Rightarrow> quota_Config" where
  "New_config cfg =
     cfg\<lparr>qc_OnUnavailable := (if qc_OnUnavailable cfg = '''' then FailOpen else qc_OnUnavailable cfg),
         qc_DefaultMaxOutput := (if qc_DefaultMaxOutput cfg \<le> 0 then 4096 else qc_DefaultMaxOutput cfg),
         qc_LimitsTTL := (if qc_LimitsTTL cfg \<le> 0 then 10 * Second else qc_LimitsTTL cfg),
         qc_ResyncInterval := (if qc_ResyncInterval cfg \<le> 0 then Minute else qc_ResyncInterval cfg)\<rparr>"

definition New_Enforcer :: "quota_Config \<Rightarrow> 'c \<Rightarrow> 'd \<Rightarrow> 't \<Rightarrow> ('c, 'd, 't) Enforcer" where
  "New_Enforcer cfg counters durable tenants =
     \<lparr>en_cfg = New_config cfg,
      en_flusher = NewFlusher (qc_FlushInterval cfg) (qc_FlushBuffer cfg),
      en_limits = [], en_wake = False, en_stopped = False, en_unavailable = 0, en_unpriced = 0,
      en_degraded = False, en_resyncs = 0,
      en_counters = counters, en_durable = durable, en_tenants = tenants\<rparr>"

record QuotaRequest =
  qr_Tenant :: Tenant
  qr_At :: time
  qr_Prompt :: PromptSize
  qr_MaxOutputTokens :: int
  qr_Choices :: int
  qr_Targets :: "string list"

record Reservation =
  rv_TenantID :: uuid
  rv_At :: time
  rv_Windows :: "Window list"
  rv_Reserved :: QuotaUsage

definition zero_Reservation :: Reservation where
  "zero_Reservation = \<lparr>rv_TenantID = 0, rv_At = zero_time, rv_Windows = [], rv_Reserved = zero_quota_usage\<rparr>"

definition Reservation_IsZero :: "Reservation \<Rightarrow> bool" where
  "Reservation_IsZero r \<longleftrightarrow> length (rv_Windows r) = 0"

datatype unavailable_cause = ResolveTenant | ListQuotas | CounterStore | Rehydrate | SeedRounds | NoPrice

datatype quota_refusal = QuotaExceededError QuotaBreach | ErrQuotaUnavailable unavailable_cause

definition failed ::
  "unavailable_cause \<Rightarrow> ('c, 'd, 't) Enforcer \<Rightarrow> (quota_refusal + Reservation) \<times> ('c, 'd, 't) Enforcer" where
  "failed err e =
     (let e' = e\<lparr>en_unavailable := i64 (en_unavailable e + 1), en_degraded := True\<rparr>
      in if qc_OnUnavailable (en_cfg e) = FailClosed then (Inl (ErrQuotaUnavailable err), e')
         else (Inr zero_Reservation, e'))"

definition requestResync :: "('c, 'd, 't) Enforcer \<Rightarrow> ('c, 'd, 't) Enforcer" where
  "requestResync e = e\<lparr>en_wake := True\<rparr>"

definition recovered :: "('c, 'd, 't) Enforcer \<Rightarrow> ('c, 'd, 't) Enforcer" where
  "recovered e = (if en_degraded e then requestResync (e\<lparr>en_degraded := False\<rparr>) else e)"

definition unpriceable ::
  "QuotaRequest \<Rightarrow> ('c, 'd, 't) Enforcer \<Rightarrow> (quota_refusal + Reservation) \<times> ('c, 'd, 't) Enforcer" where
  "unpriceable req e =
     (let e' = e\<lparr>en_unpriced := i64 (en_unpriced e + 1)\<rparr>
      in if qc_OnUnavailable (en_cfg e) = FailClosed then (Inl (ErrQuotaUnavailable NoPrice), e')
         else (Inr zero_Reservation, e'))"

definition loadLimits ::
  "('c, 'ce, 'd, 'de, 't) quota_ports \<Rightarrow> Tenant \<Rightarrow> 't \<Rightarrow> (unavailable_cause + tenantLimits) \<times> 't" where
  "loadLimits P tenant s =
     (case qp_GetByExternalID P tenant s of
        (Inl TenantNotFound, s') \<Rightarrow> (Inr zero_tenantLimits, s')
      | (Inl TenantReadFailed, s') \<Rightarrow> (Inl ResolveTenant, s')
      | (Inr account, s') \<Rightarrow>
          (case qp_List P account s' of
             (Inl _, s'') \<Rightarrow> (Inl ListQuotas, s'')
           | (Inr quotas, s'') \<Rightarrow>
               (Inr \<lparr>tl_tenantID = account, tl_quotas = quotas, tl_fetched = zero_time\<rparr>, s'')))"

definition tenant_limits ::
  "('c, 'ce, 'd, 'de, 't) quota_ports \<Rightarrow> time \<Rightarrow> Tenant \<Rightarrow> ('c, 'd, 't) Enforcer \<Rightarrow>
   (unavailable_cause + tenantLimits) \<times> ('c, 'd, 't) Enforcer" where
  "tenant_limits P now tenant e =
     (let cached = map_of (en_limits e) tenant in
      case cached of
        Some c \<Rightarrow>
          if now - tl_fetched c < qc_LimitsTTL (en_cfg e) then (Inr c, e)
          else
            (case loadLimits P tenant (en_tenants e) of
               (Inl err, s) \<Rightarrow> (Inr c, e\<lparr>en_tenants := s\<rparr>)
             | (Inr fresh, s) \<Rightarrow>
                 let fresh = fresh\<lparr>tl_fetched := now\<rparr>
                 in (Inr fresh, e\<lparr>en_tenants := s, en_limits := alist_put tenant fresh (en_limits e)\<rparr>))
      | None \<Rightarrow>
          (case loadLimits P tenant (en_tenants e) of
             (Inl err, s) \<Rightarrow> (Inl err, e\<lparr>en_tenants := s\<rparr>)
           | (Inr fresh, s) \<Rightarrow>
               let fresh = fresh\<lparr>tl_fetched := now\<rparr>
               in (Inr fresh, e\<lparr>en_tenants := s, en_limits := alist_put tenant fresh (en_limits e)\<rparr>)))"

fun dearest_target ::
  "(time \<Rightarrow> string \<Rightarrow> (Rates \<times> string) option) \<Rightarrow> time \<Rightarrow> TokenUsage \<Rightarrow> string list \<Rightarrow> int \<times> bool \<Rightarrow> int \<times> bool" where
  "dearest_target RatesAt at estimate [] acc = acc"
| "dearest_target RatesAt at estimate (t # ts) (dearest, priced) =
     (case RatesAt at t of
        None \<Rightarrow> dearest_target RatesAt at estimate ts (dearest, priced)
      | Some (rates, _) \<Rightarrow>
          let c = Rates_Cost rates estimate
          in dearest_target RatesAt at estimate ts (if c > dearest then c else dearest, True))"

definition priceEstimate ::
  "('c, 'ce, 'd, 'de, 't) quota_ports \<Rightarrow> QuotaRequest \<Rightarrow> TokenUsage \<Rightarrow> int \<times> bool" where
  "priceEstimate P req estimate =
     (case qp_RatesAt P of
        None \<Rightarrow> (0, False)
      | Some RatesAt \<Rightarrow> dearest_target RatesAt (qr_At req) estimate (qr_Targets req) (0, False))"

fun durable_seeds ::
  "('c, 'ce, 'd, 'de, 't) quota_ports \<Rightarrow> uuid \<Rightarrow> Window list \<Rightarrow> 'd \<Rightarrow> ('de + WindowUsage list) \<times> 'd" where
  "durable_seeds P tenantID [] s = (Inr [], s)"
| "durable_seeds P tenantID (w # ws) s =
     (case qp_Get P tenantID w s of
        (Inl err, s') \<Rightarrow> (Inl err, s')
      | (Inr u, s') \<Rightarrow>
          (case durable_seeds P tenantID ws s' of
             (Inl err, s'') \<Rightarrow> (Inl err, s'')
           | (Inr seeds, s'') \<Rightarrow>
               (Inr (\<lparr>wu_TenantID = tenantID, wu_Window = w, wu_Usage = u\<rparr> # seeds), s'')))"

definition rehydrate ::
  "('c, 'ce, 'd, 'de, 't) quota_ports \<Rightarrow> uuid \<Rightarrow> Window list \<Rightarrow> ('c, 'd, 't) Enforcer \<Rightarrow>
   bool \<times> ('c, 'd, 't) Enforcer" where
  "rehydrate P tenantID windows e =
     (case durable_seeds P tenantID windows (en_durable e) of
        (Inl err, s) \<Rightarrow> (False, e\<lparr>en_durable := s\<rparr>)
      | (Inr seeds, s) \<Rightarrow>
          (case qp_Seed P seeds (en_counters e) of
             (Some err, c) \<Rightarrow> (False, e\<lparr>en_durable := s, en_counters := c\<rparr>)
           | (None, c) \<Rightarrow> (True, e\<lparr>en_durable := s, en_counters := c\<rparr>)))"

fun reserve_rounds ::
  "nat \<Rightarrow> ('c, 'ce, 'd, 'de, 't) quota_ports \<Rightarrow> QuotaRequest \<Rightarrow> uuid \<Rightarrow> WindowLimit list \<Rightarrow> QuotaUsage \<Rightarrow>
   ('c, 'd, 't) Enforcer \<Rightarrow> (quota_refusal + Reservation) \<times> ('c, 'd, 't) Enforcer" where
  "reserve_rounds 0 P req tenantID limits amount e = failed SeedRounds e"
| "reserve_rounds (Suc n) P req tenantID limits amount e =
     (case qp_Reserve P tenantID limits amount (en_counters e) of
        (Inl err, c) \<Rightarrow> failed CounterStore (e\<lparr>en_counters := c\<rparr>)
      | (Inr got, c) \<Rightarrow>
          let e1 = e\<lparr>en_counters := c\<rparr> in
          if length (cr_Missing got) > 0 then
            (case rehydrate P tenantID (cr_Missing got) e1 of
               (False, e2) \<Rightarrow> failed Rehydrate e2
             | (True, e2) \<Rightarrow> reserve_rounds n P req tenantID limits amount e2)
          else
            let e2 = recovered e1 in
            case cr_Blocked got of
              Some b \<Rightarrow> (Inl (QuotaExceededError b), e2)
            | None \<Rightarrow>
                (Inr \<lparr>rv_TenantID = tenantID, rv_At = qr_At req,
                      rv_Windows = map wl_Window limits, rv_Reserved = amount\<rparr>, e2))"

definition Enforcer_Reserve ::
  "('c, 'ce, 'd, 'de, 't) quota_ports \<Rightarrow> time \<Rightarrow> QuotaRequest \<Rightarrow> ('c, 'd, 't) Enforcer \<Rightarrow>
   (quota_refusal + Reservation) \<times> ('c, 'd, 't) Enforcer" where
  "Enforcer_Reserve P now req e =
     (case tenant_limits P now (qr_Tenant req) e of
        (Inl err, e') \<Rightarrow> failed err e'
      | (Inr lim, e') \<Rightarrow>
          let limits = ApplicableLimits (tl_quotas lim) (qr_At req) in
          if length limits = 0 then (Inr zero_Reservation, e')
          else
            let estimate = EstimateTokens (qr_Prompt req) (qr_MaxOutputTokens req) (qr_Choices req)
                             (qc_DefaultMaxOutput (en_cfg e'));
                (cost, priced) = priceEstimate P req estimate
            in if \<not> priced then unpriceable req e'
               else
                 let amount = \<lparr>u_Requests = 1, u_Tokens = Total estimate, u_Cost = cost\<rparr>
                 in reserve_rounds maxSeedRounds P req (tl_tenantID lim) limits amount e')"

definition actualUsage ::
  "('c, 'ce, 'd, 'de, 't) quota_ports \<Rightarrow> Reservation \<Rightarrow> Outcome \<Rightarrow> QuotaUsage" where
  "actualUsage P res outcome =
     (let chosen = ChosenTarget outcome in
      if o_Status outcome = StatusExhausted \<or> chosen = '''' then zero_quota_usage
      else if Total (o_Usage outcome) = 0 then rv_Reserved res
      else
        let actual = \<lparr>u_Requests = 1, u_Tokens = Total (o_Usage outcome), u_Cost = 0\<rparr> in
        case qp_RatesAt P of
          None \<Rightarrow> actual
        | Some RatesAt \<Rightarrow>
            (case RatesAt (rv_At res) chosen of
               None \<Rightarrow> actual
             | Some (rates, _) \<Rightarrow> actual\<lparr>u_Cost := Rates_Cost rates (o_Usage outcome)\<rparr>))"

fun flush_windows :: "uuid \<Rightarrow> Window list \<Rightarrow> QuotaUsage \<Rightarrow> Flusher \<Rightarrow> Flusher" where
  "flush_windows tenantID [] actual f = f"
| "flush_windows tenantID (w # ws) actual f =
     flush_windows tenantID ws actual
       (Flusher_Add \<lparr>wu_TenantID = tenantID, wu_Window = w, wu_Usage = actual\<rparr> f)"

definition Enforcer_Reconcile ::
  "('c, 'ce, 'd, 'de, 't) quota_ports \<Rightarrow> Reservation \<Rightarrow> Outcome \<Rightarrow> ('c, 'd, 't) Enforcer \<Rightarrow>
   ('c, 'd, 't) Enforcer" where
  "Enforcer_Reconcile P res outcome e =
     (if Reservation_IsZero res then e
      else
        let actual = actualUsage P res outcome;
            delta = usage_Sub actual (rv_Reserved res);
            e1 = (if \<not> usage_IsZero delta
                  then e\<lparr>en_counters := snd (qp_Adjust P (rv_TenantID res) (rv_Windows res) delta (en_counters e))\<rparr>
                  else e)
        in if usage_IsZero actual then e1
           else e1\<lparr>en_flusher := flush_windows (rv_TenantID res) (rv_Windows res) actual (en_flusher e1)\<rparr>)"

text \<open>
  \<open>resync\<close> ranges over a Go map: \<open>order\<close> is the iteration order. It rehydrates every tenant and
  goes on after a failure.
\<close>

fun resync_tenants ::
  "('c, 'ce, 'd, 'de, 't) quota_ports \<Rightarrow> time \<Rightarrow> tenantLimits list \<Rightarrow> ('c, 'd, 't) Enforcer \<Rightarrow> ('c, 'd, 't) Enforcer" where
  "resync_tenants P now [] e = e"
| "resync_tenants P now (lim # lims) e =
     (let limits = ApplicableLimits (tl_quotas lim) now in
      if length limits = 0 then resync_tenants P now lims e
      else resync_tenants P now lims (snd (rehydrate P (tl_tenantID lim) (map wl_Window limits) e)))"

definition resync ::
  "('c, 'ce, 'd, 'de, 't) quota_ports \<Rightarrow> (tenantLimits list \<Rightarrow> tenantLimits list) \<Rightarrow> time \<Rightarrow>
   ('c, 'd, 't) Enforcer \<Rightarrow> ('c, 'd, 't) Enforcer" where
  "resync P order now e =
     (let tenants = order (map snd (en_limits e));
          e' = resync_tenants P now tenants e
      in e'\<lparr>en_resyncs := i64 (en_resyncs e' + 1)\<rparr>)"

text \<open>One turn of \<open>resyncLoop\<close>: stopped, the ticker, or the wake channel.\<close>

definition resyncLoop_turn ::
  "('c, 'ce, 'd, 'de, 't) quota_ports \<Rightarrow> (tenantLimits list \<Rightarrow> tenantLimits list) \<Rightarrow> time \<Rightarrow> bool \<Rightarrow>
   ('c, 'd, 't) Enforcer \<Rightarrow> ('c, 'd, 't) Enforcer option" where
  "resyncLoop_turn P order now ticked e =
     (if en_stopped e then None
      else if ticked then Some (resync P order now e)
      else if en_wake e then Some (resync P order now (e\<lparr>en_wake := False\<rparr>))
      else Some e)"

definition Enforcer_Close :: "('c, 'd, 't) Enforcer \<Rightarrow> ('c, 'd, 't) Enforcer" where
  "Enforcer_Close e = e\<lparr>en_stopped := True, en_flusher := Flusher_Close (en_flusher e)\<rparr>"

subsection \<open>What a reservation is decided on\<close>

text \<open>The live counter of a window or, when it is missing, what the store holds for it.\<close>

definition seeded_usage ::
  "('c \<Rightarrow> 'k \<Rightarrow> QuotaUsage option) \<Rightarrow> (uuid \<Rightarrow> Window \<Rightarrow> 'k) \<Rightarrow>
   ('d \<Rightarrow> uuid \<times> WindowKind \<times> time \<Rightarrow> QuotaUsage) \<Rightarrow> uuid \<Rightarrow> 'c \<Rightarrow> 'd \<Rightarrow> Window \<Rightarrow> QuotaUsage" where
  "seeded_usage counter key stored t c s w =
     (case counter c (key t w) of Some u \<Rightarrow> u | None \<Rightarrow> stored s (row_of t w))"

text \<open>The limits name different counters of open windows, and every number is small enough to be
  compared exactly.\<close>

definition reserve_in_range ::
  "(uuid \<Rightarrow> Window \<Rightarrow> 'k) \<Rightarrow> (Window \<Rightarrow> bool) \<Rightarrow> (Window \<Rightarrow> QuotaUsage) \<Rightarrow> uuid \<Rightarrow> WindowLimit list \<Rightarrow>
   QuotaUsage \<Rightarrow> bool" where
  "reserve_in_range key open_w used t limits amount \<longleftrightarrow>
     distinct (map (\<lambda>l. key t (wl_Window l)) limits) \<and> usage_exact amount \<and>
     (\<forall>l \<in> set limits. lua_exact (wl_MaxCost l) \<and> open_w (wl_Window l) \<and>
        usage_exact (used (wl_Window l)) \<and> nonneg_quota_usage (used (wl_Window l)))"

definition diff_usage :: "QuotaUsage \<Rightarrow> QuotaUsage \<Rightarrow> QuotaUsage" where
  "diff_usage u v = \<lparr>u_Requests = u_Requests u - u_Requests v, u_Tokens = u_Tokens u - u_Tokens v,
     u_Cost = u_Cost u - u_Cost v\<rparr>"

definition reservation_of :: "QuotaRequest \<Rightarrow> uuid \<Rightarrow> WindowLimit list \<Rightarrow> QuotaUsage \<Rightarrow> Reservation" where
  "reservation_of req t limits amount =
     \<lparr>rv_TenantID = t, rv_At = qr_At req, rv_Windows = map wl_Window limits, rv_Reserved = amount\<rparr>"

section \<open>Outage policy and the cache of limits\<close>

lemma failed_result:
  "fst (failed err e) = (if qc_OnUnavailable (en_cfg e) = FailClosed then Inl (ErrQuotaUnavailable err)
     else Inr zero_Reservation)"
  "en_counters (snd (failed err e)) = en_counters e" "en_durable (snd (failed err e)) = en_durable e"
  by (simp_all add: failed_def Let_def)

lemma recovered_backends [simp]:
  "en_counters (recovered e) = en_counters e" "en_durable (recovered e) = en_durable e"
  "en_flusher (recovered e) = en_flusher e" "en_cfg (recovered e) = en_cfg e"
  by (simp_all add: recovered_def requestResync_def)

lemma map_of_alist_put [simp]: "map_of (alist_put k v al) = (map_of al)(k \<mapsto> v)"
  by (induction al) (auto simp: fun_eq_iff)

lemma tenant_limits_backends:
  assumes "tenant_limits P now t e = (r, e')"
  shows "en_counters e' = en_counters e" "en_durable e' = en_durable e" "en_cfg e' = en_cfg e"
    "en_flusher e' = en_flusher e"
  using assms by (auto simp: tenant_limits_def Let_def split: option.splits if_splits prod.splits sum.splits)

text \<open>The limits enforced are younger than the TTL, read just now, or the cached ones because the
  refresh failed.\<close>

lemma tenant_limits_fresh:
  assumes "tenant_limits P now t e = (Inr lim, e')"
  shows "now - tl_fetched lim < qc_LimitsTTL (en_cfg e) \<and> map_of (en_limits e) t = Some lim \<and> e' = e \<or>
    (\<exists>fresh s. loadLimits P t (en_tenants e) = (Inr fresh, s) \<and> lim = fresh\<lparr>tl_fetched := now\<rparr> \<and>
       map_of (en_limits e') t = Some lim) \<or>
    (\<exists>err s. loadLimits P t (en_tenants e) = (Inl err, s) \<and> map_of (en_limits e) t = Some lim)"
  using assms by (auto simp: tenant_limits_def Let_def split: option.splits if_splits prod.splits sum.splits)

section \<open>Pricing the estimate\<close>

lemma dearest_target_ge:
  "dearest \<le> fst (dearest_target RatesAt at est ts (dearest, priced))"
proof (induction ts arbitrary: dearest priced)
  case (Cons t ts)
  have "dearest \<le> fst (dearest_target RatesAt at est ts (if c > dearest then c else dearest, True))" for c
    using Cons [of "if c > dearest then c else dearest" True] by (auto split: if_splits)
  then show ?case using Cons by (auto simp: Let_def split: option.split)
qed simp

lemma dearest_target_covers:
  assumes "t \<in> set ts" "RatesAt at t = Some (rates, v)"
  shows "Rates_Cost rates est \<le> fst (dearest_target RatesAt at est ts (dearest, priced)) \<and>
    snd (dearest_target RatesAt at est ts (dearest, priced))"
  using assms(1)
proof (induction ts arbitrary: dearest priced)
  case (Cons t' ts)
  have priced: "snd (dearest_target RatesAt at est ts (d, True))" for d
    by (induction ts arbitrary: d) (auto simp: Let_def split: option.split)
  show ?case
  proof (cases "t' = t")
    case True
    with assms(2) priced show ?thesis
      using dearest_target_ge [of "if Rates_Cost rates est > dearest then Rates_Cost rates est else dearest"
          RatesAt at est ts True]
      by (auto simp: Let_def split: if_splits)
  next
    case False
    with Cons show ?thesis by (auto simp: Let_def split: option.split)
  qed
qed simp

lemma dearest_target_bound:
  assumes "dearest \<le> m" "\<forall>t \<in> set ts. \<forall>rates v. RatesAt at t = Some (rates, v) \<longrightarrow> Rates_Cost rates est \<le> m"
  shows "fst (dearest_target RatesAt at est ts (dearest, priced)) \<le> m"
  using assms
proof (induction ts arbitrary: dearest priced)
  case (Cons t ts)
  then show ?case by (cases "RatesAt at t") (auto simp: Let_def)
qed simp

section \<open>Reserving and reconciling\<close>

lemma usage_Sub_exact:
  assumes "usage_exact a" "usage_exact b"
  shows "usage_Sub a b = diff_usage a b"
proof -
  have "i64 (x - y) = x - y" if "lua_exact x" "lua_exact y" for x y
    using that by (intro i64_id) (auto simp: lua_exact_def in_i64_def abs_le_iff)
  with assms show ?thesis by (simp add: usage_Sub_def diff_usage_def usage_exact_def)
qed

lemma usage_diff_fits:
  assumes "usage_exact u" "usage_exact a" "usage_exact b"
  shows "usage_sum_in_i64 u (diff_usage a b)"
proof -
  have "in_i64 (x + (y - z))" if "lua_exact x" "lua_exact y" "lua_exact z" for x y z
    using that by (auto simp: lua_exact_def in_i64_def abs_le_iff)
  with assms show ?thesis by (simp add: usage_sum_in_i64_def diff_usage_def usage_exact_def)
qed

text \<open>The enforcer on any backends that keep the two contracts.\<close>

locale quota_backends =
  quota_counters Reserve Seed Adjust counter key healthy open_window +
  usage_store AddDeltas Get stored sound up
  for Reserve :: "uuid \<Rightarrow> WindowLimit list \<Rightarrow> QuotaUsage \<Rightarrow> 'c \<Rightarrow> ('ce + CounterReservation) \<times> 'c"
    and Seed Adjust and counter :: "'c \<Rightarrow> 'k \<Rightarrow> QuotaUsage option" and key healthy open_window
    and AddDeltas :: "WindowUsage list \<Rightarrow> 'd \<Rightarrow> 'de option \<times> 'd" and Get stored sound up +
  fixes P :: "('c, 'ce, 'd, 'de, 't) quota_ports"
  assumes ports: "qp_Reserve P = Reserve" "qp_Seed P = Seed" "qp_Adjust P = Adjust" "qp_Get P = Get"
begin

lemma durable_seeds_up:
  assumes "up s"
  shows "\<exists>s'. durable_seeds P t ws s =
    (Inr (map (\<lambda>w. \<lparr>wu_TenantID = t, wu_Window = w, wu_Usage = stored s (row_of t w)\<rparr>) ws), s') \<and>
    up s' \<and> stored s' = stored s"
  using assms
proof (induction ws arbitrary: s)
  case (Cons w ws)
  obtain u s1 where g: "Get t w s = (Inr u, s1)" "up s1" using get_up [OF Cons.prems] by blast
  with get_ok [OF g(1)] get_same [OF g(1)] Cons.IH [OF g(2)] show ?case by (auto simp: ports)
qed simp

abbreviation seeded :: "uuid \<Rightarrow> 'c \<Rightarrow> 'd \<Rightarrow> Window \<Rightarrow> QuotaUsage" where
  "seeded \<equiv> seeded_usage counter key stored"

abbreviation reserve_conditions :: "uuid \<Rightarrow> WindowLimit list \<Rightarrow> QuotaUsage \<Rightarrow> 'c \<Rightarrow> 'd \<Rightarrow> bool" where
  "reserve_conditions t limits amount c s \<equiv>
     healthy c \<and> up s \<and> reserve_in_range key (open_window c) (seeded t c s) t limits amount"

lemma conditions_counter:
  assumes "reserve_conditions t limits amount c s" "l \<in> set limits"
  shows "counter c (key t (wl_Window l)) = Some u \<longrightarrow> usage_exact u"
  using assms by (auto simp: reserve_in_range_def seeded_usage_def split: option.splits)

lemma rehydrate_missing:
  assumes cond: "reserve_conditions t limits amount (en_counters e) (en_durable e)"
    and ws: "ws = map wl_Window (filter (\<lambda>l. counter (en_counters e) (key t (wl_Window l)) = None) limits)"
  shows "\<exists>e'. rehydrate P t ws e = (True, e') \<and> healthy (en_counters e') \<and> up (en_durable e') \<and>
    open_window (en_counters e') = open_window (en_counters e) \<and> stored (en_durable e') = stored (en_durable e) \<and>
    (\<forall>l \<in> set limits. counter (en_counters e') (key t (wl_Window l)) =
       Some (seeded t (en_counters e) (en_durable e) (wl_Window l))) \<and>
    (\<forall>k. k \<notin> (\<lambda>l. key t (wl_Window l)) ` set limits \<longrightarrow> counter (en_counters e') k = counter (en_counters e) k) \<and>
    en_flusher e' = en_flusher e \<and> en_cfg e' = en_cfg e"
proof -
  let ?c = "en_counters e" and ?s = "en_durable e"
  let ?seeds = "map (\<lambda>w. \<lparr>wu_TenantID = t, wu_Window = w, wu_Usage = stored ?s (row_of t w)\<rparr>) ws"
  obtain s' where s': "durable_seeds P t ws ?s = (Inr ?seeds, s')" "up s'" "stored s' = stored ?s"
    using durable_seeds_up [of ?s t ws] cond by (auto simp: reserve_in_range_def)
  have mem: "w \<in> set ws \<longleftrightarrow> (\<exists>l \<in> set limits. w = wl_Window l \<and> counter ?c (key t w) = None)" for w
    by (auto simp: ws)
  have "distinct (map (\<lambda>s. key t (wu_Window s)) ?seeds)"
    using cond by (auto simp: ws reserve_in_range_def comp_def distinct_map inj_on_def)
  moreover have "\<forall>s \<in> set ?seeds. usage_exact (wu_Usage s) \<and> nonneg_quota_usage (wu_Usage s) \<and>
      open_window ?c (wu_Window s) \<and> (\<forall>u. counter ?c (key t (wu_Window s)) = Some u \<longrightarrow> usage_exact u)"
    using cond by (fastforce simp: mem reserve_in_range_def seeded_usage_def)
  ultimately obtain c' where c': "Seed ?seeds ?c = (None, c')" "healthy c'" "open_window c' = open_window ?c"
    and cnt: "\<And>k. counter c' k = (case List.find (\<lambda>s. key t (wu_Window s) = k) ?seeds of
        Some s \<Rightarrow> Some (raised (wu_Usage s) (counter ?c k)) | None \<Rightarrow> counter ?c k)"
    using seed [of ?c ?seeds t] cond by (auto simp: reserve_in_range_def)
  have seeded: "counter c' (key t (wl_Window l)) = Some (seeded t ?c ?s (wl_Window l))" if l: "l \<in> set limits" for l
  proof (cases "counter ?c (key t (wl_Window l))")
    case None
    then have "\<exists>x \<in> set ?seeds. key t (wu_Window x) = key t (wl_Window l)"
      using l by (auto simp: ws)
    then obtain x where x: "List.find (\<lambda>s. key t (wu_Window s) = key t (wl_Window l)) ?seeds = Some x"
      by (metis (mono_tags, lifting) find_None_iff option.exhaust)
    then have "x \<in> set ?seeds" "key t (wu_Window x) = key t (wl_Window l)" by (auto simp: find_Some_iff)
    then obtain l' where l': "l' \<in> set limits" "wu_Window x = wl_Window l'" "wu_Usage x = stored ?s (row_of t (wl_Window l'))"
      by (auto simp: ws)
    then have "l' = l"
      using \<open>key t (wu_Window x) = key t (wl_Window l)\<close> l cond by (auto simp: reserve_in_range_def distinct_map inj_on_def)
    with x l' None show ?thesis by (simp add: cnt raised_def seeded_usage_def)
  next
    case (Some u)
    then have "List.find (\<lambda>s. key t (wu_Window s) = key t (wl_Window l)) ?seeds = None"
      by (auto simp: find_None_iff mem)
    with Some show ?thesis by (simp add: cnt seeded_usage_def)
  qed
  have other: "counter c' k = counter ?c k" if "k \<notin> (\<lambda>l. key t (wl_Window l)) ` set limits" for k
  proof -
    have "List.find (\<lambda>s. key t (wu_Window s) = k) ?seeds = None" using that by (auto simp: find_None_iff ws)
    then show ?thesis by (simp add: cnt)
  qed
  show ?thesis
    using s' c' seeded other by (simp add: rehydrate_def ports)
qed

text \<open>One round with every counter present decides.\<close>

lemma round_present:
  assumes "healthy (en_counters e)" "reserve_in_range key (open_window (en_counters e)) used t limits amount"
    and present: "\<forall>l \<in> set limits. counter (en_counters e) (key t (wl_Window l)) = Some (used (wl_Window l))"
  defines "r \<equiv> spec_reserve (\<lambda>l. Some (used (wl_Window l))) limits amount"
  shows "\<exists>e'. reserve_rounds (Suc n) P req t limits amount e =
      ((case cr_Blocked r of Some b \<Rightarrow> Inl (QuotaExceededError b) | None \<Rightarrow> Inr (reservation_of req t limits amount)), e') \<and>
    healthy (en_counters e') \<and> en_durable e' = en_durable e \<and> en_flusher e' = en_flusher e \<and> en_cfg e' = en_cfg e \<and>
    (\<forall>k. counter (en_counters e') k =
       (if cr_Blocked r = None \<and> k \<in> (\<lambda>l. key t (wl_Window l)) ` set limits
        then map_option (\<lambda>u. plus_usage u amount) (counter (en_counters e) k) else counter (en_counters e) k))"
proof -
  have r: "r = spec_reserve (\<lambda>l. counter (en_counters e) (key t (wl_Window l))) limits amount"
    unfolding r_def using present by (intro spec_reserve_cong) simp
  have miss: "cr_Missing r = []" by (simp add: r_def spec_reserve_missing)
  have "\<exists>c'. Reserve t limits amount (en_counters e) = (Inr r, c') \<and> healthy c' \<and>
      open_window c' = open_window (en_counters e) \<and>
      (\<forall>k. counter c' k =
          (if granted r \<and> k \<in> (\<lambda>l. key t (wl_Window l)) ` set limits
           then map_option (\<lambda>u. plus_usage u amount) (counter (en_counters e) k) else counter (en_counters e) k))"
    using assms(1,2) present by (intro reserve [OF _ _ _ _ r]) (auto simp: reserve_in_range_def)
  then show ?thesis
    using miss by (auto simp: ports granted_def reservation_of_def Let_def split: option.split)
qed

text \<open>With both backends up, a reservation is decided in at most two rounds, on the live counters
  and, for those missing, on what the store holds.\<close>

lemma rounds_decide:
  assumes cond: "reserve_conditions t limits amount (en_counters e) (en_durable e)"
  defines "used \<equiv> seeded t (en_counters e) (en_durable e)"
  defines "r \<equiv> spec_reserve (\<lambda>l. Some (used (wl_Window l))) limits amount"
  shows "\<exists>e'. reserve_rounds (Suc (Suc n)) P req t limits amount e =
      ((case cr_Blocked r of Some b \<Rightarrow> Inl (QuotaExceededError b) | None \<Rightarrow> Inr (reservation_of req t limits amount)), e') \<and>
    healthy (en_counters e') \<and> stored (en_durable e') = stored (en_durable e) \<and>
    en_flusher e' = en_flusher e \<and> en_cfg e' = en_cfg e \<and>
    (\<forall>l \<in> set limits. counter (en_counters e') (key t (wl_Window l)) =
       Some (if cr_Blocked r = None then plus_usage (used (wl_Window l)) amount else used (wl_Window l))) \<and>
    (\<forall>k. k \<notin> (\<lambda>l. key t (wl_Window l)) ` set limits \<longrightarrow> counter (en_counters e') k = counter (en_counters e) k)"
proof (cases "\<forall>l \<in> set limits. counter (en_counters e) (key t (wl_Window l)) \<noteq> None")
  case True
  then have "\<forall>l \<in> set limits. counter (en_counters e) (key t (wl_Window l)) = Some (used (wl_Window l))"
    by (auto simp: used_def seeded_usage_def split: option.split)
  from round_present [OF _ _ this, of amount "Suc n" req] cond this show ?thesis
    by (fastforce simp: r_def used_def)
next
  case False
  let ?v = "\<lambda>l. counter (en_counters e) (key t (wl_Window l))"
  define r0 where "r0 = spec_reserve ?v limits amount"
  have miss: "cr_Missing r0 = map wl_Window (filter (\<lambda>l. ?v l = None) limits)" "cr_Missing r0 \<noteq> []"
    using False by (auto simp: r0_def spec_reserve_missing filter_empty_conv)
  then have ng: "\<not> granted r0" by (simp add: granted_def)
  have "\<exists>c'. Reserve t limits amount (en_counters e) = (Inr r0, c') \<and> healthy c' \<and>
      open_window c' = open_window (en_counters e) \<and>
      (\<forall>k. counter c' k =
          (if granted r0 \<and> k \<in> (\<lambda>l. key t (wl_Window l)) ` set limits
           then map_option (\<lambda>u. plus_usage u amount) (counter (en_counters e) k) else counter (en_counters e) k))"
    using cond conditions_counter [OF cond] by (intro reserve [OF _ _ _ _ r0_def]) (auto simp: reserve_in_range_def)
  then obtain c1 where c1: "Reserve t limits amount (en_counters e) = (Inr r0, c1)" "healthy c1"
      "open_window c1 = open_window (en_counters e)" "counter c1 = counter (en_counters e)"
    using ng by (auto simp: fun_eq_iff)
  let ?e1 = "e\<lparr>en_counters := c1\<rparr>"
  have sd: "seeded t c1 s = seeded t (en_counters e) s" for s by (simp add: seeded_usage_def c1(4) fun_eq_iff)
  then have "reserve_conditions t limits amount (en_counters ?e1) (en_durable ?e1)" using cond c1 by simp
  from rehydrate_missing [OF this, of "cr_Missing r0"] obtain e2 where
    e2: "rehydrate P t (cr_Missing r0) ?e1 = (True, e2)" "healthy (en_counters e2)" "stored (en_durable e2) = stored (en_durable e)"
      "open_window (en_counters e2) = open_window (en_counters e)" "en_flusher e2 = en_flusher e" "en_cfg e2 = en_cfg e"
    and present: "\<forall>l \<in> set limits. counter (en_counters e2) (key t (wl_Window l)) = Some (used (wl_Window l))"
    and other: "\<forall>k. k \<notin> (\<lambda>l. key t (wl_Window l)) ` set limits \<longrightarrow> counter (en_counters e2) k = counter (en_counters e) k"
    using miss(1) c1 sd by (auto simp: used_def)
  have "reserve_rounds (Suc (Suc n)) P req t limits amount e = reserve_rounds (Suc n) P req t limits amount e2"
    using c1(1) miss(2) e2(1) by (subst reserve_rounds.simps) (simp add: ports Let_def del: reserve_rounds.simps)
  with round_present [of e2 used t limits amount n req] e2 present other cond show ?thesis
    by (fastforce simp: r_def used_def)
qed

lemma Reserve_decides:
  assumes lim: "tenant_limits P now (qr_Tenant req) e = (Inr lim, e1)"
    and limits: "limits = ApplicableLimits (tl_quotas lim) (qr_At req)" "limits \<noteq> []"
    and est: "est = EstimateTokens (qr_Prompt req) (qr_MaxOutputTokens req) (qr_Choices req)
      (qc_DefaultMaxOutput (en_cfg e))"
    and price: "priceEstimate P req est = (cost, True)"
    and amount: "amount = \<lparr>u_Requests = 1, u_Tokens = Total est, u_Cost = cost\<rparr>"
    and cond: "reserve_conditions (tl_tenantID lim) limits amount (en_counters e) (en_durable e)"
  defines "used \<equiv> seeded (tl_tenantID lim) (en_counters e) (en_durable e)"
  defines "r \<equiv> spec_reserve (\<lambda>l. Some (used (wl_Window l))) limits amount"
  shows "\<exists>e'. Enforcer_Reserve P now req e =
      ((case cr_Blocked r of Some b \<Rightarrow> Inl (QuotaExceededError b)
        | None \<Rightarrow> Inr (reservation_of req (tl_tenantID lim) limits amount)), e') \<and>
    healthy (en_counters e') \<and> stored (en_durable e') = stored (en_durable e) \<and>
    en_flusher e' = en_flusher e \<and> en_cfg e' = en_cfg e \<and>
    (\<forall>l \<in> set limits. counter (en_counters e') (key (tl_tenantID lim) (wl_Window l)) =
       Some (if cr_Blocked r = None then plus_usage (used (wl_Window l)) amount else used (wl_Window l))) \<and>
    (\<forall>k. k \<notin> (\<lambda>l. key (tl_tenantID lim) (wl_Window l)) ` set limits \<longrightarrow>
       counter (en_counters e') k = counter (en_counters e) k)"
proof -
  note same = tenant_limits_backends [OF lim]
  have eq: "Enforcer_Reserve P now req e = reserve_rounds (Suc (Suc 1)) P req (tl_tenantID lim) limits amount e1"
    using limits(2) by (simp add: Enforcer_Reserve_def lim same Let_def price amount maxSeedRounds_def
        numeral_3_eq_3 flip: limits(1) est del: reserve_rounds.simps)
  have "reserve_conditions (tl_tenantID lim) limits amount (en_counters e1) (en_durable e1)"
    using cond same by simp
  from rounds_decide [OF this, of 1 req] show ?thesis unfolding eq same used_def r_def .
qed

lemma Reconcile_counters:
  assumes h: "healthy (en_counters e)" and d: "distinct (map (key (rv_TenantID res)) (rv_Windows res))"
    and ex: "usage_exact (rv_Reserved res)" "usage_exact (actualUsage P res out)"
    and fit: "\<forall>w \<in> set (rv_Windows res). \<forall>u. counter (en_counters e) (key (rv_TenantID res) w) = Some u \<longrightarrow>
      usage_exact u"
  shows "healthy (en_counters (Enforcer_Reconcile P res out e)) \<and>
    counter (en_counters (Enforcer_Reconcile P res out e)) k =
      (if k \<in> key (rv_TenantID res) ` set (rv_Windows res)
       then map_option (\<lambda>u. plus_usage u (diff_usage (actualUsage P res out) (rv_Reserved res)))
         (counter (en_counters e) k)
       else counter (en_counters e) k)"
proof (cases "Reservation_IsZero res \<or> usage_IsZero (usage_Sub (actualUsage P res out) (rv_Reserved res))")
  case True
  have "map_option (\<lambda>u. plus_usage u zero_quota_usage) x = x" for x by (cases x) simp_all
  with True show ?thesis
    using h usage_Sub_exact [OF ex(2,1)]
    by (auto simp: Enforcer_Reconcile_def Reservation_IsZero_def usage_IsZero_def Let_def)
next
  case False
  have "\<forall>w \<in> set (rv_Windows res). \<forall>u. counter (en_counters e) (key (rv_TenantID res) w) = Some u \<longrightarrow>
      usage_sum_in_i64 u (usage_Sub (actualUsage P res out) (rv_Reserved res))"
    using fit usage_diff_fits [OF _ ex(2,1)] by (simp add: usage_Sub_exact [OF ex(2,1)])
  from adjust [OF h d this] False show ?thesis
    by (auto simp: Enforcer_Reconcile_def Let_def ports usage_Sub_exact [OF ex(2,1)])
qed

end

end
