(* ===== verification/Redis_Scripts.thy ===== *)
theory Redis_Scripts
  imports Quota_Windows
begin

text \<open>
  The three Lua scripts of \<open>adapters/repositories/redisquota\<close> (\<open>reserve.lua\<close>, \<open>seed.lua\<close>,
  \<open>adjust.lua\<close>).

  Redis itself is outside the repository: its commands are the record \<open>redis_cmds\<close>, a parameter
  of every script, and the locale \<open>redis_server\<close> states the documented behaviour of the six
  commands the scripts call, through the map of live hashes (\<open>live now db\<close>) a server state
  stands for. A command runs at the time \<open>now\<close>, which Redis freezes while a script runs.

  Lua numbers are IEEE doubles: \<open>lua_num\<close> rounds an integer to the nearest one with 53
  significant bits. \<open>HINCRBY\<close> is exact and refuses to leave \<open>int64\<close>; a script it aborts keeps the
  writes already made.
\<close>

section \<open>Definitions\<close>

subsection \<open>Lua numbers and the commands of the server\<close>

function double_ulp :: "int \<Rightarrow> int" where
  "double_ulp a = (if a < 2 ^ 53 then 1 else 2 * double_ulp (a div 2))"
  by pat_completeness auto
termination
  by (relation "measure nat") auto

declare double_ulp.simps [simp del]

definition lua_num :: "int \<Rightarrow> int" where
  "lua_num n =
     (let u = double_ulp \<bar>n\<bar>; q = n div u; r = n mod u
      in u * (if 2 * r < u \<or> (2 * r = u \<and> even q) then q else q + 1))"

definition lua_add :: "int \<Rightarrow> int \<Rightarrow> int" where
  "lua_add a b = lua_num (a + b)"

datatype redis_error = IncrementOverflow

record 'db redis_cmds =
  c_EXISTS :: "int \<Rightarrow> string \<Rightarrow> 'db \<Rightarrow> bool"
  c_HGET :: "int \<Rightarrow> string \<Rightarrow> string \<Rightarrow> 'db \<Rightarrow> int option"
  c_HMGET :: "int \<Rightarrow> string \<Rightarrow> string list \<Rightarrow> 'db \<Rightarrow> int option list"
  c_HSET :: "int \<Rightarrow> string \<Rightarrow> string \<Rightarrow> int \<Rightarrow> 'db \<Rightarrow> 'db"
  c_HINCRBY :: "int \<Rightarrow> string \<Rightarrow> string \<Rightarrow> int \<Rightarrow> 'db \<Rightarrow> redis_error + 'db"
  c_EXPIREAT :: "int \<Rightarrow> string \<Rightarrow> int \<Rightarrow> 'db \<Rightarrow> 'db"

datatype reply = RStr string | RInt int

text \<open>Lua counts from 1; \<open>ARGV\<close> holds the integers the client rendered in decimal.\<close>

definition ARGV :: "int list \<Rightarrow> nat \<Rightarrow> int" where
  "ARGV args j = args ! (j - 1)"

definition KEYS :: "string list \<Rightarrow> nat \<Rightarrow> string" where
  "KEYS keys i = keys ! (i - 1)"

definition dims :: "string list" where
  "dims = [''requests'', ''tokens'', ''cost_nanos'']"

subsection \<open>reserve.lua\<close>

fun hincr_nonzero ::
  "'db redis_cmds \<Rightarrow> int \<Rightarrow> string \<Rightarrow> (string \<times> int) list \<Rightarrow> 'db \<Rightarrow> redis_error option \<times> 'db" where
  "hincr_nonzero R now k [] db = (None, db)"
| "hincr_nonzero R now k ((f, n) # rest) db =
     (if lua_num n \<noteq> 0 then
        (case c_HINCRBY R now k f n db of
           Inl e \<Rightarrow> (Some e, db)
         | Inr db' \<Rightarrow> hincr_nonzero R now k rest db')
      else hincr_nonzero R now k rest db)"

fun reserve_writes ::
  "'db redis_cmds \<Rightarrow> int \<Rightarrow> string list \<Rightarrow> int list \<Rightarrow> (nat \<Rightarrow> int) \<Rightarrow> nat list \<Rightarrow> reply list \<Rightarrow> 'db \<Rightarrow>
   (redis_error + reply list) \<times> 'db" where
  "reserve_writes R now keys args spent [] soft db = (Inr soft, db)"
| "reserve_writes R now keys args spent (i # is) soft db =
     (let base = 3 + (i - 1) * 3 in
      case hincr_nonzero R now (KEYS keys i) (zip dims [ARGV args 1, ARGV args 2, ARGV args 3]) db of
        (Some e, db1) \<Rightarrow> (Inl e, db1)
      | (None, db1) \<Rightarrow>
          let db2 = c_EXPIREAT R now (KEYS keys i) (ARGV args (base + 1)) db1;
              limit = lua_num (ARGV args (base + 3));
              soft' = (if ARGV args (base + 2) \<noteq> 1 \<and>
                          lua_add (spent i) (lua_num (ARGV args 3)) > limit
                       then soft @ [RInt (int i), RInt (spent i), RInt limit] else soft)
          in reserve_writes R now keys args spent is soft' db2)"

definition lua_spent :: "'db redis_cmds \<Rightarrow> int \<Rightarrow> string list \<Rightarrow> 'db \<Rightarrow> nat \<Rightarrow> int" where
  "lua_spent R now keys db i =
     (case c_HGET R now (KEYS keys i) ''cost_nanos'' db of Some v \<Rightarrow> lua_num v | None \<Rightarrow> 0)"

definition lua_blocked :: "'db redis_cmds \<Rightarrow> int \<Rightarrow> string list \<Rightarrow> int list \<Rightarrow> 'db \<Rightarrow> nat \<Rightarrow> bool" where
  "lua_blocked R now keys args db i =
     (let base = 3 + (i - 1) * 3
      in ARGV args (base + 2) = 1 \<and>
         lua_add (lua_spent R now keys db i) (lua_num (ARGV args 3)) > lua_num (ARGV args (base + 3)))"

definition reserve_script ::
  "'db redis_cmds \<Rightarrow> string list \<Rightarrow> int list \<Rightarrow> int \<Rightarrow> 'db \<Rightarrow> (redis_error + reply list) \<times> 'db" where
  "reserve_script R keys args now db =
     (let idx = [1..<Suc (length keys)];
          missing = filter (\<lambda>i. \<not> c_EXISTS R now (KEYS keys i) db) idx
      in if missing \<noteq> [] then (Inr (RStr ''missing'' # map (RInt \<circ> int) missing), db)
         else
           case List.find (lua_blocked R now keys args db) idx of
             Some i \<Rightarrow>
               (Inr [RStr ''blocked'', RInt (int i), RInt (lua_spent R now keys db i),
                     RInt (lua_num (ARGV args (3 + (i - 1) * 3 + 3)))], db)
           | None \<Rightarrow> reserve_writes R now keys args (lua_spent R now keys db) idx [RStr ''ok''] db)"

subsection \<open>seed.lua and adjust.lua\<close>

fun seed_fields ::
  "'db redis_cmds \<Rightarrow> int \<Rightarrow> string \<Rightarrow> (string \<times> int option \<times> int) list \<Rightarrow> 'db \<Rightarrow> 'db" where
  "seed_fields R now k [] db = db"
| "seed_fields R now k ((f, cur, v) # rest) db =
     seed_fields R now k rest
       (case cur of
          None \<Rightarrow> c_HSET R now k f v db
        | Some c \<Rightarrow> if lua_num c < lua_num v then c_HSET R now k f v db else db)"

fun seed_loop :: "'db redis_cmds \<Rightarrow> int \<Rightarrow> string list \<Rightarrow> int list \<Rightarrow> nat list \<Rightarrow> 'db \<Rightarrow> 'db" where
  "seed_loop R now keys args [] db = db"
| "seed_loop R now keys args (i # is) db =
     (let base = (i - 1) * 4; k = KEYS keys i;
          cur = c_HMGET R now k dims db;
          db1 = seed_fields R now k
                  (zip dims (zip cur [ARGV args (base + 1), ARGV args (base + 2), ARGV args (base + 3)])) db
      in seed_loop R now keys args is (c_EXPIREAT R now k (ARGV args (base + 4)) db1))"

definition seed_script ::
  "'db redis_cmds \<Rightarrow> string list \<Rightarrow> int list \<Rightarrow> int \<Rightarrow> 'db \<Rightarrow> (redis_error + int) \<times> 'db" where
  "seed_script R keys args now db =
     (Inr (int (length keys)), seed_loop R now keys args [1..<Suc (length keys)] db)"

fun adjust_fields ::
  "'db redis_cmds \<Rightarrow> int \<Rightarrow> string \<Rightarrow> (string \<times> int) list \<Rightarrow> 'db \<Rightarrow> redis_error option \<times> 'db" where
  "adjust_fields R now k [] db = (None, db)"
| "adjust_fields R now k ((f, n) # rest) db =
     (if n \<noteq> 0 then
        (case c_HINCRBY R now k f n db of
           Inl e \<Rightarrow> (Some e, db)
         | Inr db' \<Rightarrow> adjust_fields R now k rest db')
      else adjust_fields R now k rest db)"

fun adjust_loop ::
  "'db redis_cmds \<Rightarrow> int \<Rightarrow> string list \<Rightarrow> int list \<Rightarrow> nat list \<Rightarrow> 'db \<Rightarrow> redis_error option \<times> 'db" where
  "adjust_loop R now keys args [] db = (None, db)"
| "adjust_loop R now keys args (i # is) db =
     (if c_EXISTS R now (KEYS keys i) db then
        (case adjust_fields R now (KEYS keys i)
                (zip dims [ARGV args 1, ARGV args 2, ARGV args 3]) db of
           (Some e, db') \<Rightarrow> (Some e, db')
         | (None, db') \<Rightarrow> adjust_loop R now keys args is db')
      else adjust_loop R now keys args is db)"

definition adjust_script ::
  "'db redis_cmds \<Rightarrow> string list \<Rightarrow> int list \<Rightarrow> int \<Rightarrow> 'db \<Rightarrow> (redis_error + int) \<times> 'db" where
  "adjust_script R keys args now db =
     (case adjust_loop R now keys args [1..<Suc (length keys)] db of
        (Some e, db') \<Rightarrow> (Inl e, db')
      | (None, db') \<Rightarrow> (Inr (int (length keys)), db'))"

section \<open>The documented behaviour of the commands\<close>

text \<open>
  A server state stands for a map from keys to hashes. A hash whose expiry has passed is absent;
  writing a field of an absent key creates it with no expiry; setting an expiry in the past
  deletes the key.
\<close>

record redis_hash =
  rh_fields :: "string \<rightharpoonup> int"
  rh_expire :: "int option"

type_synonym redis = "string \<rightharpoonup> redis_hash"

definition purge :: "int \<Rightarrow> redis \<Rightarrow> redis" where
  "purge now db k =
     (case db k of
        None \<Rightarrow> None
      | Some h \<Rightarrow>
          (case rh_expire h of
             Some e \<Rightarrow> if e \<le> now then None else Some h
           | None \<Rightarrow> Some h))"

definition hash_or_empty :: "redis_hash option \<Rightarrow> redis_hash" where
  "hash_or_empty r = (case r of Some h \<Rightarrow> h | None \<Rightarrow> \<lparr>rh_fields = Map.empty, rh_expire = None\<rparr>)"

definition HGET :: "string \<Rightarrow> string \<Rightarrow> redis \<Rightarrow> int option" where
  "HGET k f db = (case db k of Some h \<Rightarrow> rh_fields h f | None \<Rightarrow> None)"

definition HSET :: "string \<Rightarrow> string \<Rightarrow> int \<Rightarrow> redis \<Rightarrow> redis" where
  "HSET k f n db =
     (let h = hash_or_empty (db k) in db(k \<mapsto> h\<lparr>rh_fields := (rh_fields h)(f \<mapsto> n)\<rparr>))"

definition HINCRBY :: "string \<Rightarrow> string \<Rightarrow> int \<Rightarrow> redis \<Rightarrow> redis_error + redis" where
  "HINCRBY k f n db =
     (let cur = (case HGET k f db of Some v \<Rightarrow> v | None \<Rightarrow> 0)
      in if in_i64 (cur + n) then Inr (HSET k f (cur + n) db) else Inl IncrementOverflow)"

definition EXPIREAT :: "int \<Rightarrow> string \<Rightarrow> int \<Rightarrow> redis \<Rightarrow> redis" where
  "EXPIREAT now k t db =
     (case db k of
        None \<Rightarrow> db
      | Some h \<Rightarrow> if t \<le> now then db(k := None) else db(k \<mapsto> h\<lparr>rh_expire := Some t\<rparr>))"

text \<open>The commands on the map of live hashes itself, and on a map that keeps expired ones.\<close>

definition live_cmds :: "redis redis_cmds" where
  "live_cmds = \<lparr>c_EXISTS = (\<lambda>now k db. db k \<noteq> None), c_HGET = (\<lambda>now. HGET),
     c_HMGET = (\<lambda>now k fs db. map (\<lambda>f. HGET k f db) fs), c_HSET = (\<lambda>now. HSET),
     c_HINCRBY = (\<lambda>now. HINCRBY), c_EXPIREAT = EXPIREAT\<rparr>"

definition keyspace_cmds :: "redis redis_cmds" where
  "keyspace_cmds = \<lparr>c_EXISTS = (\<lambda>now k db. purge now db k \<noteq> None),
     c_HGET = (\<lambda>now k f db. HGET k f (purge now db)),
     c_HMGET = (\<lambda>now k fs db. map (\<lambda>f. HGET k f (purge now db)) fs),
     c_HSET = (\<lambda>now k f v db. HSET k f v (purge now db)),
     c_HINCRBY = (\<lambda>now k f n db. HINCRBY k f n (purge now db)),
     c_EXPIREAT = (\<lambda>now k t db. EXPIREAT now k t (purge now db))\<rparr>"

lemma live_cmds_simps [simp]:
  "c_EXISTS live_cmds now k db \<longleftrightarrow> db k \<noteq> None"
  "c_HGET live_cmds now = HGET"
  "c_HMGET live_cmds now k fs db = map (\<lambda>f. HGET k f db) fs"
  "c_HSET live_cmds now = HSET"
  "c_HINCRBY live_cmds now = HINCRBY"
  "c_EXPIREAT live_cmds = EXPIREAT"
  by (simp_all add: live_cmds_def)

definition alive :: "int \<Rightarrow> redis \<Rightarrow> bool" where
  "alive now db \<longleftrightarrow> (\<forall>k h e. db k = Some h \<longrightarrow> rh_expire h = Some e \<longrightarrow> now < e)"

lemma purge_alive: "alive now db \<Longrightarrow> purge now db = db"
  by (rule ext) (fastforce simp: purge_def alive_def split: option.splits)

lemma alive_purge [simp]: "alive now (purge now db)"
  by (auto simp: alive_def purge_def split: option.splits if_splits)

lemma purge_idem [simp]: "purge now (purge now db) = purge now db"
  by (simp add: purge_alive)

lemma purge_later: "now \<le> now' \<Longrightarrow> purge now' (purge now db) = purge now' db"
  by (rule ext) (auto simp: purge_def split: option.splits)

lemma alive_HSET: "alive now db \<Longrightarrow> alive now (HSET k f n db)"
  by (auto simp: alive_def HSET_def hash_or_empty_def split: option.splits)

lemma alive_HINCRBY: "alive now db \<Longrightarrow> HINCRBY k f n db = Inr db' \<Longrightarrow> alive now db'"
  by (auto simp: HINCRBY_def Let_def alive_HSET split: if_splits)

lemma alive_EXPIREAT: "alive now db \<Longrightarrow> alive now (EXPIREAT now k t db)"
  by (auto simp: alive_def EXPIREAT_def split: option.splits)

locale redis_server =
  fixes R :: "'db redis_cmds" and live :: "int \<Rightarrow> 'db \<Rightarrow> redis"
  assumes exists: "c_EXISTS R now k db \<longleftrightarrow> live now db k \<noteq> None"
    and hget: "c_HGET R now k f db = HGET k f (live now db)"
    and hmget: "c_HMGET R now k fs db = map (\<lambda>f. HGET k f (live now db)) fs"
    and hset: "live now (c_HSET R now k f n db) = HSET k f n (live now db)"
    and hincrby: "map_sum id (live now) (c_HINCRBY R now k f n db) = HINCRBY k f n (live now db)"
    and expireat: "live now (c_EXPIREAT R now k t db) = EXPIREAT now k t (live now db)"
    and live_alive: "alive now (live now db)"
    and live_later: "now \<le> now' \<Longrightarrow> live now' db = purge now' (live now db)"
begin

lemma hincr_cases:
  "case c_HINCRBY R now k f n db of
     Inl e \<Rightarrow> HINCRBY k f n (live now db) = Inl e
   | Inr db' \<Rightarrow> HINCRBY k f n (live now db) = Inr (live now db')"
  using hincrby [of now k f n db] by (cases "c_HINCRBY R now k f n db") simp_all

lemma hincr_nonzero_live:
  "map_prod id (live now) (hincr_nonzero R now k fs db) = hincr_nonzero live_cmds now k fs (live now db)"
proof (induction fs arbitrary: db)
  case (Cons p fs)
  then show ?case
    using hincr_cases [where now = now and k = k and f = "fst p" and n = "snd p" and db = db]
    by (cases p; cases "c_HINCRBY R now k (fst p) (snd p) db") simp_all
qed simp

lemma adjust_fields_live:
  "map_prod id (live now) (adjust_fields R now k fs db) = adjust_fields live_cmds now k fs (live now db)"
proof (induction fs arbitrary: db)
  case (Cons p fs)
  then show ?case
    using hincr_cases [where now = now and k = k and f = "fst p" and n = "snd p" and db = db]
    by (cases p; cases "c_HINCRBY R now k (fst p) (snd p) db") simp_all
qed simp

lemma reserve_writes_live:
  "map_prod id (live now) (reserve_writes R now keys args spent is soft db) =
     reserve_writes live_cmds now keys args spent is soft (live now db)"
proof (induction "is" arbitrary: soft db)
  case (Cons i "is")
  then show ?case
    using hincr_nonzero_live [of now "KEYS keys i" "zip dims [ARGV args 1, ARGV args 2, ARGV args 3]" db]
    by (cases "hincr_nonzero R now (KEYS keys i) (zip dims [ARGV args 1, ARGV args 2, ARGV args 3]) db")
      (auto simp: Let_def expireat split: option.splits prod.splits)
qed simp

lemma lua_spent_live: "lua_spent R now keys db = lua_spent live_cmds now keys (live now db)"
  by (rule ext) (simp add: lua_spent_def hget)

lemma lua_blocked_live: "lua_blocked R now keys args db = lua_blocked live_cmds now keys args (live now db)"
  by (rule ext) (simp add: lua_blocked_def lua_spent_live)

lemma reserve_script_live:
  "map_prod id (live now) (reserve_script R keys args now db) =
     reserve_script live_cmds keys args now (live now db)"
  by (simp add: reserve_script_def exists lua_blocked_live lua_spent_live reserve_writes_live Let_def
      split: option.split del: upt_Suc)

lemma seed_fields_live:
  "live now (seed_fields R now k fs db) = seed_fields live_cmds now k fs (live now db)"
proof (induction fs arbitrary: db)
  case (Cons p fs)
  then show ?case by (cases p) (simp add: hset split: option.split)
qed simp

lemma seed_loop_live:
  "live now (seed_loop R now keys args is db) = seed_loop live_cmds now keys args is (live now db)"
  by (induction "is" arbitrary: db) (simp_all add: Let_def seed_fields_live expireat hmget)

lemma seed_script_live:
  "map_prod id (live now) (seed_script R keys args now db) =
     seed_script live_cmds keys args now (live now db)"
  by (simp add: seed_script_def seed_loop_live)

lemma adjust_loop_live:
  "map_prod id (live now) (adjust_loop R now keys args is db) =
     adjust_loop live_cmds now keys args is (live now db)"
proof (induction "is" arbitrary: db)
  case (Cons i "is")
  then show ?case
    using adjust_fields_live [of now "KEYS keys i" "zip dims [ARGV args 1, ARGV args 2, ARGV args 3]" db]
    by (cases "adjust_fields R now (KEYS keys i) (zip dims [ARGV args 1, ARGV args 2, ARGV args 3]) db")
      (auto simp: exists split: option.splits prod.splits)
qed simp

lemma adjust_script_live:
  "map_prod id (live now) (adjust_script R keys args now db) =
     adjust_script live_cmds keys args now (live now db)"
  using adjust_loop_live [of now keys args "[1..<Suc (length keys)]" db]
  by (cases "adjust_loop R now keys args [1..<Suc (length keys)] db")
    (auto simp: adjust_script_def split: option.splits prod.splits simp del: upt_Suc)

end

interpretation keyspace: redis_server keyspace_cmds purge
proof
  show "map_sum id (purge now) (c_HINCRBY keyspace_cmds now k f n db) = HINCRBY k f n (purge now db)"
    for now k f n db
  proof (cases "HINCRBY k f n (purge now db)")
    case (Inr db')
    then show ?thesis
      using alive_HINCRBY [OF alive_purge Inr] by (simp add: keyspace_cmds_def purge_alive)
  qed (simp add: keyspace_cmds_def)
qed (simp_all add: keyspace_cmds_def purge_alive alive_HSET alive_EXPIREAT purge_later)

end
