(* ===== verification/Redis_Counters.thy ===== *)
theory Redis_Counters
  imports Redis_Scripts Quota_Counters
begin

text \<open>
  The live quota counters, \<open>adapters/repositories/redisquota/counters.go\<close>: the Go client of the
  scripts of \<open>Redis_Scripts\<close>. A call may be lost before its script runs or after it ran
  (\<open>net_fault\<close>); the Go side sees the same error in both cases. The text form of a UUID belongs
  to a package outside the repository and is the parameter \<open>uuid_str\<close>.

  \<open>spec_reserve\<close> is the abstract check-and-reserve on the counters; \<open>Counters_Reserve\<close> refines it.
\<close>

section \<open>Definitions\<close>

subsection \<open>The client\<close>

datatype net_fault = NetOk | NetLost | NetTimeout

record 'db redis_client =
  rc_db :: 'db
  rc_now :: int
  rc_faults :: "net_fault list"

datatype counter_error =
    StoreUnavailable
  | ScriptFailed redis_error
  | ErrUnexpectedReply

definition run_script ::
  "(int \<Rightarrow> 'db \<Rightarrow> (redis_error + 'a) \<times> 'db) \<Rightarrow> 'db redis_client \<Rightarrow>
   (counter_error + 'a) \<times> 'db redis_client" where
  "run_script script c =
     (let (res, db') = script (rc_now c) (rc_db c) in
      case rc_faults c of
        NetLost # fs \<Rightarrow> (Inl StoreUnavailable, c\<lparr>rc_faults := fs\<rparr>)
      | NetTimeout # fs \<Rightarrow> (Inl StoreUnavailable, c\<lparr>rc_db := db', rc_faults := fs\<rparr>)
      | fs \<Rightarrow>
          ((case res of Inl e \<Rightarrow> Inl (ScriptFailed e) | Inr r \<Rightarrow> Inr r),
           c\<lparr>rc_db := db', rc_faults := tl fs\<rparr>))"

definition Key :: "(uuid \<Rightarrow> string) \<Rightarrow> uuid \<Rightarrow> Window \<Rightarrow> string" where
  "Key uuid_str tenantID w =
     ''q:{'' @ uuid_str tenantID @ ''}:'' @ w_Kind w @ '':'' @ FormatInt (Unix (w_Start w))"

definition expiryGrace :: duration where "expiryGrace = Hour"

definition expireAt :: "Window \<Rightarrow> int" where
  "expireAt w = Unix (w_End w + expiryGrace)"

definition reply_window :: "WindowLimit list \<Rightarrow> reply \<Rightarrow> Window option" where
  "reply_window limits v =
     (case v of
        RInt i \<Rightarrow>
          if i < 1 \<or> i > int (length limits) then None else Some (wl_Window (limits ! nat (i - 1)))
      | RStr _ \<Rightarrow> None)"

definition reply_int :: "reply \<Rightarrow> int" where
  "reply_int v = (case v of RInt n \<Rightarrow> n | RStr _ \<Rightarrow> 0)"

fun breach_triples :: "WindowLimit list \<Rightarrow> QuotaUsage \<Rightarrow> reply list \<Rightarrow> counter_error + QuotaBreach list" where
  "breach_triples limits amount (v # used # limit # rest) =
     (case reply_window limits v of
        None \<Rightarrow> Inl ErrUnexpectedReply
      | Some w \<Rightarrow>
          (case breach_triples limits amount rest of
             Inl e \<Rightarrow> Inl e
           | Inr out \<Rightarrow>
               Inr (\<lparr>b_Window = w, b_Used = reply_int used, b_Requested = u_Cost amount,
                     b_Limit = reply_int limit\<rparr> # out)))"
| "breach_triples limits amount _ = Inr []"

definition breaches :: "WindowLimit list \<Rightarrow> QuotaUsage \<Rightarrow> reply list \<Rightarrow> counter_error + QuotaBreach list" where
  "breaches limits amount vals =
     (if length vals mod 3 \<noteq> 0 then Inl ErrUnexpectedReply else breach_triples limits amount vals)"

fun reply_windows :: "WindowLimit list \<Rightarrow> reply list \<Rightarrow> counter_error + Window list" where
  "reply_windows limits [] = Inr []"
| "reply_windows limits (v # vs) =
     (case reply_window limits v of
        None \<Rightarrow> Inl ErrUnexpectedReply
      | Some w \<Rightarrow>
          (case reply_windows limits vs of Inl e \<Rightarrow> Inl e | Inr ws \<Rightarrow> Inr (w # ws)))"

definition parseReserve ::
  "reply list \<Rightarrow> WindowLimit list \<Rightarrow> QuotaUsage \<Rightarrow> counter_error + CounterReservation" where
  "parseReserve reply limits amount =
     (case reply of
        [] \<Rightarrow> Inl ErrUnexpectedReply
      | v # rest \<Rightarrow>
          let status = (case v of RStr s \<Rightarrow> s | RInt _ \<Rightarrow> '''') in
          if status = ''missing'' then
            (case reply_windows limits rest of
               Inl e \<Rightarrow> Inl e
             | Inr ws \<Rightarrow> Inr (no_reservation\<lparr>cr_Missing := ws\<rparr>))
          else if status = ''blocked'' then
            (case breaches limits amount rest of
               Inr [b] \<Rightarrow> Inr (no_reservation\<lparr>cr_Blocked := Some b\<rparr>)
             | _ \<Rightarrow> Inl ErrUnexpectedReply)
          else if status = ''ok'' then
            (case breaches limits amount rest of
               Inl e \<Rightarrow> Inl e
             | Inr soft \<Rightarrow> Inr (no_reservation\<lparr>cr_Soft := soft\<rparr>))
          else Inl ErrUnexpectedReply)"

definition reserve_args :: "WindowLimit list \<Rightarrow> QuotaUsage \<Rightarrow> int list" where
  "reserve_args limits amount =
     [u_Requests amount, u_Tokens amount, u_Cost amount] @
     concat (map (\<lambda>l. [expireAt (wl_Window l), if wl_Block l then 1 else 0, wl_MaxCost l]) limits)"

definition Counters_Reserve ::
  "'db redis_cmds \<Rightarrow> (uuid \<Rightarrow> string) \<Rightarrow> uuid \<Rightarrow> WindowLimit list \<Rightarrow> QuotaUsage \<Rightarrow> 'db redis_client \<Rightarrow>
   (counter_error + CounterReservation) \<times> 'db redis_client" where
  "Counters_Reserve R uuid_str tenantID limits amount c =
     (let keys = map (\<lambda>l. Key uuid_str tenantID (wl_Window l)) limits;
          args = reserve_args limits amount
      in case run_script (reserve_script R keys args) c of
           (Inl e, c') \<Rightarrow> (Inl e, c')
         | (Inr reply, c') \<Rightarrow> (parseReserve reply limits amount, c'))"

definition seedTenant ::
  "'db redis_cmds \<Rightarrow> (uuid \<Rightarrow> string) \<Rightarrow> uuid \<Rightarrow> WindowUsage list \<Rightarrow> 'db redis_client \<Rightarrow> counter_error option \<times> 'db redis_client" where
  "seedTenant R uuid_str tenantID seeds c =
     (let keys = map (\<lambda>s. Key uuid_str tenantID (wu_Window s)) seeds;
          args = concat (map (\<lambda>s. [u_Requests (wu_Usage s), u_Tokens (wu_Usage s),
                                   u_Cost (wu_Usage s), expireAt (wu_Window s)]) seeds)
      in case run_script (seed_script R keys args) c of
           (Inl e, c') \<Rightarrow> (Some e, c')
         | (Inr _, c') \<Rightarrow> (None, c'))"

text \<open>
  \<open>Seed\<close> groups the seeds by tenant in a Go map and ranges over it: \<open>order\<close> is the iteration
  order of that run, given the tenants present.
\<close>

fun seed_tenants ::
  "'db redis_cmds \<Rightarrow> (uuid \<Rightarrow> string) \<Rightarrow> WindowUsage list \<Rightarrow> uuid list \<Rightarrow> 'db redis_client \<Rightarrow> counter_error option \<times> 'db redis_client" where
  "seed_tenants R uuid_str seeds [] c = (None, c)"
| "seed_tenants R uuid_str seeds (t # ts) c =
     (case seedTenant R uuid_str t (filter (\<lambda>s. wu_TenantID s = t) seeds) c of
        (Some e, c') \<Rightarrow> (Some e, c')
      | (None, c') \<Rightarrow> seed_tenants R uuid_str seeds ts c')"

definition Counters_Seed ::
  "'db redis_cmds \<Rightarrow> (uuid \<Rightarrow> string) \<Rightarrow> (uuid list \<Rightarrow> uuid list) \<Rightarrow> WindowUsage list \<Rightarrow> 'db redis_client \<Rightarrow>
   counter_error option \<times> 'db redis_client" where
  "Counters_Seed R uuid_str order seeds c =
     seed_tenants R uuid_str seeds (order (remdups (map wu_TenantID seeds))) c"

definition Counters_Adjust ::
  "'db redis_cmds \<Rightarrow> (uuid \<Rightarrow> string) \<Rightarrow> uuid \<Rightarrow> Window list \<Rightarrow> QuotaUsage \<Rightarrow> 'db redis_client \<Rightarrow>
   counter_error option \<times> 'db redis_client" where
  "Counters_Adjust R uuid_str tenantID windows delta c =
     (if windows = [] \<or> usage_IsZero delta then (None, c)
      else
        let keys = map (Key uuid_str tenantID) windows
        in case run_script (adjust_script R keys [u_Requests delta, u_Tokens delta, u_Cost delta]) c of
             (Inl e, c') \<Rightarrow> (Some e, c')
           | (Inr _, c') \<Rightarrow> (None, c'))"

subsection \<open>What the counters hold, and the abstract check-and-reserve\<close>

definition hash_usage :: "redis_hash \<Rightarrow> QuotaUsage" where
  "hash_usage h =
     (let f = (\<lambda>d. case rh_fields h d of Some v \<Rightarrow> v | None \<Rightarrow> 0)
      in \<lparr>u_Requests = f ''requests'', u_Tokens = f ''tokens'', u_Cost = f ''cost_nanos''\<rparr>)"

definition counter_at :: "redis \<Rightarrow> string \<Rightarrow> QuotaUsage option" where
  "counter_at db k = map_option hash_usage (db k)"

definition live_usage ::
  "(int \<Rightarrow> 'db \<Rightarrow> redis) \<Rightarrow> (uuid \<Rightarrow> string) \<Rightarrow> 'db redis_client \<Rightarrow> uuid \<Rightarrow> Window \<Rightarrow> QuotaUsage option" where
  "live_usage live uuid_str c t w = counter_at (live (rc_now c) (rc_db c)) (Key uuid_str t w)"

text \<open>
  The conditions under which the scripts compute exactly: the limits name different counters,
  every number stays below \<open>2 ^ 52\<close>, and no counter is already past its expiry.
\<close>

definition reserve_ready ::
  "(int \<Rightarrow> 'db \<Rightarrow> redis) \<Rightarrow> (uuid \<Rightarrow> string) \<Rightarrow> 'db redis_client \<Rightarrow> uuid \<Rightarrow> WindowLimit list \<Rightarrow> QuotaUsage \<Rightarrow> bool" where
  "reserve_ready live uuid_str c t limits amount \<longleftrightarrow>
     distinct (map (\<lambda>l. Key uuid_str t (wl_Window l)) limits) \<and>
     usage_exact amount \<and>
     (\<forall>l \<in> set limits. lua_exact (wl_MaxCost l) \<and> rc_now c < expireAt (wl_Window l) \<and>
        (case live_usage live uuid_str c t (wl_Window l) of Some u \<Rightarrow> usage_exact u | None \<Rightarrow> True))"

definition reachable_store :: "'db redis_client \<Rightarrow> bool" where
  "reachable_store c \<longleftrightarrow> (case rc_faults c of NetLost # _ \<Rightarrow> False | NetTimeout # _ \<Rightarrow> False | _ \<Rightarrow> True)"

section \<open>Lua numbers\<close>

lemma lua_num_exact: "\<bar>n\<bar> < 2 ^ 53 \<Longrightarrow> lua_num n = n"
proof -
  assume "\<bar>n\<bar> < 2 ^ 53"
  then have "double_ulp \<bar>n\<bar> = 1" by (subst double_ulp.simps) simp
  then show ?thesis by (simp add: lua_num_def)
qed

lemma lua_num_2_53: "lua_num (2 ^ 53) = 2 ^ 53" "lua_num (- (2 ^ 53)) = - (2 ^ 53)"
  by code_simp+

lemma lua_exact_num: "lua_exact n \<Longrightarrow> lua_num n = n"
  by (rule lua_num_exact) (simp add: lua_exact_def)

lemma lua_exact_add: "lua_exact a \<Longrightarrow> lua_exact b \<Longrightarrow> lua_add a b = a + b"
proof -
  assume "lua_exact a" "lua_exact b"
  then have "\<bar>a + b\<bar> \<le> 2 ^ 53" by (simp add: lua_exact_def)
  then consider "\<bar>a + b\<bar> < 2 ^ 53" | "a + b = 2 ^ 53" | "a + b = - (2 ^ 53)" by linarith
  then show ?thesis
    by cases (simp_all only: lua_add_def lua_num_exact lua_num_2_53)
qed

lemma lua_exact_sum_in_i64: "lua_exact a \<Longrightarrow> lua_exact b \<Longrightarrow> in_i64 (a + b)"
  unfolding lua_exact_def in_i64_def by (auto simp: abs_le_iff)

section \<open>Indices and argument layout\<close>

lemma nth_concat_fixed:
  assumes "\<And>x. length (f x) = n" "i < length xs" "j < n"
  shows "concat (map f xs) ! (i * n + j) = f (xs ! i) ! j"
  using assms(2)
proof (induction xs arbitrary: i)
  case (Cons x xs)
  show ?case
  proof (cases i)
    case 0
    then show ?thesis using assms(1,3) by (simp add: nth_append)
  next
    case (Suc i')
    then have "concat (map f (x # xs)) ! (i * n + j) = concat (map f xs) ! (i' * n + j)"
      using assms(1) by (simp add: nth_append)
    with Suc Cons show ?thesis by simp
  qed
qed simp

lemma reserve_args_amount [simp]:
  "ARGV (reserve_args limits amount) (Suc 0) = u_Requests amount"
  "ARGV (reserve_args limits amount) 1 = u_Requests amount"
  "ARGV (reserve_args limits amount) 2 = u_Tokens amount"
  "ARGV (reserve_args limits amount) 3 = u_Cost amount"
  by (simp_all add: ARGV_def reserve_args_def numeral_2_eq_2 numeral_3_eq_3)

lemma reserve_args_limit:
  assumes "i < length limits" "1 \<le> j" "j \<le> 3"
  shows "ARGV (reserve_args limits amount) (3 + i * 3 + j) =
    [expireAt (wl_Window (limits ! i)), if wl_Block (limits ! i) then 1 else 0,
     wl_MaxCost (limits ! i)] ! (j - 1)"
proof -
  have "3 + i * 3 + j - 1 = 3 + (i * 3 + (j - 1))" using assms by simp
  then show ?thesis
    using assms nth_concat_fixed [where f = "\<lambda>l. [expireAt (wl_Window l), if wl_Block l then 1 else 0,
        wl_MaxCost l]" and n = 3 and i = i and j = "j - 1" and xs = limits]
    by (simp add: ARGV_def reserve_args_def)
qed

lemma reserve_args_limit_lua:
  assumes "i < length limits"
  shows "ARGV (reserve_args limits amount) (4 + i * 3) = expireAt (wl_Window (limits ! i))"
    "ARGV (reserve_args limits amount) (5 + i * 3) = (if wl_Block (limits ! i) then 1 else 0)"
    "ARGV (reserve_args limits amount) (6 + i * 3) = wl_MaxCost (limits ! i)"
  using reserve_args_limit [OF assms, of 1 amount] reserve_args_limit [OF assms, of 2 amount]
    reserve_args_limit [OF assms, of 3 amount]
  by (simp_all add: numeral_2_eq_2)

lemma upt_Suc_map: "[Suc 0..<Suc n] = map Suc [0..<n]"
  by (simp add: map_Suc_upt)

lemma filter_nth: "filter P xs = map ((!) xs) (filter (\<lambda>i. P (xs ! i)) [0..<length xs])"
proof -
  have "filter P (map ((!) xs) [0..<length xs]) = map ((!) xs) (filter (P \<circ> (!) xs) [0..<length xs])"
    by (simp add: filter_map)
  then show ?thesis by (simp add: map_nth comp_def)
qed

lemma find_map: "List.find P (map f xs) = map_option f (List.find (\<lambda>x. P (f x)) xs)"
  by (induction xs) simp_all

lemma find_nth: "List.find P xs = map_option ((!) xs) (List.find (\<lambda>i. P (xs ! i)) [0..<length xs])"
  using find_map [of P "(!) xs" "[0..<length xs]"] by (simp add: map_nth)

lemma find_cong_set: "(\<And>x. x \<in> set xs \<Longrightarrow> P x = Q x) \<Longrightarrow> List.find P xs = List.find Q xs"
  by (induction xs) simp_all

section \<open>Hash operations\<close>

definition inc_field :: "string \<Rightarrow> int \<Rightarrow> redis_hash \<Rightarrow> redis_hash" where
  "inc_field f n h =
     (if n = 0 then h
      else h\<lparr>rh_fields := (rh_fields h)(f \<mapsto> (case rh_fields h f of Some v \<Rightarrow> v | None \<Rightarrow> 0) + n)\<rparr>)"

definition inc_hash :: "QuotaUsage \<Rightarrow> redis_hash \<Rightarrow> redis_hash" where
  "inc_hash a h = inc_field ''cost_nanos'' (u_Cost a)
     (inc_field ''tokens'' (u_Tokens a) (inc_field ''requests'' (u_Requests a) h))"

lemma rh_expire_inc [simp]: "rh_expire (inc_hash a h) = rh_expire h"
  by (simp add: inc_hash_def inc_field_def)

lemma hash_usage_inc [simp]: "hash_usage (inc_hash a h) = plus_usage (hash_usage h) a"
  by (simp add: inc_hash_def inc_field_def hash_usage_def plus_usage_def Let_def)

lemma HINCRBY_inc:
  assumes "db k = Some h" "in_i64 ((case rh_fields h f of Some v \<Rightarrow> v | None \<Rightarrow> 0) + n)" "n \<noteq> 0"
  shows "HINCRBY k f n db = Inr (db(k \<mapsto> inc_field f n h))"
  using assms by (simp add: HINCRBY_def HGET_def HSET_def hash_or_empty_def inc_field_def)

lemma hincr_step:
  assumes "db k = Some h" "in_i64 ((case rh_fields h f of Some v \<Rightarrow> v | None \<Rightarrow> 0) + n)" "lua_exact n"
  shows "hincr_nonzero live_cmds now k ((f, n) # rest) db = hincr_nonzero live_cmds now k rest (db(k \<mapsto> inc_field f n h))"
  using assms by (cases "n = 0") (simp_all add: lua_exact_num HINCRBY_inc inc_field_def map_upd_triv)

lemma adjust_step:
  assumes "db k = Some h" "in_i64 ((case rh_fields h f of Some v \<Rightarrow> v | None \<Rightarrow> 0) + n)"
  shows "adjust_fields live_cmds now k ((f, n) # rest) db = adjust_fields live_cmds now k rest (db(k \<mapsto> inc_field f n h))"
  using assms by (cases "n = 0") (simp_all add: HINCRBY_inc inc_field_def map_upd_triv)

lemma inc_field_other: "f \<noteq> g \<Longrightarrow> rh_fields (inc_field f n h) g = rh_fields h g"
  by (simp add: inc_field_def)

lemma usage_exact_sum: "usage_exact u \<Longrightarrow> usage_exact a \<Longrightarrow> usage_sum_in_i64 u a"
  by (simp add: usage_exact_def usage_sum_in_i64_def lua_exact_sum_in_i64)

lemma hincr_dims:
  assumes "db k = Some h" "usage_sum_in_i64 (hash_usage h) a" "usage_exact a"
  shows "hincr_nonzero live_cmds now k (zip dims [u_Requests a, u_Tokens a, u_Cost a]) db =
    (None, db(k \<mapsto> inc_hash a h))"
  using assms
  by (simp add: dims_def hincr_step inc_field_other inc_hash_def usage_exact_def hash_usage_def
      usage_sum_in_i64_def Let_def del: hincr_nonzero.simps(2))

lemma adjust_dims:
  assumes "db k = Some h" "usage_sum_in_i64 (hash_usage h) a"
  shows "adjust_fields live_cmds now k (zip dims [u_Requests a, u_Tokens a, u_Cost a]) db =
    (None, db(k \<mapsto> inc_hash a h))"
  using assms
  by (simp add: dims_def adjust_step inc_field_other inc_hash_def hash_usage_def
      usage_sum_in_i64_def Let_def del: adjust_fields.simps(2))

section \<open>The write loop of reserve.lua\<close>

definition soft_reply :: "WindowLimit list \<Rightarrow> QuotaUsage \<Rightarrow> (nat \<Rightarrow> int) \<Rightarrow> nat \<Rightarrow> reply list" where
  "soft_reply limits amount spent i =
     (if \<not> wl_Block (limits ! i) \<and> spent (Suc i) + u_Cost amount > wl_MaxCost (limits ! i)
      then [RInt (int (Suc i)), RInt (spent (Suc i)), RInt (wl_MaxCost (limits ! i))] else [])"

text \<open>The store after the writes: each counter incremented, with its expiry refreshed.\<close>

fun bump_all :: "WindowLimit list \<Rightarrow> QuotaUsage \<Rightarrow> string list \<Rightarrow> nat list \<Rightarrow> redis \<Rightarrow> redis" where
  "bump_all limits amount keys [] db = db"
| "bump_all limits amount keys (i # is) db =
     bump_all limits amount keys is
       (db(keys ! i \<mapsto> (inc_hash amount (the (db (keys ! i))))
            \<lparr>rh_expire := Some (expireAt (wl_Window (limits ! i)))\<rparr>))"

lemma reserve_writes_spec:
  assumes "distinct is" "set is \<subseteq> {..<length limits}" "length keys = length limits" "distinct keys"
    and "usage_exact amount"
    and "\<And>i. i \<in> set is \<Longrightarrow> lua_exact (spent (Suc i)) \<and> lua_exact (wl_MaxCost (limits ! i)) \<and>
           now < expireAt (wl_Window (limits ! i))"
    and "\<And>i. i \<in> set is \<Longrightarrow> \<exists>h. db (keys ! i) = Some h \<and> usage_exact (hash_usage h)"
  shows "reserve_writes live_cmds now keys (reserve_args limits amount) spent (map Suc is) soft db =
    (Inr (soft @ concat (map (soft_reply limits amount spent) is)), bump_all limits amount keys is db)"
  using assms(1,2,6,7)
proof (induction "is" arbitrary: soft db)
  case Nil
  then show ?case by simp
next
  case (Cons i "is")
  have i: "i < length limits" "i < length keys" using Cons.prems assms(3) by simp_all
  obtain h where h: "db (keys ! i) = Some h" "usage_exact (hash_usage h)"
    using Cons.prems(4) [of i] by auto
  have fresh: "keys ! j \<noteq> keys ! i" if "j \<in> set is" for j
    using that Cons.prems(1,2) i assms(3,4) by (auto simp: nth_eq_iff_index_eq)
  let ?db = "db(keys ! i \<mapsto> (inc_hash amount h)\<lparr>rh_expire := Some (expireAt (wl_Window (limits ! i)))\<rparr>)"
  have "reserve_writes live_cmds now keys (reserve_args limits amount) spent (map Suc (i # is)) soft db =
    reserve_writes live_cmds now keys (reserve_args limits amount) spent (map Suc is)
      (soft @ soft_reply limits amount spent i) ?db"
    using h assms(5) Cons.prems(3) [of i]
      hincr_dims [of db "keys ! i" h amount, OF h(1) usage_exact_sum [OF h(2) assms(5)] assms(5)]
    by (simp add: KEYS_def EXPIREAT_def soft_reply_def lua_exact_num lua_exact_add usage_exact_def
        reserve_args_limit_lua [OF i(1)])
  also have "\<dots> = (Inr ((soft @ soft_reply limits amount spent i) @
      concat (map (soft_reply limits amount spent) is)), bump_all limits amount keys is ?db)"
    using Cons.prems fresh by (intro Cons.IH) auto
  finally show ?case using h by simp
qed

lemma bump_all_counter:
  assumes "distinct is" "set is \<subseteq> {..<length keys}" "distinct keys"
    and "\<And>i. i \<in> set is \<Longrightarrow> db (keys ! i) \<noteq> None"
  shows "counter_at (bump_all limits amount keys is db) k =
    (if k \<in> (!) keys ` set is then map_option (\<lambda>u. plus_usage u amount) (counter_at db k)
     else counter_at db k)"
  using assms(1,2,4)
proof (induction "is" arbitrary: db)
  case (Cons i "is")
  have "keys ! i \<notin> (!) keys ` set is"
    using Cons.prems(1,2) assms(3) by (auto simp: nth_eq_iff_index_eq subset_eq)
  moreover obtain h where "db (keys ! i) = Some h" using Cons.prems(3) [of i] by auto
  moreover have "hash_usage (h\<lparr>rh_expire := e\<rparr>) = hash_usage h" for h :: redis_hash and e
    by (simp add: hash_usage_def)
  ultimately show ?case using Cons by (cases "k = keys ! i") (auto simp: counter_at_def)
qed simp

lemma bump_all_alive:
  assumes "alive now db" "\<And>i. i \<in> set is \<Longrightarrow> now < expireAt (wl_Window (limits ! i))"
  shows "alive now (bump_all limits amount keys is db)"
  using assms
proof (induction "is" arbitrary: db)
  case (Cons i "is")
  then have "alive now (db(keys ! i \<mapsto> (inc_hash amount (the (db (keys ! i))))
      \<lparr>rh_expire := Some (expireAt (wl_Window (limits ! i)))\<rparr>))"
    by (auto simp: alive_def)
  then show ?case using Cons by simp
qed simp

section \<open>Decoding the reply\<close>

lemma reply_window_Suc: "i < length limits \<Longrightarrow>
    reply_window limits (RInt (int (Suc i))) = Some (wl_Window (limits ! i))"
  by (simp add: reply_window_def)

lemma reply_windows_map:
  "set is \<subseteq> {..<length limits} \<Longrightarrow>
   reply_windows limits (map (RInt \<circ> int) (map Suc is)) = Inr (map (\<lambda>i. wl_Window (limits ! i)) is)"
  by (induction "is") (simp_all add: reply_window_Suc del: of_nat_Suc)

lemma breach_triples_soft:
  assumes "set is \<subseteq> {..<length limits}"
  shows "breach_triples limits amount (concat (map (soft_reply limits amount spent) is)) =
    Inr (map (\<lambda>i. \<lparr>b_Window = wl_Window (limits ! i), b_Used = spent (Suc i),
                 b_Requested = u_Cost amount, b_Limit = wl_MaxCost (limits ! i)\<rparr>)
          (filter (\<lambda>i. \<not> wl_Block (limits ! i) \<and>
             spent (Suc i) + u_Cost amount > wl_MaxCost (limits ! i)) is))"
  using assms
  by (induction "is") (simp_all add: soft_reply_def reply_window_Suc reply_int_def del: of_nat_Suc)

lemma soft_reply_mod3: "length (concat (map (soft_reply limits amount spent) is)) mod 3 = 0"
  by (induction "is") (simp_all add: soft_reply_def)

section \<open>Reserve refines the abstract check-and-reserve\<close>

lemma filter_upt_Suc: "filter P [Suc 0..<Suc n] = map Suc (filter (\<lambda>i. P (Suc i)) [0..<n])"
  unfolding upt_Suc_map by (simp add: filter_map comp_def)

lemma find_upt_Suc: "List.find P [Suc 0..<Suc n] = map_option Suc (List.find (\<lambda>i. P (Suc i)) [0..<n])"
  unfolding upt_Suc_map by (rule find_map)

lemma find_Some_mem: "List.find P xs = Some x \<Longrightarrow> x \<in> set xs \<and> P x"
  by (auto simp: find_Some_iff)

definition granted_db :: "bool \<Rightarrow> WindowLimit list \<Rightarrow> QuotaUsage \<Rightarrow> string list \<Rightarrow> redis \<Rightarrow> redis" where
  "granted_db g limits amount keys db =
     (if g then bump_all limits amount keys [0..<length limits] db else db)"

text \<open>The conditions of \<open>reserve_ready\<close> as they reach the script.\<close>

definition call_ok :: "int \<Rightarrow> string list \<Rightarrow> WindowLimit list \<Rightarrow> QuotaUsage \<Rightarrow> redis \<Rightarrow> bool" where
  "call_ok now keys limits amount db \<longleftrightarrow>
     length keys = length limits \<and> distinct keys \<and> usage_exact amount \<and>
     (\<forall>i < length limits. lua_exact (wl_MaxCost (limits ! i)) \<and>
        now < expireAt (wl_Window (limits ! i)) \<and>
        (\<forall>h. db (keys ! i) = Some h \<longrightarrow> usage_exact (hash_usage h)))"

definition views :: "(WindowLimit \<Rightarrow> QuotaUsage option) \<Rightarrow> string list \<Rightarrow> WindowLimit list \<Rightarrow> redis \<Rightarrow> bool" where
  "views view keys limits db \<longleftrightarrow> (\<forall>i < length limits. view (limits ! i) = counter_at db (keys ! i))"

definition cost_at :: "redis \<Rightarrow> string \<Rightarrow> int" where
  "cost_at db k = (case counter_at db k of Some u \<Rightarrow> u_Cost u | None \<Rightarrow> 0)"

lemma hash_usage_cost: "u_Cost (hash_usage h) = (case rh_fields h ''cost_nanos'' of Some v \<Rightarrow> v | None \<Rightarrow> 0)"
  by (simp add: hash_usage_def)

lemma lua_spent_exact:
  assumes "call_ok now keys limits amount db" "i < length limits"
  shows "lua_spent live_cmds now keys db (Suc i) = cost_at db (keys ! i)" "lua_exact (cost_at db (keys ! i))"
proof -
  have "lua_spent live_cmds now keys db (Suc i) = cost_at db (keys ! i) \<and> lua_exact (cost_at db (keys ! i))"
  proof (cases "db (keys ! i)")
    case None
    then show ?thesis
      by (simp add: lua_spent_def KEYS_def HGET_def cost_at_def counter_at_def lua_exact_def)
  next
    case (Some h)
    then have e: "lua_exact (u_Cost (hash_usage h))"
      using assms by (simp add: call_ok_def usage_exact_def)
    then show ?thesis
      using Some by (cases "rh_fields h ''cost_nanos''")
        (simp_all add: lua_spent_def KEYS_def HGET_def cost_at_def counter_at_def hash_usage_cost lua_exact_num)
  qed
  then show "lua_spent live_cmds now keys db (Suc i) = cost_at db (keys ! i)" "lua_exact (cost_at db (keys ! i))"
    by simp_all
qed

lemma lua_blocked_exact:
  assumes "call_ok now keys limits amount db" "i < length limits"
  shows "lua_blocked live_cmds now keys (reserve_args limits amount) db (Suc i) \<longleftrightarrow>
    wl_Block (limits ! i) \<and> cost_at db (keys ! i) + u_Cost amount > wl_MaxCost (limits ! i)"
  using assms lua_spent_exact [OF assms]
  by (simp add: call_ok_def lua_blocked_def Let_def reserve_args_limit_lua lua_exact_num lua_exact_add
      usage_exact_def)

lemma views_miss:
  assumes "views view keys limits db"
  shows "filter (\<lambda>l. view l = None) limits =
    map ((!) limits) (filter (\<lambda>i. db (keys ! i) = None) [0..<length limits])"
  unfolding filter_nth [of "\<lambda>l. view l = None" limits] using assms
  by (intro arg_cong [where f = "map ((!) limits)"] filter_cong) (simp_all add: views_def counter_at_def)

lemma views_cross:
  assumes "views view keys limits db" "db (keys ! i) \<noteq> None" "i < length limits"
  shows "crosses view amount (limits ! i) \<longleftrightarrow> cost_at db (keys ! i) + u_Cost amount > wl_MaxCost (limits ! i)"
    "breach_of view amount (limits ! i) =
       \<lparr>b_Window = wl_Window (limits ! i), b_Used = cost_at db (keys ! i),
        b_Requested = u_Cost amount, b_Limit = wl_MaxCost (limits ! i)\<rparr>"
  using assms by (auto simp: views_def crosses_def breach_of_def cost_at_def counter_at_def)

lemma views_find:
  assumes v: "views view keys limits db" and c: "call_ok now keys limits amount db"
    and all: "\<forall>i < length limits. db (keys ! i) \<noteq> None"
  shows "List.find (\<lambda>l. wl_Block l \<and> crosses view amount l) limits =
    map_option ((!) limits)
      (List.find (\<lambda>i. lua_blocked live_cmds now keys (reserve_args limits amount) db (Suc i)) [0..<length limits])"
  unfolding find_nth [of _ limits]
  by (rule arg_cong [where f = "map_option ((!) limits)"], rule find_cong_set)
    (use all in \<open>simp add: lua_blocked_exact [OF c] views_cross [OF v]\<close>)

lemma script_missing: "filter (\<lambda>i. db (KEYS keys i) = None) [Suc 0..<Suc n] =
    map Suc (filter (\<lambda>i. db (keys ! i) = None) [0..<n])"
  by (simp add: filter_upt_Suc KEYS_def del: upt_Suc)

lemma reserve_script_missing:
  assumes "length keys = length limits" "views view keys limits db"
    and "\<exists>i < length limits. db (keys ! i) = None"
  shows "\<exists>reply. reserve_script live_cmds keys args now db = (Inr reply, db) \<and>
    parseReserve reply limits amount = Inr (spec_reserve view limits amount) \<and>
    \<not> granted (spec_reserve view limits amount)"
proof -
  define miss where "miss = filter (\<lambda>i. db (keys ! i) = None) [0..<length limits]"
  have ne: "miss \<noteq> []" using assms(3) by (auto simp: miss_def filter_empty_conv)
  have sub: "set miss \<subseteq> {..<length limits}" by (auto simp: miss_def)
  have spec: "spec_reserve view limits amount =
      no_reservation\<lparr>cr_Missing := map (\<lambda>i. wl_Window (limits ! i)) miss\<rparr>"
    using ne views_miss [OF assms(2)] by (simp add: spec_reserve_def miss_def [symmetric] comp_def)
  have "reserve_script live_cmds keys args now db =
      (Inr (RStr ''missing'' # map (RInt \<circ> int) (map Suc miss)), db)"
    using ne by (simp add: reserve_script_def script_missing assms(1) miss_def [symmetric]
        Let_def del: upt_Suc)
  moreover have "parseReserve (RStr ''missing'' # map (RInt \<circ> int) (map Suc miss)) limits amount =
      Inr (spec_reserve view limits amount)"
    using reply_windows_map [OF sub] by (simp add: parseReserve_def spec del: map_map)
  moreover have "\<not> granted (spec_reserve view limits amount)" using ne by (simp add: granted_def spec)
  ultimately show ?thesis by blast
qed

lemma reserve_script_present:
  assumes "length keys = length limits" "\<forall>i < length limits. db (keys ! i) \<noteq> None"
  shows "reserve_script live_cmds keys args now db =
    (case List.find (\<lambda>i. lua_blocked live_cmds now keys args db (Suc i)) [0..<length limits] of
       Some i \<Rightarrow>
         (Inr [RStr ''blocked'', RInt (int (Suc i)), RInt (lua_spent live_cmds now keys db (Suc i)),
               RInt (lua_num (ARGV args (3 + (Suc i - 1) * 3 + 3)))], db)
     | None \<Rightarrow> reserve_writes live_cmds now keys args (lua_spent live_cmds now keys db)
                 (map Suc [0..<length limits]) [RStr ''ok''] db)"
proof -
  have none: "filter (\<lambda>i. db (keys ! i) = None) [0..<length limits] = []"
    using assms(2) by (simp add: filter_empty_conv)
  show ?thesis
    unfolding reserve_script_def Let_def One_nat_def assms(1) live_cmds_simps not_not script_missing none find_upt_Suc
      upt_Suc_map [symmetric]
    by (simp split: option.split del: upt_Suc)
qed

lemma reserve_script_blocked:
  assumes c: "call_ok now keys limits amount db" and v: "views view keys limits db"
    and all: "\<forall>i < length limits. db (keys ! i) \<noteq> None"
    and bad: "List.find (\<lambda>i. lua_blocked live_cmds now keys (reserve_args limits amount) db (Suc i))
      [0..<length limits] = Some i"
  shows "\<exists>reply. reserve_script live_cmds keys (reserve_args limits amount) now db = (Inr reply, db) \<and>
    parseReserve reply limits amount = Inr (spec_reserve view limits amount) \<and>
    \<not> granted (spec_reserve view limits amount)"
proof -
  have i: "i < length limits" using find_Some_mem [OF bad] by simp
  have len: "length keys = length limits" using c by (simp add: call_ok_def)
  have spec: "spec_reserve view limits amount =
      no_reservation\<lparr>cr_Blocked := Some (breach_of view amount (limits ! i))\<rparr>"
    using views_miss [OF v] all bad
    by (simp add: spec_reserve_def views_find [OF v c all] filter_empty_conv)
  have breach: "breach_of view amount (limits ! i) =
      \<lparr>b_Window = wl_Window (limits ! i), b_Used = lua_spent live_cmds now keys db (Suc i),
       b_Requested = u_Cost amount, b_Limit = wl_MaxCost (limits ! i)\<rparr>"
    using views_cross(2) [OF v _ i] all i lua_spent_exact [OF c i] by simp
  have "lua_num (wl_MaxCost (limits ! i)) = wl_MaxCost (limits ! i)"
    using c i by (simp add: call_ok_def lua_exact_num)
  then have "reserve_script live_cmds keys (reserve_args limits amount) now db =
      (Inr [RStr ''blocked'', RInt (int (Suc i)), RInt (lua_spent live_cmds now keys db (Suc i)),
            RInt (wl_MaxCost (limits ! i))], db)"
    using bad i by (simp add: reserve_script_present [OF len all] reserve_args_limit_lua)
  then show ?thesis
    using i by (simp add: spec granted_def parseReserve_def breaches_def reply_window_Suc reply_int_def
        breach del: of_nat_Suc)
qed

lemma reserve_script_granted:
  assumes c: "call_ok now keys limits amount db" and v: "views view keys limits db"
    and all: "\<forall>i < length limits. db (keys ! i) \<noteq> None"
    and ok: "List.find (\<lambda>i. lua_blocked live_cmds now keys (reserve_args limits amount) db (Suc i))
      [0..<length limits] = None"
  shows "\<exists>reply. reserve_script live_cmds keys (reserve_args limits amount) now db =
      (Inr reply, bump_all limits amount keys [0..<length limits] db) \<and>
    parseReserve reply limits amount = Inr (spec_reserve view limits amount) \<and>
    granted (spec_reserve view limits amount)"
proof -
  let ?n = "length limits" and ?spent = "lua_spent live_cmds now keys db"
  have len: "length keys = ?n" using c by (simp add: call_ok_def)
  have sel: "filter (\<lambda>l. \<not> wl_Block l \<and> crosses view amount l) limits =
      map ((!) limits) (filter (\<lambda>i. \<not> wl_Block (limits ! i) \<and>
        ?spent (Suc i) + u_Cost amount > wl_MaxCost (limits ! i)) [0..<?n])"
    unfolding filter_nth [of _ limits] using all
    by (intro arg_cong [where f = "map ((!) limits)"] filter_cong)
      (simp_all add: views_cross [OF v] lua_spent_exact [OF c])
  have spec: "spec_reserve view limits amount = no_reservation\<lparr>cr_Soft :=
      map (\<lambda>i. breach_of view amount (limits ! i)) (filter (\<lambda>i. \<not> wl_Block (limits ! i) \<and>
        ?spent (Suc i) + u_Cost amount > wl_MaxCost (limits ! i)) [0..<?n])\<rparr>"
    using views_miss [OF v] all ok
    by (simp add: spec_reserve_def views_find [OF v c all] filter_empty_conv sel comp_def)
  have writes: "reserve_writes live_cmds now keys (reserve_args limits amount) ?spent (map Suc [0..<?n])
      [RStr ''ok''] db =
      (Inr ([RStr ''ok''] @ concat (map (soft_reply limits amount ?spent) [0..<?n])),
       bump_all limits amount keys [0..<?n] db)"
    using c all lua_spent_exact [OF c]
    by (intro reserve_writes_spec) (fastforce simp: call_ok_def subset_eq)+
  have "breach_triples limits amount (concat (map (soft_reply limits amount ?spent) [0..<?n])) =
      Inr (map (\<lambda>i. breach_of view amount (limits ! i)) (filter (\<lambda>i. \<not> wl_Block (limits ! i) \<and>
        ?spent (Suc i) + u_Cost amount > wl_MaxCost (limits ! i)) [0..<?n]))"
    using all by (subst breach_triples_soft)
      (auto simp: views_cross(2) [OF v] lua_spent_exact [OF c] intro!: map_cong)
  then have "parseReserve ([RStr ''ok''] @ concat (map (soft_reply limits amount ?spent) [0..<?n]))
      limits amount = Inr (spec_reserve view limits amount)"
    using soft_reply_mod3 [of limits amount ?spent "[0..<?n]"]
    by (simp add: parseReserve_def breaches_def spec)
  then show ?thesis
    using writes ok by (simp add: reserve_script_present [OF len all] spec granted_def no_reservation_def)
qed

lemma run_script_reachable:
  assumes "reachable_store c" "script (rc_now c) (rc_db c) = (res, db')"
  shows "run_script script c = ((case res of Inl e \<Rightarrow> Inl (ScriptFailed e) | Inr r \<Rightarrow> Inr r),
    c\<lparr>rc_db := db', rc_faults := tl (rc_faults c)\<rparr>)"
  using assms by (auto simp: run_script_def reachable_store_def split: list.splits net_fault.splits)

lemma reserve_script_refines:
  assumes ok: "call_ok now keys limits amount db"
    and v: "views view keys limits db"
  defines "g \<equiv> granted (spec_reserve view limits amount)"
  shows "\<exists>reply. reserve_script live_cmds keys (reserve_args limits amount) now db =
      (Inr reply, if g then bump_all limits amount keys [0..<length limits] db else db) \<and>
    parseReserve reply limits amount = Inr (spec_reserve view limits amount) \<and>
    (g \<longrightarrow> (\<forall>i < length limits. db (keys ! i) \<noteq> None))"
proof (cases "\<forall>i < length limits. db (keys ! i) \<noteq> None")
  case False
  then show ?thesis
    using reserve_script_missing [OF _ v] ok by (fastforce simp: call_ok_def g_def)
next
  case True
  then show ?thesis
    using reserve_script_blocked [OF ok v True] reserve_script_granted [OF ok v True] unfolding g_def
    by (cases "List.find (\<lambda>i. lua_blocked live_cmds now keys (reserve_args limits amount) db (Suc i))
          [0..<length limits]") fastforce+
qed

lemma bump_all_effect:
  assumes "call_ok now keys limits amount db" "\<forall>i < length limits. db (keys ! i) \<noteq> None"
  shows "counter_at (bump_all limits amount keys [0..<length limits] db) k =
    (if k \<in> set keys then map_option (\<lambda>u. plus_usage u amount) (counter_at db k) else counter_at db k)"
proof -
  have "(!) keys ` set [0..<length limits] = set keys"
    using assms(1) by (metis call_ok_def list.set_map map_nth)
  moreover have "counter_at (bump_all limits amount keys [0..<length limits] db) k =
      (if k \<in> (!) keys ` set [0..<length limits]
       then map_option (\<lambda>u. plus_usage u amount) (counter_at db k) else counter_at db k)"
    using assms by (intro bump_all_counter) (auto simp: call_ok_def)
  ultimately show ?thesis by simp
qed

lemma ready_call_ok:
  assumes "reserve_ready live uuid_str c t limits amount"
  shows "call_ok (rc_now c) (map (\<lambda>l. Key uuid_str t (wl_Window l)) limits) limits amount
      (live (rc_now c) (rc_db c))"
  using assms nth_mem unfolding reserve_ready_def call_ok_def live_usage_def counter_at_def
  by fastforce

section \<open>Seed raises, Adjust adds\<close>

definition pick_max :: "int option \<Rightarrow> int \<Rightarrow> int" where
  "pick_max cur v = (case cur of None \<Rightarrow> v | Some c \<Rightarrow> if lua_num c < lua_num v then v else c)"

definition seed_hash :: "QuotaUsage \<Rightarrow> redis_hash \<Rightarrow> redis_hash" where
  "seed_hash v h = h\<lparr>rh_fields := (rh_fields h)
     (''requests'' \<mapsto> pick_max (rh_fields h ''requests'') (u_Requests v),
      ''tokens'' \<mapsto> pick_max (rh_fields h ''tokens'') (u_Tokens v),
      ''cost_nanos'' \<mapsto> pick_max (rh_fields h ''cost_nanos'') (u_Cost v))\<rparr>"

lemma seed_fields_step:
  assumes "rh_fields h f = cur"
    and "db = db0 \<and> h = hash_or_empty None \<and> db0 k = None \<or> db = db0(k \<mapsto> h)"
  shows "seed_fields live_cmds now k ((f, cur, v) # rest) db =
    seed_fields live_cmds now k rest (db0(k \<mapsto> h\<lparr>rh_fields := (rh_fields h)(f \<mapsto> pick_max cur v)\<rparr>))"
  using assms
  by (auto simp: HSET_def pick_max_def hash_or_empty_def map_upd_triv split: option.splits)

lemma seed_fields_hash:
  "seed_fields live_cmds now k
     (zip dims (zip (map (\<lambda>f. HGET k f db) dims) [u_Requests v, u_Tokens v, u_Cost v])) db =
   db(k \<mapsto> seed_hash v (hash_or_empty (db k)))"
proof -
  have get: "HGET k f db = rh_fields (hash_or_empty (db k)) f" for f
    by (simp add: HGET_def hash_or_empty_def split: option.split)
  have first: "db = db \<and> hash_or_empty (db k) = hash_or_empty None \<and> db k = None \<or>
      db = db(k \<mapsto> hash_or_empty (db k))"
    by (cases "db k") (simp_all add: hash_or_empty_def map_upd_triv)
  show ?thesis
    by (simp add: dims_def get seed_fields_step [OF refl first] seed_fields_step [where ?db0.0 = db, OF _ disjI2, OF _ refl]
        seed_hash_def del: seed_fields.simps(2))
qed

lemma pick_max_exact:
  assumes "lua_exact v" "0 \<le> v" "lua_exact (case cur of Some c \<Rightarrow> c | None \<Rightarrow> 0)"
  shows "pick_max cur v = max (case cur of Some c \<Rightarrow> c | None \<Rightarrow> 0) v"
  using assms by (cases cur) (auto simp: pick_max_def lua_exact_num max_def)

lemma seed_hash_usage:
  assumes "usage_exact v" "0 \<le> u_Requests v" "0 \<le> u_Tokens v" "0 \<le> u_Cost v" "usage_exact (hash_usage h)"
  shows "hash_usage (seed_hash v h) = max_usage (hash_usage h) v"
  using assms
  by (simp add: seed_hash_def hash_usage_def max_usage_def pick_max_exact usage_exact_def)

definition seed_args :: "WindowUsage list \<Rightarrow> int list" where
  "seed_args seeds = concat (map (\<lambda>s. [u_Requests (wu_Usage s), u_Tokens (wu_Usage s),
     u_Cost (wu_Usage s), expireAt (wu_Window s)]) seeds)"

lemma seed_args_nth:
  assumes "i < length seeds"
  shows "ARGV (seed_args seeds) (Suc (i * 4)) = u_Requests (wu_Usage (seeds ! i))"
    "ARGV (seed_args seeds) (Suc (Suc (i * 4))) = u_Tokens (wu_Usage (seeds ! i))"
    "ARGV (seed_args seeds) (i * 4 + 3) = u_Cost (wu_Usage (seeds ! i))"
    "ARGV (seed_args seeds) (i * 4 + 4) = expireAt (wu_Window (seeds ! i))"
proof -
  have "seed_args seeds ! (i * 4 + j) = [u_Requests (wu_Usage (seeds ! i)), u_Tokens (wu_Usage (seeds ! i)),
     u_Cost (wu_Usage (seeds ! i)), expireAt (wu_Window (seeds ! i))] ! j" if "j < 4" for j
    unfolding seed_args_def using assms that by (intro nth_concat_fixed) simp_all
  from this [of 0] this [of 1] this [of 2] this [of 3]
  show "ARGV (seed_args seeds) (Suc (i * 4)) = u_Requests (wu_Usage (seeds ! i))"
    "ARGV (seed_args seeds) (Suc (Suc (i * 4))) = u_Tokens (wu_Usage (seeds ! i))"
    "ARGV (seed_args seeds) (i * 4 + 3) = u_Cost (wu_Usage (seeds ! i))"
    "ARGV (seed_args seeds) (i * 4 + 4) = expireAt (wu_Window (seeds ! i))"
    by (simp_all add: ARGV_def numeral_2_eq_2 numeral_3_eq_3)
qed

text \<open>The store after seeding: each counter raised in turn, with its expiry refreshed.\<close>

fun seed_all :: "WindowUsage list \<Rightarrow> string list \<Rightarrow> nat list \<Rightarrow> redis \<Rightarrow> redis" where
  "seed_all seeds keys [] db = db"
| "seed_all seeds keys (i # is) db =
     seed_all seeds keys is
       (db(keys ! i \<mapsto> (seed_hash (wu_Usage (seeds ! i)) (hash_or_empty (db (keys ! i))))
            \<lparr>rh_expire := Some (expireAt (wu_Window (seeds ! i)))\<rparr>))"

lemma seed_loop_all:
  assumes "set is \<subseteq> {..<length seeds}" "\<And>s. s \<in> set seeds \<Longrightarrow> now < expireAt (wu_Window s)"
  shows "seed_loop live_cmds now keys (seed_args seeds) (map Suc is) db = seed_all seeds keys is db"
  using assms(1)
proof (induction "is" arbitrary: db)
  case (Cons i "is")
  then have i: "i < length seeds" and "now < expireAt (wu_Window (seeds ! i))"
    using assms(2) nth_mem by auto
  then show ?case
    using Cons seed_fields_hash [of now "keys ! i" db "wu_Usage (seeds ! i)"]
    by (simp add: KEYS_def EXPIREAT_def seed_args_nth [OF i] Let_def)
qed simp

lemma seed_hash_raised:
  assumes "usage_exact v" "nonneg_quota_usage v" "\<And>u. counter_at db k = Some u \<Longrightarrow> usage_exact u"
  shows "hash_usage (seed_hash v (hash_or_empty (db k))) = raised v (counter_at db k)"
proof (cases "db k")
  case None
  then show ?thesis
    using assms(2) seed_hash_usage [of v "hash_or_empty None"] assms(1)
    by (simp add: raised_def counter_at_def nonneg_quota_usage_def hash_or_empty_def hash_usage_def
        max_usage_def usage_exact_def lua_exact_def)
next
  case (Some h)
  then show ?thesis
    using assms seed_hash_usage [of v h]
    by (simp add: raised_def counter_at_def nonneg_quota_usage_def hash_or_empty_def)
qed

lemma hash_usage_expire [simp]: "hash_usage (h\<lparr>rh_expire := e\<rparr>) = hash_usage h"
  by (simp add: hash_usage_def)

definition seeds_ready :: "WindowUsage list \<Rightarrow> bool" where
  "seeds_ready seeds \<longleftrightarrow> (\<forall>s \<in> set seeds. usage_exact (wu_Usage s) \<and> nonneg_quota_usage (wu_Usage s))"

text \<open>Seeding the counters of a list of distinct keys raises each of them once.\<close>

lemma seed_all_counter:
  assumes "distinct is" "set is \<subseteq> {..<length keys}" "length keys = length seeds" "distinct keys"
    and "seeds_ready seeds" "\<And>k u. k \<in> set keys \<Longrightarrow> counter_at db k = Some u \<Longrightarrow> usage_exact u"
  shows "counter_at (seed_all seeds keys is db) k =
    (case List.find (\<lambda>i. keys ! i = k) is of
       Some i \<Rightarrow> Some (raised (wu_Usage (seeds ! i)) (counter_at db k))
     | None \<Rightarrow> counter_at db k)"
  using assms(1,2,6)
proof (induction "is" arbitrary: db)
  case (Cons i "is")
  let ?h = "(seed_hash (wu_Usage (seeds ! i)) (hash_or_empty (db (keys ! i))))
      \<lparr>rh_expire := Some (expireAt (wu_Window (seeds ! i)))\<rparr>"
  have i: "keys ! i \<in> set keys" "usage_exact (wu_Usage (seeds ! i))"
    "nonneg_quota_usage (wu_Usage (seeds ! i))"
    using Cons.prems assms(3,5) nth_mem by (auto simp: seeds_ready_def)
  have other: "List.find (\<lambda>j. keys ! j = keys ! i) is = None"
    using Cons.prems assms(4) by (auto simp: find_None_iff nth_eq_iff_index_eq subset_eq)
  have use: "hash_usage ?h = raised (wu_Usage (seeds ! i)) (counter_at db (keys ! i))"
    using seed_hash_raised [of "wu_Usage (seeds ! i)" db "keys ! i"] i Cons.prems(3) by simp
  have step: "counter_at (db(keys ! i \<mapsto> ?h)) k' =
      (if k' = keys ! i then Some (raised (wu_Usage (seeds ! i)) (counter_at db k')) else counter_at db k')" for k'
    using use by (simp add: counter_at_def)
  have ex: "usage_exact u" if "k' \<in> set keys" "counter_at (db(keys ! i \<mapsto> ?h)) k' = Some u" for k' u
    using that Cons.prems(3) raised_exact [OF i(2)] by (auto simp: step split: if_splits)
  have "counter_at (seed_all seeds keys is (db(keys ! i \<mapsto> ?h))) k =
    (case List.find (\<lambda>i. keys ! i = k) is of
       Some i' \<Rightarrow> Some (raised (wu_Usage (seeds ! i')) (counter_at (db(keys ! i \<mapsto> ?h)) k))
     | None \<Rightarrow> counter_at (db(keys ! i \<mapsto> ?h)) k)"
    using Cons.prems(1,2) ex by (intro Cons.IH) (simp_all del: fun_upd_apply)
  then show ?case using other step by (cases "k = keys ! i") (auto split: option.splits)
qed simp

text \<open>A correction reaches the counters that exist and leaves the others absent.\<close>

lemma adjust_loop_counter:
  assumes "set is \<subseteq> {..<length keys}" "distinct is" "distinct keys"
    and "\<And>i u. i \<in> set is \<Longrightarrow> counter_at db (keys ! i) = Some u \<Longrightarrow> usage_sum_in_i64 u delta"
  shows "\<exists>db'. adjust_loop live_cmds now keys [u_Requests delta, u_Tokens delta, u_Cost delta]
      (map Suc is) db = (None, db') \<and>
    (\<forall>k. counter_at db' k = (if k \<in> (!) keys ` set is
       then map_option (\<lambda>u. plus_usage u delta) (counter_at db k) else counter_at db k))"
  using assms(1,2,4)
proof (induction "is" arbitrary: db)
  case (Cons i "is")
  have fresh: "keys ! i \<noteq> keys ! j" if "j \<in> set is" for j
    using that Cons.prems(1,2) assms(3) by (auto simp: nth_eq_iff_index_eq)
  show ?case
  proof (cases "db (keys ! i)")
    case None
    with Cons.IH [of db] Cons.prems show ?thesis by (fastforce simp: KEYS_def counter_at_def)
  next
    case (Some h)
    let ?db = "db(keys ! i \<mapsto> inc_hash delta h)"
    have "adjust_loop live_cmds now keys [u_Requests delta, u_Tokens delta, u_Cost delta]
        (map Suc (i # is)) db =
      adjust_loop live_cmds now keys [u_Requests delta, u_Tokens delta, u_Cost delta] (map Suc is) ?db"
      using adjust_dims [of db "keys ! i" h delta now] Some Cons.prems(3) [of i]
      by (simp add: KEYS_def ARGV_def counter_at_def numeral_3_eq_3 numeral_2_eq_2)
    moreover have "usage_sum_in_i64 u delta" if "j \<in> set is" "counter_at ?db (keys ! j) = Some u" for j u
      using that fresh [OF that(1)] Cons.prems(3) [of j u] by (simp add: counter_at_def)
    ultimately show ?thesis
      using Cons.IH [of ?db] Cons.prems fresh Some by (fastforce simp: counter_at_def)
  qed
qed simp

section \<open>Counter keys\<close>

lemma append_sep_inj:
  assumes "xs @ c # ys = xs' @ c # ys'" "c \<notin> set xs" "c \<notin> set xs'"
  shows "xs = xs' \<and> ys = ys'"
  using assms
proof (induction xs arbitrary: xs')
  case Nil
  then show ?case by (cases xs') auto
next
  case (Cons x xs)
  then show ?case by (cases xs') auto
qed

text \<open>
  The text form of a UUID, as its package documents it: different UUIDs have different texts,
  without a brace.
\<close>

definition uuid_text :: "(uuid \<Rightarrow> string) \<Rightarrow> bool" where
  "uuid_text uuid_str \<longleftrightarrow> inj uuid_str \<and> (\<forall>t. CHR ''}'' \<notin> set (uuid_str t))"

lemma kind_no_colon: "k \<in> set WindowKinds \<Longrightarrow> CHR '':'' \<notin> set k"
  by (auto simp: WindowKinds_def kind_defs)

lemma Key_inj:
  assumes "uuid_text uuid_str" "Key uuid_str t w = Key uuid_str t' w'"
    and "w_Kind w \<in> set WindowKinds" "w_Kind w' \<in> set WindowKinds"
  shows "t = t' \<and> w_Kind w = w_Kind w' \<and> Unix (w_Start w) = Unix (w_Start w')"
proof -
  have "uuid_str t @ CHR ''}'' # '':'' @ w_Kind w @ '':'' @ FormatInt (Unix (w_Start w)) =
      uuid_str t' @ CHR ''}'' # '':'' @ w_Kind w' @ '':'' @ FormatInt (Unix (w_Start w'))"
    using assms(2) by (simp add: Key_def)
  from append_sep_inj [OF this] have u: "uuid_str t = uuid_str t'"
    and r: "w_Kind w @ CHR '':'' # FormatInt (Unix (w_Start w)) =
      w_Kind w' @ CHR '':'' # FormatInt (Unix (w_Start w'))"
    using assms(1) by (auto simp: uuid_text_def)
  have "w_Kind w = w_Kind w' \<and> FormatInt (Unix (w_Start w)) = FormatInt (Unix (w_Start w'))"
    by (rule append_sep_inj [OF r kind_no_colon [OF assms(3)] kind_no_colon [OF assms(4)]])
  moreover have "t = t'" using u assms(1) by (simp add: uuid_text_def inj_eq)
  ultimately show ?thesis using FormatInt_inj by blast
qed

lemma distinct_map_inv:
  assumes "distinct (map g xs)" "\<And>x y. x \<in> set xs \<Longrightarrow> y \<in> set xs \<Longrightarrow> f x = f y \<Longrightarrow> g x = g y"
  shows "distinct (map f xs)"
proof -
  have "inj_on f (set xs)"
  proof (rule inj_onI)
    fix x y
    assume "x \<in> set xs" "y \<in> set xs" "f x = f y"
    with assms show "x = y" by (metis distinct_map inj_onD)
  qed
  with assms(1) show ?thesis by (simp add: distinct_map)
qed

lemma Key_distinct:
  assumes "uuid_text uuid_str" "distinct (map (\<lambda>x. w_Kind (f x)) xs)"
    and "\<And>x. x \<in> set xs \<Longrightarrow> w_Kind (f x) \<in> set WindowKinds"
  shows "distinct (map (\<lambda>x. Key uuid_str t (f x)) xs)"
proof (rule distinct_map_inv [OF assms(2)])
  fix x y
  assume "x \<in> set xs" "y \<in> set xs" "Key uuid_str t (f x) = Key uuid_str t (f y)"
  then show "w_Kind (f x) = w_Kind (f y)"
    using Key_inj [OF assms(1), of t "f x" t "f y"] assms(3) by simp
qed

context redis_server
begin

text \<open>
  The effect of \<open>Reserve\<close> on a reachable store: its answer is the one of the abstract
  check-and-reserve on the live counters, and every counter is left as it was unless the
  reservation was granted, when exactly the counters of the limits grow by the amount.
\<close>

lemma Counters_Reserve_spec:
  assumes ready: "reserve_ready live uuid_str c t limits amount" and up: "reachable_store c"
  defines "view \<equiv> \<lambda>l. live_usage live uuid_str c t (wl_Window l)"
  shows "\<exists>c'. Counters_Reserve R uuid_str t limits amount c = (Inr (spec_reserve view limits amount), c') \<and>
    rc_now c' = rc_now c \<and> rc_faults c' = tl (rc_faults c) \<and>
    (\<forall>k. counter_at (live (rc_now c) (rc_db c')) k =
       (if granted (spec_reserve view limits amount) \<and> k \<in> set (map (\<lambda>l. Key uuid_str t (wl_Window l)) limits)
        then map_option (\<lambda>u. plus_usage u amount) (counter_at (live (rc_now c) (rc_db c)) k)
        else counter_at (live (rc_now c) (rc_db c)) k))"
proof -
  let ?keys = "map (\<lambda>l. Key uuid_str t (wl_Window l)) limits"
  let ?db = "live (rc_now c) (rc_db c)" and ?n = "length limits"
  let ?g = "granted (spec_reserve view limits amount)"
  note ok = ready_call_ok [OF ready]
  have v: "views view ?keys limits ?db" by (simp add: views_def view_def live_usage_def)
  from reserve_script_refines [OF ok v] obtain reply
    where r: "reserve_script live_cmds ?keys (reserve_args limits amount) (rc_now c) ?db =
      (Inr reply, if ?g then bump_all limits amount ?keys [0..<?n] ?db else ?db)"
    and p: "parseReserve reply limits amount = Inr (spec_reserve view limits amount)"
    and all: "?g \<longrightarrow> (\<forall>i < ?n. ?db (?keys ! i) \<noteq> None)"
    by blast
  obtain db' where d: "reserve_script R ?keys (reserve_args limits amount) (rc_now c) (rc_db c) = (Inr reply, db')"
    and l: "live (rc_now c) db' = (if ?g then bump_all limits amount ?keys [0..<?n] ?db else ?db)"
    using reserve_script_live [of "rc_now c" ?keys "reserve_args limits amount" "rc_db c"] r
    by (cases "reserve_script R ?keys (reserve_args limits amount) (rc_now c) (rc_db c)") auto
  let ?c' = "c\<lparr>rc_db := db', rc_faults := tl (rc_faults c)\<rparr>"
  have "Counters_Reserve R uuid_str t limits amount c = (Inr (spec_reserve view limits amount), ?c')"
    using run_script_reachable [where script = "reserve_script R ?keys (reserve_args limits amount)", OF up d] p
    by (simp add: Counters_Reserve_def)
  moreover have "counter_at (live (rc_now c) (rc_db ?c')) k =
      (if ?g \<and> k \<in> set ?keys then map_option (\<lambda>u. plus_usage u amount) (counter_at ?db k) else counter_at ?db k)" for k
    using bump_all_effect [OF ok, of k] all l by (cases ?g) simp_all
  ultimately show ?thesis by fastforce
qed

lemma seedTenant_spec:
  assumes up: "reachable_store c" and ready: "seeds_ready seeds"
    and keys: "distinct (map (\<lambda>s. Key uuid_str t (wu_Window s)) seeds)"
    and fresh: "\<And>s. s \<in> set seeds \<Longrightarrow> rc_now c < expireAt (wu_Window s)"
    and ex: "\<And>s u. s \<in> set seeds \<Longrightarrow> live_usage live uuid_str c t (wu_Window s) = Some u \<Longrightarrow> usage_exact u"
  shows "\<exists>c'. seedTenant R uuid_str t seeds c = (None, c') \<and> rc_now c' = rc_now c \<and>
    rc_faults c' = tl (rc_faults c) \<and>
    (\<forall>k. counter_at (live (rc_now c) (rc_db c')) k =
       (case List.find (\<lambda>s. Key uuid_str t (wu_Window s) = k) seeds of
          Some s \<Rightarrow> Some (raised (wu_Usage s) (counter_at (live (rc_now c) (rc_db c)) k))
        | None \<Rightarrow> counter_at (live (rc_now c) (rc_db c)) k))"
proof -
  let ?keys = "map (\<lambda>s. Key uuid_str t (wu_Window s)) seeds" and ?db = "live (rc_now c) (rc_db c)"
  have "seed_loop live_cmds (rc_now c) ?keys (seed_args seeds) (map Suc [0..<length seeds]) ?db =
      seed_all seeds ?keys [0..<length seeds] ?db"
    using fresh by (intro seed_loop_all) auto
  then obtain db' where d: "seed_script R ?keys (seed_args seeds) (rc_now c) (rc_db c) = (Inr (int (length seeds)), db')"
    and l: "live (rc_now c) db' = seed_all seeds ?keys [0..<length seeds] ?db"
    using seed_loop_live [of "rc_now c" ?keys "seed_args seeds" "[1..<Suc (length seeds)]" "rc_db c"]
    by (auto simp: seed_script_def upt_Suc_map simp del: upt_Suc)
  have "counter_at (live (rc_now c) db') k =
      (case List.find (\<lambda>i. ?keys ! i = k) [0..<length seeds] of
         Some i \<Rightarrow> Some (raised (wu_Usage (seeds ! i)) (counter_at ?db k)) | None \<Rightarrow> counter_at ?db k)" for k
    unfolding l using keys ready ex
    by (intro seed_all_counter) (auto simp: live_usage_def)
  moreover have "List.find (\<lambda>s. Key uuid_str t (wu_Window s) = k) seeds =
      map_option ((!) seeds) (List.find (\<lambda>i. ?keys ! i = k) [0..<length seeds])" for k
    unfolding find_nth [of _ seeds] by (intro arg_cong [where f = "map_option _"] find_cong_set) simp
  moreover have "seedTenant R uuid_str t seeds c = (None, c\<lparr>rc_db := db', rc_faults := tl (rc_faults c)\<rparr>)"
    using run_script_reachable [where script = "seed_script R ?keys (seed_args seeds)", OF up d]
    by (simp add: seedTenant_def seed_args_def [symmetric])
  ultimately show ?thesis by (auto split: option.split)
qed

lemma Counters_Adjust_spec:
  assumes up: "reachable_store c" and keys: "distinct (map (Key uuid_str t) windows)"
    and fits: "\<And>w u. w \<in> set windows \<Longrightarrow> live_usage live uuid_str c t w = Some u \<Longrightarrow> usage_sum_in_i64 u delta"
    and work: "windows \<noteq> []" "\<not> usage_IsZero delta"
  shows "\<exists>c'. Counters_Adjust R uuid_str t windows delta c = (None, c') \<and> rc_now c' = rc_now c \<and>
    rc_faults c' = tl (rc_faults c) \<and>
    (\<forall>k. counter_at (live (rc_now c) (rc_db c')) k =
       (if k \<in> Key uuid_str t ` set windows
        then map_option (\<lambda>u. plus_usage u delta) (counter_at (live (rc_now c) (rc_db c)) k)
        else counter_at (live (rc_now c) (rc_db c)) k))"
proof -
  let ?keys = "map (Key uuid_str t) windows" and ?db = "live (rc_now c) (rc_db c)"
  let ?args = "[u_Requests delta, u_Tokens delta, u_Cost delta]"
  have "\<exists>db'. adjust_loop live_cmds (rc_now c) ?keys ?args (map Suc [0..<length windows]) ?db = (None, db') \<and>
    (\<forall>k. counter_at db' k = (if k \<in> (!) ?keys ` set [0..<length windows]
       then map_option (\<lambda>u. plus_usage u delta) (counter_at ?db k) else counter_at ?db k))"
    using keys fits [OF nth_mem] by (intro adjust_loop_counter) (auto simp: live_usage_def)
  moreover have "(!) ?keys ` set [0..<length windows] = Key uuid_str t ` set windows"
    by (metis length_map list.set_map map_nth)
  ultimately obtain ldb where
    a: "adjust_script live_cmds ?keys ?args (rc_now c) ?db = (Inr (int (length windows)), ldb)"
    and k: "\<And>k. counter_at ldb k = (if k \<in> Key uuid_str t ` set windows
       then map_option (\<lambda>u. plus_usage u delta) (counter_at ?db k) else counter_at ?db k)"
    by (auto simp: adjust_script_def upt_Suc_map simp del: upt_Suc)
  obtain db' where d: "adjust_script R ?keys ?args (rc_now c) (rc_db c) = (Inr (int (length windows)), db')"
    and l: "live (rc_now c) db' = ldb"
    using adjust_script_live [of "rc_now c" ?keys ?args "rc_db c"] a
    by (cases "adjust_script R ?keys ?args (rc_now c) (rc_db c)") auto
  have "Counters_Adjust R uuid_str t windows delta c = (None, c\<lparr>rc_db := db', rc_faults := tl (rc_faults c)\<rparr>)"
    using run_script_reachable [where script = "adjust_script R ?keys ?args", OF up d] work
    by (simp add: Counters_Adjust_def)
  with k l show ?thesis by simp
qed

end

section \<open>The contract of the port holds\<close>

definition healthy_store :: "'db redis_client \<Rightarrow> bool" where
  "healthy_store c \<longleftrightarrow> set (rc_faults c) \<subseteq> {NetOk}"

lemma healthy_reachable: "healthy_store c \<Longrightarrow> reachable_store c"
  by (cases "rc_faults c") (auto simp: healthy_store_def reachable_store_def)

lemma healthy_tl: "healthy_store c \<Longrightarrow> rc_faults c' = tl (rc_faults c) \<Longrightarrow> healthy_store c'"
  by (cases "rc_faults c") (auto simp: healthy_store_def)

lemma remdups_const: "\<forall>x \<in> set xs. f x = t \<Longrightarrow> xs \<noteq> [] \<Longrightarrow> remdups (map f xs) = [t]"
proof (induction xs)
  case (Cons x xs)
  then show ?case by (cases xs) auto
qed simp

text \<open>\<open>order\<close> is the iteration order of the map of tenants in \<open>Seed\<close>.\<close>

locale redis_counters = redis_server R live
  for R :: "'db redis_cmds" and live :: "int \<Rightarrow> 'db \<Rightarrow> redis" +
  fixes uuid_str :: "uuid \<Rightarrow> string" and order :: "uuid list \<Rightarrow> uuid list"
  assumes order_single: "order [t] = [t]" and order_nil: "order [] = []"
begin

lemma Counters_Seed_one_tenant:
  assumes "\<forall>s \<in> set seeds. wu_TenantID s = t" "seeds \<noteq> []"
  shows "Counters_Seed R uuid_str order seeds c = seedTenant R uuid_str t seeds c"
proof -
  have "remdups (map wu_TenantID seeds) = [t]" using assms by (intro remdups_const)
  moreover have "filter (\<lambda>s. wu_TenantID s = t) seeds = seeds"
    using assms(1) by (simp add: filter_id_conv)
  ultimately show ?thesis
    by (simp add: Counters_Seed_def order_single split: prod.split option.split)
qed

end

sublocale redis_counters \<subseteq> quota_counters "Counters_Reserve R uuid_str"
    "Counters_Seed R uuid_str order" "Counters_Adjust R uuid_str"
    "\<lambda>c. counter_at (live (rc_now c) (rc_db c))" "Key uuid_str" healthy_store
    "\<lambda>c w. rc_now c < expireAt w"
proof
  fix c :: "'db redis_client" and t and limits :: "WindowLimit list" and amount r
  assume h: "healthy_store c" and d: "distinct (map (\<lambda>l. Key uuid_str t (wl_Window l)) limits)"
    and a: "usage_exact amount"
    and l: "\<forall>l \<in> set limits. lua_exact (wl_MaxCost l) \<and> rc_now c < expireAt (wl_Window l) \<and>
      (\<forall>u. counter_at (live (rc_now c) (rc_db c)) (Key uuid_str t (wl_Window l)) = Some u \<longrightarrow> usage_exact u)"
    and r: "r = spec_reserve (\<lambda>l. counter_at (live (rc_now c) (rc_db c)) (Key uuid_str t (wl_Window l))) limits amount"
  have "reserve_ready live uuid_str c t limits amount"
    using d a l by (auto simp: reserve_ready_def live_usage_def split: option.split)
  from Counters_Reserve_spec [OF this healthy_reachable [OF h]]
  show "\<exists>c'. Counters_Reserve R uuid_str t limits amount c = (Inr r, c') \<and> healthy_store c' \<and>
      (\<lambda>w. rc_now c' < expireAt w) = (\<lambda>w. rc_now c < expireAt w) \<and>
      (\<forall>k. counter_at (live (rc_now c') (rc_db c')) k =
         (if granted r \<and> k \<in> (\<lambda>l. Key uuid_str t (wl_Window l)) ` set limits
          then map_option (\<lambda>u. plus_usage u amount) (counter_at (live (rc_now c) (rc_db c)) k)
          else counter_at (live (rc_now c) (rc_db c)) k))"
    using healthy_tl [OF h] by (auto simp: r live_usage_def)
next
  fix c :: "'db redis_client" and t and seeds :: "WindowUsage list"
  assume h: "healthy_store c" and t: "\<forall>s \<in> set seeds. wu_TenantID s = t"
    and d: "distinct (map (\<lambda>s. Key uuid_str t (wu_Window s)) seeds)"
    and p: "\<forall>s \<in> set seeds. usage_exact (wu_Usage s) \<and> nonneg_quota_usage (wu_Usage s) \<and>
       rc_now c < expireAt (wu_Window s) \<and>
       (\<forall>u. counter_at (live (rc_now c) (rc_db c)) (Key uuid_str t (wu_Window s)) = Some u \<longrightarrow> usage_exact u)"
  have "\<exists>c'. seedTenant R uuid_str t seeds c = (None, c') \<and> rc_now c' = rc_now c \<and>
    rc_faults c' = tl (rc_faults c) \<and>
    (\<forall>k. counter_at (live (rc_now c) (rc_db c')) k =
       (case List.find (\<lambda>s. Key uuid_str t (wu_Window s) = k) seeds of
          Some s \<Rightarrow> Some (raised (wu_Usage s) (counter_at (live (rc_now c) (rc_db c)) k))
        | None \<Rightarrow> counter_at (live (rc_now c) (rc_db c)) k))"
    using d p by (intro seedTenant_spec [OF healthy_reachable [OF h]]) (auto simp: seeds_ready_def live_usage_def)
  then show "\<exists>c'. Counters_Seed R uuid_str order seeds c = (None, c') \<and> healthy_store c' \<and>
      (\<lambda>w. rc_now c' < expireAt w) = (\<lambda>w. rc_now c < expireAt w) \<and>
      (\<forall>k. counter_at (live (rc_now c') (rc_db c')) k =
         (case List.find (\<lambda>s. Key uuid_str t (wu_Window s) = k) seeds of
            Some s \<Rightarrow> Some (raised (wu_Usage s) (counter_at (live (rc_now c) (rc_db c)) k))
          | None \<Rightarrow> counter_at (live (rc_now c) (rc_db c)) k))"
    using healthy_tl [OF h] Counters_Seed_one_tenant [OF t] h
    by (cases "seeds = []") (auto simp: Counters_Seed_def order_nil)
next
  fix c :: "'db redis_client" and t and windows :: "Window list" and delta
  assume h: "healthy_store c" and d: "distinct (map (Key uuid_str t) windows)"
    and f: "\<forall>w \<in> set windows. \<forall>u. counter_at (live (rc_now c) (rc_db c)) (Key uuid_str t w) = Some u \<longrightarrow>
      usage_sum_in_i64 u delta"
  let ?goal = "\<exists>c'. Counters_Adjust R uuid_str t windows delta c = (None, c') \<and> healthy_store c' \<and>
      (\<lambda>w. rc_now c' < expireAt w) = (\<lambda>w. rc_now c < expireAt w) \<and>
      (\<forall>k. counter_at (live (rc_now c') (rc_db c')) k =
         (if k \<in> Key uuid_str t ` set windows
          then map_option (\<lambda>u. plus_usage u delta) (counter_at (live (rc_now c) (rc_db c)) k)
          else counter_at (live (rc_now c) (rc_db c)) k))"
  show ?goal
  proof (cases "windows = [] \<or> usage_IsZero delta")
    case True
    moreover have "map_option (\<lambda>u. plus_usage u zero_quota_usage) x = x" for x by (cases x) simp_all
    ultimately show ?thesis using h by (auto simp: Counters_Adjust_def usage_IsZero_def)
  next
    case False
    with Counters_Adjust_spec [OF healthy_reachable [OF h] d] f show ?thesis
      using healthy_tl [OF h] by (fastforce simp: live_usage_def)
  qed
qed

section \<open>The canonical text of a UUID\<close>

definition hex_digit :: "nat \<Rightarrow> char" where
  "hex_digit n = ''0123456789abcdef'' ! n"

definition nibble :: "uuid \<Rightarrow> nat \<Rightarrow> nat" where
  "nibble u i = (unat u div 16 ^ i) mod 16"

definition hex_run :: "uuid \<Rightarrow> nat list \<Rightarrow> string" where
  "hex_run u is = map (\<lambda>i. hex_digit (nibble u i)) is"

definition uuid_hex :: "uuid \<Rightarrow> string" where
  "uuid_hex u = hex_run u (rev [24..<32]) @ ''-'' @ hex_run u (rev [20..<24]) @ ''-'' @
     hex_run u (rev [16..<20]) @ ''-'' @ hex_run u (rev [12..<16]) @ ''-'' @ hex_run u (rev [0..<12])"

lemma hex_digit_inj: "m < 16 \<Longrightarrow> n < 16 \<Longrightarrow> hex_digit m = hex_digit n \<Longrightarrow> m = n"
  by (simp add: hex_digit_def nth_eq_iff_index_eq)

lemma hex_digit_mem: "n < 16 \<Longrightarrow> hex_digit n \<in> set ''0123456789abcdef''"
  unfolding hex_digit_def by (intro nth_mem) simp

lemma hex_run_inj: "hex_run u is = hex_run v is \<Longrightarrow> i \<in> set is \<Longrightarrow> nibble u i = nibble v i"
  by (induction "is") (auto simp: hex_run_def nibble_def dest: hex_digit_inj [rotated 2])

lemma hex_run_brace: "CHR ''}'' \<notin> set (hex_run u is)"
proof
  assume "CHR ''}'' \<in> set (hex_run u is)"
  then obtain i where i: "hex_digit (nibble u i) = CHR ''}''" by (auto simp: hex_run_def)
  have "hex_digit (nibble u i) \<in> set ''0123456789abcdef''" by (rule hex_digit_mem) (simp add: nibble_def)
  then show False unfolding i by simp
qed

lemma nibbles_value:
  fixes a b :: nat
  assumes "\<And>i. i < n \<Longrightarrow> (a div 16 ^ i) mod 16 = (b div 16 ^ i) mod 16"
  shows "a mod 16 ^ n = b mod 16 ^ n"
  using assms
proof (induction n)
  case (Suc n)
  have "x mod 16 ^ Suc n = 16 ^ n * (x div 16 ^ n mod 16) + x mod 16 ^ n" for x :: nat
    using mod_mult2_eq [of x "16 ^ n" 16] by (simp add: mult.commute)
  with Suc show ?case by simp
qed simp

lemma uuid_hex_text: "uuid_text uuid_hex"
proof -
  have "u = v" if "uuid_hex u = uuid_hex v" for u v
  proof -
    have runs: "hex_run u is = hex_run v is"
      if "is \<in> {rev [24..<32], rev [20..<24], rev [16..<20], rev [12..<16], rev [0..<12]}" for "is"
      using \<open>uuid_hex u = uuid_hex v\<close> that unfolding uuid_hex_def
      by (auto simp: hex_run_def append_eq_append_conv)
    have "nibble u i = nibble v i" if "i < 32" for i
    proof -
      have "i \<in> set (rev [0..<12]) \<or> i \<in> set (rev [12..<16]) \<or> i \<in> set (rev [16..<20]) \<or>
          i \<in> set (rev [20..<24]) \<or> i \<in> set (rev [24..<32])"
        unfolding set_rev set_upt atLeastLessThan_iff using that by linarith
      then show ?thesis
        using hex_run_inj [OF runs [of "rev [0..<12]"]] hex_run_inj [OF runs [of "rev [12..<16]"]]
          hex_run_inj [OF runs [of "rev [16..<20]"]] hex_run_inj [OF runs [of "rev [20..<24]"]]
          hex_run_inj [OF runs [of "rev [24..<32]"]]
        by blast
    qed
    then have "unat u mod 16 ^ 32 = unat v mod 16 ^ 32"
      by (intro nibbles_value) (simp add: nibble_def)
    moreover have "unat x mod 16 ^ 32 = unat x" for x :: uuid
      using unsigned_less [of x, where 'a = nat] by simp
    ultimately show ?thesis by (metis unsigned_word_eqI)
  qed
  moreover have "CHR ''}'' \<notin> set (uuid_hex u)" for u
    by (simp add: uuid_hex_def hex_run_brace)
  ultimately show ?thesis by (auto simp: uuid_text_def inj_def)
qed

interpretation redis: redis_counters keyspace_cmds purge uuid_hex "\<lambda>ts. ts"
  by unfold_locales simp_all

end
