(* ===== verification/Redis_Quota.thy ===== *)
theory Redis_Quota
  imports Quota_Enforcer Redis_Counters
begin

text \<open>
  The enforcer as \<open>bootstrap/quota.go\<close> wires it: live counters in Redis, durable counters in
  Postgres. \<open>redis_ports\<close> is that wiring; the tenant and quota readers and the price table stay
  parameters. The contracts of \<open>Quota_Counters\<close> and \<open>Usage_Flusher\<close> hold for it, so the lemmas of
  \<open>quota_backends\<close> apply.
\<close>

section \<open>Definitions\<close>

definition redis_ports ::
  "'db redis_cmds \<Rightarrow> (uuid \<Rightarrow> string) \<Rightarrow> (uuid list \<Rightarrow> uuid list) \<Rightarrow>
   (string \<Rightarrow> 't \<Rightarrow> (tenant_read_error + uuid) \<times> 't) \<Rightarrow>
   (uuid \<Rightarrow> 't \<Rightarrow> (tenant_read_error + Quota list) \<times> 't) \<Rightarrow>
   (time \<Rightarrow> string \<Rightarrow> (Rates \<times> string) option) option \<Rightarrow>
   ('db redis_client, counter_error, usage_counters pg, usage_error, 't) quota_ports" where
  "redis_ports R uuid_str order tenants quotas pricing =
     \<lparr>qp_GetByExternalID = tenants, qp_List = quotas,
      qp_Get = UsageCounterRepo_Get, qp_AddDeltas = UsageCounterRepo_AddDeltas,
      qp_Reserve = Counters_Reserve R uuid_str, qp_Seed = Counters_Seed R uuid_str order,
      qp_Adjust = Counters_Adjust R uuid_str, qp_RatesAt = pricing\<rparr>"

text \<open>The live counter of a window in the state of the wired enforcer, and what a window stands at
  once a missing counter is read from the store.\<close>

definition live_counter ::
  "(int \<Rightarrow> 'db \<Rightarrow> redis) \<Rightarrow> (uuid \<Rightarrow> string) \<Rightarrow> uuid \<Rightarrow> Window \<Rightarrow> ('db redis_client, 'd, 't) Enforcer \<Rightarrow> QuotaUsage option" where
  "live_counter live uuid_str t w e = live_usage live uuid_str (en_counters e) t w"

definition window_usage ::
  "(int \<Rightarrow> 'db \<Rightarrow> redis) \<Rightarrow> (uuid \<Rightarrow> string) \<Rightarrow> uuid \<Rightarrow> ('db redis_client, usage_counters pg, 't) Enforcer \<Rightarrow>
   Window \<Rightarrow> QuotaUsage" where
  "window_usage live uuid_str t e w =
     (case live_counter live uuid_str t w e of Some u \<Rightarrow> u | None \<Rightarrow> stored_usage (en_durable e) (row_of t w))"

definition both_up :: "('db redis_client, usage_counters pg, 't) Enforcer \<Rightarrow> bool" where
  "both_up e \<longleftrightarrow> healthy_store (en_counters e) \<and> pg_up (en_durable e)"

section \<open>The contracts hold\<close>

context redis_counters
begin

lemma backends:
  "quota_backends (Counters_Reserve R uuid_str) (Counters_Seed R uuid_str order) (Counters_Adjust R uuid_str)
    (\<lambda>c. counter_at (live (rc_now c) (rc_db c))) (Key uuid_str) healthy_store (\<lambda>c w. rc_now c < expireAt w)
    UsageCounterRepo_AddDeltas UsageCounterRepo_Get stored_usage pg_definite pg_up
    (redis_ports R uuid_str order tenants quotas pricing)"
  by unfold_locales (simp_all add: redis_ports_def)

end

interpretation redis_quota: quota_backends "Counters_Reserve keyspace_cmds uuid_hex"
    "Counters_Seed keyspace_cmds uuid_hex (\<lambda>ts. ts)" "Counters_Adjust keyspace_cmds uuid_hex"
    "\<lambda>c. counter_at (purge (rc_now c) (rc_db c))" "Key uuid_hex" healthy_store
    "\<lambda>c w. rc_now c < expireAt w"
    UsageCounterRepo_AddDeltas UsageCounterRepo_Get stored_usage pg_definite pg_up
    "redis_ports keyspace_cmds uuid_hex (\<lambda>ts. ts) tenants quotas pricing"
  for tenants :: "string \<Rightarrow> 't \<Rightarrow> (tenant_read_error + uuid) \<times> 't" and quotas pricing
  by (rule redis.backends)

section \<open>A request end to end\<close>

lemma window_usage_seeded:
  "window_usage live uuid_str t e =
     seeded_usage (\<lambda>c. counter_at (live (rc_now c) (rc_db c))) (Key uuid_str) stored_usage t (en_counters e) (en_durable e)"
  by (rule ext) (simp add: window_usage_def seeded_usage_def live_counter_def live_usage_def)

text \<open>The conditions under which the numbers of a reservation are compared exactly: each is below
  \<open>2 ^ 52\<close>, and no window is past the expiry of its counter.\<close>

definition quota_in_range ::
  "(int \<Rightarrow> 'db \<Rightarrow> redis) \<Rightarrow> (uuid \<Rightarrow> string) \<Rightarrow> ('db redis_client, usage_counters pg, 't) Enforcer \<Rightarrow> uuid \<Rightarrow>
   WindowLimit list \<Rightarrow> QuotaUsage \<Rightarrow> bool" where
  "quota_in_range live uuid_str e t limits amount \<longleftrightarrow>
     usage_exact amount \<and>
     (\<forall>l \<in> set limits. lua_exact (wl_MaxCost l) \<and> rc_now (en_counters e) < expireAt (wl_Window l) \<and>
        usage_exact (window_usage live uuid_str t e (wl_Window l)) \<and>
        nonneg_quota_usage (window_usage live uuid_str t e (wl_Window l)))"

text \<open>What the admin side promises of a tenant's quota rows: each is valid, one per window kind.\<close>

definition quotas_ok :: "Quota list \<Rightarrow> bool" where
  "quotas_ok qs \<longleftrightarrow> (\<forall>q \<in> set qs. Quota_Validate q = None) \<and> distinct (map q_WindowKind qs)"

definition request_amount :: "('c, 'ce, 'd, 'de, 't) quota_ports \<Rightarrow> QuotaRequest \<Rightarrow> ('c, 'd, 't) Enforcer \<Rightarrow> QuotaUsage option" where
  "request_amount P req e =
     (let est = EstimateTokens (qr_Prompt req) (qr_MaxOutputTokens req) (qr_Choices req)
            (qc_DefaultMaxOutput (en_cfg e))
      in case priceEstimate P req est of
           (cost, True) \<Rightarrow> Some \<lparr>u_Requests = 1, u_Tokens = Total est, u_Cost = cost\<rparr>
         | (cost, False) \<Rightarrow> None)"

definition granted_state ::
  "(int \<Rightarrow> 'db \<Rightarrow> redis) \<Rightarrow> (uuid \<Rightarrow> string) \<Rightarrow> uuid \<Rightarrow> WindowLimit list \<Rightarrow> QuotaUsage \<Rightarrow>
   ('db redis_client, usage_counters pg, 't) Enforcer \<Rightarrow> ('db redis_client, usage_counters pg, 't) Enforcer \<Rightarrow> bool" where
  "granted_state live uuid_str t limits amount e e' \<longleftrightarrow>
     (\<forall>l \<in> set limits. live_counter live uuid_str t (wl_Window l) e' =
        Some (plus_usage (window_usage live uuid_str t e (wl_Window l)) amount) \<and>
        (wl_Block l \<longrightarrow> u_Cost (window_usage live uuid_str t e (wl_Window l)) + u_Cost amount \<le> wl_MaxCost l))"

definition refused_state ::
  "(int \<Rightarrow> 'db \<Rightarrow> redis) \<Rightarrow> (uuid \<Rightarrow> string) \<Rightarrow> uuid \<Rightarrow> WindowLimit list \<Rightarrow> QuotaUsage \<Rightarrow> QuotaBreach \<Rightarrow>
   ('db redis_client, usage_counters pg, 't) Enforcer \<Rightarrow> ('db redis_client, usage_counters pg, 't) Enforcer \<Rightarrow> bool" where
  "refused_state live uuid_str t limits amount b e e' \<longleftrightarrow>
     (\<forall>l \<in> set limits. live_counter live uuid_str t (wl_Window l) e' =
        Some (window_usage live uuid_str t e (wl_Window l))) \<and>
     (\<exists>l \<in> set limits. wl_Block l \<and> b_Window b = wl_Window l \<and> b_Limit b = wl_MaxCost l \<and>
        b_Used b = u_Cost (window_usage live uuid_str t e (wl_Window l)) \<and> b_Requested b = u_Cost amount \<and>
        b_Used b + b_Requested b > b_Limit b)"

lemma quotas_ok_keys:
  assumes "uuid_text uuid_str" "quotas_ok qs" "limits = ApplicableLimits qs at"
  shows "distinct (map (\<lambda>l. Key uuid_str t (wl_Window l)) limits)"
proof (rule Key_distinct [OF assms(1)])
  show "distinct (map (\<lambda>l. w_Kind (wl_Window l)) limits)"
    using assms(2,3) ApplicableLimits_distinct by (simp add: quotas_ok_def)
  fix l
  assume "l \<in> set limits"
  then have "w_Kind (wl_Window l) \<in> q_WindowKind ` set qs"
    using ApplicableLimits_kinds [of qs at] assms(3) by auto
  then show "w_Kind (wl_Window l) \<in> set WindowKinds"
    using assms(2) by (auto simp: quotas_ok_def Quota_Validate_iff valid_quota_shape_def)
qed

lemma request_amount_Some:
  assumes "request_amount P req e = Some amount"
  obtains cost est where "est = EstimateTokens (qr_Prompt req) (qr_MaxOutputTokens req) (qr_Choices req)
      (qc_DefaultMaxOutput (en_cfg e))"
    "priceEstimate P req est = (cost, True)" "amount = \<lparr>u_Requests = 1, u_Tokens = Total est, u_Cost = cost\<rparr>"
  using assms by (auto simp: request_amount_def Let_def split: prod.splits bool.splits)

lemma Reserve_on_redis:
  assumes redis: "redis_counters R live order"
    and P: "P = redis_ports R uuid_str order tenants quotas pricing"
    and up: "both_up e" and lim: "tenant_limits P now (qr_Tenant req) e = (Inr lim, e1)"
    and ut: "uuid_text uuid_str" and qs: "quotas_ok (tl_quotas lim)"
    and limits: "limits = ApplicableLimits (tl_quotas lim) (qr_At req)" "limits \<noteq> []"
    and amount: "request_amount P req e = Some amount"
    and range: "quota_in_range live uuid_str e (tl_tenantID lim) limits amount"
  shows "\<exists>e'. en_cfg e' = en_cfg e \<and> en_flusher e' = en_flusher e \<and> healthy_store (en_counters e') \<and>
    (Enforcer_Reserve P now req e = (Inr (reservation_of req (tl_tenantID lim) limits amount), e') \<and>
       granted_state live uuid_str (tl_tenantID lim) limits amount e e' \<or>
     (\<exists>b. Enforcer_Reserve P now req e = (Inl (QuotaExceededError b), e') \<and>
       refused_state live uuid_str (tl_tenantID lim) limits amount b e e'))"
proof -
  let ?t = "tl_tenantID lim" and ?view = "\<lambda>l. Some (window_usage live uuid_str (tl_tenantID lim) e (wl_Window l))"
  let ?r = "spec_reserve ?view limits amount"
  obtain cost est where est: "est = EstimateTokens (qr_Prompt req) (qr_MaxOutputTokens req) (qr_Choices req)
      (qc_DefaultMaxOutput (en_cfg e))" "priceEstimate P req est = (cost, True)"
    and a: "amount = \<lparr>u_Requests = 1, u_Tokens = Total est, u_Cost = cost\<rparr>"
    using amount by (rule request_amount_Some)
  note b = redis_counters.backends [OF redis, of uuid_str tenants quotas pricing, folded P]
  have range': "reserve_in_range (Key uuid_str) (\<lambda>w. rc_now (en_counters e) < expireAt w)
      (window_usage live uuid_str ?t e) ?t limits amount"
    using range quotas_ok_keys [OF ut qs limits(1)] by (simp add: reserve_in_range_def quota_in_range_def)
  obtain e' where e': "Enforcer_Reserve P now req e = ((case cr_Blocked ?r of Some b \<Rightarrow> Inl (QuotaExceededError b)
        | None \<Rightarrow> Inr (reservation_of req ?t limits amount)), e')" "healthy_store (en_counters e')"
      "en_flusher e' = en_flusher e" "en_cfg e' = en_cfg e"
      "\<forall>l \<in> set limits. live_counter live uuid_str ?t (wl_Window l) e' =
       Some (if cr_Blocked ?r = None then plus_usage (window_usage live uuid_str ?t e (wl_Window l)) amount
             else window_usage live uuid_str ?t e (wl_Window l))"
    using quota_backends.Reserve_decides [OF b lim limits est a] up range'
    unfolding both_up_def live_counter_def live_usage_def window_usage_seeded by blast
  show ?thesis
  proof (cases "cr_Blocked ?r")
    case None
    then have "granted ?r" by (simp add: granted_def spec_reserve_missing)
    from granted_caps [OF this] have "granted_state live uuid_str ?t limits amount e e'"
      using e'(5) None by (auto simp: granted_state_def)
    with None e' show ?thesis by auto
  next
    case (Some b)
    have "refused_state live uuid_str ?t limits amount b e e'"
      using blocked_crosses [OF Some] e'(5) Some by (auto simp: refused_state_def breach_of_def)
    with Some e' show ?thesis by auto
  qed
qed

lemma Reconcile_on_redis:
  assumes redis: "redis_counters R live order"
    and P: "P = redis_ports R uuid_str order tenants quotas pricing"
    and h: "healthy_store (en_counters e)"
    and d: "distinct (map (Key uuid_str (rv_TenantID res)) (rv_Windows res))"
    and ex: "usage_exact (rv_Reserved res)" "usage_exact (actualUsage P res out)"
    and fit: "\<forall>w \<in> set (rv_Windows res). \<forall>u. live_counter live uuid_str (rv_TenantID res) w e = Some u \<longrightarrow> usage_exact u"
    and w: "w \<in> set (rv_Windows res)"
  shows "live_counter live uuid_str (rv_TenantID res) w (Enforcer_Reconcile P res out e) =
    map_option (\<lambda>u. plus_usage u (diff_usage (actualUsage P res out) (rv_Reserved res)))
      (live_counter live uuid_str (rv_TenantID res) w e)"
  using quota_backends.Reconcile_counters [OF redis_counters.backends [OF redis, of uuid_str tenants quotas pricing, folded P]
      h d ex, of "Key uuid_str (rv_TenantID res) w"] fit w
  by (simp add: live_counter_def live_usage_def)

section \<open>A sample deployment\<close>

text \<open>One tenant with one hourly cap of a dollar, one priced target, empty stores.\<close>

definition sample_rates :: Rates where
  "sample_rates = \<lparr>r_Input = 1000000000, r_Output = 2000000000, r_CacheRead = 0, r_CacheWrite = 0\<rparr>"

definition sample_quota :: Quota where
  "sample_quota = \<lparr>q_WindowKind = WindowHour, q_PeriodStart = None, q_PeriodEnd = None,
     q_MaxCost = 1000000000, q_OnExceed = QuotaBlock, q_UpdatedAt = 0\<rparr>"

definition sample_req :: QuotaRequest where
  "sample_req = \<lparr>qr_Tenant = ''acme'', qr_At = 0,
     qr_Prompt = \<lparr>ps_TextBytes = 40, ps_Messages = 1, ps_MediaParts = 0\<rparr>,
     qr_MaxOutputTokens = 100, qr_Choices = 1, qr_Targets = [''fast'']\<rparr>"

definition sample_ports ::
  "(redis redis_client, counter_error, usage_counters pg, usage_error, unit) quota_ports" where
  "sample_ports = redis_ports keyspace_cmds uuid_hex (\<lambda>ts. ts) (\<lambda>name s. (Inr 5, s))
     (\<lambda>t s. (Inr [sample_quota], s)) (Some (\<lambda>at t. Some (sample_rates, ''v1'')))"

definition sample_config :: quota_Config where
  "sample_config = \<lparr>qc_OnUnavailable = FailClosed, qc_DefaultMaxOutput = 0, qc_LimitsTTL = 0,
     qc_FlushInterval = 0, qc_FlushBuffer = 0, qc_ResyncInterval = 0\<rparr>"

definition sample_enforcer :: "(redis redis_client, usage_counters pg, unit) Enforcer" where
  "sample_enforcer = New_Enforcer sample_config \<lparr>rc_db = Map.empty, rc_now = 0, rc_faults = []\<rparr>
     \<lparr>pg_db = Map.empty, pg_faults = []\<rparr> ()"

definition sample_limits :: tenantLimits where
  "sample_limits = \<lparr>tl_tenantID = 5, tl_quotas = [sample_quota], tl_fetched = 0\<rparr>"

definition sample_window :: Window where
  "sample_window = \<lparr>w_Kind = WindowHour, w_Start = 0, w_End = 3600000000000\<rparr>"

definition sample_amount :: QuotaUsage where
  "sample_amount = \<lparr>u_Requests = 1, u_Tokens = 114, u_Cost = 214000\<rparr>"

lemma sample_applicable:
  "ApplicableLimits [sample_quota] 0 =
     [\<lparr>wl_Window = sample_window, wl_MaxCost = 1000000000, wl_Block = True\<rparr>]"
  by code_simp

lemma sample_request_amount: "request_amount sample_ports sample_req sample_enforcer = Some sample_amount"
  by code_simp

lemma sample_quotas_ok: "quotas_ok [sample_quota]"
  by code_simp

lemma sample_tenant_limits:
  "tenant_limits sample_ports 0 (qr_Tenant sample_req) sample_enforcer =
     (Inr sample_limits, sample_enforcer\<lparr>en_limits := [(''acme'', sample_limits)]\<rparr>)"
  by (simp add: tenant_limits_def sample_ports_def redis_ports_def sample_enforcer_def New_Enforcer_def
      sample_req_def loadLimits_def sample_limits_def zero_tenantLimits_def Let_def)

lemma sample_usage: "window_usage purge uuid_hex t sample_enforcer w = zero_quota_usage"
  by (simp add: window_usage_def live_counter_def live_usage_def counter_at_def purge_def stored_usage_def
      sample_enforcer_def New_Enforcer_def)

lemma sample_up: "both_up sample_enforcer"
  by (simp add: both_up_def sample_enforcer_def New_Enforcer_def healthy_store_def pg_up_def)

lemma sample_expiry: "expireAt sample_window = 7200"
  by code_simp

lemma sample_in_range:
  "quota_in_range purge uuid_hex sample_enforcer 5 (ApplicableLimits [sample_quota] 0) sample_amount"
proof -
  have "rc_now (en_counters sample_enforcer) = 0" by (simp add: sample_enforcer_def New_Enforcer_def)
  then show ?thesis
    by (simp add: quota_in_range_def sample_applicable sample_usage sample_expiry usage_exact_def lua_exact_def
        sample_amount_def zero_quota_usage_def nonneg_quota_usage_def del: ApplicableLimits.simps)
qed

lemmas sample_facts = sample_applicable sample_request_amount sample_quotas_ok sample_tenant_limits
  sample_usage sample_up sample_in_range sample_expiry uuid_hex_text redis.redis_counters_axioms

section \<open>Properties\<close>

text \<open>
  C1. With Redis and Postgres answering, \<open>Enforcer.Reserve\<close> decides every priced request of a
  tenant with valid quotas, over any Redis that behaves as documented: either the reservation is
  granted, every window's live counter has grown by exactly the worst case of the request and no
  blocking cap is exceeded; or it is refused, no counter has moved (beyond missing ones now
  holding what the store recorded), and the breach reported names a blocking limit that the
  request would really have crossed.
\<close>

theorem reserve_within_caps:
  assumes "redis_counters R live order" "uuid_text uuid_str"
    and "P = redis_ports R uuid_str order tenants quotas pricing" "both_up e"
    and "tenant_limits P now (qr_Tenant req) e = (Inr lim, e1)" "quotas_ok (tl_quotas lim)"
    and "limits = ApplicableLimits (tl_quotas lim) (qr_At req)" "limits \<noteq> []"
    and "request_amount P req e = Some amount"
    and "quota_in_range live uuid_str e (tl_tenantID lim) limits amount"
  shows "\<exists>e'.
    Enforcer_Reserve P now req e = (Inr (reservation_of req (tl_tenantID lim) limits amount), e') \<and>
      granted_state live uuid_str (tl_tenantID lim) limits amount e e' \<or>
    (\<exists>b. Enforcer_Reserve P now req e = (Inl (QuotaExceededError b), e') \<and>
       refused_state live uuid_str (tl_tenantID lim) limits amount b e e')"
  using Reserve_on_redis [OF assms(1,3-5,2,6-10)] by blast

theorem reserve_within_caps_witness:
  "\<exists>e'.
    Enforcer_Reserve sample_ports 0 sample_req sample_enforcer =
      (Inr (reservation_of sample_req 5 (ApplicableLimits [sample_quota] 0) sample_amount), e') \<and>
      granted_state purge uuid_hex 5 (ApplicableLimits [sample_quota] 0) sample_amount sample_enforcer e' \<or>
    (\<exists>b. Enforcer_Reserve sample_ports 0 sample_req sample_enforcer = (Inl (QuotaExceededError b), e') \<and>
       refused_state purge uuid_hex 5 (ApplicableLimits [sample_quota] 0) sample_amount b sample_enforcer e')"
proof -
  have "qr_At sample_req = 0" "tl_quotas sample_limits = [sample_quota]" "tl_tenantID sample_limits = 5"
    by (simp_all add: sample_req_def sample_limits_def)
  then show ?thesis
    using reserve_within_caps [OF redis.redis_counters_axioms uuid_hex_text sample_ports_def sample_up
        sample_tenant_limits _ refl _ sample_request_amount] sample_facts
    by (simp del: ApplicableLimits.simps)
qed

end
