(* ===== verification/Config.thy ===== *)
theory Config
  imports Metering Calendar
begin

text \<open>
  The configuration of the proxy, \<open>config/config.go\<close>: its records, the defaults and the
  validation. A Go map is an association list with distinct keys; its order stands for the
  iteration order, so every statement holds for all of them. Reading the file, expanding
  environment variables and YAML are not modelled.

  A \<open>float64\<close> of the price table is a value of a type \<open>'f\<close> with a zero, and \<open>FromDollars\<close>
  the parameter \<open>from_dollars\<close> that rounds it to nanodollars. \<open>validate\<close> returns the list of the
  problems found; the sorting of the printed list is left out.
\<close>

section \<open>Definitions\<close>

record cfg_Redis =
  cr_Addr :: string
  cr_Password :: string
  cr_DB :: int
  cr_Timeout :: duration
  cr_OnUnavailable :: string

record cfg_Quota =
  cq_DefaultMaxOutputTokens :: int
  cq_LimitsTTL :: duration
  cq_FlushInterval :: duration
  cq_FlushBuffer :: int
  cq_ResyncInterval :: duration

record cfg_Sink =
  cs_DSN :: string
  cs_BufferSize :: int
  cs_BatchSize :: int
  cs_FlushInterval :: duration

record cfg_Provider =
  cp_Type :: string
  cp_BaseURL :: string
  cp_APIKey :: string
  cp_DisableStreamOptions :: bool
  cp_ExtraHeaders :: "(string \<times> string) list"

record 'f RateConfig =
  rc_Free :: bool
  rc_InputPerMillion :: 'f
  rc_OutputPerMillion :: 'f
  rc_CacheReadPerMillion :: 'f
  rc_CacheWritePerMillion :: 'f
  rc_Note :: string

record 'f PriceBlock =
  pb_EffectiveFrom :: time
  pb_Source :: string
  pb_Rates :: "(string \<times> 'f RateConfig) list"

record 'f cfg_Pricing =
  cp_CompareAgainst :: "string list"
  cp_Table :: "'f PriceBlock list"

record cfg_Target =
  ct_Provider :: string
  ct_Model :: string
  ct_Region :: string

record 'f Config =
  cfg_Listen :: string
  cfg_Providers :: "(string \<times> cfg_Provider) list"
  cfg_Targets :: "(string \<times> cfg_Target) list"
  cfg_Models :: "(string \<times> string list) list"
  cfg_Sink :: cfg_Sink
  cfg_Pricing :: "'f cfg_Pricing"
  cfg_Redis :: cfg_Redis
  cfg_Quota :: cfg_Quota

definition Redis_Enabled :: "cfg_Redis \<Rightarrow> bool" where
  "Redis_Enabled r \<longleftrightarrow> cr_Addr r \<noteq> ''''"

definition ToRates :: "('f \<Rightarrow> int) \<Rightarrow> 'f RateConfig \<Rightarrow> Rates" where
  "ToRates from_dollars rc =
     (if rc_Free rc then zero_rates
      else \<lparr>r_Input = from_dollars (rc_InputPerMillion rc), r_Output = from_dollars (rc_OutputPerMillion rc),
            r_CacheRead = from_dollars (rc_CacheReadPerMillion rc),
            r_CacheWrite = from_dollars (rc_CacheWritePerMillion rc)\<rparr>)"

definition applyQuotaDefaults :: "'f Config \<Rightarrow> 'f Config" where
  "applyQuotaDefaults c =
     (let r = cfg_Redis c; q = cfg_Quota c
      in c\<lparr>cfg_Redis := r\<lparr>cr_Timeout := (if cr_Timeout r = 0 then 100000000 else cr_Timeout r),
             cr_OnUnavailable := (if cr_OnUnavailable r = '''' then ''open'' else cr_OnUnavailable r)\<rparr>,
           cfg_Quota := q\<lparr>cq_DefaultMaxOutputTokens :=
               (if cq_DefaultMaxOutputTokens q = 0 then 4096 else cq_DefaultMaxOutputTokens q),
             cq_LimitsTTL := (if cq_LimitsTTL q = 0 then 10 * Second else cq_LimitsTTL q),
             cq_FlushInterval := (if cq_FlushInterval q = 0 then Second else cq_FlushInterval q),
             cq_FlushBuffer := (if cq_FlushBuffer q = 0 then 8192 else cq_FlushBuffer q),
             cq_ResyncInterval := (if cq_ResyncInterval q = 0 then Minute else cq_ResyncInterval q)\<rparr>\<rparr>)"

text \<open>\<open>Format("2006-01-02")\<close>: year, month and day, padded with zeros.\<close>

definition pad :: "nat \<Rightarrow> int \<Rightarrow> string" where
  "pad n k = (let d = FormatInt k in replicate (n - length d) (CHR ''0'') @ d)"

definition FormatDate :: "time \<Rightarrow> string" where
  "FormatDate t = pad 4 (Year t) @ ''-'' @ pad 2 (Month t) @ ''-'' @ pad 2 (Day t)"

datatype config_problem =
    NoProviders
  | NoModels
  | UnknownProviderType string string
  | BaseURLRequired string
  | UnknownProvider string string
  | ModelRequired string
  | EmptyLadder string
  | UnknownTarget string string
  | DSNRequired
  | NoEffectiveFrom
  | SharedEffectiveFrom string
  | PricedUnknownTarget string string
  | NoRatesNotFree string string
  | BadRates string string rates_error
  | MissingFromLatest string
  | BadOnUnavailable string
  | NegativeTimeout
  | NegativeDB
  | NegativeDefaultMaxOutput
  | NegativeLimitsTTL
  | NegativeFlushInterval
  | NegativeFlushBuffer
  | NegativeResyncInterval

fun validate_rates ::
  "('f::zero \<Rightarrow> int) \<Rightarrow> (string \<times> cfg_Target) list \<Rightarrow> string \<Rightarrow> (string \<times> 'f RateConfig) list \<Rightarrow> config_problem list" where
  "validate_rates from_dollars targets key [] = []"
| "validate_rates from_dollars targets key ((name, rc) # rest) =
     (if map_of targets name = None then [PricedUnknownTarget key name] else []) @
     (if \<not> rc_Free rc \<and> rc_InputPerMillion rc = 0 \<and> rc_OutputPerMillion rc = 0
      then [NoRatesNotFree key name] else []) @
     (case Rates_Validate rate_names (ToRates from_dollars rc) of
        Some err \<Rightarrow> [BadRates key name err] | None \<Rightarrow> []) @
     validate_rates from_dollars targets key rest"

fun validate_blocks ::
  "('f::zero \<Rightarrow> int) \<Rightarrow> (string \<times> cfg_Target) list \<Rightarrow> string list \<Rightarrow> 'f PriceBlock list \<Rightarrow> config_problem list" where
  "validate_blocks from_dollars targets seen [] = []"
| "validate_blocks from_dollars targets seen (b # bs) =
     (if pb_EffectiveFrom b = zero_time then NoEffectiveFrom # validate_blocks from_dollars targets seen bs
      else
        let key = FormatDate (pb_EffectiveFrom b)
        in (if key \<in> set seen then [SharedEffectiveFrom key] else []) @
           validate_rates from_dollars targets key (pb_Rates b) @
           validate_blocks from_dollars targets (key # seen) bs)"

definition validatePricing :: "('f::zero \<Rightarrow> int) \<Rightarrow> 'f Config \<Rightarrow> config_problem list" where
  "validatePricing from_dollars c =
     (let table = cp_Table (cfg_Pricing c) in
      if length table = 0 then []
      else
        validate_blocks from_dollars (cfg_Targets c) [] table @
        (if length table > 1 then
           let latest = last table
           in concat (map (\<lambda>b. map MissingFromLatest
                (filter (\<lambda>name. map_of (pb_Rates latest) name = None) (map fst (pb_Rates b)))) (butlast table))
         else []))"

definition validateQuota :: "'f Config \<Rightarrow> config_problem list" where
  "validateQuota c =
     (let r = cfg_Redis c; q = cfg_Quota c in
      (if cr_OnUnavailable r = ''open'' \<or> cr_OnUnavailable r = ''closed'' then []
       else [BadOnUnavailable (cr_OnUnavailable r)]) @
      (if cr_Timeout r < 0 then [NegativeTimeout] else []) @
      (if cr_DB r < 0 then [NegativeDB] else []) @
      (if cq_DefaultMaxOutputTokens q < 0 then [NegativeDefaultMaxOutput] else []) @
      (if cq_LimitsTTL q < 0 then [NegativeLimitsTTL] else []) @
      (if cq_FlushInterval q < 0 then [NegativeFlushInterval] else []) @
      (if cq_FlushBuffer q < 0 then [NegativeFlushBuffer] else []) @
      (if cq_ResyncInterval q < 0 then [NegativeResyncInterval] else []))"

definition validate_provider :: "string \<times> cfg_Provider \<Rightarrow> config_problem list" where
  "validate_provider np =
     (case np of (name, p) \<Rightarrow>
       (if cp_Type p \<noteq> ''oaicompat'' then [UnknownProviderType name (cp_Type p)] else []) @
       (if cp_BaseURL p = '''' then [BaseURLRequired name] else []))"

definition validate_target :: "(string \<times> cfg_Provider) list \<Rightarrow> string \<times> cfg_Target \<Rightarrow> config_problem list" where
  "validate_target providers nt =
     (case nt of (name, t) \<Rightarrow>
       (if map_of providers (ct_Provider t) = None then [UnknownProvider name (ct_Provider t)] else []) @
       (if ct_Model t = '''' then [ModelRequired name] else []))"

definition validate_model :: "(string \<times> cfg_Target) list \<Rightarrow> string \<times> string list \<Rightarrow> config_problem list" where
  "validate_model targets al =
     (case al of (alias, ladder) \<Rightarrow>
       (if length ladder = 0 then [EmptyLadder alias] else []) @
       map (UnknownTarget alias) (filter (\<lambda>tn. map_of targets tn = None) ladder))"

definition Config_validate :: "('f::zero \<Rightarrow> int) \<Rightarrow> 'f Config \<Rightarrow> config_problem list" where
  "Config_validate from_dollars c =
     (if length (cfg_Providers c) = 0 then [NoProviders] else []) @
     (if length (cfg_Models c) = 0 then [NoModels] else []) @
     concat (map validate_provider (cfg_Providers c)) @
     concat (map (validate_target (cfg_Providers c)) (cfg_Targets c)) @
     concat (map (validate_model (cfg_Targets c)) (cfg_Models c)) @
     (if cs_DSN (cfg_Sink c) = '''' then [DSNRequired] else []) @
     validatePricing from_dollars c @ validateQuota c"

text \<open>\<open>Load\<close> after the file is decoded: the listen address, the defaults, the validation.\<close>

definition Load_decoded :: "('f::zero \<Rightarrow> int) \<Rightarrow> 'f Config \<Rightarrow> config_problem list + 'f Config" where
  "Load_decoded from_dollars cfg =
     (let cfg1 = (if cfg_Listen cfg = '''' then cfg\<lparr>cfg_Listen := '':4000''\<rparr> else cfg);
          cfg2 = applyQuotaDefaults cfg1;
          errs = Config_validate from_dollars cfg2
      in if errs \<noteq> [] then Inl errs else Inr cfg2)"

text \<open>What Go maps guarantee: keys are distinct.\<close>

definition maps_ok :: "'f Config \<Rightarrow> bool" where
  "maps_ok c \<longleftrightarrow> distinct (map fst (cfg_Providers c)) \<and> distinct (map fst (cfg_Targets c)) \<and>
     distinct (map fst (cfg_Models c)) \<and>
     (\<forall>b \<in> set (cp_Table (cfg_Pricing c)). distinct (map fst (pb_Rates b)))"

section \<open>What validation gives\<close>

lemma validate_routing:
  assumes "Config_validate from_dollars c = []"
  shows "cfg_Models c \<noteq> []"
    and "(alias, ladder) \<in> set (cfg_Models c) \<Longrightarrow> ladder \<noteq> [] \<and> (\<forall>tn \<in> set ladder. \<exists>t. map_of (cfg_Targets c) tn = Some t)"
    and "(name, t) \<in> set (cfg_Targets c) \<Longrightarrow> ct_Model t \<noteq> '''' \<and> (\<exists>p. map_of (cfg_Providers c) (ct_Provider t) = Some p)"
    and "(name, p) \<in> set (cfg_Providers c) \<Longrightarrow> cp_Type p = ''oaicompat'' \<and> cp_BaseURL p \<noteq> ''''"
proof -
  show "cfg_Models c \<noteq> []" using assms by (auto simp: Config_validate_def split: if_splits)
  show "ladder \<noteq> [] \<and> (\<forall>tn \<in> set ladder. \<exists>t. map_of (cfg_Targets c) tn = Some t)"
    if "(alias, ladder) \<in> set (cfg_Models c)"
    using assms that by (auto simp: Config_validate_def validate_model_def filter_empty_conv split: if_splits)
  show "ct_Model t \<noteq> '''' \<and> (\<exists>p. map_of (cfg_Providers c) (ct_Provider t) = Some p)"
    if "(name, t) \<in> set (cfg_Targets c)"
    using assms that by (fastforce simp: Config_validate_def validate_target_def split: if_splits)
  show "cp_Type p = ''oaicompat'' \<and> cp_BaseURL p \<noteq> ''''" if "(name, p) \<in> set (cfg_Providers c)"
    using assms that by (fastforce simp: Config_validate_def validate_provider_def split: if_splits)
qed

lemma validate_pricing:
  assumes "Config_validate from_dollars c = []"
  shows "validatePricing from_dollars c = []" "validateQuota c = []"
  using assms by (simp_all add: Config_validate_def)

lemma validate_rates_ok:
  assumes "validate_rates from_dollars targets key rates = []" "(name, rc) \<in> set rates"
  shows "(\<exists>t. map_of targets name = Some t) \<and> Rates_Validate rate_names (ToRates from_dollars rc) = None"
  using assms
  by (induction from_dollars targets key rates rule: validate_rates.induct) (auto split: if_splits option.splits)

lemma validate_blocks_ok:
  assumes "validate_blocks from_dollars targets seen bs = []" "b \<in> set bs"
  shows "pb_EffectiveFrom b \<noteq> zero_time \<and> FormatDate (pb_EffectiveFrom b) \<notin> set seen \<and>
    validate_rates from_dollars targets (FormatDate (pb_EffectiveFrom b)) (pb_Rates b) = []"
  using assms
proof (induction bs arbitrary: seen)
  case (Cons x bs)
  then show ?case by (fastforce simp: Let_def split: if_splits)
qed simp

lemma validate_blocks_distinct:
  assumes "validate_blocks from_dollars targets seen bs = []"
  shows "distinct (map (\<lambda>b. FormatDate (pb_EffectiveFrom b)) bs)"
  using assms
proof (induction bs arbitrary: seen)
  case (Cons x bs)
  then have rest: "validate_blocks from_dollars targets (FormatDate (pb_EffectiveFrom x) # seen) bs = []"
    by (auto simp: Let_def split: if_splits)
  with Cons.IH validate_blocks_ok [OF rest] show ?case by fastforce
qed simp

end
