(* ===== verification/Pricing.thy ===== *)
theory Pricing
  imports Config Decisions "HOL-Library.Multiset"
begin

text \<open>
  What a decision cost: the price table (\<open>adapters/outbound/pricing/table.go\<close>), the pricer
  (\<open>usecases/pricing/pricer.go\<close>) and the sink that prices before it records
  (\<open>usecases/pricing/sink.go\<close>). The sink behind it is a function on its own state.
\<close>

section \<open>Definitions\<close>

subsection \<open>The price table\<close>

record price_block =
  pk_from :: time
  pk_version :: string
  pk_rates :: "(string \<times> Rates) list"

type_synonym price_table = "price_block list"

text \<open>\<open>sort.Slice\<close> is not stable; blocks with the same start keep their listed order here.\<close>

definition NewPriceTable :: "('f \<Rightarrow> int) \<Rightarrow> 'f PriceBlock list \<Rightarrow> price_table" where
  "NewPriceTable from_dollars cfg =
     sort_key pk_from
       (map (\<lambda>b. \<lparr>pk_from = pb_EffectiveFrom b, pk_version = FormatDate (pb_EffectiveFrom b),
                   pk_rates = map (\<lambda>(name, rc). (name, ToRates from_dollars rc)) (pb_Rates b)\<rparr>) cfg)"

datatype pricing_error = ErrNoPricing | NotInPriceTable string string | PredatesPriceTable string

fun rates_scan :: "price_block list \<Rightarrow> time \<Rightarrow> string \<Rightarrow> pricing_error \<Rightarrow> pricing_error + Rates \<times> string" where
  "rates_scan [] at target none = Inl none"
| "rates_scan (b # earlier) at target none =
     (if pk_from b > at then rates_scan earlier at target none
      else case map_of (pk_rates b) target of
             None \<Rightarrow> Inl (NotInPriceTable target (pk_version b))
           | Some r \<Rightarrow> Inr (r, pk_version b))"

definition Table_RatesAt :: "price_table \<Rightarrow> time \<Rightarrow> string \<Rightarrow> pricing_error + Rates \<times> string" where
  "Table_RatesAt t at target =
     (if length t = 0 then Inl ErrNoPricing
      else rates_scan (rev t) at target (PredatesPriceTable (pk_version (t ! 0))))"

subsection \<open>The pricer and its sink\<close>

record Pricer =
  pr_table :: price_table
  pr_compare :: "string list"

definition comparisonTargets :: "Pricer \<Rightarrow> RoutingDecision \<Rightarrow> string \<Rightarrow> string list" where
  "comparisonTargets p d chosen =
     sort (remdups (filter (\<lambda>name. \<not> (name = '''' \<or> name = chosen))
       (map tr_Name (la_Targets (rd_Ladder d)) @ pr_compare p)))"

fun add_counterfactuals ::
  "price_table \<Rightarrow> RoutingDecision \<Rightarrow> string list \<Rightarrow> CostBreakdown \<Rightarrow> CostBreakdown" where
  "add_counterfactuals table d [] cb = cb"
| "add_counterfactuals table d (target # rest) cb =
     add_counterfactuals table d rest
       (case Table_RatesAt table (rd_OccurredAt d) target of
          Inl _ \<Rightarrow> cb\<lparr>cb_UnpricedComparisons := cb_UnpricedComparisons cb @ [target]\<rparr>
        | Inr (rates, _) \<Rightarrow>
            cb\<lparr>cb_Counterfactuals := cb_Counterfactuals cb @
                [\<lparr>cf_Target = target, cf_Cost = Rates_Cost rates (o_Usage (rd_Outcome d))\<rparr>]\<rparr>)"

definition Price :: "Pricer \<Rightarrow> RoutingDecision \<Rightarrow> CostBreakdown option" where
  "Price p d =
     (let chosen = ChosenTarget (rd_Outcome d) in
      if chosen = '''' then None
      else case Table_RatesAt (pr_table p) (rd_OccurredAt d) chosen of
             Inl _ \<Rightarrow> None
           | Inr (rates, version) \<Rightarrow>
               Some (add_counterfactuals (pr_table p) d (comparisonTargets p d chosen)
                 \<lparr>cb_Actual = Rates_Cost rates (o_Usage (rd_Outcome d)), cb_PriceTableVersion = version,
                  cb_Counterfactuals = [], cb_UnpricedComparisons = []\<rparr>))"

definition PricingSink_Record :: "Pricer \<Rightarrow> (RoutingDecision \<Rightarrow> 's \<Rightarrow> 's) \<Rightarrow> RoutingDecision \<Rightarrow> 's \<Rightarrow> 's" where
  "PricingSink_Record p next_record d s = next_record (d\<lparr>rd_Cost := Price p d\<rparr>) s"

definition PricingSink_Flush :: "('s \<Rightarrow> 'e option \<times> 's) \<Rightarrow> 's \<Rightarrow> 'e option \<times> 's" where
  "PricingSink_Flush next_flush s = next_flush s"

section \<open>The block in force\<close>

definition in_force :: "price_block list \<Rightarrow> time \<Rightarrow> price_block \<Rightarrow> bool" where
  "in_force bs at b \<longleftrightarrow> b \<in> set bs \<and> pk_from b \<le> at \<and> (\<forall>b' \<in> set bs. pk_from b' \<le> at \<longrightarrow> pk_from b' \<le> pk_from b)"

lemma rates_scan_none: "\<forall>b \<in> set bs. at < pk_from b \<Longrightarrow> rates_scan bs at target none = Inl none"
  by (induction bs) auto

lemma rates_scan_in_force:
  assumes "sorted_wrt (\<lambda>a b. pk_from b < pk_from a) bs" "in_force bs at b"
  shows "rates_scan bs at target none =
    (case map_of (pk_rates b) target of
       None \<Rightarrow> Inl (NotInPriceTable target (pk_version b)) | Some r \<Rightarrow> Inr (r, pk_version b))"
  using assms
proof (induction bs)
  case (Cons x bs)
  show ?case
  proof (cases "pk_from x > at")
    case True
    with Cons.prems(2) have "in_force bs at b" by (auto simp: in_force_def)
    with True Cons show ?thesis by simp
  next
    case False
    have "b = x"
      using Cons.prems False by (auto simp: in_force_def)
    with False show ?thesis by (simp split: option.split)
  qed
qed (simp add: in_force_def)

definition valid_price_table :: "price_table \<Rightarrow> bool" where
  "valid_price_table t \<longleftrightarrow> sorted_wrt (\<lambda>a b. pk_from a < pk_from b) t"

lemma sorted_distinct_strict:
  "sorted (map f xs) \<Longrightarrow> distinct (map f xs) \<Longrightarrow> sorted_wrt (\<lambda>a b. f a < f b) xs" for f :: "'a \<Rightarrow> 'b::linorder"
  by (induction xs) (auto simp: order.strict_iff_order)

lemma NewPriceTable_valid:
  assumes "distinct (map pb_EffectiveFrom bs)"
  shows "valid_price_table (NewPriceTable from_dollars bs)"
  unfolding valid_price_table_def
proof (rule sorted_distinct_strict)
  let ?f = "\<lambda>b. \<lparr>pk_from = pb_EffectiveFrom b, pk_version = FormatDate (pb_EffectiveFrom b),
      pk_rates = map (\<lambda>(name, rc). (name, ToRates from_dollars rc)) (pb_Rates b)\<rparr>"
  have "mset (map pk_from (NewPriceTable from_dollars bs)) = mset (map pb_EffectiveFrom bs)"
    by (simp add: NewPriceTable_def multiset.map_comp comp_def)
  then show "distinct (map pk_from (NewPriceTable from_dollars bs))"
    using assms by (metis mset_eq_imp_distinct_iff)
qed (simp add: NewPriceTable_def)

lemma valid_config_distinct_starts:
  assumes "Config_validate from_dollars c = []"
  shows "distinct (map pb_EffectiveFrom (cp_Table (cfg_Pricing c)))"
proof -
  have "validate_blocks from_dollars (cfg_Targets c) [] (cp_Table (cfg_Pricing c)) = []"
    using validate_pricing(1) [OF assms] by (auto simp: validatePricing_def Let_def split: if_splits)
  from validate_blocks_distinct [OF this]
  have "distinct (map FormatDate (map pb_EffectiveFrom (cp_Table (cfg_Pricing c))))" by (simp add: comp_def)
  then show ?thesis by (simp only: distinct_map)
qed

lemma add_counterfactuals_spec:
  "add_counterfactuals table d ts cb =
     cb\<lparr>cb_Counterfactuals := cb_Counterfactuals cb @
          concat (map (\<lambda>t. case Table_RatesAt table (rd_OccurredAt d) t of Inl _ \<Rightarrow> []
            | Inr (rates, _) \<Rightarrow> [\<lparr>cf_Target = t, cf_Cost = Rates_Cost rates (o_Usage (rd_Outcome d))\<rparr>]) ts),
        cb_UnpricedComparisons := cb_UnpricedComparisons cb @
          filter (\<lambda>t. \<not> is_ok (Table_RatesAt table (rd_OccurredAt d) t)) ts\<rparr>"
  by (induction ts arbitrary: cb) (auto split: sum.splits)

lemma counterfactual_targets:
  "map cf_Target (concat (map (\<lambda>t. case Table_RatesAt table at t of Inl _ \<Rightarrow> []
      | Inr (rates, _) \<Rightarrow> [\<lparr>cf_Target = t, cf_Cost = Rates_Cost rates u\<rparr>]) ts)) =
   filter (\<lambda>t. is_ok (Table_RatesAt table at t)) ts"
  by (induction ts) (auto split: sum.split)

lemma Price_Some:
  assumes "Price p d = Some cb"
  shows "\<exists>r. cb = add_counterfactuals (pr_table p) d (comparisonTargets p d (ChosenTarget (rd_Outcome d))) r \<and>
    cb_Counterfactuals r = [] \<and> cb_UnpricedComparisons r = []"
proof -
  obtain rates version where
    "Table_RatesAt (pr_table p) (rd_OccurredAt d) (ChosenTarget (rd_Outcome d)) = Inr (rates, version)"
    using assms by (auto simp: Price_def Let_def split: if_splits sum.splits)
  with assms have "cb = add_counterfactuals (pr_table p) d (comparisonTargets p d (ChosenTarget (rd_Outcome d)))
      \<lparr>cb_Actual = Rates_Cost rates (o_Usage (rd_Outcome d)), cb_PriceTableVersion = version,
       cb_Counterfactuals = [], cb_UnpricedComparisons = []\<rparr>"
    by (simp add: Price_def Let_def split: if_splits)
  then show ?thesis by (intro exI conjI) (assumption, simp_all)
qed

lemma comparisonTargets_set:
  "set (comparisonTargets p d chosen) =
     (tr_Name ` set (la_Targets (rd_Ladder d)) \<union> set (pr_compare p)) - {'''', chosen}"
  by (auto simp: comparisonTargets_def)

lemma comparisonTargets_sorted: "sorted (comparisonTargets p d chosen)" "distinct (comparisonTargets p d chosen)"
  by (simp_all add: comparisonTargets_def)

section \<open>Properties\<close>

text \<open>
  C35. In a price table built from a validated configuration, \<open>RatesAt\<close> answers with the block in
  force: the one that started last among those that have started by then. It fails exactly when no
  block has started or that block does not price the target; it never falls back to an older price.
\<close>

theorem RatesAt_block_in_force:
  assumes "Config_validate from_dollars c = []" "t = NewPriceTable from_dollars (cp_Table (cfg_Pricing c))"
  shows "(\<forall>b. in_force t at b \<longrightarrow> Table_RatesAt t at target =
      (case map_of (pk_rates b) target of
         None \<Rightarrow> Inl (NotInPriceTable target (pk_version b)) | Some r \<Rightarrow> Inr (r, pk_version b))) \<and>
    ((\<exists>b. in_force t at b) \<longleftrightarrow> (\<exists>b \<in> set t. pk_from b \<le> at)) \<and>
    ((\<forall>b \<in> set t. at < pk_from b) \<longrightarrow> \<not> is_ok (Table_RatesAt t at target))"
proof (intro conjI allI impI)
  have valid: "sorted_wrt (\<lambda>a b. pk_from b < pk_from a) (rev t)"
    using NewPriceTable_valid [OF valid_config_distinct_starts [OF assms(1)]] assms(2)
    by (simp add: valid_price_table_def sorted_wrt_rev)
  show "Table_RatesAt t at target = (case map_of (pk_rates b) target of
      None \<Rightarrow> Inl (NotInPriceTable target (pk_version b)) | Some r \<Rightarrow> Inr (r, pk_version b))"
    if "in_force t at b" for b
    using rates_scan_in_force [OF valid, of at b] that by (auto simp: Table_RatesAt_def in_force_def)
  show "(\<exists>b. in_force t at b) \<longleftrightarrow> (\<exists>b \<in> set t. pk_from b \<le> at)"
  proof
    assume "\<exists>b \<in> set t. pk_from b \<le> at"
    then have "filter (\<lambda>b. pk_from b \<le> at) t \<noteq> []" by (auto simp: filter_empty_conv)
    moreover have "\<exists>x \<in> set xs. \<forall>y \<in> set xs. pk_from y \<le> pk_from x" if "xs \<noteq> []" for xs :: "price_block list"
      using that
    proof (induction xs rule: list_nonempty_induct)
      case (cons x xs)
      then obtain m where "m \<in> set xs" "\<forall>y \<in> set xs. pk_from y \<le> pk_from m" by blast
      then show ?case by (cases "pk_from m \<le> pk_from x") force+
    qed simp
    ultimately show "\<exists>b. in_force t at b" by (fastforce simp: in_force_def)
  qed (auto simp: in_force_def)
  show "\<not> is_ok (Table_RatesAt t at target)" if "\<forall>b \<in> set t. at < pk_from b"
    using rates_scan_none [of "rev t" at target] that by (simp add: Table_RatesAt_def)
qed

text \<open>Two blocks, the newer one listed second.\<close>

definition price_config :: "int PriceBlock list \<Rightarrow> int Config" where
  "price_config table = \<lparr>cfg_Listen = '':4000'',
     cfg_Providers = [(''openai'', \<lparr>cp_Type = ''oaicompat'', cp_BaseURL = ''https://api'', cp_APIKey = ''k'',
        cp_DisableStreamOptions = False, cp_ExtraHeaders = []\<rparr>)],
     cfg_Targets = [(''fast'', \<lparr>ct_Provider = ''openai'', ct_Model = ''gpt-mini'', ct_Region = ''''\<rparr>),
       (''big'', \<lparr>ct_Provider = ''openai'', ct_Model = ''gpt-big'', ct_Region = ''''\<rparr>)],
     cfg_Models = [(''chat'', [''fast''])],
     cfg_Sink = \<lparr>cs_DSN = ''postgres'', cs_BufferSize = 0, cs_BatchSize = 0, cs_FlushInterval = 0\<rparr>,
     cfg_Pricing = \<lparr>cp_CompareAgainst = [], cp_Table = table\<rparr>,
     cfg_Redis = \<lparr>cr_Addr = '''', cr_Password = '''', cr_DB = 0, cr_Timeout = 1, cr_OnUnavailable = ''open''\<rparr>,
     cfg_Quota = \<lparr>cq_DefaultMaxOutputTokens = 4096, cq_LimitsTTL = 1, cq_FlushInterval = 1,
        cq_FlushBuffer = 1, cq_ResyncInterval = 1\<rparr>\<rparr>"

definition priced_at :: "int \<Rightarrow> int RateConfig" where
  "priced_at n = \<lparr>rc_Free = False, rc_InputPerMillion = n, rc_OutputPerMillion = n,
     rc_CacheReadPerMillion = 0, rc_CacheWritePerMillion = 0, rc_Note = ''''\<rparr>"

definition price_sample :: "int Config" where
  "price_sample = price_config
     [\<lparr>pb_EffectiveFrom = 0, pb_Source = '''', pb_Rates = [(''fast'', priced_at 5)]\<rparr>,
      \<lparr>pb_EffectiveFrom = Day_ns, pb_Source = '''', pb_Rates = [(''fast'', priced_at 6)]\<rparr>]"

theorem RatesAt_block_in_force_witness:
  "Config_validate id price_sample = [] \<and>
   ((\<exists>b. in_force (NewPriceTable id (cp_Table (cfg_Pricing price_sample))) 5 b) \<longleftrightarrow>
    (\<exists>b \<in> set (NewPriceTable id (cp_Table (cfg_Pricing price_sample))). pk_from b \<le> 5))"
proof
  show v: "Config_validate id price_sample = []" by code_simp
  show "(\<exists>b. in_force (NewPriceTable id (cp_Table (cfg_Pricing price_sample))) 5 b) \<longleftrightarrow>
    (\<exists>b \<in> set (NewPriceTable id (cp_Table (cfg_Pricing price_sample))). pk_from b \<le> 5)"
    using RatesAt_block_in_force [OF v refl] by blast
qed

text \<open>
  C36. \<open>Price\<close> never invents a cost: it is present exactly when some attempt served the request and
  that target is priced at the time of the request. Each other target of the ladder and of the
  comparison list is compared exactly once, priced or listed as unpriced, in sorted order, and the
  one that served never appears.
\<close>

theorem Price_complete:
  "(Price p d \<noteq> None \<longleftrightarrow>
      ChosenTarget (rd_Outcome d) \<noteq> '''' \<and>
      is_ok (Table_RatesAt (pr_table p) (rd_OccurredAt d) (ChosenTarget (rd_Outcome d)))) \<and>
   (case Price p d of
      None \<Rightarrow> True
    | Some cb \<Rightarrow>
        set (map cf_Target (cb_Counterfactuals cb)) \<union> set (cb_UnpricedComparisons cb) =
          (tr_Name ` set (la_Targets (rd_Ladder d)) \<union> set (pr_compare p)) - {'''', ChosenTarget (rd_Outcome d)} \<and>
        distinct (map cf_Target (cb_Counterfactuals cb) @ cb_UnpricedComparisons cb) \<and>
        sorted (map cf_Target (cb_Counterfactuals cb)) \<and> sorted (cb_UnpricedComparisons cb))"
proof
  show "Price p d \<noteq> None \<longleftrightarrow> ChosenTarget (rd_Outcome d) \<noteq> '''' \<and>
      is_ok (Table_RatesAt (pr_table p) (rd_OccurredAt d) (ChosenTarget (rd_Outcome d)))"
    by (auto simp: Price_def Let_def is_ok_def split: sum.splits)
  have "set (map cf_Target (cb_Counterfactuals cb)) \<union> set (cb_UnpricedComparisons cb) =
      (tr_Name ` set (la_Targets (rd_Ladder d)) \<union> set (pr_compare p)) - {'''', ChosenTarget (rd_Outcome d)} \<and>
      distinct (map cf_Target (cb_Counterfactuals cb) @ cb_UnpricedComparisons cb) \<and>
      sorted (map cf_Target (cb_Counterfactuals cb)) \<and> sorted (cb_UnpricedComparisons cb)"
    if price: "Price p d = Some cb" for cb
  proof -
    let ?ts = "comparisonTargets p d (ChosenTarget (rd_Outcome d))"
    let ?ok = "\<lambda>t. is_ok (Table_RatesAt (pr_table p) (rd_OccurredAt d) t)"
    obtain r where cb: "cb = add_counterfactuals (pr_table p) d ?ts r"
        "cb_Counterfactuals r = []" "cb_UnpricedComparisons r = []"
      using Price_Some [OF price] by blast
    have cf: "map cf_Target (cb_Counterfactuals cb) = filter ?ok ?ts"
      unfolding cb(1) add_counterfactuals_spec using cb(2) by (simp add: counterfactual_targets)
    have un: "cb_UnpricedComparisons cb = filter (\<lambda>t. \<not> ?ok t) ?ts"
      unfolding cb(1) add_counterfactuals_spec using cb(3) by simp
    have "set (filter ?ok ?ts) \<union> set (filter (\<lambda>t. \<not> ?ok t) ?ts) = set ?ts" by auto
    moreover have "distinct (filter ?ok ?ts @ filter (\<lambda>t. \<not> ?ok t) ?ts)"
      using comparisonTargets_sorted(2) by (auto simp: distinct_append)
    moreover have "sorted (filter P ?ts)" for P
      using comparisonTargets_sorted(1) sorted_filter [where f = "\<lambda>x. x" and xs = ?ts and P = P] by simp
    ultimately show ?thesis unfolding cf un by (simp only: comparisonTargets_set simp_thms)
  qed
  then show "case Price p d of None \<Rightarrow> True | Some cb \<Rightarrow>
      set (map cf_Target (cb_Counterfactuals cb)) \<union> set (cb_UnpricedComparisons cb) =
        (tr_Name ` set (la_Targets (rd_Ladder d)) \<union> set (pr_compare p)) - {'''', ChosenTarget (rd_Outcome d)} \<and>
      distinct (map cf_Target (cb_Counterfactuals cb) @ cb_UnpricedComparisons cb) \<and>
      sorted (map cf_Target (cb_Counterfactuals cb)) \<and> sorted (cb_UnpricedComparisons cb)"
    by (simp split: option.split)
qed

definition unordered_prices :: "int Config" where
  "unordered_prices = price_config
     [\<lparr>pb_EffectiveFrom = Day_ns, pb_Source = '''', pb_Rates = [(''fast'', priced_at 6)]\<rparr>,
      \<lparr>pb_EffectiveFrom = 0, pb_Source = '''', pb_Rates = [(''fast'', priced_at 5), (''big'', priced_at 9)]\<rparr>]"

text \<open>
  The check that no target loses its price in the latest block looks at the block listed last,
  while the table is sorted by start: a configuration whose newest block is listed first and omits a
  target priced before passes validation, and from that block's start on the target has no price.
\<close>

theorem validate_misses_lost_price:
  "Config_validate id unordered_prices = [] \<and>
   is_ok (Table_RatesAt (NewPriceTable id (cp_Table (cfg_Pricing unordered_prices))) 0 ''big'') \<and>
   \<not> is_ok (Table_RatesAt (NewPriceTable id (cp_Table (cfg_Pricing unordered_prices))) Day_ns ''big'')"
proof (intro conjI)
  show "Config_validate id unordered_prices = []" by code_simp
qed (simp_all add: NewPriceTable_def unordered_prices_def price_config_def Table_RatesAt_def Day_ns_def)

end
