(* ===== verification/Sse.thy ===== *)
theory Sse
  imports Prelude
begin

text \<open>
  The Server-Sent Events codec, \<open>core/sse/parse.go\<close>: the decoder over a buffered reader, and
  \<open>WriteEvent\<close>.

  The reader underneath is the bytes still to come and the error that ends them. \<open>ReadSlice\<close> is
  the one of \<open>bufio\<close>: at most one buffer of input at a time, whose size is at least 16. The lemmas
  show that lines are cut the same way whatever the buffer (\<open>readLine_line\<close>, \<open>readLine_eof\<close>), and
  the properties that events survive the wire, that a truncated stream is always noticed and that
  an error is final.
\<close>

section \<open>Definitions\<close>

abbreviation nl :: char where "nl \<equiv> CHR 0x0A"
abbreviation cr :: char where "cr \<equiv> CHR 0x0D"

datatype io_error =
    EOF
  | ErrUnexpectedEOF
  | ErrLineTooLong
  | ContextCanceled
  | DeadlineExceeded
  | ReadFailed string

datatype line_error = LineEOF | PartialLine | LineTooLong | LineIO io_error

record Event =
  ev_Type :: string
  ev_Data :: string

definition defaultMaxLine :: int where "defaultMaxLine = 1048576"
definition readBufSize :: int where "readBufSize = 16384"

record Decoder =
  de_in :: string
  de_end :: io_error
  de_buf :: int
  de_maxLine :: int
  de_data :: string
  de_evType :: string
  de_sawData :: bool
  de_dirty :: bool
  de_err :: "io_error option"

definition NewDecoder :: "string \<Rightarrow> io_error \<Rightarrow> Decoder" where
  "NewDecoder input end_err =
     \<lparr>de_in = input, de_end = end_err, de_buf = readBufSize, de_maxLine = defaultMaxLine,
      de_data = '''', de_evType = '''', de_sawData = False, de_dirty = False, de_err = None\<rparr>"

datatype slice = SliceLine string | SliceFull string | SliceEnd string

text \<open>\<open>bufio.NewReaderSize\<close> raises the size to 16.\<close>

definition buf_len :: "int \<Rightarrow> nat" where
  "buf_len sz = nat (max 16 sz)"

definition ReadSlice :: "int \<Rightarrow> string \<Rightarrow> slice \<times> string" where
  "ReadSlice sz s =
     (let line = takeWhile (\<lambda>c. c \<noteq> nl) s; n = length line in
      if n < length s \<and> n < buf_len sz then (SliceLine (line @ [nl]), drop (Suc n) s)
      else if length s \<ge> buf_len sz then (SliceFull (take (buf_len sz) s), drop (buf_len sz) s)
      else (SliceEnd s, []))"

definition TrimSuffix :: "char \<Rightarrow> string \<Rightarrow> string" where
  "TrimSuffix c s = (if s \<noteq> [] \<and> last s = c then butlast s else s)"

definition trimEOL :: "string \<Rightarrow> string" where
  "trimEOL b = TrimSuffix cr (TrimSuffix nl b)"

function readLine ::
  "int \<Rightarrow> int \<Rightarrow> io_error \<Rightarrow> string \<Rightarrow> string \<Rightarrow> (line_error + string) \<times> string" where
  "readLine sz maxLine end_err acc s =
     (case ReadSlice sz s of
        (SliceFull chunk, s') \<Rightarrow>
          if int (length acc + length chunk) > maxLine then (Inl LineTooLong, s')
          else readLine sz maxLine end_err (acc @ chunk) s'
      | (SliceEnd chunk, s') \<Rightarrow>
          (case end_err of
             EOF \<Rightarrow>
               if length acc = 0 \<and> length chunk = 0 then (Inl LineEOF, s')
               else if int (length acc + length chunk) > maxLine then (Inl LineTooLong, s')
               else (Inl PartialLine, s')
           | err \<Rightarrow> (Inl (LineIO err), s'))
      | (SliceLine chunk, s') \<Rightarrow>
          if int (length acc + length chunk) > maxLine then (Inl LineTooLong, s')
          else (Inr (trimEOL (acc @ chunk)), s'))"
  by pat_completeness auto
termination
  by (relation "measure (\<lambda>(_, _, _, _, s). length s)")
    (auto simp: ReadSlice_def Let_def buf_len_def split: if_splits)

declare readLine.simps [simp del]

fun parseField :: "string \<Rightarrow> string \<times> string" where
  "parseField line =
     (let field = takeWhile (\<lambda>c. c \<noteq> CHR '':'') line in
      if length field = length line then (line, '''')
      else
        let value = drop (Suc (length field)) line
        in (field, case value of CHR '' '' # rest \<Rightarrow> rest | _ \<Rightarrow> value))"

definition reset :: "Decoder \<Rightarrow> Decoder" where
  "reset d = d\<lparr>de_data := '''', de_evType := '''', de_sawData := False, de_dirty := False\<rparr>"

definition fail :: "io_error \<Rightarrow> Decoder \<Rightarrow> (io_error + Event) \<times> Decoder" where
  "fail err d = (Inl err, d\<lparr>de_err := Some err\<rparr>)"

text \<open>One complete line: an event when it is the blank line that dispatches one.\<close>

definition feed_line :: "string \<Rightarrow> Decoder \<Rightarrow> Event option \<times> Decoder" where
  "feed_line line d =
     (if length line = 0 then
        if \<not> de_sawData d then (None, reset d)
        else (Some \<lparr>ev_Type = de_evType d, ev_Data = de_data d\<rparr>, reset d)
      else if line ! 0 = CHR '':'' then (None, d)
      else
        let (field, value) = parseField line; d = d\<lparr>de_dirty := True\<rparr> in
        if field = ''data'' then
          (None, d\<lparr>de_data := (if de_sawData d then de_data d @ [nl] else de_data d) @ value,
                   de_sawData := True\<rparr>)
        else if field = ''event'' then (None, d\<lparr>de_evType := value\<rparr>)
        else (None, d))"

lemma ReadSlice_shorter: "ReadSlice sz s = (SliceLine chunk, s') \<Longrightarrow> length s' < length s"
  by (auto simp: ReadSlice_def Let_def split: if_splits)

lemma ReadSlice_le: "ReadSlice sz s = (x, s') \<Longrightarrow> length s' \<le> length s"
  by (auto simp: ReadSlice_def Let_def split: if_splits)

lemma readLine_shorter: "readLine sz maxLine e acc s = (Inr line, s') \<Longrightarrow> length s' < length s"
proof (induction sz maxLine e acc s rule: readLine.induct)
  case (1 sz maxLine e acc s)
  obtain x t where r: "ReadSlice sz s = (x, t)" by fastforce
  note eq = readLine.simps [of sz maxLine e acc s, unfolded r, simplified]
  show ?case
  proof (cases x)
    case (SliceLine chunk)
    with 1(2) r show ?thesis unfolding eq by (auto dest: ReadSlice_shorter split: if_splits)
  next
    case (SliceFull chunk)
    with 1(2) have "readLine sz maxLine e (acc @ chunk) t = (Inr line, s')" "\<not> int (length acc + length chunk) > maxLine"
      unfolding eq by (auto split: if_splits)
    with 1(1) SliceFull r have "length s' < length t" by simp
    with ReadSlice_le [OF r] show ?thesis by simp
  next
    case (SliceEnd chunk)
    with 1(2) show ?thesis unfolding eq by (auto split: if_splits io_error.splits)
  qed
qed

lemma feed_line_same_in: "feed_line line d = (x, d') \<Longrightarrow> de_in d' = de_in d"
  by (auto simp: feed_line_def reset_def Let_def split: if_splits prod.splits)

function Next :: "Decoder \<Rightarrow> (io_error + Event) \<times> Decoder" where
  "Next d =
     (case de_err d of
        Some err \<Rightarrow> (Inl err, d)
      | None \<Rightarrow>
          (case readLine (de_buf d) (de_maxLine d) (de_end d) [] (de_in d) of
             (Inl PartialLine, s) \<Rightarrow> fail ErrUnexpectedEOF (d\<lparr>de_in := s\<rparr>)
           | (Inl LineEOF, s) \<Rightarrow>
               if de_dirty d then fail ErrUnexpectedEOF (d\<lparr>de_in := s\<rparr>) else fail EOF (d\<lparr>de_in := s\<rparr>)
           | (Inl LineTooLong, s) \<Rightarrow> fail ErrLineTooLong (d\<lparr>de_in := s\<rparr>)
           | (Inl (LineIO e), s) \<Rightarrow> fail e (d\<lparr>de_in := s\<rparr>)
           | (Inr line, s) \<Rightarrow>
               (case feed_line line (d\<lparr>de_in := s\<rparr>) of
                  (Some ev, d') \<Rightarrow> (Inr ev, d')
                | (None, d') \<Rightarrow> Next d')))"
  by pat_completeness auto
termination
  by (relation "measure (\<lambda>d. length (de_in d))")
    (auto dest!: readLine_shorter [OF sym] feed_line_same_in [OF sym])

declare Next.simps [simp del]

datatype write_error = TypeHasTerminator string

fun split_nl :: "string \<Rightarrow> string list" where
  "split_nl [] = [[]]"
| "split_nl (c # cs) =
     (if c = nl then [] # split_nl cs
      else case split_nl cs of [] \<Rightarrow> [[c]] | seg # segs \<Rightarrow> (c # seg) # segs)"

definition WriteEvent :: "Event \<Rightarrow> write_error + string" where
  "WriteEvent ev =
     (if list_ex (\<lambda>c. c = cr \<or> c = nl) (ev_Type ev) then Inl (TypeHasTerminator (ev_Type ev))
      else Inr ((if ev_Type ev \<noteq> '''' then ''event: '' @ ev_Type ev @ [nl] else []) @
                concat (map (\<lambda>seg. ''data: '' @ seg @ [nl]) (split_nl (ev_Data ev))) @ [nl]))"

lemma Next_shorter: "Next d = (Inr ev, d') \<Longrightarrow> length (de_in d') < length (de_in d)"
proof (induction d rule: Next.induct)
  case (1 d)
  obtain r s where rl: "readLine (de_buf d) (de_maxLine d) (de_end d) [] (de_in d) = (r, s)" by fastforce
  have none: "de_err d = None" using 1(2) by (cases "de_err d") (simp_all add: Next.simps [of d])
  show ?case
  proof (cases r)
    case (Inl e)
    with 1(2) rl none show ?thesis by (cases e) (simp_all add: Next.simps [of d] fail_def split: if_splits)
  next
    case (Inr line)
    have lt: "length s < length (de_in d)" using readLine_shorter rl Inr by blast
    obtain o1 d1 where fl: "feed_line line (d\<lparr>de_in := s\<rparr>) = (o1, d1)" by fastforce
    then have d1: "de_in d1 = s" using feed_line_same_in [OF fl] by simp
    show ?thesis
    proof (cases o1)
      case None
      then have "Next d1 = (Inr ev, d')" using 1(2) rl none Inr fl by (simp add: Next.simps [of d])
      with 1(1) rl none Inr fl None have "length (de_in d') < length (de_in d1)" by simp
      with d1 lt show ?thesis by simp
    next
      case (Some e)
      with 1(2) rl none Inr fl d1 lt show ?thesis by (simp add: Next.simps [of d])
    qed
  qed
qed

text \<open>The package's \<open>drain\<close>: events until the first error.\<close>

function drain :: "Decoder \<Rightarrow> Event list \<times> io_error" where
  "drain d =
     (case Next d of
        (Inl err, d') \<Rightarrow> ([], err)
      | (Inr ev, d') \<Rightarrow> (let (evs, err) = drain d' in (ev # evs, err)))"
  by pat_completeness auto
termination
  by (relation "measure (\<lambda>d. length (de_in d))") (auto dest: Next_shorter [OF sym])

declare drain.simps [simp del]

section \<open>Lines do not depend on the buffer\<close>

lemma takeWhile_line: "nl \<notin> set w \<Longrightarrow> takeWhile (\<lambda>c. c \<noteq> nl) (w @ nl # rest) = w"
  by (induction w) auto

lemma takeWhile_no_line: "nl \<notin> set w \<Longrightarrow> takeWhile (\<lambda>c. c \<noteq> nl) w = w"
  by (induction w) auto

lemma buf_len_pos: "0 < buf_len sz"
  by (simp add: buf_len_def)

lemma ReadSlice_line:
  assumes "nl \<notin> set w"
  shows "ReadSlice sz (w @ nl # rest) =
    (if length w < buf_len sz then (SliceLine (w @ [nl]), rest)
     else (SliceFull (take (buf_len sz) w), drop (buf_len sz) w @ nl # rest))"
  using assms by (simp add: ReadSlice_def Let_def takeWhile_line)

lemma ReadSlice_no_line:
  assumes "nl \<notin> set w"
  shows "ReadSlice sz w =
    (if length w < buf_len sz then (SliceEnd w, []) else (SliceFull (take (buf_len sz) w), drop (buf_len sz) w))"
  using assms by (simp add: ReadSlice_def Let_def takeWhile_no_line)

lemma buf_drop:
  assumes "nl \<notin> set w" "\<not> length w < buf_len sz"
  shows "nl \<notin> set (drop (buf_len sz) w)" "length (drop (buf_len sz) w) < length w"
    "length (take (buf_len sz) w) + length (drop (buf_len sz) w) = length w"
  using assms buf_len_pos [of sz] by (auto dest: in_set_dropD)

lemma readLine_line:
  assumes "nl \<notin> set w" "int (length acc + length w + 1) \<le> maxLine"
  shows "readLine sz maxLine e acc (w @ nl # rest) = (Inr (trimEOL (acc @ w @ [nl])), rest)"
  using assms
proof (induction "length w" arbitrary: w acc rule: less_induct)
  case less
  note eq = readLine.simps [of sz maxLine e acc "w @ nl # rest", unfolded ReadSlice_line [OF less.prems(1)]]
  show ?case
  proof (cases "length w < buf_len sz")
    case True
    then show ?thesis using less.prems by (simp add: eq)
  next
    case False
    note d = buf_drop [OF less.prems(1) False]
    have "take (buf_len sz) w @ drop (buf_len sz) w @ [nl] = w @ [nl]" by (metis append_assoc append_take_drop_id)
    with less.hyps [OF d(2,1), of "acc @ take (buf_len sz) w"] less.prems(2) d(3) False show ?thesis
      by (simp add: eq)
  qed
qed

lemma readLine_long:
  assumes "nl \<notin> set w" "int (length acc + length w + 1) > maxLine"
  shows "fst (readLine sz maxLine e acc (w @ nl # rest)) = Inl LineTooLong"
  using assms
proof (induction "length w" arbitrary: w acc rule: less_induct)
  case less
  note eq = readLine.simps [of sz maxLine e acc "w @ nl # rest", unfolded ReadSlice_line [OF less.prems(1)]]
  show ?case
  proof (cases "length w < buf_len sz")
    case True
    then show ?thesis using less.prems by (simp add: eq)
  next
    case False
    note d = buf_drop [OF less.prems(1) False]
    from less.hyps [OF d(2,1), of "acc @ take (buf_len sz) w"] less.prems(2) d(3) False show ?thesis
      by (simp add: eq)
  qed
qed

lemma readLine_eof:
  assumes "nl \<notin> set w"
  shows "fst (readLine sz maxLine EOF acc w) =
    Inl (if acc @ w = [] then LineEOF else if int (length acc + length w) > maxLine then LineTooLong else PartialLine)"
  using assms
proof (induction "length w" arbitrary: w acc rule: less_induct)
  case less
  note eq = readLine.simps [of sz maxLine EOF acc w, unfolded ReadSlice_no_line [OF less.prems]]
  show ?case
  proof (cases "length w < buf_len sz")
    case True
    then show ?thesis by (simp add: eq)
  next
    case False
    note d = buf_drop [OF less.prems False]
    have "w \<noteq> []" "take (buf_len sz) w \<noteq> []" using False buf_len_pos [of sz] by auto
    with less.hyps [OF d(2,1), of "acc @ take (buf_len sz) w"] d(3) False show ?thesis
      by (auto simp: eq)
  qed
qed

lemma split_first_nl:
  obtains w rest where "s = w @ nl # rest" "nl \<notin> set w" | "nl \<notin> set s"
  using split_list_first [of nl s] by blast

lemma trimEOL_line [simp]: "trimEOL (w @ [nl]) = TrimSuffix cr w"
  by (simp add: trimEOL_def TrimSuffix_def)

text \<open>The decoder on a complete line, on a long one and at the end of the input.\<close>

lemma Next_line:
  assumes "de_err d = None" "de_in d = w @ nl # rest" "nl \<notin> set w" "int (length w + 1) \<le> de_maxLine d"
  shows "Next d = (case feed_line (TrimSuffix cr w) (d\<lparr>de_in := rest\<rparr>) of
      (Some ev, d') \<Rightarrow> (Inr ev, d') | (None, d') \<Rightarrow> Next d')"
  using assms readLine_line [where w = w and acc = "[]" and maxLine = "de_maxLine d"]
  by (simp add: Next.simps [of d])

lemma Next_long:
  assumes "de_err d = None" "de_in d = w @ nl # rest" "nl \<notin> set w" "int (length w + 1) > de_maxLine d"
  shows "fst (Next d) = Inl ErrLineTooLong"
proof -
  obtain r s where rl: "readLine (de_buf d) (de_maxLine d) (de_end d) [] (de_in d) = (r, s)" by fastforce
  with readLine_long [where w = w and acc = "[]" and maxLine = "de_maxLine d" and sz = "de_buf d" and e = "de_end d" and rest = rest] assms have "r = Inl LineTooLong"
    by simp
  with rl assms(1) show ?thesis by (simp add: Next.simps [of d] fail_def)
qed

lemma Next_eof:
  assumes "de_err d = None" "nl \<notin> set (de_in d)" "de_end d = EOF"
  shows "fst (Next d) = Inl (if de_in d = [] then (if de_dirty d then ErrUnexpectedEOF else EOF)
    else if int (length (de_in d)) > de_maxLine d then ErrLineTooLong else ErrUnexpectedEOF)"
proof -
  obtain r s where rl: "readLine (de_buf d) (de_maxLine d) (de_end d) [] (de_in d) = (r, s)" by fastforce
  with readLine_eof [OF assms(2), where sz = "de_buf d" and maxLine = "de_maxLine d" and acc = "[]"] assms have
    "r = Inl (if de_in d = [] then LineEOF else if int (length (de_in d)) > de_maxLine d then LineTooLong else PartialLine)"
    by simp
  with rl assms(1) show ?thesis by (simp add: Next.simps [of d] fail_def)
qed

lemma Next_error_kept: "Next d = (Inl err, d') \<Longrightarrow> de_err d' = Some err"
proof (induction d rule: Next.induct)
  case (1 d)
  show ?case
  proof (cases "de_err d")
    case None
    obtain r s where rl: "readLine (de_buf d) (de_maxLine d) (de_end d) [] (de_in d) = (r, s)" by fastforce
    show ?thesis
    proof (cases r)
      case (Inl e)
      with 1(2) rl None show ?thesis by (cases e) (auto simp: Next.simps [of d] fail_def split: if_splits)
    next
      case (Inr line)
      obtain o1 d1 where fl: "feed_line line (d\<lparr>de_in := s\<rparr>) = (o1, d1)" by fastforce
      with 1(2) rl None Inr have "o1 = None" "Next d1 = (Inl err, d')"
        by (cases o1; simp add: Next.simps [of d])+
      with 1(1) rl None Inr fl show ?thesis by simp
    qed
  next
    case (Some e)
    with 1(2) show ?thesis by (simp add: Next.simps [of d])
  qed
qed

section \<open>Events on the wire\<close>

fun join_nl :: "string list \<Rightarrow> string" where
  "join_nl [] = []"
| "join_nl [seg] = seg"
| "join_nl (seg # segs) = seg @ [nl] @ join_nl segs"

lemma split_nl_ne [simp]: "split_nl s \<noteq> []"
  by (induction s) (auto split: list.split)

lemma join_split: "join_nl (split_nl s) = s"
proof (induction s)
  case (Cons c s)
  obtain seg segs where "split_nl s = seg # segs" by (cases "split_nl s") auto
  with Cons show ?case by (cases segs) auto
qed simp

lemma split_nl_free: "seg \<in> set (split_nl s) \<Longrightarrow> nl \<notin> set seg"
  by (induction s arbitrary: seg) (auto split: if_splits list.splits)

definition data_line :: "string \<Rightarrow> string" where
  "data_line seg = ''data: '' @ seg"

definition event_line :: "string \<Rightarrow> string" where
  "event_line ty = ''event: '' @ ty"

lemma feed_data: "feed_line (data_line seg) d =
    (None, d\<lparr>de_dirty := True, de_data := (if de_sawData d then de_data d @ [nl] else de_data d) @ seg, de_sawData := True\<rparr>)"
  by (simp add: feed_line_def data_line_def)

lemma feed_event: "feed_line (event_line ty) d = (None, d\<lparr>de_dirty := True, de_evType := ty\<rparr>)"
  by (simp add: feed_line_def event_line_def)

lemma no_nl_line [simp]: "nl \<in> set (data_line seg) \<longleftrightarrow> nl \<in> set seg" "nl \<in> set (event_line seg) \<longleftrightarrow> nl \<in> set seg"
  by (simp_all add: data_line_def event_line_def)

lemma TrimSuffix_line [simp]:
  "seg = [] \<or> last seg \<noteq> cr \<Longrightarrow> TrimSuffix cr (data_line seg) = data_line seg"
  "seg = [] \<or> last seg \<noteq> cr \<Longrightarrow> TrimSuffix cr (event_line seg) = event_line seg"
  by (auto simp: TrimSuffix_def data_line_def event_line_def)

definition line_fits :: "int \<Rightarrow> string \<Rightarrow> bool" where
  "line_fits maxLine w \<longleftrightarrow> int (length w + 1) \<le> maxLine"

definition plain :: "int \<Rightarrow> string \<Rightarrow> bool" where
  "plain maxLine seg \<longleftrightarrow> nl \<notin> set seg \<and> (seg = [] \<or> last seg \<noteq> cr) \<and> line_fits maxLine (data_line seg)"

lemma Next_data_lines:
  assumes "de_err d = None" "segs \<noteq> []" "\<forall>seg \<in> set segs. plain (de_maxLine d) seg"
    and "de_in d = concat (map (\<lambda>seg. data_line seg @ [nl]) segs) @ nl # rest"
  shows "Next d = (Inr \<lparr>ev_Type = de_evType d,
      ev_Data = (if de_sawData d then de_data d @ [nl] else de_data d) @ join_nl segs\<rparr>, reset (d\<lparr>de_in := rest\<rparr>))"
  using assms
proof (induction segs arbitrary: d)
  case (Cons seg segs)
  let ?tail = "concat (map (\<lambda>seg. data_line seg @ [nl]) segs) @ nl # rest"
  let ?d = "d\<lparr>de_in := ?tail, de_dirty := True,
      de_data := (if de_sawData d then de_data d @ [nl] else de_data d) @ seg, de_sawData := True\<rparr>"
  have p: "plain (de_maxLine d) seg" using Cons.prems(3) by simp
  have "Next d = (case feed_line (TrimSuffix cr (data_line seg)) (d\<lparr>de_in := ?tail\<rparr>) of
      (Some ev, d') \<Rightarrow> (Inr ev, d') | (None, d') \<Rightarrow> Next d')"
    using Cons.prems p by (intro Next_line) (simp_all add: plain_def line_fits_def)
  also have "\<dots> = Next ?d" using p by (simp add: feed_data plain_def)
  finally have eq: "Next d = Next ?d" .
  show ?case
  proof (cases segs)
    case Nil
    have "1 \<le> de_maxLine d" using p by (simp add: plain_def line_fits_def)
    then have "Next ?d = (case feed_line (TrimSuffix cr []) (?d\<lparr>de_in := rest\<rparr>) of
        (Some ev, d') \<Rightarrow> (Inr ev, d') | (None, d') \<Rightarrow> Next d')"
      using Cons.prems(1) Nil by (intro Next_line) auto
    with eq Nil show ?thesis by (simp add: TrimSuffix_def feed_line_def reset_def)
  next
    case (Cons s ss)
    have "Next ?d = (Inr \<lparr>ev_Type = de_evType ?d,
        ev_Data = (if de_sawData ?d then de_data ?d @ [nl] else de_data ?d) @ join_nl segs\<rparr>, reset (?d\<lparr>de_in := rest\<rparr>))"
      using Cons.prems Cons by (intro Cons.IH) auto
    with eq Cons show ?thesis by (simp add: reset_def)
  qed
qed simp

text \<open>An event whose bytes survive: no segment of its data ends in a carriage return, and every
  line is within the decoder's limit.\<close>

definition wire_safe :: "int \<Rightarrow> Event \<Rightarrow> bool" where
  "wire_safe maxLine ev \<longleftrightarrow>
     (\<forall>seg \<in> set (split_nl (ev_Data ev)). (seg = [] \<or> last seg \<noteq> cr) \<and> line_fits maxLine (data_line seg)) \<and>
     line_fits maxLine (event_line (ev_Type ev))"

definition fresh :: "Decoder \<Rightarrow> bool" where
  "fresh d \<longleftrightarrow> de_err d = None \<and> de_data d = '''' \<and> de_evType d = '''' \<and> \<not> de_sawData d \<and> \<not> de_dirty d"

lemma wire_lines:
  assumes "WriteEvent ev = Inr bytes"
  shows "bytes = (if ev_Type ev \<noteq> '''' then event_line (ev_Type ev) @ [nl] else []) @
      concat (map (\<lambda>seg. data_line seg @ [nl]) (split_nl (ev_Data ev))) @ [nl]"
    and "nl \<notin> set (ev_Type ev)" "ev_Type ev = [] \<or> last (ev_Type ev) \<noteq> cr"
proof -
  have t: "\<not> list_ex (\<lambda>c. c = cr \<or> c = nl) (ev_Type ev)" using assms by (auto simp: WriteEvent_def split: if_splits)
  then have n: "\<forall>c \<in> set (ev_Type ev). c \<noteq> cr \<and> c \<noteq> nl" by (simp add: list_ex_iff)
  then show "nl \<notin> set (ev_Type ev)" by blast
  show "ev_Type ev = [] \<or> last (ev_Type ev) \<noteq> cr" using n last_in_set by blast
  have "WriteEvent ev = Inr ((if ev_Type ev \<noteq> '''' then event_line (ev_Type ev) @ [nl] else []) @
      concat (map (\<lambda>seg. data_line seg @ [nl]) (split_nl (ev_Data ev))) @ [nl])"
    unfolding WriteEvent_def event_line_def data_line_def using t by simp
  with assms show "bytes = (if ev_Type ev \<noteq> '''' then event_line (ev_Type ev) @ [nl] else []) @
      concat (map (\<lambda>seg. data_line seg @ [nl]) (split_nl (ev_Data ev))) @ [nl]"
    by simp
qed

lemma wire_plain: "wire_safe m ev \<Longrightarrow> \<forall>seg \<in> set (split_nl (ev_Data ev)). plain m seg"
  using split_nl_free by (auto simp: wire_safe_def plain_def)

lemma decode_written:
  assumes w: "WriteEvent ev = Inr bytes" and safe: "wire_safe (de_maxLine d) ev" and f: "fresh d"
    and i: "de_in d = bytes @ rest"
  shows "Next d = (Inr ev, d\<lparr>de_in := rest\<rparr>)"
proof -
  let ?segs = "split_nl (ev_Data ev)" and ?data = "concat (map (\<lambda>seg. data_line seg @ [nl]) (split_nl (ev_Data ev)))"
  note l = wire_lines [OF w] and p = wire_plain [OF safe]
  define d1 where "d1 = (if ev_Type ev = '''' then d else
    d\<lparr>de_in := ?data @ nl # rest, de_dirty := True, de_evType := ev_Type ev\<rparr>)"
  have step: "Next d = Next d1"
  proof (cases "ev_Type ev = ''''")
    case False
    have "Next d = (case feed_line (TrimSuffix cr (event_line (ev_Type ev))) (d\<lparr>de_in := ?data @ nl # rest\<rparr>) of
        (Some ev, d') \<Rightarrow> (Inr ev, d') | (None, d') \<Rightarrow> Next d')"
      using f False safe l i by (intro Next_line) (auto simp: fresh_def wire_safe_def line_fits_def)
    with False l(3) show ?thesis by (simp add: feed_event d1_def)
  qed (simp add: d1_def)
  have "Next d1 = (Inr \<lparr>ev_Type = de_evType d1,
      ev_Data = (if de_sawData d1 then de_data d1 @ [nl] else de_data d1) @ join_nl ?segs\<rparr>, reset (d1\<lparr>de_in := rest\<rparr>))"
    using f p i l(1) by (intro Next_data_lines) (auto simp: d1_def fresh_def)
  moreover have "reset (d1\<lparr>de_in := rest\<rparr>) = d\<lparr>de_in := rest\<rparr>"
    using f by (cases d) (auto simp: d1_def reset_def fresh_def)
  ultimately show ?thesis
    using f step join_split [of "ev_Data ev"] by (cases ev) (auto simp: d1_def fresh_def)
qed

section \<open>Truncation\<close>

definition field_line :: "int \<Rightarrow> string \<Rightarrow> bool" where
  "field_line m l \<longleftrightarrow> nl \<notin> set l \<and> line_fits m l \<and> TrimSuffix cr l \<noteq> [] \<and> l ! 0 \<noteq> CHR '':''"

lemma feed_field_line:
  assumes "field_line m l"
  shows "\<exists>d'. feed_line (TrimSuffix cr l) d = (None, d') \<and> de_dirty d' \<and> de_in d' = de_in d \<and>
    de_err d' = de_err d \<and> de_end d' = de_end d \<and> de_maxLine d' = de_maxLine d"
proof -
  have "TrimSuffix cr l ! 0 = l ! 0"
    using assms by (cases l) (auto simp: field_line_def TrimSuffix_def split: if_splits)
  with assms show ?thesis by (auto simp: feed_line_def field_line_def Let_def split: prod.split)
qed

lemma prefix_lines:
  assumes "p @ q = l @ nl # rest" "nl \<notin> set l"
  obtains "nl \<notin> set p" "length p \<le> length l" | p' where "p = l @ nl # p'" "p' @ q = rest"
proof -
  from assms(1) [unfolded append_eq_append_conv2] consider us where "p @ us = l" | us where "p = l @ us" "us @ q = nl # rest"
    by auto
  then show thesis
  proof cases
    case (1 us)
    with assms(2) show ?thesis using that(1) by auto
  next
    case (2 us)
    then show ?thesis
    proof (cases us)
      case Nil
      with 2 assms(2) show ?thesis using that(1) by simp
    next
      case (Cons c p')
      with 2 show ?thesis using that(2) [of p'] by simp
    qed
  qed
qed

lemma truncated_lines:
  assumes "de_err d = None" "de_end d = EOF" "de_dirty d \<or> de_in d \<noteq> []"
    and "\<forall>l \<in> set ls. field_line (de_maxLine d) l" "de_in d @ q = concat (map (\<lambda>l. l @ [nl]) ls)"
  shows "fst (Next d) = Inl ErrUnexpectedEOF"
  using assms
proof (induction ls arbitrary: d)
  case Nil
  then show ?case using Next_eof [of d] by simp
next
  case (Cons l ls)
  have fl: "field_line (de_maxLine d) l" and n: "nl \<notin> set l" using Cons.prems(4) by (auto simp: field_line_def)
  have "de_in d @ q = l @ nl # concat (map (\<lambda>l. l @ [nl]) ls)" using Cons.prems(5) by simp
  then show ?case
  proof (rule prefix_lines [OF _ n])
    assume "nl \<notin> set (de_in d)" "length (de_in d) \<le> length l"
    then show ?thesis using Next_eof [of d] Cons.prems(1-3) fl by (auto simp: field_line_def line_fits_def)
  next
    fix p'
    assume p: "de_in d = l @ nl # p'" "p' @ q = concat (map (\<lambda>l. l @ [nl]) ls)"
    obtain d' where d': "feed_line (TrimSuffix cr l) (d\<lparr>de_in := p'\<rparr>) = (None, d')" "de_dirty d'" "de_in d' = p'"
        "de_err d' = None" "de_end d' = EOF" "de_maxLine d' = de_maxLine d"
      using feed_field_line [OF fl, of "d\<lparr>de_in := p'\<rparr>"] Cons.prems(1,2) by auto
    have "Next d = Next d'"
      using Next_line [OF Cons.prems(1) p(1) n] fl d'(1) by (simp add: field_line_def line_fits_def)
    with Cons.IH [of d'] d' p(2) Cons.prems(4) show ?thesis by simp
  qed
qed

section \<open>The size of the buffer\<close>

lemma feed_line_buf: "feed_line line (d\<lparr>de_buf := sz\<rparr>) = map_prod id (\<lambda>d. d\<lparr>de_buf := sz\<rparr>) (feed_line line d)"
  by (auto simp: feed_line_def reset_def Let_def split: prod.split)

lemma feed_line_keeps:
  "feed_line line d = (x, d') \<Longrightarrow> de_err d' = de_err d \<and> de_end d' = de_end d \<and> de_maxLine d' = de_maxLine d"
  by (auto simp: feed_line_def reset_def Let_def split: if_splits prod.splits)

definition same_up_to_buf :: "int \<Rightarrow> (io_error + Event) \<times> Decoder \<Rightarrow> (io_error + Event) \<times> Decoder \<Rightarrow> bool" where
  "same_up_to_buf sz r r' \<longleftrightarrow>
     (case r of (Inl e, _) \<Rightarrow> fst r' = Inl e | (Inr ev, d) \<Rightarrow> r' = (Inr ev, d\<lparr>de_buf := sz\<rparr>) \<and> de_end d = EOF)"

lemma Next_buf:
  assumes "de_end d = EOF"
  shows "same_up_to_buf sz (Next d) (Next (d\<lparr>de_buf := sz\<rparr>))"
  using assms
proof (induction "length (de_in d)" arbitrary: d rule: less_induct)
  case less
  let ?d = "d\<lparr>de_buf := sz\<rparr>"
  show ?case
  proof (cases "de_err d")
    case (Some e)
    then show ?thesis by (simp add: Next.simps [of d] Next.simps [of ?d] same_up_to_buf_def)
  next
    case None
    show ?thesis
    proof (rule split_first_nl [of "de_in d"])
      fix w rest
      assume i: "de_in d = w @ nl # rest" "nl \<notin> set w"
      show ?thesis
      proof (cases "int (length w + 1) \<le> de_maxLine d")
        case True
        obtain x d1 where fl: "feed_line (TrimSuffix cr w) (d\<lparr>de_in := rest\<rparr>) = (x, d1)" by fastforce
        have "?d\<lparr>de_in := rest\<rparr> = (d\<lparr>de_in := rest\<rparr>)\<lparr>de_buf := sz\<rparr>" by simp
        then have fl': "feed_line (TrimSuffix cr w) (?d\<lparr>de_in := rest\<rparr>) = (x, d1\<lparr>de_buf := sz\<rparr>)"
          using fl feed_line_buf [where d = "d\<lparr>de_in := rest\<rparr>" and sz = sz and line = "TrimSuffix cr w"]
          by (simp only: map_prod_simp id_apply)
        note n = Next_line [OF None i True] and n' = Next_line [of ?d w rest]
        have keeps: "de_end d1 = EOF" "length (de_in d1) < length (de_in d)"
          using feed_line_keeps [OF fl] feed_line_same_in [OF fl] less.prems i by simp_all
        from less.hyps [OF keeps(2,1)] keeps n n' None i True fl fl' show ?thesis
          by (cases x) (simp_all add: same_up_to_buf_def)
      next
        case False
        then show ?thesis
          using Next_long [OF None i] Next_long [of ?d w rest] None i
          by (auto simp: same_up_to_buf_def split: prod.split sum.split)
      qed
    next
      assume "nl \<notin> set (de_in d)"
      then show ?thesis
        using Next_eof [of d] Next_eof [of ?d] None less.prems
        by (auto simp: same_up_to_buf_def split: prod.split sum.split)
    qed
  qed
qed

text \<open>A stream of written events decodes to them.\<close>

lemma drain_written:
  assumes "fresh d" "de_end d = EOF"
    and "\<forall>ev \<in> set evs. wire_safe (de_maxLine d) ev \<and> is_ok (WriteEvent ev)"
    and "de_in d = concat (map (\<lambda>ev. projr (WriteEvent ev)) evs)"
  shows "drain d = (evs, EOF)"
  using assms
proof (induction evs arbitrary: d)
  case Nil
  obtain r d' where n: "Next d = (r, d')" by fastforce
  then show ?case using Next_eof [of d] Nil by (simp add: drain.simps [of d] fresh_def)
next
  case (Cons ev evs)
  let ?rest = "concat (map (\<lambda>ev. projr (WriteEvent ev)) evs)"
  obtain bytes where w: "WriteEvent ev = Inr bytes" using Cons.prems(3) by (cases "WriteEvent ev") auto
  have "Next d = (Inr ev, d\<lparr>de_in := ?rest\<rparr>)"
    using Cons.prems w by (intro decode_written [OF w]) simp_all
  moreover have "drain (d\<lparr>de_in := ?rest\<rparr>) = (evs, EOF)"
    using Cons.prems by (intro Cons.IH) (simp_all add: fresh_def)
  ultimately show ?case by (simp add: drain.simps [of d])
qed

section \<open>Properties\<close>



text \<open>
  C29. A truncated stream is never mistaken for a complete one: an event cut anywhere before its
  final blank line, with at least one byte sent, makes the decoder report
  \<open>io.ErrUnexpectedEOF\<close> and no event.
\<close>

theorem truncated_event_detected:
  assumes "WriteEvent ev = Inr bytes" "wire_safe (de_maxLine d) ev" "fresh d" "de_end d = EOF"
    and "bytes = de_in d @ missing" "de_in d \<noteq> []" "missing \<noteq> []"
  shows "fst (Next d) = Inl ErrUnexpectedEOF"
proof -
  let ?ls = "(if ev_Type ev \<noteq> '''' then [event_line (ev_Type ev)] else []) @ map data_line (split_nl (ev_Data ev))"
  note l = wire_lines [OF assms(1)]
  have whole: "bytes = concat (map (\<lambda>l. l @ [nl]) ?ls) @ [nl]" using l(1) by (simp add: comp_def)
  have "missing = butlast missing @ [nl]"
    using whole assms(5,7) by (metis append_butlast_last_id last_appendR last_snoc)
  then have "de_in d @ butlast missing = concat (map (\<lambda>l. l @ [nl]) ?ls)"
    using whole assms(5) by (metis append_assoc butlast_snoc)
  moreover have "\<forall>l \<in> set ?ls. field_line (de_maxLine d) l"
    using assms(2) l(2) split_nl_free
    by (auto simp: field_line_def wire_safe_def TrimSuffix_def data_line_def event_line_def)
  ultimately show ?thesis
    using assms(3,4,6) by (intro truncated_lines [where ls = ?ls and q = "butlast missing"]) (auto simp: fresh_def)
qed

theorem truncated_event_detected_witness:
  "fst (Next ((NewDecoder (''data: x'' @ [nl] @ ''da'') EOF)\<lparr>de_maxLine := 100\<rparr>)) = Inl ErrUnexpectedEOF"
  by (rule truncated_event_detected [where ev = "\<lparr>ev_Type = '''', ev_Data = ''x'' @ [nl] @ ''y''\<rparr>"
        and missing = "''ta: y'' @ [nl, nl]"])
    (simp_all add: NewDecoder_def fresh_def wire_safe_def line_fits_def data_line_def event_line_def WriteEvent_def)

text \<open>
  C37. The events decoded from a stream that ends do not depend on the size of the read buffer:
  cutting long lines into buffer-sized chunks changes neither an event nor the final error.
\<close>

theorem decoding_ignores_buffer_size:
  assumes "de_end d = EOF"
  shows "drain (d\<lparr>de_buf := sz\<rparr>) = drain d"
  using assms
proof (induction d rule: drain.induct)
  case (1 d)
  obtain r d1 where n: "Next d = (r, d1)" by fastforce
  show ?case
  proof (cases r)
    case (Inl e)
    with Next_buf [OF 1(2), of sz] n show ?thesis
      by (cases "Next (d\<lparr>de_buf := sz\<rparr>)") (simp add: same_up_to_buf_def drain.simps [of d] drain.simps [of "d\<lparr>de_buf := sz\<rparr>"])
  next
    case (Inr ev)
    with Next_buf [OF 1(2), of sz] n have "Next (d\<lparr>de_buf := sz\<rparr>) = (Inr ev, d1\<lparr>de_buf := sz\<rparr>)" "de_end d1 = EOF"
      by (simp_all add: same_up_to_buf_def)
    with 1(1) n Inr show ?thesis by (simp add: drain.simps [of d] drain.simps [of "d\<lparr>de_buf := sz\<rparr>"])
  qed
qed

theorem decoding_ignores_buffer_size_witness:
  "drain ((NewDecoder (''data: a longer line than sixteen bytes'' @ [nl, nl]) EOF)\<lparr>de_buf := 16\<rparr>) =
     drain (NewDecoder (''data: a longer line than sixteen bytes'' @ [nl, nl]) EOF)"
  by (rule decoding_ignores_buffer_size) (simp add: NewDecoder_def)

text \<open>
  A decoder that has failed stays failed: every later \<open>Next\<close> returns the same error and leaves
  it as it was.
\<close>

theorem decoder_error_sticky:
  assumes "Next d = (Inl err, d')"
  shows "Next d' = (Inl err, d')"
  using Next_error_kept [OF assms] by (simp add: Next.simps [of d'])

theorem decoder_error_sticky_witness:
  "Next (snd (Next (NewDecoder [] EOF))) = (Inl EOF, snd (Next (NewDecoder [] EOF)))"
proof (rule decoder_error_sticky)
  have "fst (Next (NewDecoder [] EOF)) = Inl EOF" using Next_eof [of "NewDecoder [] EOF"] by (simp add: NewDecoder_def)
  then show "Next (NewDecoder [] EOF) = (Inl EOF, snd (Next (NewDecoder [] EOF)))" by (metis prod.collapse)
qed

text \<open>
  \<open>WriteEvent\<close> does not invert the decoder on data whose segment ends in a carriage return:
  the byte is taken for part of the line end and lost.
\<close>

theorem carriage_return_lost:
  "WriteEvent \<lparr>ev_Type = '''', ev_Data = ''a'' @ [cr]\<rparr> = Inr (''data: a'' @ [cr, nl, nl]) \<and>
   drain ((NewDecoder (''data: a'' @ [cr, nl, nl]) EOF)\<lparr>de_maxLine := 100\<rparr>) = ([\<lparr>ev_Type = '''', ev_Data = ''a''\<rparr>], EOF)"
proof
  show "WriteEvent \<lparr>ev_Type = '''', ev_Data = ''a'' @ [cr]\<rparr> = Inr (''data: a'' @ [cr, nl, nl])"
    by (simp add: WriteEvent_def)
  let ?d = "(NewDecoder (''data: a'' @ [cr, nl, nl]) EOF)\<lparr>de_maxLine := 100\<rparr>"
  have "TrimSuffix cr (''data: a'' @ [cr]) = data_line ''a''" by (simp add: TrimSuffix_def data_line_def)
  then have "Next ?d = Next (?d\<lparr>de_in := [nl], de_dirty := True, de_data := ''a'', de_sawData := True\<rparr>)"
    using Next_line [of ?d "''data: a'' @ [cr]" "[nl]"] by (simp add: NewDecoder_def feed_data)
  also have "\<dots> = (Inr \<lparr>ev_Type = '''', ev_Data = ''a''\<rparr>, ?d\<lparr>de_in := []\<rparr>)"
    by (subst Next_line [where w = "[]" and rest = "[]"])
      (simp_all add: NewDecoder_def TrimSuffix_def feed_line_def reset_def)
  finally have n: "Next ?d = (Inr \<lparr>ev_Type = '''', ev_Data = ''a''\<rparr>, ?d\<lparr>de_in := []\<rparr>)" .
  have "fst (Next (?d\<lparr>de_in := []\<rparr>)) = Inl EOF" using Next_eof [of "?d\<lparr>de_in := []\<rparr>"] by (simp add: NewDecoder_def)
  then have "drain (?d\<lparr>de_in := []\<rparr>) = ([], EOF)"
    by (subst drain.simps) (auto split: prod.split)
  with n show "drain ?d = ([\<lparr>ev_Type = '''', ev_Data = ''a''\<rparr>], EOF)" by (subst drain.simps) simp
qed

end
