(* ===== verification/Provider_Adapter.thy ===== *)
theory Provider_Adapter
  imports Sse Metering
begin

text \<open>
  The upstream side, \<open>adapters/outbound/providers/oaicompat\<close>: how a request is rewritten and sent
  to an OpenAI-compatible service, how its failures are classified (\<open>errors.go\<close>), and the two
  readers that turn its answer into stream events (\<open>chunck.go\<close>, \<open>readers.go\<close>), with the errors
  and events of \<open>ports/provider_errors.go\<close>, \<open>provider.go\<close> and \<open>provider_request.go\<close>.

  The JSON decoders of \<open>encoding/json\<close> at the two shapes the adapter reads, the JSON editor
  \<open>sjson\<close>, the URL parser and the HTTP round trip are parameters (\<open>upstream_env\<close>); the round
  trip threads a world of type \<open>'w\<close>, so that two calls may be answered differently.
\<close>

section \<open>Definitions\<close>

subsection \<open>Errors\<close>

datatype FailureKind =
    FailureUnknown
  | FailureConnect
  | FailureAuth
  | FailureRateLimit
  | FailureUpstream
  | FailureBadRequest
  | FailureTimeout
  | FailureTruncated

fun FailureKind_String :: "FailureKind \<Rightarrow> string" where
  "FailureKind_String FailureConnect = ''connect''"
| "FailureKind_String FailureAuth = ''auth''"
| "FailureKind_String FailureRateLimit = ''rate limit''"
| "FailureKind_String FailureUpstream = ''upstream''"
| "FailureKind_String FailureBadRequest = ''bad request''"
| "FailureKind_String FailureTimeout = ''timeout''"
| "FailureKind_String FailureTruncated = ''died mid-stream''"
| "FailureKind_String FailureUnknown = ''unknown''"

text \<open>
  A Go error value: a sentinel of \<open>io\<close>, \<open>context\<close> or \<open>sse\<close>, an error with a message that may
  wrap another, or a \<open>ProviderError\<close>, which wraps its cause.
\<close>

datatype go_error =
    ErrIO io_error
  | ErrText string "go_error option"
  | ProviderError (pe_Kind: FailureKind) (pe_Provider: string) (pe_StatusCode: int)
      (pe_Message: string) (pe_Retryable: bool) (pe_Err: "go_error option")

fun io_text :: "io_error \<Rightarrow> string" where
  "io_text EOF = ''EOF''"
| "io_text ErrUnexpectedEOF = ''unexpected EOF''"
| "io_text ErrLineTooLong = ''sse: line exceeds maximum length''"
| "io_text ContextCanceled = ''context canceled''"
| "io_text DeadlineExceeded = ''context deadline exceeded''"
| "io_text (ReadFailed msg) = msg"

fun Error_text :: "go_error \<Rightarrow> string" where
  "Error_text (ErrIO e) = io_text e"
| "Error_text (ErrText msg _) = msg"
| "Error_text (ProviderError _ _ _ msg _ _) = msg"

text \<open>\<open>errors.Is\<close> at a sentinel and \<open>errors.As\<close> at \<open>*ProviderError\<close> walk the chain of wrapped errors.\<close>

fun errors_Is :: "go_error \<Rightarrow> io_error \<Rightarrow> bool" where
  "errors_Is (ErrIO e) s \<longleftrightarrow> e = s"
| "errors_Is (ErrText _ (Some e)) s \<longleftrightarrow> errors_Is e s"
| "errors_Is (ErrText _ None) s \<longleftrightarrow> False"
| "errors_Is (ProviderError _ _ _ _ _ (Some e)) s \<longleftrightarrow> errors_Is e s"
| "errors_Is (ProviderError _ _ _ _ _ None) s \<longleftrightarrow> False"

fun errors_As_ProviderError :: "go_error \<Rightarrow> go_error option" where
  "errors_As_ProviderError (ProviderError k p c m r e) = Some (ProviderError k p c m r e)"
| "errors_As_ProviderError (ErrText _ (Some e)) = errors_As_ProviderError e"
| "errors_As_ProviderError (ErrText _ None) = None"
| "errors_As_ProviderError (ErrIO _) = None"

definition maxErrorBodyBytes :: nat where "maxErrorBodyBytes = 8192"

text \<open>\<open>errorResponse\<close> as decoded: the message of the envelope, when the body is one.\<close>

definition extractMessage :: "(string \<Rightarrow> string option) \<Rightarrow> string \<Rightarrow> string" where
  "extractMessage unmarshal_error body =
     (case unmarshal_error body of
        Some msg \<Rightarrow> if msg \<noteq> '''' then msg
                    else if length body = 0 then ''upstream returned an empty error body'' else body
      | None \<Rightarrow> if length body = 0 then ''upstream returned an empty error body'' else body)"

definition classify :: "(string \<Rightarrow> string option) \<Rightarrow> string \<Rightarrow> int \<Rightarrow> string \<Rightarrow> go_error" where
  "classify unmarshal_error provider status body0 =
     (let body = (if length body0 > maxErrorBodyBytes then take maxErrorBodyBytes body0 else body0);
          pe = (\<lambda>kind retry. ProviderError kind provider status (extractMessage unmarshal_error body) retry None)
      in if status = 401 \<or> status = 403 then pe FailureAuth False
         else if status = 400 \<or> status = 422 then pe FailureBadRequest False
         else if status = 404 then pe FailureBadRequest True
         else if status = 413 then pe FailureBadRequest True
         else if status = 408 \<or> status = 504 then pe FailureTimeout True
         else if status = 429 then pe FailureRateLimit True
         else if status \<ge> 500 then pe FailureUpstream True
         else pe FailureUnknown True)"

subsection \<open>Chunks\<close>

record usageJSON =
  uj_PromptTokens :: int
  uj_CompletionTokens :: int
  uj_CachedTokens :: "int option"
  uj_ReasoningTokens :: "int option"

record chunk =
  ck_Choices :: "string list"
  ck_Usage :: "usageJSON option"

definition chunk_usage :: "chunk \<Rightarrow> TokenUsage option" where
  "chunk_usage c =
     (case ck_Usage c of
        None \<Rightarrow> None
      | Some u \<Rightarrow>
          (let cached = (case uj_CachedTokens u of None \<Rightarrow> 0 | Some n \<Rightarrow> n);
               reasoning = (case uj_ReasoningTokens u of None \<Rightarrow> 0 | Some n \<Rightarrow> n);
               diff = i64 (uj_PromptTokens u - cached);
               input = (if diff < 0 then 0 else diff)
           in Some (zero_usage\<lparr>tu_Input := input, tu_Output := uj_CompletionTokens u,
                tu_CacheRead := cached, tu_Reasoning := reasoning\<rparr>)))"

definition usageOnly :: "chunk \<Rightarrow> bool" where
  "usageOnly c \<longleftrightarrow> ck_Usage c \<noteq> None \<and> length (ck_Choices c) = 0"

subsection \<open>Readers\<close>

record StreamEvent =
  se_Raw :: string
  se_Usage :: "TokenUsage option"
  se_Terminal :: bool
  se_UsageOnly :: bool

definition doneSentinel :: string where "doneSentinel = ''[DONE]''"

datatype StreamReader = SseReader Decoder | NonStreamReader string bool

definition event_of :: "(string \<Rightarrow> chunk option) \<Rightarrow> string \<Rightarrow> StreamEvent" where
  "event_of parseChunk data =
     (if data = doneSentinel then \<lparr>se_Raw = data, se_Usage = None, se_Terminal = True, se_UsageOnly = False\<rparr>
      else case parseChunk data of
             Some c \<Rightarrow> \<lparr>se_Raw = data, se_Usage = chunk_usage c, se_Terminal = False, se_UsageOnly = usageOnly c\<rparr>
           | None \<Rightarrow> \<lparr>se_Raw = data, se_Usage = None, se_Terminal = False, se_UsageOnly = False\<rparr>)"

fun reader_Next :: "(string \<Rightarrow> chunk option) \<Rightarrow> StreamReader \<Rightarrow> (go_error + StreamEvent) \<times> StreamReader" where
  "reader_Next parseChunk (SseReader dec) =
     (case Next dec of
        (Inl err, dec') \<Rightarrow> (Inl (ErrIO err), SseReader dec')
      | (Inr ev, dec') \<Rightarrow> (Inr (event_of parseChunk (ev_Data ev)), SseReader dec'))"
| "reader_Next parseChunk (NonStreamReader raw True) = (Inl (ErrIO EOF), NonStreamReader raw True)"
| "reader_Next parseChunk (NonStreamReader raw False) =
     (Inr \<lparr>se_Raw = raw, se_Usage = (case parseChunk raw of Some c \<Rightarrow> chunk_usage c | None \<Rightarrow> None),
           se_Terminal = True, se_UsageOnly = False\<rparr>, NonStreamReader raw True)"

subsection \<open>The provider\<close>

record ProviderRequest =
  pq_Model :: string
  pq_Body :: string
  pq_Stream :: bool
  pq_WantsUsage :: bool

record provider_Config =
  pc_Name :: string
  pc_BaseURL :: string
  pc_APIKey :: string
  pc_DisableStreamOption :: bool
  pc_ExtraHeaders :: "(string \<times> string) list"

record http_request =
  hq_URL :: string
  hq_Body :: string
  hq_Header :: "string \<rightharpoonup> string"

record http_response =
  hr_StatusCode :: int
  hr_Body :: string
  hr_End :: io_error

record 'w upstream_env =
  ue_parse_chunk :: "string \<Rightarrow> chunk option"
  ue_error_message :: "string \<Rightarrow> string option"
  ue_set_model :: "string \<Rightarrow> string \<Rightarrow> go_error + string"
  ue_set_include_usage :: "string \<Rightarrow> go_error + string"
  ue_url_error :: "string \<Rightarrow> go_error option"
  ue_canonical_header :: "string \<Rightarrow> string"
  ue_do :: "http_request \<Rightarrow> 'w \<Rightarrow> (go_error + http_response) \<times> 'w"

datatype provider_new_error = NameRequired | BaseURLRequired

definition TrimRight :: "char \<Rightarrow> string \<Rightarrow> string" where
  "TrimRight c s = rev (dropWhile (\<lambda>x. x = c) (rev s))"

definition New_Provider :: "provider_Config \<Rightarrow> provider_new_error + provider_Config" where
  "New_Provider cfg =
     (if pc_Name cfg = '''' then Inl NameRequired
      else if pc_BaseURL cfg = '''' then Inl BaseURLRequired
      else Inr (cfg\<lparr>pc_BaseURL := TrimRight (CHR ''/'') (pc_BaseURL cfg)\<rparr>))"

definition buildBody :: "'w upstream_env \<Rightarrow> provider_Config \<Rightarrow> ProviderRequest \<Rightarrow> go_error + string" where
  "buildBody env p req =
     (case ue_set_model env (pq_Body req) (pq_Model req) of
        Inl err \<Rightarrow> Inl (ProviderError FailureBadRequest (pc_Name p) 0 (''rewrite model: '' @ Error_text err) False (Some err))
      | Inr body \<Rightarrow>
          if pq_Stream req \<and> \<not> pc_DisableStreamOption p then
            (case ue_set_include_usage env body of
               Inl err \<Rightarrow> Inl (ProviderError FailureBadRequest (pc_Name p) 0
                            (''inject stream_options: '' @ Error_text err) False (Some err))
             | Inr body' \<Rightarrow> Inr body')
          else Inr body)"

text \<open>\<open>Header.Set\<close> writes the canonical key; the extra headers come last and may overwrite.\<close>

definition request_headers :: "'w upstream_env \<Rightarrow> provider_Config \<Rightarrow> ProviderRequest \<Rightarrow> string \<rightharpoonup> string" where
  "request_headers env p req =
     (let set = (\<lambda>h (k, v). h(ue_canonical_header env k \<mapsto> v)) in
      foldl set Map.empty
        ([(''Content-Type'', ''application/json''), (''Accept-Encoding'', ''identity'')] @
         (if pc_APIKey p \<noteq> '''' then [(''Authorization'', ''Bearer '' @ pc_APIKey p)] else []) @
         (if pq_Stream req then [(''Accept'', ''text/event-stream'')] else []) @
         pc_ExtraHeaders p))"

definition ReadAll :: "http_response \<Rightarrow> go_error + string" where
  "ReadAll resp = (if hr_End resp = EOF then Inr (hr_Body resp) else Inl (ErrIO (hr_End resp)))"

definition Provider_Stream ::
  "'w upstream_env \<Rightarrow> provider_Config \<Rightarrow> ProviderRequest \<Rightarrow> 'w \<Rightarrow> (go_error + StreamReader) \<times> 'w" where
  "Provider_Stream env p req w =
     (case buildBody env p req of
        Inl err \<Rightarrow> (Inl err, w)
      | Inr body \<Rightarrow>
          (let url = pc_BaseURL p @ ''/chat/completions'' in
           case ue_url_error env url of
             Some err \<Rightarrow> (Inl (ProviderError FailureConnect (pc_Name p) 0 (Error_text err) True (Some err)), w)
           | None \<Rightarrow>
               (case ue_do env \<lparr>hq_URL = url, hq_Body = body, hq_Header = request_headers env p req\<rparr> w of
                  (Inl err, w') \<Rightarrow>
                    (Inl (ProviderError FailureConnect (pc_Name p) 0 (Error_text err) True (Some err)), w')
                | (Inr resp, w') \<Rightarrow>
                    if hr_StatusCode resp \<noteq> 200 then
                      (Inl (classify (ue_error_message env) (pc_Name p) (hr_StatusCode resp)
                              (take maxErrorBodyBytes (hr_Body resp))), w')
                    else if \<not> pq_Stream req then
                      (case ReadAll resp of
                         Inl err \<Rightarrow> (Inl (ProviderError FailureUpstream (pc_Name p) 0 (Error_text err) True (Some err)), w')
                       | Inr raw \<Rightarrow> (Inr (NonStreamReader raw False), w'))
                    else (Inr (SseReader (NewDecoder (hr_Body resp) (hr_End resp))), w'))))"

end
