(* ===== verification/Routing.thy ===== *)
theory Routing
  imports Config Decisions
begin

text \<open>
  From a model alias to dialable targets: \<open>usecases/routing\<close> (\<open>table.go\<close>, \<open>resolver.go\<close>,
  \<open>build.go\<close>), \<open>bootstrap/providers.go\<close> and the target of \<open>ports/dispatcher.go\<close>. A provider
  client is a value of the type \<open>'p\<close>; constructing one is the parameter \<open>new_provider\<close>.

  \<open>configured_alias_resolves\<close> is what the comments of \<open>resolver.go\<close> and \<open>build.go\<close> promise:
  validation proves every reference before boot.
\<close>

section \<open>Definitions\<close>

record Routing_Table =
  rt_ladders :: "(string \<times> Ladder) list"
  rt_aliases :: string

record 'p Target =
  tg_Provider :: 'p
  tg_Model :: string
  tg_Ref :: TargetRef

definition Target_String :: "'p Target \<Rightarrow> string" where
  "Target_String t = (if tr_Name (tg_Ref t) = '''' then ''unnamed:'' @ tg_Model t else tr_Name (tg_Ref t))"

datatype routing_error =
    NoModelsConfigured
  | ModelEmptyLadder string
  | UnknownModel string string
  | NoProviderFor string string

fun join :: "string \<Rightarrow> string list \<Rightarrow> string" where
  "join sep [] = []"
| "join sep [x] = x"
| "join sep (x # xs) = x @ sep @ join sep xs"

definition NewTable :: "(string \<times> Ladder) list \<Rightarrow> routing_error + Routing_Table" where
  "NewTable ladders =
     (if length ladders = 0 then Inl NoModelsConfigured
      else case List.find (\<lambda>nl. Ladder_IsEmpty (snd nl)) ladders of
             Some nl \<Rightarrow> Inl (ModelEmptyLadder (fst nl))
           | None \<Rightarrow> Inr \<lparr>rt_ladders = ladders, rt_aliases = join '', '' (sort (map fst ladders))\<rparr>)"

definition Route :: "Routing_Table \<Rightarrow> RequestFacts \<Rightarrow> routing_error + Ladder" where
  "Route t facts =
     (case map_of (rt_ladders t) (rf_RequestedModel facts) of
        None \<Rightarrow> Inl (UnknownModel (rf_RequestedModel facts) (rt_aliases t))
      | Some l \<Rightarrow> Inr l)"

fun resolve_targets :: "(string \<times> 'p) list \<Rightarrow> TargetRef list \<Rightarrow> routing_error + 'p Target list" where
  "resolve_targets providers [] = Inr []"
| "resolve_targets providers (ref # refs) =
     (case map_of providers (tr_Provider ref) of
        None \<Rightarrow> Inl (NoProviderFor (tr_Provider ref) (tr_Name ref))
      | Some p \<Rightarrow>
          (case resolve_targets providers refs of
             Inl e \<Rightarrow> Inl e
           | Inr out \<Rightarrow> Inr (\<lparr>tg_Provider = p, tg_Model = tr_UpstreamModel ref, tg_Ref = ref\<rparr> # out)))"

definition Resolve :: "(string \<times> 'p) list \<Rightarrow> Ladder \<Rightarrow> routing_error + 'p Target list" where
  "Resolve providers l = resolve_targets providers (la_Targets l)"

definition target_ref :: "string \<Rightarrow> cfg_Target \<Rightarrow> TargetRef" where
  "target_ref name tc = \<lparr>tr_Name = name, tr_Provider = ct_Provider tc, tr_UpstreamModel = ct_Model tc,
     tr_Region = ct_Region tc\<rparr>"

text \<open>A name missing from the map of references reads as the zero \<open>TargetRef\<close>.\<close>

definition zero_ref :: TargetRef where
  "zero_ref = \<lparr>tr_Name = '''', tr_Provider = '''', tr_UpstreamModel = '''', tr_Region = ''''\<rparr>"

definition lookup_ref :: "(string \<times> cfg_Target) list \<Rightarrow> string \<Rightarrow> TargetRef" where
  "lookup_ref targets n = (case map_of targets n of Some tc \<Rightarrow> target_ref n tc | None \<Rightarrow> zero_ref)"

definition FromConfig :: "'f Config \<Rightarrow> routing_error + Routing_Table" where
  "FromConfig cfg =
     NewTable (map (\<lambda>(alias, names).
       (alias, \<lparr>la_Targets = map (lookup_ref (cfg_Targets cfg)) names,
                la_Reason = zero_Reason\<lparr>re_Kind := ReasonModelAlias, re_ModelAlias := alias\<rparr>\<rparr>)) (cfg_Models cfg))"

datatype provider_build_error = ProviderBuildFailed string | UnsupportedProviderType string string

fun build_providers ::
  "(string \<Rightarrow> cfg_Provider \<Rightarrow> 'p option) \<Rightarrow> (string \<times> cfg_Provider) list \<Rightarrow>
   provider_build_error + (string \<times> 'p) list" where
  "build_providers new_provider [] = Inr []"
| "build_providers new_provider ((name, pc) # rest) =
     (if cp_Type pc = ''oaicompat'' then
        (case new_provider name pc of
           None \<Rightarrow> Inl (ProviderBuildFailed name)
         | Some p \<Rightarrow>
             (case build_providers new_provider rest of Inl e \<Rightarrow> Inl e | Inr ps \<Rightarrow> Inr ((name, p) # ps)))
      else Inl (UnsupportedProviderType name (cp_Type pc)))"

section \<open>Facts\<close>

lemma NewTable_ok:
  assumes "ladders \<noteq> []" "\<forall>nl \<in> set ladders. \<not> Ladder_IsEmpty (snd nl)"
  shows "NewTable ladders = Inr \<lparr>rt_ladders = ladders, rt_aliases = join '', '' (sort (map fst ladders))\<rparr>"
proof -
  have "List.find (\<lambda>nl. Ladder_IsEmpty (snd nl)) ladders = None" using assms(2) by (auto simp: find_None_iff)
  with assms(1) show ?thesis by (simp add: NewTable_def)
qed

lemma NewTable_ladders: "NewTable ladders = Inr t \<Longrightarrow> rt_ladders t = ladders"
  by (auto simp: NewTable_def split: if_splits option.splits)

lemma resolve_targets_ok:
  assumes "\<forall>ref \<in> set refs. \<exists>p. map_of providers (tr_Provider ref) = Some p"
  shows "\<exists>ts. resolve_targets providers refs = Inr ts \<and> map tg_Ref ts = refs \<and>
    map tg_Model ts = map tr_UpstreamModel refs \<and>
    (\<forall>t \<in> set ts. map_of providers (tr_Provider (tg_Ref t)) = Some (tg_Provider t))"
  using assms by (induction refs) fastforce+

lemma build_providers_names:
  assumes "build_providers new_provider ps = Inr built"
  shows "map fst built = map fst ps"
  using assms
proof (induction ps arbitrary: built)
  case (Cons np ps)
  then show ?case by (cases np) (auto split: if_splits option.splits sum.splits)
qed simp

lemma build_providers_only_construction_fails:
  assumes "\<forall>(name, pc) \<in> set ps. cp_Type pc = ''oaicompat'' \<and> new_provider name pc \<noteq> None"
  shows "\<exists>built. build_providers new_provider ps = Inr built"
  using assms by (induction ps) auto

lemma map_of_keys: "map fst xs = map fst ys \<Longrightarrow> map_of ys k \<noteq> None \<Longrightarrow> map_of xs k \<noteq> None"
  by (metis list.set_map map_of_eq_None_iff)

lemma lookup_ref_ok:
  assumes "Config_validate from_dollars c = []" "maps_ok c" "(alias, names) \<in> set (cfg_Models c)" "n \<in> set names"
  shows "\<exists>tc. map_of (cfg_Targets c) n = Some tc \<and> lookup_ref (cfg_Targets c) n = target_ref n tc \<and>
    ct_Model tc \<noteq> '''' \<and> map_of (cfg_Providers c) (ct_Provider tc) \<noteq> None"
proof -
  obtain tc where tc: "map_of (cfg_Targets c) n = Some tc"
    using validate_routing(2) [OF assms(1,3)] assms(4) by blast
  from validate_routing(3) [OF assms(1) map_of_SomeD [OF tc]] tc show ?thesis
    by (auto simp: lookup_ref_def)
qed

lemma FromConfig_ok:
  assumes "Config_validate from_dollars c = []"
  shows "\<exists>t. FromConfig c = Inr t"
proof -
  have "\<forall>nl \<in> set (map (\<lambda>(alias, names).
       (alias, \<lparr>la_Targets = map (lookup_ref (cfg_Targets c)) names,
                la_Reason = zero_Reason\<lparr>re_Kind := ReasonModelAlias, re_ModelAlias := alias\<rparr>\<rparr>)) (cfg_Models c)).
      \<not> Ladder_IsEmpty (snd nl)"
    using validate_routing(2) [OF assms] by (auto simp: Ladder_IsEmpty_def)
  with validate_routing(1) [OF assms] show ?thesis by (simp add: FromConfig_def NewTable_ok)
qed

lemma map_of_map_pair: "map_of (map (\<lambda>(k, v). (k, f k v)) xs) k = map_option (f k) (map_of xs k)"
  by (induction xs) auto

lemma Route_FromConfig:
  assumes "FromConfig c = Inr t"
  shows "Route t facts =
    (case map_of (cfg_Models c) (rf_RequestedModel facts) of
       None \<Rightarrow> Inl (UnknownModel (rf_RequestedModel facts) (rt_aliases t))
     | Some names \<Rightarrow> Inr \<lparr>la_Targets = map (lookup_ref (cfg_Targets c)) names,
         la_Reason = zero_Reason\<lparr>re_Kind := ReasonModelAlias, re_ModelAlias := rf_RequestedModel facts\<rparr>\<rparr>)"
  using NewTable_ladders [OF assms [unfolded FromConfig_def]]
  by (simp add: Route_def map_of_map_pair [where f = "\<lambda>alias names. \<lparr>la_Targets = map (lookup_ref (cfg_Targets c)) names,
         la_Reason = zero_Reason\<lparr>re_Kind := ReasonModelAlias, re_ModelAlias := alias\<rparr>\<rparr>"] split: option.split)

section \<open>Properties\<close>

text \<open>
  C34. A configuration that passes \<open>validate\<close> routes: the table is built, a requested model is
  accepted exactly when the configuration names it, and its ladder resolves to one dialable target
  for every configured name, in the configured order, each with the provider client built for it
  and a non-empty upstream model. The only construction that can still fail is a provider client's
  own.
\<close>

theorem configured_alias_resolves:
  assumes "Config_validate from_dollars c = []" "maps_ok c"
    and "build_providers new_provider (cfg_Providers c) = Inr providers"
  shows "\<exists>t. FromConfig c = Inr t \<and>
    (\<forall>facts. case map_of (cfg_Models c) (rf_RequestedModel facts) of
       None \<Rightarrow> Route t facts = Inl (UnknownModel (rf_RequestedModel facts) (rt_aliases t))
     | Some names \<Rightarrow>
         (\<exists>l ts. Route t facts = Inr l \<and> re_ModelAlias (la_Reason l) = rf_RequestedModel facts \<and>
            Resolve providers l = Inr ts \<and> ts \<noteq> [] \<and>
            map (\<lambda>x. tr_Name (tg_Ref x)) ts = names \<and>
            (\<forall>x \<in> set ts. tg_Model x \<noteq> '''' \<and>
               map_of providers (tr_Provider (tg_Ref x)) = Some (tg_Provider x))))"
proof -
  obtain t where t: "FromConfig c = Inr t" using FromConfig_ok [OF assms(1)] by blast
  have "\<exists>l ts. Route t facts = Inr l \<and> re_ModelAlias (la_Reason l) = rf_RequestedModel facts \<and>
      Resolve providers l = Inr ts \<and> ts \<noteq> [] \<and> map (\<lambda>x. tr_Name (tg_Ref x)) ts = names \<and>
      (\<forall>x \<in> set ts. tg_Model x \<noteq> '''' \<and> map_of providers (tr_Provider (tg_Ref x)) = Some (tg_Provider x))"
    if some: "map_of (cfg_Models c) (rf_RequestedModel facts) = Some names" for facts :: RequestFacts and names
  proof -
    let ?refs = "map (lookup_ref (cfg_Targets c)) names"
    have mem: "(rf_RequestedModel facts, names) \<in> set (cfg_Models c)" using some by (rule map_of_SomeD)
    note ref = lookup_ref_ok [OF assms(1,2) mem]
    have "\<forall>r \<in> set ?refs. \<exists>p. map_of providers (tr_Provider r) = Some p"
    proof
      fix r
      assume "r \<in> set ?refs"
      then obtain n where "n \<in> set names" "r = lookup_ref (cfg_Targets c) n" by auto
      with ref [of n] have "map_of (cfg_Providers c) (tr_Provider r) \<noteq> None" by (auto simp: target_ref_def)
      from map_of_keys [OF build_providers_names [OF assms(3)] this]
      show "\<exists>p. map_of providers (tr_Provider r) = Some p" by blast
    qed
    then obtain ts where ts: "resolve_targets providers ?refs = Inr ts" "map tg_Ref ts = ?refs"
        "map tg_Model ts = map tr_UpstreamModel ?refs"
        "\<forall>x \<in> set ts. map_of providers (tr_Provider (tg_Ref x)) = Some (tg_Provider x)"
      using resolve_targets_ok by blast
    have "map (\<lambda>x. tr_Name (tg_Ref x)) ts = map tr_Name ?refs" 
      unfolding ts(2) [symmetric] by simp
    also have "\<dots> = names" using ref by (fastforce simp: target_ref_def intro!: map_idI)
    finally have n: "map (\<lambda>x. tr_Name (tg_Ref x)) ts = names" .
    have "tg_Model x \<noteq> ''''" if "x \<in> set ts" for x
    proof -
      have "tg_Model x \<in> set (map tr_UpstreamModel ?refs)" using that ts(3) by (metis image_eqI list.set_map)
      then obtain n where "n \<in> set names" "tg_Model x = tr_UpstreamModel (lookup_ref (cfg_Targets c) n)" by auto
      with ref [of n] show ?thesis by (auto simp: target_ref_def)
    qed
    moreover have "ts \<noteq> []" using n validate_routing(2) [OF assms(1) mem] by auto
    ultimately show ?thesis
      using ts n some by (auto simp: Route_FromConfig [OF t] Resolve_def)
  qed
  then show ?thesis using t by (auto simp: Route_FromConfig [OF t] split: option.split)
qed

definition sample_cfg :: "int Config" where
  "sample_cfg = \<lparr>cfg_Listen = '':4000'',
     cfg_Providers = [(''openai'', \<lparr>cp_Type = ''oaicompat'', cp_BaseURL = ''https://api'', cp_APIKey = ''k'',
        cp_DisableStreamOptions = False, cp_ExtraHeaders = []\<rparr>)],
     cfg_Targets = [(''fast'', \<lparr>ct_Provider = ''openai'', ct_Model = ''gpt-mini'', ct_Region = ''''\<rparr>),
        (''big'', \<lparr>ct_Provider = ''openai'', ct_Model = ''gpt-big'', ct_Region = ''''\<rparr>)],
     cfg_Models = [(''chat'', [''fast'', ''big''])],
     cfg_Sink = \<lparr>cs_DSN = ''postgres'', cs_BufferSize = 0, cs_BatchSize = 0, cs_FlushInterval = 0\<rparr>,
     cfg_Pricing = \<lparr>cp_CompareAgainst = [], cp_Table = []\<rparr>,
     cfg_Redis = \<lparr>cr_Addr = '''', cr_Password = '''', cr_DB = 0, cr_Timeout = 1, cr_OnUnavailable = ''open''\<rparr>,
     cfg_Quota = \<lparr>cq_DefaultMaxOutputTokens = 4096, cq_LimitsTTL = 1, cq_FlushInterval = 1,
        cq_FlushBuffer = 1, cq_ResyncInterval = 1\<rparr>\<rparr>"

theorem configured_alias_resolves_witness:
  "\<exists>t. FromConfig sample_cfg = Inr t \<and>
    (\<forall>facts. case map_of (cfg_Models sample_cfg) (rf_RequestedModel facts) of
       None \<Rightarrow> Route t facts = Inl (UnknownModel (rf_RequestedModel facts) (rt_aliases t))
     | Some names \<Rightarrow>
         (\<exists>l ts. Route t facts = Inr l \<and> re_ModelAlias (la_Reason l) = rf_RequestedModel facts \<and>
            Resolve [(''openai'', ''client'')] l = Inr ts \<and> ts \<noteq> [] \<and>
            map (\<lambda>x. tr_Name (tg_Ref x)) ts = names \<and>
            (\<forall>x \<in> set ts. tg_Model x \<noteq> '''' \<and>
               map_of [(''openai'', ''client'')] (tr_Provider (tg_Ref x)) = Some (tg_Provider x))))"
proof (rule configured_alias_resolves [of id _ "\<lambda>name pc. Some ''client''"])
  show "Config_validate id sample_cfg = []" by code_simp
  show "maps_ok sample_cfg" by code_simp
  show "build_providers (\<lambda>name pc. Some ''client'') (cfg_Providers sample_cfg) = Inr [(''openai'', ''client'')]"
    by code_simp
qed

end
