(* ===== verification/Dispatch.thy ===== *)
theory Dispatch
  imports Provider_Adapter Decisions Routing
begin

text \<open>
  The dispatcher, \<open>usecases/dispatch/dispatch.go\<close>: it walks the ladder, commits to the first
  target that yields an event, and relays that target's stream to the client.

  The clock and the network are a world of type \<open>'w\<close>; the client connection behind
  \<open>ports.ClientStream\<close> is a state of type \<open>'c\<close> with the operations of \<open>client_ops\<close>. Closing the
  response body has no effect the program observes and is left out.
\<close>

section \<open>Definitions\<close>

record 'c client_ops =
  co_Commit :: "'c \<Rightarrow> go_error option \<times> 'c"
  co_Send :: "StreamEvent \<Rightarrow> 'c \<Rightarrow> go_error option \<times> 'c"
  co_SendError :: "go_error \<Rightarrow> 'c \<Rightarrow> go_error option \<times> 'c"

record ('p, 'w) Dispatcher =
  di_now :: "'w \<Rightarrow> time \<times> 'w"
  di_stream :: "'p \<Rightarrow> ProviderRequest \<Rightarrow> 'w \<Rightarrow> (go_error + StreamReader) \<times> 'w"
  di_parse :: "string \<Rightarrow> chunk option"

text \<open>\<open>time.Time.Sub\<close> saturates at the ends of \<open>time.Duration\<close>.\<close>

definition time_Sub :: "time \<Rightarrow> time \<Rightarrow> duration" where
  "time_Sub t u = max (- (2 ^ 63)) (min (2 ^ 63 - 1) (t - u))"

definition msBetween :: "time \<Rightarrow> time \<Rightarrow> int" where
  "msBetween from till = time_Sub till from sdiv 1000000"

definition retryable :: "go_error \<Rightarrow> bool" where
  "retryable err =
     (if errors_Is err ContextCanceled \<or> errors_Is err DeadlineExceeded then False
      else case errors_As_ProviderError err of Some pe \<Rightarrow> pe_Retryable pe | None \<Rightarrow> True)"

definition attempt_failure :: "go_error \<Rightarrow> AttemptFailure" where
  "attempt_failure err =
     (let failure =
        (case errors_As_ProviderError err of
           None \<Rightarrow> \<lparr>af_Kind = FailureKind_String FailureUnknown, af_StatusCode = 0, af_Message = Error_text err,
                    af_Retryable = True\<rparr>
         | Some pe \<Rightarrow> \<lparr>af_Kind = FailureKind_String (pe_Kind pe), af_StatusCode = pe_StatusCode pe,
                       af_Message = pe_Message pe, af_Retryable = pe_Retryable pe\<rparr>)
      in if errors_Is err ContextCanceled then failure\<lparr>af_Kind := ''client_disconnect'', af_Retryable := False\<rparr>
         else if errors_Is err DeadlineExceeded
              then failure\<lparr>af_Kind := FailureKind_String FailureTimeout, af_Retryable := False\<rparr>
         else failure)"

definition failedAttempt ::
  "('p, 'w) Dispatcher \<Rightarrow> 'p Target \<Rightarrow> time \<Rightarrow> go_error \<Rightarrow> 'w \<Rightarrow> Attempt \<times> 'w" where
  "failedAttempt d t startedAt err w =
     (let (n, w') = di_now d w in
      (\<lparr>at_Target = Target_String t, at_StartedAt = startedAt, at_DurationMs = msBetween startedAt n,
        at_Failure = Some (attempt_failure err)\<rparr>, w'))"

fun reader_size :: "StreamReader \<Rightarrow> nat" where
  "reader_size (SseReader dec) = length (de_in dec)"
| "reader_size (NonStreamReader _ done) = (if done then 0 else 1)"

lemma reader_Next_shorter:
  "reader_Next parse r = (Inr ev, r') \<Longrightarrow> reader_size r' < reader_size r"
  by (cases "(parse, r)" rule: reader_Next.cases)
    (auto split: prod.splits sum.splits dest: Next_shorter)

definition note_usage :: "StreamEvent \<Rightarrow> Outcome \<Rightarrow> Outcome" where
  "note_usage ev outcome = (case se_Usage ev of Some u \<Rightarrow> outcome\<lparr>o_Usage := u\<rparr> | None \<Rightarrow> outcome)"

definition skipped :: "ProviderRequest \<Rightarrow> StreamEvent \<Rightarrow> bool" where
  "skipped req ev \<longleftrightarrow> se_UsageOnly ev \<and> \<not> pq_WantsUsage req"

definition end_status :: "go_error \<Rightarrow> Status" where
  "end_status err =
     (if errors_Is err EOF then StatusOK
      else if errors_Is err ContextCanceled \<or> errors_Is err DeadlineExceeded then StatusClientDisconnect
      else StatusTruncated)"

function relay ::
  "(string \<Rightarrow> chunk option) \<Rightarrow> 'c client_ops \<Rightarrow> StreamReader \<Rightarrow> StreamEvent \<Rightarrow> ProviderRequest \<Rightarrow>
   Outcome \<Rightarrow> 'c \<Rightarrow> Outcome \<times> 'c" where
  "relay parse out reader ev req outcome c =
     (let outcome1 = note_usage ev outcome in
      case (if skipped req ev then (None, c) else co_Send out ev c) of
        (Some _, c1) \<Rightarrow> (outcome1\<lparr>o_Status := StatusClientDisconnect\<rparr>, c1)
      | (None, c1) \<Rightarrow>
          if se_Terminal ev then (outcome1\<lparr>o_Status := StatusOK\<rparr>, c1)
          else (case reader_Next parse reader of
                  (Inr ev', reader') \<Rightarrow> relay parse out reader' ev' req outcome1 c1
                | (Inl err, _) \<Rightarrow>
                    if end_status err = StatusTruncated
                    then (outcome1\<lparr>o_Status := StatusTruncated\<rparr>, snd (co_SendError out err c1))
                    else (outcome1\<lparr>o_Status := end_status err\<rparr>, c1)))"
  by pat_completeness auto
termination
  by (relation "measure (\<lambda>(_, _, r, _). reader_size r)") (auto dest: reader_Next_shorter [OF sym])

declare relay.simps [simp del]

definition tryTarget ::
  "('p, 'w) Dispatcher \<Rightarrow> 'c client_ops \<Rightarrow> 'p Target \<Rightarrow> ProviderRequest \<Rightarrow> Outcome \<Rightarrow> time \<Rightarrow> time \<Rightarrow>
   'w \<Rightarrow> 'c \<Rightarrow> (go_error + Outcome) \<times> 'w \<times> 'c" where
  "tryTarget d out target req outcome start attemptStart w c =
     (case di_stream d (tg_Provider target) (req\<lparr>pq_Model := tg_Model target\<rparr>) w of
        (Inl err, w1) \<Rightarrow> (Inl err, w1, c)
      | (Inr reader, w1) \<Rightarrow>
          (case reader_Next (di_parse d) reader of
             (Inl err, _) \<Rightarrow> (Inl err, w1, c)
           | (Inr first, reader') \<Rightarrow>
               (let (n1, w2) = di_now d w1;
                    (n2, w3) = di_now d w2;
                    outcome1 = outcome\<lparr>o_TTFTMs := msBetween start n1,
                      o_Attempts := o_Attempts outcome @
                        [\<lparr>at_Target = Target_String target, at_StartedAt = attemptStart,
                          at_DurationMs = msBetween attemptStart n2, at_Failure = None\<rparr>]\<rparr>
                in case co_Commit out c of
                     (Some _, c1) \<Rightarrow> (Inr (outcome1\<lparr>o_Status := StatusClientDisconnect\<rparr>), w3, c1)
                   | (None, c1) \<Rightarrow>
                       (let (outcome2, c2) = relay (di_parse d) out reader' first req outcome1 c1
                        in (Inr outcome2, w3, c2)))))"

fun run_ladder ::
  "('p, 'w) Dispatcher \<Rightarrow> 'c client_ops \<Rightarrow> ProviderRequest \<Rightarrow> time \<Rightarrow> 'p Target list \<Rightarrow> Outcome \<Rightarrow>
   'w \<Rightarrow> 'c \<Rightarrow> Outcome \<times> 'w \<times> 'c" where
  "run_ladder d out req start [] outcome w c = (outcome\<lparr>o_Status := StatusExhausted\<rparr>, w, c)"
| "run_ladder d out req start (target # ladder) outcome w c =
     (let (attemptStart, w1) = di_now d w in
      case tryTarget d out target req outcome start attemptStart w1 c of
        (Inr outcome1, w2, c1) \<Rightarrow> (outcome1, w2, c1)
      | (Inl err, w2, c1) \<Rightarrow>
          (let (a, w3) = failedAttempt d target attemptStart err w2;
               outcome1 = outcome\<lparr>o_Attempts := o_Attempts outcome @ [a]\<rparr>
           in if retryable err then run_ladder d out req start ladder outcome1 w3 c1
              else (outcome1\<lparr>o_Status := StatusExhausted\<rparr>, w3, c1)))"

definition zero_Outcome :: Outcome where
  "zero_Outcome = \<lparr>o_Status = '''', o_Attempts = [], o_Usage = zero_usage, o_TTFTMs = 0, o_TotalMs = 0\<rparr>"

definition Run ::
  "('p, 'w) Dispatcher \<Rightarrow> 'c client_ops \<Rightarrow> 'p Target list \<Rightarrow> ProviderRequest \<Rightarrow> 'w \<Rightarrow> 'c \<Rightarrow> Outcome \<times> 'w \<times> 'c" where
  "Run d out ladder req w c =
     (let (start, w1) = di_now d w;
          (outcome, w2, c1) = run_ladder d out req start ladder zero_Outcome w1 c;
          (n, w3) = di_now d w2
      in (outcome\<lparr>o_TotalMs := msBetween start n\<rparr>, w3, c1))"

datatype dispatch_invalid = DispatchNoStatus | DispatchExhaustedTTFT

definition dispatch_Validate :: "Outcome \<Rightarrow> dispatch_invalid option" where
  "dispatch_Validate out =
     (if o_Status out = '''' then Some DispatchNoStatus
      else if o_Status out = StatusExhausted \<and> o_TTFTMs out \<noteq> 0 then Some DispatchExhaustedTTFT
      else None)"

section \<open>Facts\<close>

lemma retryable_recorded: "af_Retryable (attempt_failure err) = retryable err"
  by (auto simp: attempt_failure_def retryable_def Let_def split: option.splits)

lemma end_status_cases: "end_status err = StatusOK \<or> end_status err = StatusClientDisconnect \<or> end_status err = StatusTruncated"
  by (simp add: end_status_def)

definition served_status :: "Status \<Rightarrow> bool" where
  "served_status s \<longleftrightarrow> s = StatusOK \<or> s = StatusClientDisconnect \<or> s = StatusTruncated"

lemma served_status_simps [simp]:
  "served_status StatusOK" "served_status StatusClientDisconnect" "served_status StatusTruncated"
  "\<not> served_status StatusExhausted" "\<not> served_status ''''" "served_status (end_status err)"
  using end_status_cases [of err] by (auto simp: served_status_def status_defs)

lemma note_usage_keeps [simp]:
  "o_Attempts (note_usage ev out) = o_Attempts out" "o_TTFTMs (note_usage ev out) = o_TTFTMs out"
  "o_TotalMs (note_usage ev out) = o_TotalMs out" "o_Status (note_usage ev out) = o_Status out"
  by (simp_all add: note_usage_def split: option.split)

text \<open>Relaying settles the status and the usage, and leaves the attempts alone.\<close>

lemma relay_keeps:
  "relay parse out reader ev req outcome c = (outcome', c') \<Longrightarrow>
   served_status (o_Status outcome') \<and> o_Attempts outcome' = o_Attempts outcome \<and> o_TTFTMs outcome' = o_TTFTMs outcome"
proof (induction parse out reader ev req outcome c arbitrary: outcome' c' rule: relay.induct)
  case (1 parse out reader ev req outcome c)
  obtain e c1 where s: "(if skipped req ev then (None, c) else co_Send out ev c) = (e, c1)" by fastforce
  obtain x r' where n: "reader_Next parse reader = (x, r')" by fastforce
  show ?case
  proof (cases "e = None \<and> \<not> se_Terminal ev \<and> \<not> (\<exists>err. x = Inl err)")
    case True
    then obtain ev' where x: "x = Inr ev'" by (cases x) auto
    have "relay parse out r' ev' req (note_usage ev outcome) c1 = (outcome', c')"
      using 1(2) True s n x by (simp add: relay.simps [of parse out reader] Let_def)
    from 1(1) [OF refl s [symmetric] _ _ n [symmetric] x this] True show ?thesis by simp
  next
    case False
    with 1(2) s n show ?thesis
      by (auto simp: relay.simps [of parse out reader] Let_def split: if_splits option.splits)
  qed
qed

text \<open>What one attempt can do: fail and leave the client alone, or commit and settle the outcome.\<close>

lemma tryTarget_fails:
  "tryTarget d out target req outcome start t0 w c = (Inl err, w', c') \<Longrightarrow> c' = c"
  by (auto simp: tryTarget_def Let_def split: prod.splits sum.splits option.splits)

definition opened :: "('p, 'w) Dispatcher \<Rightarrow> ProviderRequest \<Rightarrow> 'p Target \<Rightarrow> 'w \<Rightarrow> StreamEvent \<Rightarrow> StreamReader \<Rightarrow> bool" where
  "opened d req target w first reader \<longleftrightarrow>
     (\<exists>r0 w1. di_stream d (tg_Provider target) (req\<lparr>pq_Model := tg_Model target\<rparr>) w = (Inr r0, w1) \<and>
        reader_Next (di_parse d) r0 = (Inr first, reader))"

definition relayed :: "('p, 'w) Dispatcher \<Rightarrow> 'c client_ops \<Rightarrow> ProviderRequest \<Rightarrow> StreamEvent \<Rightarrow> StreamReader \<Rightarrow> 'c \<Rightarrow> 'c" where
  "relayed d out req first reader c =
     (case co_Commit out c of
        (Some _, c1) \<Rightarrow> c1
      | (None, c1) \<Rightarrow> snd (relay (di_parse d) out reader first req zero_Outcome c1))"

lemma relay_client: "snd (relay parse out reader ev req outcome c) = snd (relay parse out reader ev req outcome' c)"
proof (induction parse out reader ev req outcome c arbitrary: outcome' rule: relay.induct)
  case (1 parse out reader ev req outcome c)
  obtain e c1 where s: "(if skipped req ev then (None, c) else co_Send out ev c) = (e, c1)" by fastforce
  obtain x r' where n: "reader_Next parse reader = (x, r')" by fastforce
  show ?case
  proof (cases "e = None \<and> \<not> se_Terminal ev \<and> (\<exists>ev'. x = Inr ev')")
    case True
    then obtain ev' where x: "x = Inr ev'" by auto
    have "snd (relay parse out r' ev' req (note_usage ev outcome) c1) = snd (relay parse out r' ev' req (note_usage ev outcome') c1)"
      by (rule 1 [OF refl s [symmetric] _ _ n [symmetric] x]) (use True in simp_all)
    with True s n x show ?thesis
      by (simp only: relay.simps [of parse out reader]) (simp add: Let_def)
  next
    case False
    with s n show ?thesis
      by (cases e; cases x) (auto simp: relay.simps [of parse out reader] Let_def)
  qed
qed

lemma tryTarget_serves:
  assumes "tryTarget d out target req outcome start t0 w c = (Inr outcome', w', c')"
  shows "served_status (o_Status outcome') \<and>
    (\<exists>a. o_Attempts outcome' = o_Attempts outcome @ [a] \<and> at_Failure a = None \<and> at_Target a = Target_String target) \<and>
    (\<exists>first reader. opened d req target w first reader \<and> c' = relayed d out req first reader c)"
proof -
  obtain r0 w1 where st: "di_stream d (tg_Provider target) (req\<lparr>pq_Model := tg_Model target\<rparr>) w = (Inr r0, w1)"
    using assms by (auto simp: tryTarget_def split: prod.splits sum.splits)
  obtain first reader where nx: "reader_Next (di_parse d) r0 = (Inr first, reader)"
    using assms st by (auto simp: tryTarget_def split: prod.splits sum.splits)
  obtain n1 w2 n2 w3 where t: "di_now d w1 = (n1, w2)" "di_now d w2 = (n2, w3)" by fastforce
  obtain e c1 where cm: "co_Commit out c = (e, c1)" by fastforce
  have op: "opened d req target w first reader" using st nx by (auto simp: opened_def)
  show ?thesis
  proof (cases e)
    case None
    obtain o2 c2 where r: "relay (di_parse d) out reader first req
        (outcome\<lparr>o_TTFTMs := msBetween start n1, o_Attempts := o_Attempts outcome @
          [\<lparr>at_Target = Target_String target, at_StartedAt = t0, at_DurationMs = msBetween t0 n2, at_Failure = None\<rparr>]\<rparr>) c1
      = (o2, c2)" by fastforce
    have "outcome' = o2" "c' = c2" using assms st nx t cm None r by (simp_all add: tryTarget_def)
    moreover have "c2 = relayed d out req first reader c"
      using relay_client [of "di_parse d" out reader first req _ c1 zero_Outcome] r cm None
      by (simp add: relayed_def) (metis snd_conv)
    ultimately show ?thesis using relay_keeps [OF r] op by auto
  next
    case (Some err)
    with assms st nx t cm op show ?thesis by (auto simp: tryTarget_def relayed_def)
  qed
qed

definition failed_over :: "Attempt \<Rightarrow> bool" where
  "failed_over a \<longleftrightarrow> (case at_Failure a of Some f \<Rightarrow> af_Retryable f | None \<Rightarrow> False)"

definition exhausts :: "'p Target list \<Rightarrow> Attempt list \<Rightarrow> bool" where
  "exhausts ladder fs \<longleftrightarrow>
     map at_Target fs = map Target_String (take (length fs) ladder) \<and> length fs \<le> length ladder \<and>
     (\<forall>a \<in> set fs. at_Failure a \<noteq> None) \<and> (\<forall>a \<in> set (butlast fs). failed_over a) \<and>
     (length fs = length ladder \<or> fs \<noteq> [] \<and> \<not> failed_over (last fs))"

definition serves ::
  "('p, 'w) Dispatcher \<Rightarrow> 'c client_ops \<Rightarrow> ProviderRequest \<Rightarrow> 'p Target list \<Rightarrow> Attempt list \<Rightarrow> 'c \<Rightarrow> 'c \<Rightarrow> bool" where
  "serves d out req ladder attempts c c' \<longleftrightarrow>
     (\<exists>pre t post fs a w first reader.
        ladder = pre @ t # post \<and> attempts = fs @ [a] \<and>
        map at_Target fs = map Target_String pre \<and> (\<forall>f \<in> set fs. failed_over f) \<and>
        at_Failure a = None \<and> at_Target a = Target_String t \<and>
        opened d req t w first reader \<and> c' = relayed d out req first reader c)"

lemma serves_Cons:
  assumes "serves d out req ladder attempts c c'" "failed_over a" "at_Target a = Target_String t"
  shows "serves d out req (t # ladder) (a # attempts) c c'"
proof -
  from assms(1) obtain pre u post fs b w first reader where
    s: "ladder = pre @ u # post" "attempts = fs @ [b]" "map at_Target fs = map Target_String pre"
      "\<forall>f \<in> set fs. failed_over f" "at_Failure b = None" "at_Target b = Target_String u"
      "opened d req u w first reader" "c' = relayed d out req first reader c"
    unfolding serves_def by blast
  have "t # ladder = (t # pre) @ u # post" "a # attempts = (a # fs) @ [b]"
    "map at_Target (a # fs) = map Target_String (t # pre)" "\<forall>f \<in> set (a # fs). failed_over f"
    using s assms(2,3) by simp_all
  with s(5-8) show ?thesis unfolding serves_def by blast
qed

lemma exhausts_Cons:
  assumes "exhausts ladder fs" "failed_over a" "at_Target a = Target_String t" "at_Failure a \<noteq> None"
  shows "exhausts (t # ladder) (a # fs)"
  using assms by (cases fs) (auto simp: exhausts_def)

lemma run_ladder_result:
  assumes "run_ladder d out req start ladder outcome w c = (outcome', w', c')"
  shows "(o_Status outcome' = StatusExhausted \<and> o_TTFTMs outcome' = o_TTFTMs outcome \<and> c' = c \<and>
      (\<exists>fs. o_Attempts outcome' = o_Attempts outcome @ fs \<and> exhausts ladder fs)) \<or>
    (served_status (o_Status outcome') \<and>
      (\<exists>as. o_Attempts outcome' = o_Attempts outcome @ as \<and> serves d out req ladder as c c'))"
  using assms
proof (induction ladder arbitrary: outcome w)
  case Nil
  then show ?case by (auto simp: exhausts_def)
next
  case (Cons t ladder)
  obtain t0 w1 where n: "di_now d w = (t0, w1)" by fastforce
  obtain x w2 c1 where tr: "tryTarget d out t req outcome start t0 w1 c = (x, w2, c1)" by (metis prod_cases3)
  show ?case
  proof (cases x)
    case (Inr o1)
    then have eq: "outcome' = o1" "c' = c1" using Cons.prems n tr by simp_all
    from tryTarget_serves [OF tr [unfolded Inr]] obtain a first reader where
      "served_status (o_Status o1)" "o_Attempts o1 = o_Attempts outcome @ [a]"
      "at_Failure a = None" "at_Target a = Target_String t"
      "opened d req t w1 first reader" "c1 = relayed d out req first reader c" by blast
    moreover from this have "serves d out req (t # ladder) [a] c c'"
      unfolding serves_def eq by (intro exI [of _ "[]"] exI [of _ t] exI [of _ ladder] exI conjI) auto
    ultimately show ?thesis using eq by auto
  next
    case (Inl err)
    have c1: "c1 = c" using tryTarget_fails [OF tr [unfolded Inl]] .
    obtain a w3 where fa: "failedAttempt d t t0 err w2 = (a, w3)" by fastforce
    then have a: "at_Target a = Target_String t" "at_Failure a \<noteq> None" "failed_over a = retryable err"
      by (auto simp: failedAttempt_def failed_over_def retryable_recorded split: prod.splits)
    let ?o = "outcome\<lparr>o_Attempts := o_Attempts outcome @ [a]\<rparr>"
    show ?thesis
    proof (cases "retryable err")
      case True
      then have "run_ladder d out req start ladder ?o w3 c = (outcome', w', c')"
        using Cons.prems n tr Inl fa c1 by simp
      from Cons.IH [OF this] a True show ?thesis
        by (auto dest: exhausts_Cons [of ladder _ a t] serves_Cons [of d out req ladder _ c c' a t])
    next
      case False
      then have "outcome' = ?o\<lparr>o_Status := StatusExhausted\<rparr>" "c' = c"
        using Cons.prems n tr Inl fa c1 by simp_all
      with a False show ?thesis by (auto simp: exhausts_def)
    qed
  qed
qed

lemma Run_result:
  assumes "Run d out ladder req w c = (outcome, w', c')"
  shows "(o_Status outcome = StatusExhausted \<and> o_TTFTMs outcome = 0 \<and> c' = c \<and> exhausts ladder (o_Attempts outcome)) \<or>
    (served_status (o_Status outcome) \<and> serves d out req ladder (o_Attempts outcome) c c')"
proof -
  obtain t0 w1 where n: "di_now d w = (t0, w1)" by fastforce
  obtain o1 w2 c1 where r: "run_ladder d out req t0 ladder zero_Outcome w1 c = (o1, w2, c1)" by (metis prod_cases3)
  obtain t1 w3 where n1: "di_now d w2 = (t1, w3)" by fastforce
  have "outcome = o1\<lparr>o_TotalMs := msBetween t0 t1\<rparr>" "c' = c1" using assms n r n1 by (simp_all add: Run_def)
  with run_ladder_result [OF r] show ?thesis by (auto simp: zero_Outcome_def)
qed

lemma Target_String_nonempty [simp]: "Target_String t \<noteq> ''''"
  by (simp add: Target_String_def)

section \<open>What a live client receives\<close>

function reader_drain :: "(string \<Rightarrow> chunk option) \<Rightarrow> StreamReader \<Rightarrow> StreamEvent list \<times> go_error" where
  "reader_drain parse r =
     (case reader_Next parse r of
        (Inl err, _) \<Rightarrow> ([], err)
      | (Inr ev, r') \<Rightarrow> (let (evs, err) = reader_drain parse r' in (ev # evs, err)))"
  by pat_completeness auto
termination
  by (relation "measure (\<lambda>(_, r). reader_size r)") (auto dest: reader_Next_shorter [OF sym])

declare reader_drain.simps [simp del]

fun upto_terminal :: "StreamEvent list \<Rightarrow> StreamEvent list" where
  "upto_terminal [] = []"
| "upto_terminal (ev # evs) = ev # (if se_Terminal ev then [] else upto_terminal evs)"

definition relay_status :: "StreamEvent list \<Rightarrow> go_error \<Rightarrow> Status" where
  "relay_status evs err = (if list_ex se_Terminal evs then StatusOK else end_status err)"

definition forwarded :: "ProviderRequest \<Rightarrow> StreamEvent list \<Rightarrow> StreamEvent list" where
  "forwarded req evs = filter (\<lambda>ev. \<not> skipped req ev) (upto_terminal evs)"

text \<open>
  The contract of \<open>ports.ClientStream\<close> while the connection is up: \<open>Commit\<close> succeeds on a fresh
  stream, \<open>Send\<close> succeeds on a live one and appends the event's bytes to the response.
\<close>

locale client_stream =
  fixes out :: "'c client_ops" and unsent live :: "'c \<Rightarrow> bool" and body :: "'c \<Rightarrow> string"
    and wire :: "StreamEvent \<Rightarrow> string"
  assumes commit: "unsent c \<Longrightarrow> \<exists>c1. co_Commit out c = (None, c1) \<and> live c1 \<and> body c1 = body c"
    and send: "live c \<Longrightarrow> \<exists>c1. co_Send out ev c = (None, c1) \<and> live c1 \<and> body c1 = body c @ wire ev"
begin

lemma deliver:
  assumes "live c"
  obtains c1 where "(if skipped req ev then (None, c) else co_Send out ev c) = (None, c1)" "live c1"
    "body c1 = body c @ concat (map wire (filter (\<lambda>ev. \<not> skipped req ev) [ev]))"
  using assms send [OF assms, of ev] by (cases "skipped req ev") auto

text \<open>Everything up to the terminal event reaches the client, in order, and the last usage report wins.\<close>

lemma relay_delivers:
  assumes "live c" "reader_drain parse reader = (evs, err)"
    and "relay_status (ev # evs) err \<noteq> StatusTruncated"
  shows "\<exists>c'. relay parse out reader ev req outcome c =
      ((fold note_usage (upto_terminal (ev # evs)) outcome)\<lparr>o_Status := relay_status (ev # evs) err\<rparr>, c') \<and>
    body c' = body c @ concat (map wire (forwarded req (ev # evs)))"
  using assms
proof (induction evs arbitrary: reader ev outcome c)
  case Nil
  obtain c1 where d: "(if skipped req ev then (None, c) else co_Send out ev c) = (None, c1)"
    "body c1 = body c @ concat (map wire (filter (\<lambda>ev. \<not> skipped req ev) [ev]))"
    by (rule deliver [OF Nil.prems(1)])
  obtain r' where "reader_Next parse reader = (Inl err, r')"
    using Nil.prems(2) by (auto simp: reader_drain.simps [of parse reader] split: prod.splits sum.splits)
  with d Nil.prems(3) show ?case
    by (auto simp: relay.simps [of parse out reader] relay_status_def forwarded_def)
next
  case (Cons ev' evs)
  obtain c1 where d: "(if skipped req ev then (None, c) else co_Send out ev c) = (None, c1)" "live c1"
    "body c1 = body c @ concat (map wire (filter (\<lambda>ev. \<not> skipped req ev) [ev]))"
    by (rule deliver [OF Cons.prems(1)])
  obtain r' where n: "reader_Next parse reader = (Inr ev', r')" "reader_drain parse r' = (evs, err)"
    using Cons.prems(2) by (auto simp: reader_drain.simps [of parse reader] split: prod.splits sum.splits)
  show ?case
  proof (cases "se_Terminal ev")
    case True
    with d n show ?thesis by (simp add: relay.simps [of parse out reader] relay_status_def forwarded_def)
  next
    case False
    then have st: "relay_status (ev # ev' # evs) err = relay_status (ev' # evs) err" by (simp add: relay_status_def)
    from Cons.IH [OF d(2) n(2), of ev' "note_usage ev outcome"] Cons.prems(3) st
    obtain c' where "relay parse out r' ev' req (note_usage ev outcome) c1 =
        ((fold note_usage (upto_terminal (ev' # evs)) (note_usage ev outcome))\<lparr>o_Status := relay_status (ev' # evs) err\<rparr>, c')"
      "body c' = body c1 @ concat (map wire (forwarded req (ev' # evs)))" by auto
    with False d n st show ?thesis
      by (auto simp: relay.simps [of parse out reader] forwarded_def)
  qed
qed

lemma relayed_body:
  assumes "unsent c" "reader_drain (di_parse d) reader = (evs, err)"
    and "relay_status (first # evs) err \<noteq> StatusTruncated"
  shows "body (relayed d out req first reader c) = body c @ concat (map wire (forwarded req (first # evs)))"
proof -
  obtain c1 where c1: "co_Commit out c = (None, c1)" "live c1" "body c1 = body c" using commit [OF assms(1)] by blast
  from relay_delivers [OF c1(2) assms(2,3), of req zero_Outcome] c1 show ?thesis
    by (auto simp: relayed_def)
qed

end

text \<open>The events of a streaming reader are those of its decoder.\<close>

lemma reader_drain_sse:
  "reader_drain parse (SseReader d) = (map (\<lambda>ev. event_of parse (ev_Data ev)) (fst (drain d)), ErrIO (snd (drain d)))"
proof (induction d rule: drain.induct)
  case (1 d)
  obtain r d' where "Next d = (r, d')" by fastforce
  with 1 show ?case
    by (cases r) (simp_all add: reader_drain.simps [of parse "SseReader d"] drain.simps [of d] split: prod.split)
qed

text \<open>What every operation of the client keeps, the relay keeps.\<close>

lemma relay_invariant:
  assumes "\<And>ev c. I c \<Longrightarrow> I (snd (co_Send out ev c))" "\<And>e c. I c \<Longrightarrow> I (snd (co_SendError out e c))" "I c"
  shows "I (snd (relay parse out reader ev req outcome c))"
  using assms
proof (induction parse out reader ev req outcome c rule: relay.induct)
  case (1 parse out reader ev req outcome c)
  obtain e c1 where s: "(if skipped req ev then (None, c) else co_Send out ev c) = (e, c1)" by fastforce
  have c1: "I c1" using s 1(2) [of c ev] 1(4) by (auto split: if_splits)
  obtain x r' where n: "reader_Next parse reader = (x, r')" by fastforce
  show ?case
  proof (cases "e = None \<and> \<not> se_Terminal ev \<and> (\<exists>ev'. x = Inr ev')")
    case True
    then obtain ev' where x: "x = Inr ev'" by auto
    have "I (snd (relay parse out r' ev' req (note_usage ev outcome) c1))"
      by (rule 1(1) [OF refl s [symmetric] _ _ n [symmetric] x 1(2,3) c1]) (use True in simp_all)
    with True s n x show ?thesis by (simp only: relay.simps [of parse out reader]) simp
  next
    case False
    with s n c1 1(3) show ?thesis
      by (cases e; cases x) (auto simp: relay.simps [of parse out reader] Let_def)
  qed
qed

lemma Run_valid:
  "Outcome_Validate (fst (Run d out ladder req w c)) = None"
proof -
  obtain outcome w' c' where r: "Run d out ladder req w c = (outcome, w', c')" by (metis prod_cases3)
  from Run_result [OF r] show ?thesis
  proof
    assume "o_Status outcome = StatusExhausted \<and> o_TTFTMs outcome = 0 \<and> c' = c \<and> exhausts ladder (o_Attempts outcome)"
    with r show ?thesis
      by (auto simp: Outcome_Validate_def ChosenTarget_def exhausts_def status_defs Let_def)
  next
    assume "served_status (o_Status outcome) \<and> serves d out req ladder (o_Attempts outcome) c c'"
    with r show ?thesis
      by (auto simp: Outcome_Validate_def ChosenTarget_def serves_def served_status_def status_defs)
  qed
qed

section \<open>Properties\<close>

text \<open>
  C25. Every outcome the dispatcher returns satisfies \<open>Outcome.Validate\<close>, whatever the ladder, the
  upstreams and the client do: it has a status, an exhausted one has no first-token time and names
  no target, any other one ends in a successful attempt.
\<close>

theorem dispatch_outcome_valid:
  "Outcome_Validate (fst (Run d out ladder req w c)) = None"
  by (rule Run_valid)

text \<open>
  C30. A ladder that is exhausted leaves the client connection exactly as it was, so an error
  response can still be written; its attempts all failed, in ladder order, each but the last with a
  retryable failure, and they end early only at a failure that is not retryable.
\<close>

theorem exhausted_leaves_client:
  assumes "Run d out ladder req w c = (outcome, w', c')" "o_Status outcome = StatusExhausted"
  shows "c' = c \<and> exhausts ladder (o_Attempts outcome)"
  using Run_result [OF assms(1)] assms(2) by auto

text \<open>
  C6. The dispatcher commits to one target only: unless the ladder is exhausted, the targets before
  the chosen one failed with retryable failures, and the client saw \<open>Commit\<close> and the relay of that
  one target's stream, nothing before it and nothing after.
\<close>

theorem dispatch_commits_once:
  assumes "Run d out ladder req w c = (outcome, w', c')" "o_Status outcome \<noteq> StatusExhausted"
  shows "\<exists>pre t post failed a w1 first reader.
    ladder = pre @ t # post \<and> o_Attempts outcome = failed @ [a] \<and>
    map at_Target failed = map Target_String pre \<and> (\<forall>f \<in> set failed. failed_over f) \<and>
    at_Failure a = None \<and> ChosenTarget outcome = Target_String t \<and>
    opened d req t w1 first reader \<and> c' = relayed d out req first reader c"
proof -
  have "serves d out req ladder (o_Attempts outcome) c c'" using Run_result [OF assms(1)] assms(2) by auto
  then obtain pre t post fs a w1 first reader where
    s: "ladder = pre @ t # post" "o_Attempts outcome = fs @ [a]" "map at_Target fs = map Target_String pre"
      "\<forall>f \<in> set fs. failed_over f" "at_Failure a = None" "at_Target a = Target_String t"
      "opened d req t w1 first reader" "c' = relayed d out req first reader c"
    unfolding serves_def by blast
  moreover have "ChosenTarget outcome = Target_String t" using s(2,5,6) by (simp add: ChosenTarget_def)
  ultimately show ?thesis by blast
qed

text \<open>
  The ladder is left for the next target exactly when the answer may differ there: of the HTTP
  failures only 400, 401, 403 and 422 stop it.
\<close>

theorem classify_retry:
  "retryable (classify unmarshal_error provider status body) \<longleftrightarrow> status \<notin> {400, 401, 403, 422}"
  by (auto simp: classify_def retryable_def Let_def)

section \<open>Witnesses\<close>

text \<open>A clock that advances by one tick per reading, upstreams that are their own answers, a client that keeps a log.\<close>

definition tick_dispatcher :: "(go_error + StreamReader, int) Dispatcher" where
  "tick_dispatcher = \<lparr>di_now = (\<lambda>w. (w, w + 1)), di_stream = (\<lambda>p req w. (p, w)), di_parse = (\<lambda>_. None)\<rparr>"

definition log_client :: "string list client_ops" where
  "log_client = \<lparr>co_Commit = (\<lambda>c. (None, c @ [''commit''])), co_Send = (\<lambda>ev c. (None, c @ [se_Raw ev])),
     co_SendError = (\<lambda>e c. (None, c @ [Error_text e]))\<rparr>"

definition named_target :: "string \<Rightarrow> 'p \<Rightarrow> 'p Target" where
  "named_target n p = \<lparr>tg_Provider = p, tg_Model = ''m'', tg_Ref = \<lparr>tr_Name = n, tr_Provider = ''p'',
     tr_UpstreamModel = ''m'', tr_Region = ''''\<rparr>\<rparr>"

definition plain_request :: ProviderRequest where
  "plain_request = \<lparr>pq_Model = '''', pq_Body = ''{}'', pq_Stream = False, pq_WantsUsage = False\<rparr>"

definition refused :: "int \<Rightarrow> go_error + StreamReader" where
  "refused status = Inl (classify (\<lambda>_. None) ''p'' status ''no'')"

lemmas dispatch_eval = Run_def tryTarget_def tick_dispatcher_def log_client_def named_target_def plain_request_def
  refused_def classify_def retryable_def failedAttempt_def attempt_failure_def relay.simps note_usage_def skipped_def
  zero_Outcome_def Target_String_def Let_def

theorem exhausted_leaves_client_witness:
  "[] = ([] :: string list) \<and>
   exhausts [named_target ''a'' (refused 500), named_target ''b'' (refused 400), named_target ''c'' (refused 500)]
     (o_Attempts (fst (Run tick_dispatcher log_client
       [named_target ''a'' (refused 500), named_target ''b'' (refused 400), named_target ''c'' (refused 500)] plain_request 0 [])))"
  by (rule exhausted_leaves_client [where d = tick_dispatcher and out = log_client and c = "[]" and req = plain_request and w = 0
        and w' = "6"]) (simp_all add: dispatch_eval)

theorem dispatch_commits_once_witness:
  "\<exists>pre t post failed a w1 first reader.
    [named_target ''a'' (refused 500), named_target ''b'' (Inr (NonStreamReader ''hi'' False))] = pre @ t # post \<and>
    o_Attempts (fst (Run tick_dispatcher log_client
      [named_target ''a'' (refused 500), named_target ''b'' (Inr (NonStreamReader ''hi'' False))] plain_request 0 [])) = failed @ [a] \<and>
    map at_Target failed = map Target_String pre \<and> (\<forall>f \<in> set failed. failed_over f) \<and>
    at_Failure a = None \<and>
    ChosenTarget (fst (Run tick_dispatcher log_client
      [named_target ''a'' (refused 500), named_target ''b'' (Inr (NonStreamReader ''hi'' False))] plain_request 0 [])) = Target_String t \<and>
    opened tick_dispatcher plain_request t w1 first reader \<and>
    [''commit'', ''hi''] = relayed tick_dispatcher log_client plain_request first reader []"
  by (rule dispatch_commits_once [where w' = 7 and w = 0]) (simp_all add: dispatch_eval status_defs)



end
