(* ===== verification/Go_Strings.thy ===== *)
theory Go_Strings
  imports Prelude "HOL-Library.Sublist"
begin

text \<open>
  What the source uses of Go's \<open>strings\<close>, \<open>unicode/utf8\<close>, \<open>strconv\<close> and \<open>encoding\<close> packages, on
  strings as lists of bytes: trimming Unicode white space, counting runes, searching, splitting,
  decimal numbers, and the unpadded base 32 and base 64 encodings with their round trip.
\<close>

section \<open>Definitions\<close>

subsection \<open>Trimming and case\<close>

text \<open>The white space of \<open>unicode.IsSpace\<close>, as UTF-8 bytes.\<close>

definition space_runes :: "string list" where
  "space_runes =
     [[CHR 0x09], [CHR 0x0A], [CHR 0x0B], [CHR 0x0C], [CHR 0x0D], [CHR 0x20],
      [CHR 0xC2, CHR 0x85], [CHR 0xC2, CHR 0xA0], [CHR 0xE1, CHR 0x9A, CHR 0x80]] @
     map (\<lambda>b. [CHR 0xE2, CHR 0x80, b])
       [CHR 0x80, CHR 0x81, CHR 0x82, CHR 0x83, CHR 0x84, CHR 0x85, CHR 0x86, CHR 0x87, CHR 0x88,
        CHR 0x89, CHR 0x8A, CHR 0xA8, CHR 0xA9, CHR 0xAF] @
     [[CHR 0xE2, CHR 0x81, CHR 0x9F], [CHR 0xE3, CHR 0x80, CHR 0x80]]"

function trim_left :: "string list \<Rightarrow> string \<Rightarrow> string" where
  "trim_left runes s =
     (case List.find (\<lambda>r. r \<noteq> [] \<and> take (length r) s = r) runes of
        None \<Rightarrow> s
      | Some r \<Rightarrow> trim_left runes (drop (length r) s))"
  by pat_completeness auto
termination
proof (relation "measure (\<lambda>(_, s). length s)", simp)
  fix runes :: "string list" and s r :: string
  assume "List.find (\<lambda>r. r \<noteq> [] \<and> take (length r) s = r) runes = Some r"
  then have "r \<noteq> []" "take (length r) s = r" by (auto simp: find_Some_iff)
  then show "((runes, drop (length r) s), runes, s) \<in> measure (\<lambda>(_, s). length s)"
    by (cases s) auto
qed

declare trim_left.simps [simp del]

definition TrimSpace :: "string \<Rightarrow> string" where
  "TrimSpace s = rev (trim_left (map rev space_runes) (rev (trim_left space_runes s)))"

definition lower :: "char \<Rightarrow> char" where
  "lower c = (if CHR ''A'' \<le> c \<and> c \<le> CHR ''Z'' then char_of (of_char c + 32 :: nat) else c)"

definition ToLower :: "string \<Rightarrow> string" where
  "ToLower s = map lower s"

definition Contains :: "string \<Rightarrow> string \<Rightarrow> bool" where
  "Contains s sub = list_ex (\<lambda>t. take (length sub) t = sub) (suffixes s)"

fun Split :: "char \<Rightarrow> string \<Rightarrow> string list" where
  "Split sep [] = [[]]"
| "Split sep (c # cs) =
     (if c = sep then [] # Split sep cs
      else case Split sep cs of [] \<Rightarrow> [[c]] | seg # segs \<Rightarrow> (c # seg) # segs)"

fun Join :: "char \<Rightarrow> string list \<Rightarrow> string" where
  "Join sep [] = []"
| "Join sep [x] = x"
| "Join sep (x # xs) = x @ sep # Join sep xs"

subsection \<open>UTF-8\<close>

definition byte :: "char \<Rightarrow> nat" where
  "byte c = of_char c"

definition in_range :: "nat \<Rightarrow> nat \<Rightarrow> char \<Rightarrow> bool" where
  "in_range lo hi c \<longleftrightarrow> lo \<le> byte c \<and> byte c \<le> hi"

text \<open>The width of the first rune, or \<open>None\<close> for a byte that starts no valid encoding.\<close>

definition rune_width :: "string \<Rightarrow> nat option" where
  "rune_width s =
     (let cont = in_range 128 191 in
      case s of
        [] \<Rightarrow> None
      | a # r1 \<Rightarrow>
          if byte a < 128 then Some 1
          else (case r1 of
                  [] \<Rightarrow> None
                | b # r2 \<Rightarrow>
                    if in_range 194 223 a then (if cont b then Some 2 else None)
                    else (case r2 of
                            [] \<Rightarrow> None
                          | c # r3 \<Rightarrow>
                              if in_range 224 239 a then
                                (if (if byte a = 224 then in_range 160 191 b
                                     else if byte a = 237 then in_range 128 159 b else cont b) \<and> cont c
                                 then Some 3 else None)
                              else (case r3 of
                                      [] \<Rightarrow> None
                                    | d # _ \<Rightarrow>
                                        if in_range 240 244 a \<and>
                                           (if byte a = 240 then in_range 144 191 b
                                            else if byte a = 244 then in_range 128 143 b else cont b) \<and>
                                           cont c \<and> cont d
                                        then Some 4 else None))))"

lemma rune_width_pos: "rune_width s = Some n \<Longrightarrow> 0 < n"
  by (auto simp: rune_width_def Let_def split: list.splits if_splits)

text \<open>\<open>utf8.RuneCountInString\<close> counts a bad byte as one rune.\<close>

function RuneCount :: "string \<Rightarrow> nat" where
  "RuneCount [] = 0"
| "RuneCount (c # cs) = 1 + RuneCount (drop (case rune_width (c # cs) of None \<Rightarrow> 1 | Some n \<Rightarrow> n) (c # cs))"
  by pat_completeness auto
termination
  by (relation "measure length") (auto split: option.split dest: rune_width_pos)

function ValidUTF8 :: "string \<Rightarrow> bool" where
  "ValidUTF8 [] = True"
| "ValidUTF8 (c # cs) = (case rune_width (c # cs) of None \<Rightarrow> False | Some n \<Rightarrow> ValidUTF8 (drop n (c # cs)))"
  by pat_completeness auto
termination
  by (relation "measure length") (auto dest: rune_width_pos)

subsection \<open>Decimal numbers\<close>

definition is_digit :: "char \<Rightarrow> bool" where
  "is_digit c \<longleftrightarrow> in_range 48 57 c"

text \<open>\<open>strconv.ParseInt(s, 10, 64)\<close>.\<close>

definition ParseInt :: "string \<Rightarrow> int option" where
  "ParseInt s =
     (let (neg, ds) = (case s of [] \<Rightarrow> (False, []) | c # cs \<Rightarrow>
                         if c = CHR ''-'' then (True, cs) else if c = CHR ''+'' then (False, cs) else (False, s));
          n = int (digits_value (rev ds));
          v = (if neg then - n else n)
      in if ds = [] \<or> \<not> list_all is_digit ds \<or> \<not> in_i64 v then None else Some v)"

subsection \<open>Base 32 and base 64\<close>

fun bits_msb :: "nat \<Rightarrow> nat \<Rightarrow> bool list" where
  "bits_msb 0 n = []"
| "bits_msb (Suc k) n = odd (n div 2 ^ k) # bits_msb k n"

definition value_msb :: "bool list \<Rightarrow> nat" where
  "value_msb bs = foldl (\<lambda>n b. 2 * n + of_bool b) 0 bs"

function chunks :: "nat \<Rightarrow> bool list \<Rightarrow> bool list list" where
  "chunks k bs = (if k = 0 \<or> bs = [] then [] else take k bs # chunks k (drop k bs))"
  by pat_completeness auto
termination
  by (relation "measure (\<lambda>(_, bs). length bs)") auto

declare chunks.simps [simp del]

definition bytes_bits :: "string \<Rightarrow> bool list" where
  "bytes_bits s = concat (map (\<lambda>c. bits_msb 8 (byte c)) s)"

text \<open>Groups of \<open>k\<close> bits, the last one filled with zeros, each a letter of the alphabet; no padding.\<close>

definition encode_raw :: "nat \<Rightarrow> string \<Rightarrow> string \<Rightarrow> string" where
  "encode_raw k alphabet s =
     map (\<lambda>g. alphabet ! value_msb (g @ replicate (k - length g) False)) (chunks k (bytes_bits s))"

fun index_of :: "char \<Rightarrow> string \<Rightarrow> nat option" where
  "index_of c [] = None"
| "index_of c (x # xs) = (if x = c then Some 0 else map_option Suc (index_of c xs))"

text \<open>
  \<open>RawURLEncoding.DecodeString\<close>: line ends are skipped, any other byte outside the alphabet is an
  error, as is a last group too short to hold a byte; left-over bits are ignored.
\<close>

definition decode_raw :: "nat \<Rightarrow> string \<Rightarrow> string \<Rightarrow> string option" where
  "decode_raw k alphabet s0 =
     (let s = filter (\<lambda>c. c \<noteq> CHR 0x0A \<and> c \<noteq> CHR 0x0D) s0;
          is = map (\<lambda>c. index_of c alphabet) s;
          bs = concat (map (\<lambda>i. bits_msb k (the i)) is);
          whole = length bs div 8 * 8
      in if None \<in> set is \<or> length bs - whole \<ge> k then None
         else Some (map (\<lambda>g. char_of (value_msb g)) (chunks 8 (take whole bs))))"

definition base64url :: string where
  "base64url = ''ABCDEFGHIJKLMNOPQRSTUVWXYZabcdefghijklmnopqrstuvwxyz0123456789-_''"

section \<open>Facts\<close>

lemma Split_Join:
  assumes "xs \<noteq> []" "\<forall>x \<in> set xs. sep \<notin> set x"
  shows "Split sep (Join sep xs) = xs"
proof -
  have seg: "sep \<notin> set x \<Longrightarrow> Split sep x = [x]" for x and sep :: char by (induction x) auto
  have seg_more: "sep \<notin> set x \<Longrightarrow> Split sep (x @ sep # rest) = x # Split sep rest" for x rest and sep :: char
    by (induction x) auto
  from assms show ?thesis by (induction sep xs rule: Join.induct) (auto simp: seg seg_more)
qed

lemma digit_chars: "c \<in> set (digits_rev n) \<Longrightarrow> is_digit c"
proof (induction n rule: digits_rev.induct)
  case (1 n)
  then show ?case
    by (subst (asm) digits_rev.simps)
      (auto simp: is_digit_def in_range_def byte_def of_char_digit split: if_splits)
qed

lemma digits_rev_nonempty [simp]: "digits_rev n \<noteq> []"
  by (subst digits_rev.simps) simp

lemma ParseInt_FormatInt:
  assumes "in_i64 n"
  shows "ParseInt (FormatInt n) = Some n"
proof (cases "n < 0")
  case True
  then show ?thesis
    using assms by (auto simp: ParseInt_def FormatInt_def digits_rev_value list_all_iff dest: digit_chars)
next
  case False
  obtain c cs where ds: "rev (digits_rev (nat n)) = c # cs" by (cases "rev (digits_rev (nat n))") auto
  then have "c \<in> set (digits_rev (nat n))" by (metis list.set_intros(1) set_rev)
  then have c: "is_digit c" by (rule digit_chars)
  then have "c \<noteq> CHR ''-''" "c \<noteq> CHR ''+''" by (auto simp: is_digit_def in_range_def byte_def)
  moreover have "list_all is_digit (c # cs)" using ds digit_chars by (metis list_all_iff set_rev)
  moreover have "digits_value (rev (c # cs)) = nat n" using ds by (metis digits_rev_value rev_rev_ident)
  ultimately show ?thesis using assms False ds by (simp add: ParseInt_def FormatInt_def)
qed

text \<open>Bits\<close>

lemma length_bits_msb [simp]: "length (bits_msb k n) = k"
  by (induction k) simp_all

lemma value_msb_snoc: "value_msb (bs @ [b]) = 2 * value_msb bs + of_bool b"
  by (simp add: value_msb_def)

lemma value_msb_Cons: "value_msb (b # bs) = of_bool b * 2 ^ length bs + value_msb bs"
proof (induction bs rule: rev_induct)
  case Nil
  then show ?case by (simp add: value_msb_def)
next
  case (snoc x bs)
  then show ?case using value_msb_snoc [of "b # bs" x] by (simp add: value_msb_snoc)
qed

lemma value_msb_less: "value_msb bs < 2 ^ length bs"
proof (induction bs)
  case Nil
  then show ?case by (simp add: value_msb_def)
next
  case (Cons b bs)
  then show ?case by (cases b) (simp_all add: value_msb_Cons)
qed

lemma value_bits: "value_msb (bits_msb k n) = n mod 2 ^ k"
proof (induction k)
  case 0
  then show ?case by (simp add: value_msb_def)
next
  case (Suc k)
  have "n mod 2 ^ Suc k = 2 ^ k * (n div 2 ^ k mod 2) + n mod 2 ^ k"
    using mod_mult2_eq [of n "2 ^ k" 2] by (simp add: mult.commute)
  then show ?case using Suc by (simp add: value_msb_Cons mod_2_eq_odd mult.commute)
qed

lemma bits_value: "bits_msb (length bs) (value_msb bs) = bs"
proof (induction bs)
  case (Cons b bs)
  have drop_top: "bits_msb k (m + 2 ^ k * a) = bits_msb k m" for k m a
  proof (induction k arbitrary: a)
    case (Suc k)
    have "(m + 2 ^ Suc k * a) div 2 ^ k = m div 2 ^ k + 2 * a"
    proof -
      have "m + 2 ^ Suc k * a = m + 2 * a * 2 ^ k" by simp
      then show ?thesis by (simp only: div_mult_self1) simp
    qed
    then show ?case using Suc [of "2 * a"] by (simp add: mult.assoc mult.left_commute)
  qed simp
  have "(of_bool b * 2 ^ length bs + value_msb bs) div 2 ^ length bs = of_bool b"
    using value_msb_less [of bs] by (cases b) (simp_all add: div_add_self1)
  with Cons drop_top [of "length bs" "value_msb bs" "of_bool b"] show ?case
    by (simp add: value_msb_Cons add.commute mult.commute)
qed simp

lemma concat_chunks:
  assumes "0 < k"
  shows "\<exists>m < k. concat (map (\<lambda>g. g @ replicate (k - length g) False) (chunks k bs)) = bs @ replicate m False \<and>
    (\<forall>g \<in> set (chunks k bs). length g \<le> k)"
  using assms
proof (induction k bs rule: chunks.induct)
  case (1 k bs)
  show ?case
  proof (cases "length bs \<le> k")
    case True
    then have "chunks k bs = (if bs = [] then [] else [bs])"
      using 1(2) by (simp add: chunks.simps [of k bs] chunks.simps [of k "[]"])
    then show ?thesis using True 1(2) by (intro exI [of _ "if bs = [] then 0 else k - length bs"]) (cases bs; simp)
  next
    case False
    then have ne: "\<not> (k = 0 \<or> bs = [])" using 1(2) by auto
    obtain m where "m < k" "concat (map (\<lambda>g. g @ replicate (k - length g) False) (chunks k (drop k bs))) = drop k bs @ replicate m False"
      "\<forall>g \<in> set (chunks k (drop k bs)). length g \<le> k"
      using 1(1) [OF ne 1(2)] by blast
    with ne False show ?thesis by (intro exI [of _ m]) (simp add: chunks.simps [of k bs])
  qed
qed

lemma length_bytes_bits [simp]: "length (bytes_bits s) = 8 * length s"
  by (induction s) (simp_all add: bytes_bits_def)

lemma chunks_bytes: "chunks 8 (bytes_bits s) = map (\<lambda>c. bits_msb 8 (byte c)) s"
proof (induction s)
  case Nil
  then show ?case by (simp add: bytes_bits_def chunks.simps)
next
  case (Cons c s)
  have "bytes_bits (c # s) = bits_msb 8 (byte c) @ bytes_bits s" by (simp add: bytes_bits_def)
  with Cons show ?case by (subst chunks.simps) (auto dest: arg_cong [where f = length])
qed

lemma index_of_nth: "distinct xs \<Longrightarrow> i < length xs \<Longrightarrow> index_of (xs ! i) xs = Some i"
  by (induction xs arbitrary: i) (auto simp: nth_Cons split: nat.split)

text \<open>Unpadded encodings decode to what was encoded.\<close>

lemma decode_encode:
  assumes "0 < k" "k \<le> 8" "distinct alphabet" "length alphabet = 2 ^ k"
    and "CHR 0x0A \<notin> set alphabet" "CHR 0x0D \<notin> set alphabet"
  shows "decode_raw k alphabet (encode_raw k alphabet s) = Some s"
proof -
  let ?pad = "\<lambda>g. g @ replicate (k - length g) False"
  let ?gs = "chunks k (bytes_bits s)"
  obtain m where m: "m < k" "concat (map ?pad ?gs) = bytes_bits s @ replicate m False"
    "\<forall>g \<in> set ?gs. length g \<le> k"
    using concat_chunks [OF assms(1)] by blast
  have small: "value_msb (?pad g) < 2 ^ k" if "g \<in> set ?gs" for g
    using value_msb_less [of "?pad g"] m(3) that by auto
  have inalpha: "alphabet ! value_msb (?pad g) \<in> set alphabet" if "g \<in> set ?gs" for g
    using small [OF that] assms(4) by (intro nth_mem) simp
  have flt: "filter (\<lambda>c. c \<noteq> CHR 0x0A \<and> c \<noteq> CHR 0x0D) (encode_raw k alphabet s) = encode_raw k alphabet s"
    using inalpha assms(5,6) by (auto simp: encode_raw_def intro!: filter_True)
  have idx: "map (\<lambda>c. index_of c alphabet) (encode_raw k alphabet s) = map (\<lambda>g. Some (value_msb (?pad g))) ?gs"
    using small assms(3,4) by (auto simp: encode_raw_def intro: index_of_nth)
  have "map (\<lambda>i. bits_msb k (the i)) (map (\<lambda>g. Some (value_msb (?pad g))) ?gs) = map ?pad ?gs"
  proof -
    have "bits_msb k (value_msb (?pad g)) = ?pad g" if "g \<in> set ?gs" for g
      using bits_value [of "?pad g"] m(3) that by simp
    then show ?thesis by simp
  qed
  then have bs: "concat (map (\<lambda>i. bits_msb k (the i)) (map (\<lambda>c. index_of c alphabet) (encode_raw k alphabet s)))
      = bytes_bits s @ replicate m False"
    unfolding idx by (simp only: m(2))
  have whole: "(8 * length s + m) div 8 * 8 = 8 * length s" using m(1) assms(2) by simp
  have "map (\<lambda>g. char_of (value_msb g)) (chunks 8 (bytes_bits s)) = s"
    by (simp add: chunks_bytes comp_def value_bits byte_def)
  moreover have "None \<notin> set (map (\<lambda>c. index_of c alphabet) (encode_raw k alphabet s))" unfolding idx by auto
  ultimately show ?thesis
    unfolding decode_raw_def flt bs Let_def using m(1) whole by simp
qed

lemma base64url_alphabet:
  "distinct base64url" "length base64url = 2 ^ 6" "CHR 0x0A \<notin> set base64url" "CHR 0x0D \<notin> set base64url"
  by (simp_all add: base64url_def)

end
