(* ===== verification/Proxy_Api.thy ===== *)
theory Proxy_Api
  imports Dispatch Quota_Enforcer Go_Strings
begin

text \<open>
  The client side of the proxy, \<open>adapters/inbound/proxyapi\<close>: authentication middleware, fact
  extraction (\<open>extract.go\<close>), the client stream (\<open>client_stream.go\<close>), error responses
  (\<open>errors.go\<close>) and the completions handler (\<open>handler.go\<close>).

  A response writer is the status and headers sent, the body written so far and the failures the
  connection will report: \<open>rw_faults n\<close> is the error of the \<open>n\<close>-th write or flush. Decoding and
  encoding JSON (\<open>json_env\<close>), the float arithmetic behind \<open>Retry-After\<close> and the text of a breach
  are parameters. The router and the resolver are those of the routing component; the quota
  enforcer and the decision sink are the operations of their ports.
\<close>

section \<open>Definitions\<close>

subsection \<open>The response writer\<close>

type_synonym http_header = "string \<rightharpoonup> string"

record ResponseWriter =
  rw_header :: http_header
  rw_status :: "int option"
  rw_sent :: http_header
  rw_body :: string
  rw_ops :: nat
  rw_faults :: "nat \<Rightarrow> go_error option"

definition Header_Set :: "string \<Rightarrow> string \<Rightarrow> ResponseWriter \<Rightarrow> ResponseWriter" where
  "Header_Set k v w = w\<lparr>rw_header := (rw_header w)(k \<mapsto> v)\<rparr>"

text \<open>Only the first status counts, and the headers are those of that moment.\<close>

definition WriteHeader :: "int \<Rightarrow> ResponseWriter \<Rightarrow> ResponseWriter" where
  "WriteHeader status w =
     (if rw_status w = None then w\<lparr>rw_status := Some status, rw_sent := rw_header w\<rparr> else w)"

definition rw_op :: "ResponseWriter \<Rightarrow> go_error option \<times> ResponseWriter" where
  "rw_op w = (rw_faults w (rw_ops w), w\<lparr>rw_ops := rw_ops w + 1\<rparr>)"

text \<open>A write that fails delivers nothing; \<open>Write\<close> before \<open>WriteHeader\<close> sends a 200.\<close>

definition rw_Write :: "string \<Rightarrow> ResponseWriter \<Rightarrow> go_error option \<times> ResponseWriter" where
  "rw_Write bytes w =
     (case rw_op (WriteHeader 200 w) of
        (None, w') \<Rightarrow> (None, w'\<lparr>rw_body := rw_body w' @ bytes\<rparr>)
      | (Some err, w') \<Rightarrow> (Some err, w'))"

definition rw_Flush :: "ResponseWriter \<Rightarrow> go_error option \<times> ResponseWriter" where
  "rw_Flush w = rw_op (WriteHeader 200 w)"

subsection \<open>The client stream\<close>

record ClientStream =
  cs_w :: ResponseWriter
  cs_decisionID :: string
  cs_committed :: bool
  cs_stream :: bool

definition NewClientStream :: "ResponseWriter \<Rightarrow> string \<Rightarrow> bool \<Rightarrow> ClientStream" where
  "NewClientStream w did stream = \<lparr>cs_w = w, cs_decisionID = did, cs_committed = False, cs_stream = stream\<rparr>"

definition on_writer ::
  "(ResponseWriter \<Rightarrow> go_error option \<times> ResponseWriter) \<Rightarrow> ClientStream \<Rightarrow> go_error option \<times> ClientStream" where
  "on_writer f c = (case f (cs_w c) of (err, w) \<Rightarrow> (err, c\<lparr>cs_w := w\<rparr>))"

definition Commit :: "ClientStream \<Rightarrow> go_error option \<times> ClientStream" where
  "Commit c =
     (if cs_committed c then (Some (ErrText ''proxyapi: Commit called twice'' None), c)
      else
        let c1 = c\<lparr>cs_committed := True\<rparr>;
            w1 = (if cs_stream c1
                  then Header_Set ''X-Accel-Buffering'' ''no''
                         (Header_Set ''Connection'' ''keep-alive''
                           (Header_Set ''Cache-Control'' ''no-cache''
                             (Header_Set ''Content-Type'' ''text/event-stream'' (cs_w c1))))
                  else Header_Set ''Content-Type'' ''application/json'' (cs_w c1));
            w2 = Header_Set ''X-Go-Route-Decision-Id'' (cs_decisionID c1) w1
        in on_writer rw_Flush (c1\<lparr>cs_w := WriteHeader 200 w2\<rparr>))"

definition send_sse :: "string \<Rightarrow> ClientStream \<Rightarrow> go_error option \<times> ClientStream" where
  "send_sse data c =
     (case WriteEvent \<lparr>ev_Type = '''', ev_Data = data\<rparr> of
        Inl _ \<Rightarrow> (Some (ErrText ''sse: event type contains a line terminator'' None), c)
      | Inr bytes \<Rightarrow>
          (case on_writer (rw_Write bytes) c of
             (Some err, c1) \<Rightarrow> (Some err, c1)
           | (None, c1) \<Rightarrow> on_writer rw_Flush c1))"

definition Send :: "StreamEvent \<Rightarrow> ClientStream \<Rightarrow> go_error option \<times> ClientStream" where
  "Send ev c =
     (if \<not> cs_stream c then on_writer (rw_Write (se_Raw ev)) c
      else if \<not> cs_committed c then (Some (ErrText ''proxyapi: Send before Commit'' None), c)
      else send_sse (se_Raw ev) c)"

text \<open>\<open>encode_error message type code\<close> is the JSON of the error envelope.\<close>

type_synonym error_encoder = "string \<Rightarrow> string \<Rightarrow> string option \<Rightarrow> string"

definition SendError :: "error_encoder \<Rightarrow> go_error \<Rightarrow> ClientStream \<Rightarrow> go_error option \<times> ClientStream" where
  "SendError encode_error cause c =
     (if \<not> cs_committed c then (Some (ErrText ''proxyapi: SendError before Commit'' None), c)
      else send_sse (encode_error (''upstream stream ended unexpectedly: '' @ Error_text cause) ''upstream_error'' None) c)"

definition proxy_client :: "error_encoder \<Rightarrow> ClientStream client_ops" where
  "proxy_client encode_error = \<lparr>co_Commit = Commit, co_Send = Send, co_SendError = SendError encode_error\<rparr>"

subsection \<open>Fact extraction\<close>

text \<open>
  A \<open>json.RawMessage\<close> is its text, empty when the field is absent. The fields of \<open>json_env\<close> are
  \<open>json.Unmarshal\<close> at the shapes the package reads, \<open>None\<close> being an error.
\<close>

record completionProbe =
  cp_Model :: string
  cp_Stream :: bool
  cp_IncludeUsage :: "bool option"
  cp_Messages :: string
  cp_Tools :: string
  cp_MaxTokens :: string
  cp_MaxCompletionTokens :: string
  cp_N :: string

record probePart =
  pp_Type :: string
  pp_Text :: string

record json_env =
  je_probe :: "string \<Rightarrow> completionProbe option"
  je_messages :: "string \<Rightarrow> string list option"
  je_string :: "string \<Rightarrow> string option"
  je_parts :: "string \<Rightarrow> probePart list option"
  je_int :: "string \<Rightarrow> int option"

definition metaPrefix :: string where "metaPrefix = ''x-go-route-''"
definition tenantKey :: string where "tenantKey = ''tenant''"

fun count_parts :: "probePart list \<Rightarrow> PromptSize \<Rightarrow> PromptSize" where
  "count_parts [] sz = sz"
| "count_parts (p # ps) sz =
     count_parts ps
       (if pp_Type p = ''text'' then sz\<lparr>ps_TextBytes := i64 (ps_TextBytes sz + int (length (pp_Text p)))\<rparr>
        else sz\<lparr>ps_MediaParts := i64 (ps_MediaParts sz + 1)\<rparr>)"

definition count_content :: "json_env \<Rightarrow> string \<Rightarrow> PromptSize \<Rightarrow> PromptSize" where
  "count_content J content sz =
     (case je_string J content of
        Some text \<Rightarrow> sz\<lparr>ps_TextBytes := i64 (ps_TextBytes sz + int (length text))\<rparr>
      | None \<Rightarrow>
          (case je_parts J content of
             None \<Rightarrow> sz\<lparr>ps_TextBytes := i64 (ps_TextBytes sz + int (length content))\<rparr>
           | Some parts \<Rightarrow> count_parts parts sz))"

definition promptSize :: "json_env \<Rightarrow> string \<Rightarrow> string \<Rightarrow> PromptSize" where
  "promptSize J messages tools =
     (let zero = \<lparr>ps_TextBytes = 0, ps_Messages = 0, ps_MediaParts = 0\<rparr>;
          sz = (if length tools > 0 \<and> tools \<noteq> ''null''
                  then zero\<lparr>ps_TextBytes := i64 (int (length tools))\<rparr> else zero)
      in case je_messages J messages of
           None \<Rightarrow>
             if length messages > 0 \<and> messages \<noteq> ''null''
             then sz\<lparr>ps_TextBytes := i64 (ps_TextBytes sz + int (length messages))\<rparr> else sz
         | Some msgs \<Rightarrow> fold (count_content J) msgs (sz\<lparr>ps_Messages := int (length msgs)\<rparr>))"

fun firstPositive :: "json_env \<Rightarrow> string list \<Rightarrow> int" where
  "firstPositive J [] = 0"
| "firstPositive J (v # vals) =
     (case je_int J v of Some n \<Rightarrow> if n > 0 then n else firstPositive J vals | None \<Rightarrow> firstPositive J vals)"

type_synonym http_headers = "(string \<times> string list) list"

text \<open>The loop over the header map: the accepted keys, and the values they were last seen with.\<close>

fun collect_meta :: "http_headers \<Rightarrow> string list \<Rightarrow> (string \<rightharpoonup> string) \<Rightarrow> string list \<times> (string \<rightharpoonup> string)" where
  "collect_meta [] keys seens = (keys, seens)"
| "collect_meta ((name, vals) # h) keys seens =
     (case strip_prefix metaPrefix (ToLower name) of
        None \<Rightarrow> collect_meta h keys seens
      | Some key \<Rightarrow>
          if length vals = 0 \<or> key = '''' \<or> key = tenantKey then collect_meta h keys seens
          else collect_meta h (keys @ [key]) (seens(key \<mapsto> take (nat MaxMetadataLen) (vals ! 0))))"

definition extractMetadata :: "http_headers \<Rightarrow> (string \<rightharpoonup> string)" where
  "extractMetadata h =
     (let (keys, seens) = collect_meta h [] Map.empty;
          kept = take (nat MaxMetadataKeys) (sort keys)
      in foldl (\<lambda>md k. md(k := seens k)) Map.empty kept)"

datatype extract_error = MalformedJSON | MissingModel

definition ExtractFacts ::
  "json_env \<Rightarrow> http_headers \<Rightarrow> string \<Rightarrow> Tenant \<Rightarrow> time \<Rightarrow> extract_error + RequestFacts" where
  "ExtractFacts J header raw tenant now =
     (case je_probe J raw of
        None \<Rightarrow> Inl MalformedJSON
      | Some probe \<Rightarrow>
          if cp_Model probe = '''' then Inl MissingModel
          else Inr \<lparr>rf_Tenant = tenant, rf_KeyID = 0, rf_Metadata = extractMetadata header,
                    rf_RequestedModel = cp_Model probe, rf_Stream = cp_Stream probe,
                    rf_WantsUsage = (cp_IncludeUsage probe = Some True), rf_ReceivedAt = now,
                    rf_PromptSize = promptSize J (cp_Messages probe) (cp_Tools probe),
                    rf_MaxOutputTokens = firstPositive J [cp_MaxCompletionTokens probe, cp_MaxTokens probe],
                    rf_Choices = firstPositive J [cp_N probe]\<rparr>)"

subsection \<open>Authentication\<close>

record Identity =
  id_Tenant :: Tenant
  id_KeyID :: uuid
  id_Allowlist :: "string list option"

definition AllowsModel :: "Identity \<Rightarrow> string \<Rightarrow> bool" where
  "AllowsModel i alias = (case id_Allowlist i of None \<Rightarrow> True | Some models \<Rightarrow> alias \<in> set models)"

datatype auth_error =
    ErrNoCredentials
  | ErrUnknownKey
  | ErrKeyRevoked
  | ErrTenantDisabled string
  | ErrModelNotAllowed string
  | AuthUnavailable

definition bearerPrefix :: string where "bearerPrefix = ''bearer ''"

text \<open>None of the letters of the prefix has a case variant outside ASCII, so folding is \<open>ToLower\<close>.\<close>

definition bearerToken :: "string \<Rightarrow> string" where
  "bearerToken authorization =
     (let v = TrimSpace authorization in
      if length v < length bearerPrefix \<or> ToLower (take (length bearerPrefix) v) \<noteq> bearerPrefix then ''''
      else TrimSpace (drop (length bearerPrefix) v))"

subsection \<open>Error responses\<close>

definition writeError :: "error_encoder \<Rightarrow> int \<Rightarrow> string \<Rightarrow> string \<Rightarrow> ResponseWriter \<Rightarrow> ResponseWriter" where
  "writeError encode_error status message errType w =
     snd (rw_Write (encode_error message errType None @ [nl])
       (WriteHeader status (Header_Set ''Content-Type'' ''application/json'' w)))"

definition unauthorized :: "error_encoder \<Rightarrow> string \<Rightarrow> ResponseWriter \<Rightarrow> ResponseWriter" where
  "unauthorized encode_error message w =
     writeError encode_error 401 message ''authentication_error'' (Header_Set ''WWW-Authenticate'' ''Bearer'' w)"

fun writeAuthError :: "error_encoder \<Rightarrow> auth_error \<Rightarrow> ResponseWriter \<Rightarrow> ResponseWriter" where
  "writeAuthError enc ErrNoCredentials w =
     unauthorized enc ''missing api key: send it as Authorization: Bearer <key>'' w"
| "writeAuthError enc ErrUnknownKey w = unauthorized enc ''invalid api key'' w"
| "writeAuthError enc ErrKeyRevoked w = unauthorized enc ''invalid api key'' w"
| "writeAuthError enc (ErrTenantDisabled _) w = writeError enc 403 ''tenant is disabled'' ''permission_error'' w"
| "writeAuthError enc (ErrModelNotAllowed model) w =
     writeError enc 403 (''auth: model not allowed for this key: '' @ model) ''permission_error'' w"
| "writeAuthError enc AuthUnavailable w = writeError enc 503 ''authentication is unavailable'' ''internal_error'' w"

definition client_caused :: "int \<Rightarrow> bool" where
  "client_caused status \<longleftrightarrow> status = 400 \<or> status = 404 \<or> status = 413 \<or> status = 422"

definition statusFor :: "Outcome \<Rightarrow> int" where
  "statusFor out =
     (if length (o_Attempts out) = 0 then 503
      else case at_Failure (last (o_Attempts out)) of
             None \<Rightarrow> 500
           | Some f \<Rightarrow> if client_caused (af_StatusCode f) then af_StatusCode f else 502)"

definition lastMessage :: "Outcome \<Rightarrow> string" where
  "lastMessage out =
     (if length (o_Attempts out) = 0 then ''no upstream targets were available''
      else case at_Failure (last (o_Attempts out)) of
             None \<Rightarrow> ''upstream failed without a recorded reason''
           | Some f \<Rightarrow> if client_caused (af_StatusCode f) then af_Message f else ''all upstream targets failed'')"

text \<open>
  \<open>ceil_seconds\<close> is \<open>int64(math.Ceil(d.Seconds()))\<close> and \<open>breach_text\<close> is \<open>QuotaBreach.String\<close>, whose
  amounts are printed through floats. \<open>time.Duration(n) * time.Second\<close> wraps.
\<close>

record response_env =
  re_encode_error :: error_encoder
  re_ceil_seconds :: "duration \<Rightarrow> int"
  re_breach_text :: "QuotaBreach \<Rightarrow> string"
  re_uuid_str :: "uuid \<Rightarrow> string"

definition sdkRetryHorizon :: duration where "sdkRetryHorizon = 60000000000"

definition writeQuotaExceeded ::
  "response_env \<Rightarrow> DecisionID \<Rightarrow> QuotaBreach \<Rightarrow> time \<Rightarrow> ResponseWriter \<Rightarrow> ResponseWriter" where
  "writeQuotaExceeded R did b now w =
     (let retryAfter = max 1 (re_ceil_seconds R (time_Sub (ResetAt b) now));
          w1 = Header_Set ''Retry-After'' (FormatInt retryAfter) w;
          w2 = Header_Set ''X-Should-Retry''
                 (if i64 (retryAfter * 1000000000) \<le> sdkRetryHorizon then ''true'' else ''false'') w1;
          w3 = Header_Set ''X-Go-Route-Decision-Id'' (DecisionID_String (re_uuid_str R) did) w2;
          w4 = Header_Set ''Content-Type'' ''application/json'' w3
      in snd (rw_Write (re_encode_error R (''quota exceeded: '' @ re_breach_text R b) ''quota_exceeded''
                          (Some ''quota_exceeded'') @ [nl])
               (WriteHeader 429 w4)))"

subsection \<open>The handler\<close>

record http_Request =
  rq_Header :: http_headers
  rq_Body :: string
  rq_BodyErr :: "go_error option"

definition Header_Get :: "http_headers \<Rightarrow> string \<Rightarrow> string" where
  "Header_Get h key = (case map_of h key of Some (v # _) \<Rightarrow> v | _ \<Rightarrow> '''')"

definition maxBodyBytes :: int where "maxBodyBytes = 20971520"

definition read_body :: "http_Request \<Rightarrow> string option" where
  "read_body r = (if rq_BodyErr r \<noteq> None \<or> int (length (rq_Body r)) > maxBodyBytes then None else Some (rq_Body r))"

record ('p, 'w, 'q, 's) Handler =
  ha_router :: Routing_Table
  ha_resolver :: "(string \<times> 'p) list"
  ha_dispatcher :: "('p, 'w) Dispatcher"
  ha_Record :: "RoutingDecision \<Rightarrow> 's \<Rightarrow> 's"
  ha_Reserve :: "QuotaRequest \<Rightarrow> 'q \<Rightarrow> (quota_refusal + Reservation) \<times> 'q"
  ha_Reconcile :: "Reservation \<Rightarrow> Outcome \<Rightarrow> 'q \<Rightarrow> 'q"
  ha_now :: "'w \<Rightarrow> time \<times> 'w"
  ha_NewDecisionID :: "'w \<Rightarrow> DecisionID \<times> 'w"
  ha_json :: json_env
  ha_resp :: response_env
  ha_route_text :: "routing_error \<Rightarrow> string"
  ha_extract_text :: "extract_error \<Rightarrow> string"

record ('w, 'q, 's) proxy =
  px_world :: 'w
  px_quota :: 'q
  px_sink :: 's

text \<open>The enforcer of a deployment without a quota store.\<close>

definition unlimited_Reserve :: "QuotaRequest \<Rightarrow> 'q \<Rightarrow> (quota_refusal + Reservation) \<times> 'q" where
  "unlimited_Reserve req q = (Inr zero_Reservation, q)"

definition unlimited_Reconcile :: "Reservation \<Rightarrow> Outcome \<Rightarrow> 'q \<Rightarrow> 'q" where
  "unlimited_Reconcile res outcome q = q"

definition targetNames :: "Ladder \<Rightarrow> string list" where
  "targetNames l = map tr_Name (la_Targets l)"

definition quota_request :: "RequestFacts \<Rightarrow> Ladder \<Rightarrow> time \<Rightarrow> QuotaRequest" where
  "quota_request facts ladder now =
     \<lparr>qr_Tenant = rf_Tenant facts, qr_At = now, qr_Prompt = rf_PromptSize facts,
      qr_MaxOutputTokens = rf_MaxOutputTokens facts, qr_Choices = rf_Choices facts,
      qr_Targets = targetNames ladder\<rparr>"

text \<open>
  \<open>Completions\<close> once the request is routed: reserve, dispatch, answer, record, reconcile. The
  deferred \<open>Reconcile\<close> runs after the decision is recorded.
\<close>

definition serve_routed ::
  "('p, 'w, 'q, 's) Handler \<Rightarrow> DecisionID \<Rightarrow> time \<Rightarrow> string \<Rightarrow> RequestFacts \<Rightarrow> Ladder \<Rightarrow> 'p Target list \<Rightarrow>
   ('w, 'q, 's) proxy \<Rightarrow> ResponseWriter \<Rightarrow> ('w, 'q, 's) proxy \<times> ResponseWriter" where
  "serve_routed H did now raw facts ladder targets px w =
     (let enc = re_encode_error (ha_resp H) in
      case ha_Reserve H (quota_request facts ladder now) (px_quota px) of
        (Inl (QuotaExceededError breach), q1) \<Rightarrow>
          (px\<lparr>px_quota := q1, px_sink := ha_Record H (NewRoutingDecision did facts ladder
             (zero_Outcome\<lparr>o_Status := StatusPolicyBlocked\<rparr>)) (px_sink px)\<rparr>,
           writeQuotaExceeded (ha_resp H) did breach now w)
      | (Inl (ErrQuotaUnavailable _), q1) \<Rightarrow>
          (px\<lparr>px_quota := q1\<rparr>, writeError enc 503 ''quota enforcement is unavailable'' ''internal_error'' w)
      | (Inr reservation, q1) \<Rightarrow>
          (let out = NewClientStream w (DecisionID_String (re_uuid_str (ha_resp H)) did) (rf_Stream facts);
               preq = \<lparr>pq_Model = '''', pq_Body = raw, pq_Stream = rf_Stream facts, pq_WantsUsage = rf_WantsUsage facts\<rparr>;
               (outcome, world1, out1) = Run (ha_dispatcher H) (proxy_client enc) targets preq (px_world px) out;
               w1 = (if o_Status outcome = StatusExhausted
                     then writeError enc (statusFor outcome) (lastMessage outcome) ''upstream_error'' (cs_w out1)
                     else cs_w out1)
           in (px\<lparr>px_world := world1, px_sink := ha_Record H (NewRoutingDecision did facts ladder outcome) (px_sink px),
                  px_quota := ha_Reconcile H reservation outcome q1\<rparr>, w1)))"

definition Completions ::
  "('p, 'w, 'q, 's) Handler \<Rightarrow> Identity option \<Rightarrow> http_Request \<Rightarrow>
   ('w, 'q, 's) proxy \<Rightarrow> ResponseWriter \<Rightarrow> ('w, 'q, 's) proxy \<times> ResponseWriter" where
  "Completions H ctx_identity r px0 w =
     (let (now, world1) = ha_now H (px_world px0);
          (did, world2) = ha_NewDecisionID H world1;
          px = px0\<lparr>px_world := world2\<rparr>;
          enc = re_encode_error (ha_resp H)
      in case ctx_identity of
           None \<Rightarrow> (px, writeAuthError enc ErrNoCredentials w)
         | Some identity \<Rightarrow>
             (case read_body r of
                None \<Rightarrow> (px, writeError enc 413 ''request body too large'' ''invalid_request_error'' w)
              | Some raw \<Rightarrow>
                  (case ExtractFacts (ha_json H) (rq_Header r) raw (id_Tenant identity) now of
                     Inl err \<Rightarrow> (px, writeError enc 400 (ha_extract_text H err) ''invalid_request_error'' w)
                   | Inr facts0 \<Rightarrow>
                       (let facts = facts0\<lparr>rf_KeyID := id_KeyID identity\<rparr> in
                        if \<not> AllowsModel identity (rf_RequestedModel facts)
                        then (px, writeAuthError enc (ErrModelNotAllowed (rf_RequestedModel facts)) w)
                        else case Route (ha_router H) facts of
                               Inl err \<Rightarrow> (px, writeError enc 400 (ha_route_text H err) ''invalid_request_error'' w)
                             | Inr ladder \<Rightarrow>
                                 (case Resolve (ha_resolver H) ladder of
                                    Inl err \<Rightarrow>
                                      (px, writeError enc 500 ''routing misconfiguration'' ''internal_error'' w)
                                  | Inr targets \<Rightarrow> serve_routed H did now raw facts ladder targets px w)))))"

text \<open>The middleware in front of it: the identity comes from the credential alone.\<close>

definition authenticated_Completions ::
  "(string \<Rightarrow> 'a \<Rightarrow> (auth_error + Identity) \<times> 'a) \<Rightarrow> ('p, 'w, 'q, 's) Handler \<Rightarrow> http_Request \<Rightarrow>
   'a \<Rightarrow> ('w, 'q, 's) proxy \<Rightarrow> ResponseWriter \<Rightarrow> 'a \<times> ('w, 'q, 's) proxy \<times> ResponseWriter" where
  "authenticated_Completions Authenticate H r db px w =
     (case Authenticate (bearerToken (Header_Get (rq_Header r) ''Authorization'')) db of
        (Inl err, db1) \<Rightarrow> (db1, px, writeAuthError (re_encode_error (ha_resp H)) err w)
      | (Inr identity, db1) \<Rightarrow> (db1, Completions H (Some identity) r px w))"

section \<open>Facts\<close>

definition no_faults :: "ClientStream \<Rightarrow> bool" where
  "no_faults c \<longleftrightarrow> rw_faults (cs_w c) = (\<lambda>_. None)"

definition wire_of :: "bool \<Rightarrow> StreamEvent \<Rightarrow> string" where
  "wire_of stream ev = (if stream then projr (WriteEvent \<lparr>ev_Type = '''', ev_Data = se_Raw ev\<rparr>) else se_Raw ev)"

lemmas writer_defs = on_writer_def rw_Flush_def rw_Write_def rw_op_def WriteHeader_def Header_Set_def

lemma WriteEvent_untyped: "WriteEvent \<lparr>ev_Type = '''', ev_Data = data\<rparr> =
    Inr (concat (map (\<lambda>seg. ''data: '' @ seg @ [nl]) (split_nl data)) @ [nl])"
  by (simp add: WriteEvent_def)

text \<open>The proxy's client stream keeps the contract of the dispatcher while the connection is up.\<close>

interpretation proxy_stream: client_stream "proxy_client enc"
  "\<lambda>c. \<not> cs_committed c \<and> cs_stream c = stream \<and> no_faults c"
  "\<lambda>c. cs_committed c \<and> cs_stream c = stream \<and> no_faults c"
  "\<lambda>c. rw_body (cs_w c)" "wire_of stream" for enc stream
  by unfold_locales
    (auto simp: proxy_client_def Commit_def Send_def send_sse_def WriteEvent_untyped wire_of_def
      no_faults_def writer_defs Let_def)

text \<open>A committed response has been answered with 200, whatever is sent afterwards.\<close>

definition answered :: "ClientStream \<Rightarrow> bool" where
  "answered c \<longleftrightarrow> rw_status (cs_w c) = Some 200"

lemma answered_keeps:
  "answered c \<Longrightarrow> answered (snd (Send ev c))" "answered c \<Longrightarrow> answered (snd (SendError enc e c))"
  by (auto simp: answered_def Send_def SendError_def send_sse_def writer_defs split: sum.splits option.splits prod.splits)

lemma Commit_answers:
  "rw_status (cs_w c) = None \<Longrightarrow> \<not> cs_committed c \<Longrightarrow> answered (snd (Commit c))"
  by (auto simp: answered_def Commit_def writer_defs Let_def)

lemma relayed_answers:
  assumes "rw_status (cs_w c) = None" "\<not> cs_committed c"
  shows "answered (relayed d (proxy_client enc) req first reader c)"
proof -
  have "answered (snd (Commit c))" using Commit_answers [OF assms] .
  then show ?thesis
    using relay_invariant [where I = answered and out = "proxy_client enc"]
    by (auto simp: relayed_def proxy_client_def answered_keeps split: prod.split option.split)
qed

lemma serves_answers:
  assumes "serves d (proxy_client enc) req ladder as c c'" "rw_status (cs_w c) = None" "\<not> cs_committed c"
  shows "answered c'"
  using assms relayed_answers unfolding serves_def by blast

lemma writeError_status: "rw_status w = None \<Longrightarrow> rw_status (writeError enc status msg typ w) = Some status"
  by (auto simp: writeError_def writer_defs split: option.splits prod.splits)

lemma writeQuotaExceeded_status: "rw_status w = None \<Longrightarrow> rw_status (writeQuotaExceeded R did b now w) = Some 429"
  by (auto simp: writeQuotaExceeded_def writer_defs Let_def split: option.splits prod.splits)

fun auth_status :: "auth_error \<Rightarrow> int" where
  "auth_status ErrNoCredentials = 401"
| "auth_status ErrUnknownKey = 401"
| "auth_status ErrKeyRevoked = 401"
| "auth_status (ErrTenantDisabled _) = 403"
| "auth_status (ErrModelNotAllowed _) = 403"
| "auth_status AuthUnavailable = 503"

lemma writeAuthError_status: "rw_status w = None \<Longrightarrow> rw_status (writeAuthError enc err w) = Some (auth_status err)"
  by (cases err) (auto simp: unauthorized_def writeError_status Header_Set_def)

declare writeAuthError.simps [simp del]

section \<open>Metadata\<close>

lemma collect_meta_seen:
  assumes "collect_meta h keys seens = (keys', seens')" "\<forall>k \<in> set keys. k \<noteq> tenantKey"
    and "\<forall>k v. seens k = Some v \<longrightarrow> length v \<le> nat MaxMetadataLen"
  shows "(\<forall>k \<in> set keys'. k \<noteq> tenantKey) \<and> (\<forall>k v. seens' k = Some v \<longrightarrow> length v \<le> nat MaxMetadataLen)"
  using assms
proof (induction h keys seens rule: collect_meta.induct)
  case (2 name vals h keys seens)
  show ?case
  proof (cases "strip_prefix metaPrefix (ToLower name)")
    case None
    with 2(4) have "collect_meta h keys seens = (keys', seens')" by simp
    from 2(1) [OF None this 2(5,6)] show ?thesis .
  next
    case (Some key)
    show ?thesis
    proof (cases "length vals = 0 \<or> key = '''' \<or> key = tenantKey")
      case True
      with 2(4) Some have "collect_meta h keys seens = (keys', seens')" by simp
      from 2(2) [OF Some True this 2(5,6)] show ?thesis .
    next
      case False
      with 2(4) Some have "collect_meta h (keys @ [key]) (seens(key \<mapsto> take (nat MaxMetadataLen) (vals ! 0))) = (keys', seens')"
        by simp
      then show ?thesis
      proof (rule 2(3) [OF Some False])
        show "\<forall>k \<in> set (keys @ [key]). k \<noteq> tenantKey" using 2(5) False by auto
        show "\<forall>k v. (seens(key \<mapsto> take (nat MaxMetadataLen) (vals ! 0))) k = Some v \<longrightarrow> length v \<le> nat MaxMetadataLen"
          using 2(6) by (metis fun_upd_apply length_take min.cobounded2 option.inject)
      qed
    qed
  qed
qed simp

lemma foldl_upd:
  "foldl (\<lambda>md k. md(k := f k)) m ks = (\<lambda>k. if k \<in> set ks then f k else m k)"
  by (induction ks arbitrary: m) (auto simp: fun_eq_iff)

lemma extractMetadata_bounds:
  shows "card (dom (extractMetadata h)) \<le> nat MaxMetadataKeys"
    and "extractMetadata h tenantKey = None"
    and "extractMetadata h k = Some v \<Longrightarrow> length v \<le> nat MaxMetadataLen"
proof -
  obtain keys seens where c: "collect_meta h [] Map.empty = (keys, seens)" by fastforce
  let ?kept = "take (nat MaxMetadataKeys) (sort keys)"
  have md: "extractMetadata h = (\<lambda>k. if k \<in> set ?kept then seens k else None)"
    by (simp add: extractMetadata_def c foldl_upd)
  have "dom (extractMetadata h) \<subseteq> set ?kept" unfolding md by (auto split: if_splits)
  then have "card (dom (extractMetadata h)) \<le> card (set ?kept)" by (rule card_mono [rotated]) simp
  also have "\<dots> \<le> nat MaxMetadataKeys" using card_length [of ?kept] by simp
  finally show "card (dom (extractMetadata h)) \<le> nat MaxMetadataKeys" .
  note seen = collect_meta_seen [OF c]
  have "set ?kept \<subseteq> set keys" using set_take_subset [of "nat MaxMetadataKeys" "sort keys"] by simp
  then show "extractMetadata h tenantKey = None" using seen unfolding md by auto
  show "extractMetadata h k = Some v \<Longrightarrow> length v \<le> nat MaxMetadataLen"
    using seen unfolding md by (auto split: if_splits)
qed

section \<open>The request path\<close>

definition admitted ::
  "('p, 'w, 'q, 's) Handler \<Rightarrow> Identity \<Rightarrow> http_Request \<Rightarrow> time \<Rightarrow> string \<Rightarrow> RequestFacts \<Rightarrow> Ladder \<Rightarrow> 'p Target list \<Rightarrow> bool" where
  "admitted H identity r now raw facts ladder targets \<longleftrightarrow>
     read_body r = Some raw \<and>
     (\<exists>facts0. ExtractFacts (ha_json H) (rq_Header r) raw (id_Tenant identity) now = Inr facts0 \<and>
        facts = facts0\<lparr>rf_KeyID := id_KeyID identity\<rparr>) \<and>
     AllowsModel identity (rf_RequestedModel facts) \<and> Route (ha_router H) facts = Inr ladder \<and>
     Resolve (ha_resolver H) ladder = Inr targets"

text \<open>A request is either refused early, without touching quota or sink, or admitted and served.\<close>

lemma Completions_cases:
  assumes "Completions H ctx r px w = (px', w')" "rw_status w = None"
  obtains (refused) "px_quota px' = px_quota px" "px_sink px' = px_sink px"
      "rw_status w' \<in> {Some 400, Some 401, Some 403, Some 413, Some 500}"
  | (admitted) identity now did world raw facts ladder targets where
      "ctx = Some identity" "admitted H identity r now raw facts ladder targets"
      "serve_routed H did now raw facts ladder targets (px\<lparr>px_world := world\<rparr>) w = (px', w')"
proof -
  obtain now w1 where n: "ha_now H (px_world px) = (now, w1)" by fastforce
  obtain did w2 where i: "ha_NewDecisionID H w1 = (did, w2)" by fastforce
  note st = writeError_status [OF assms(2)] writeAuthError_status [OF assms(2)]
  show thesis
  proof (cases ctx)
    case None
    with assms(1) n i st refused show thesis by (auto simp: Completions_def)
  next
    case identity: (Some identity)
    show thesis
    proof (cases "read_body r")
      case None
      with assms(1) n i st identity refused show thesis by (auto simp: Completions_def)
    next
      case raw: (Some raw)
      show thesis
      proof (cases "ExtractFacts (ha_json H) (rq_Header r) raw (id_Tenant identity) now")
        case (Inl err)
        with assms(1) n i st identity raw refused show thesis by (auto simp: Completions_def)
      next
        case facts: (Inr facts0)
        let ?facts = "facts0\<lparr>rf_KeyID := id_KeyID identity\<rparr>"
        show thesis
        proof (cases "\<exists>ladder targets. AllowsModel identity (rf_RequestedModel ?facts) \<and>
            Route (ha_router H) ?facts = Inr ladder \<and> Resolve (ha_resolver H) ladder = Inr targets")
          case True
          then obtain ladder targets where "AllowsModel identity (rf_RequestedModel ?facts)"
            "Route (ha_router H) ?facts = Inr ladder" "Resolve (ha_resolver H) ladder = Inr targets" by blast
          with assms(1) n i identity raw facts show thesis
            by (intro admitted [of identity now raw ?facts ladder targets did w2])
              (auto simp: Completions_def admitted_def)
        next
          case False
          with assms(1) n i st identity raw facts refused show thesis
            by (auto simp: Completions_def Let_def split: if_splits sum.splits)
        qed
      qed
    qed
  qed
qed

lemma serve_routed_cases:
  assumes "serve_routed H did now raw facts ladder targets px w = (px', w')"
  obtains (exceeded) breach q1 where
      "ha_Reserve H (quota_request facts ladder now) (px_quota px) = (Inl (QuotaExceededError breach), q1)"
      "px' = px\<lparr>px_quota := q1, px_sink := ha_Record H (NewRoutingDecision did facts ladder
             (zero_Outcome\<lparr>o_Status := StatusPolicyBlocked\<rparr>)) (px_sink px)\<rparr>"
      "w' = writeQuotaExceeded (ha_resp H) did breach now w"
  | (unavailable) cause q1 where
      "ha_Reserve H (quota_request facts ladder now) (px_quota px) = (Inl (ErrQuotaUnavailable cause), q1)"
      "px' = px\<lparr>px_quota := q1\<rparr>"
      "w' = writeError (re_encode_error (ha_resp H)) 503 ''quota enforcement is unavailable'' ''internal_error'' w"
  | (dispatched) reservation q1 preq outcome world1 out out1 where
      "ha_Reserve H (quota_request facts ladder now) (px_quota px) = (Inr reservation, q1)"
      "out = NewClientStream w (DecisionID_String (re_uuid_str (ha_resp H)) did) (rf_Stream facts)"
      "Run (ha_dispatcher H) (proxy_client (re_encode_error (ha_resp H))) targets preq (px_world px) out = (outcome, world1, out1)"
      "px' = px\<lparr>px_world := world1, px_sink := ha_Record H (NewRoutingDecision did facts ladder outcome) (px_sink px),
                  px_quota := ha_Reconcile H reservation outcome q1\<rparr>"
      "w' = (if o_Status outcome = StatusExhausted
             then writeError (re_encode_error (ha_resp H)) (statusFor outcome) (lastMessage outcome) ''upstream_error'' (cs_w out1)
             else cs_w out1)"
proof -
  obtain x q1 where rs: "ha_Reserve H (quota_request facts ladder now) (px_quota px) = (x, q1)" by fastforce
  show thesis
  proof (cases x)
    case (Inl e)
    with assms rs exceeded unavailable show thesis by (cases e) (auto simp: serve_routed_def)
  next
    case (Inr reservation)
    let ?out = "NewClientStream w (DecisionID_String (re_uuid_str (ha_resp H)) did) (rf_Stream facts)"
    let ?preq = "\<lparr>pq_Model = '''', pq_Body = raw, pq_Stream = rf_Stream facts, pq_WantsUsage = rf_WantsUsage facts\<rparr>"
    obtain outcome world1 out1 where
      "Run (ha_dispatcher H) (proxy_client (re_encode_error (ha_resp H))) targets ?preq (px_world px) ?out = (outcome, world1, out1)"
      by (metis prod_cases3)
    with assms rs Inr show thesis by (intro dispatched) (auto simp: serve_routed_def Let_def)
  qed
qed

lemma statusFor_range: "statusFor outcome \<in> {400, 404, 413, 422, 500, 502, 503}"
  by (auto simp: statusFor_def client_caused_def split: option.split)

lemma serve_routed_status:
  assumes "serve_routed H did now raw facts ladder targets px w = (px', w')" "rw_status w = None"
  shows "rw_status w' \<in> Some ` {200, 400, 404, 413, 422, 429, 500, 502, 503}"
  using assms(1)
proof (cases rule: serve_routed_cases)
  case (exceeded breach q1)
  then show ?thesis using writeQuotaExceeded_status [OF assms(2)] by simp
next
  case (unavailable cause q1)
  then show ?thesis using writeError_status [OF assms(2)] by simp
next
  case (dispatched reservation q1 preq outcome world1 out out1)
  have out: "rw_status (cs_w out) = None" "\<not> cs_committed out"
    using dispatched(2) assms(2) by (simp_all add: NewClientStream_def)
  from Run_result [OF dispatched(3)] show ?thesis
  proof
    assume ex: "o_Status outcome = StatusExhausted \<and> o_TTFTMs outcome = 0 \<and> out1 = out \<and>
      exhausts targets (o_Attempts outcome)"
    then have "rw_status w' = Some (statusFor outcome)"
      using dispatched(5) out(1) by (simp add: writeError_status)
    then show ?thesis using statusFor_range [of outcome] by auto
  next
    assume sv: "served_status (o_Status outcome) \<and> serves (ha_dispatcher H)
      (proxy_client (re_encode_error (ha_resp H))) preq targets (o_Attempts outcome) out out1"
    then have "answered out1" using serves_answers out by blast
    moreover have "w' = cs_w out1" using sv dispatched(5) by auto
    ultimately show ?thesis by (simp add: answered_def)
  qed
qed

section \<open>Relaying\<close>

definition untyped :: "StreamEvent \<Rightarrow> Event" where
  "untyped ev = \<lparr>ev_Type = '''', ev_Data = se_Raw ev\<rparr>"

lemma event_of_Raw [simp]: "se_Raw (event_of parse data) = data"
  by (simp add: event_of_def split: option.split)

lemma upto_terminal_subset: "set (upto_terminal evs) \<subseteq> set evs"
  by (induction evs) auto

lemma wire_safe_untyped: "wire_safe defaultMaxLine ev \<Longrightarrow> wire_safe defaultMaxLine (ev\<lparr>ev_Type := ''''\<rparr>)"
  by (simp add: wire_safe_def line_fits_def event_line_def defaultMaxLine_def)

text \<open>What the dispatcher writes downstream, a client's decoder reads back.\<close>

lemma forwarded_roundtrip:
  assumes "\<forall>ev \<in> set evs. wire_safe defaultMaxLine ev"
    and "body = concat (map (wire_of True) (forwarded req (map (\<lambda>ev. event_of parse (ev_Data ev)) evs)))"
  shows "drain (NewDecoder body EOF) =
    (map untyped (forwarded req (map (\<lambda>ev. event_of parse (ev_Data ev)) evs)), EOF)"
proof (rule drain_written)
  let ?evs = "map untyped (forwarded req (map (\<lambda>ev. event_of parse (ev_Data ev)) evs))"
  have "\<exists>ev \<in> set evs. e = ev\<lparr>ev_Type := ''''\<rparr>" if "e \<in> set ?evs" for e
  proof -
    from that obtain s where "s \<in> set (upto_terminal (map (\<lambda>ev. event_of parse (ev_Data ev)) evs))" "e = untyped s"
      by (auto simp: forwarded_def)
    then have "s \<in> set (map (\<lambda>ev. event_of parse (ev_Data ev)) evs)" using upto_terminal_subset by blast
    with \<open>e = untyped s\<close> obtain ev where "ev \<in> set evs" "e = untyped (event_of parse (ev_Data ev))" by auto
    then show ?thesis by (intro bexI [of _ ev]) (cases ev, simp_all add: untyped_def)
  qed
  then show "\<forall>e \<in> set ?evs. wire_safe (de_maxLine (NewDecoder body EOF)) e \<and> is_ok (WriteEvent e)"
    using assms(1) wire_safe_untyped by (fastforce simp: NewDecoder_def WriteEvent_def)
  show "de_in (NewDecoder body EOF) = concat (map (\<lambda>ev. projr (WriteEvent ev)) ?evs)"
    by (simp add: NewDecoder_def assms(2) wire_of_def [abs_def] untyped_def comp_def)
qed (simp_all add: NewDecoder_def fresh_def)

lemma tryTarget_relays:
  assumes "di_stream d (tg_Provider t) (req\<lparr>pq_Model := tg_Model t\<rparr>) w = (Inr reader, w1)"
    and "reader_drain (di_parse d) reader = (ev # evs, err)" "relay_status (ev # evs) err \<noteq> StatusTruncated"
    and "\<not> cs_committed c" "cs_stream c" "no_faults c"
  obtains o1 w2 c' where "tryTarget d (proxy_client enc) t req outcome start t0 w c = (Inr o1, w2, c')"
    "o_Status o1 = relay_status (ev # evs) err"
    "rw_body (cs_w c') = rw_body (cs_w c) @ concat (map (wire_of True) (forwarded req (ev # evs)))"
proof -
  obtain reader' where n: "reader_Next (di_parse d) reader = (Inr ev, reader')" "reader_drain (di_parse d) reader' = (evs, err)"
    using assms(2) by (auto simp: reader_drain.simps [of _ reader] split: prod.splits sum.splits)
  obtain c1 where c1: "Commit c = (None, c1)" "cs_committed c1" "cs_stream c1 = True" "no_faults c1"
    "rw_body (cs_w c1) = rw_body (cs_w c)"
    using proxy_stream.commit [of c True] assms(4-6) by (auto simp: proxy_client_def)
  obtain n1 w2 n2 w3 where t: "di_now d w1 = (n1, w2)" "di_now d w2 = (n2, w3)" by fastforce
  let ?o = "outcome\<lparr>o_TTFTMs := msBetween start n1, o_Attempts := o_Attempts outcome @
    [\<lparr>at_Target = Target_String t, at_StartedAt = t0, at_DurationMs = msBetween t0 n2, at_Failure = None\<rparr>]\<rparr>"
  obtain o2 c' where r: "relay (di_parse d) (proxy_client enc) reader' ev req ?o c1 = (o2, c')"
    "o_Status o2 = relay_status (ev # evs) err"
    "rw_body (cs_w c') = rw_body (cs_w c1) @ concat (map (wire_of True) (forwarded req (ev # evs)))"
    using proxy_stream.relay_delivers [of c1 True, OF _ n(2) assms(3), of enc req ?o] c1 by auto
  have "co_Commit (proxy_client enc) c = (None, c1)" using c1(1) by (simp add: proxy_client_def)
  then have "tryTarget d (proxy_client enc) t req outcome start t0 w c = (Inr o2, w3, c')"
    using assms(1) n(1) t r(1) by (simp add: tryTarget_def)
  with r c1(5) show thesis by (intro that) simp_all
qed

section \<open>Properties\<close>


text \<open>
  C24. Spend is attributed to the credential and to nothing the client says: a request adds at most
  one decision to the log, and that decision carries the tenant and key of the authenticated
  identity and a model the key's allowlist permits.
\<close>

theorem decision_attributed:
  assumes "Completions H ctx r px w = (px', w')" "rw_status w = None" "ha_Record H = (\<lambda>d log. log @ [d])"
  shows "px_sink px' = px_sink px \<or>
    (\<exists>identity d. ctx = Some identity \<and> px_sink px' = px_sink px @ [d] \<and> rd_Tenant d = id_Tenant identity \<and>
       rd_KeyID d = id_KeyID identity \<and> AllowsModel identity (rs_RequestedModel (rd_Request d)))"
  using assms(1,2)
proof (cases rule: Completions_cases)
  case refused
  then show ?thesis by simp
next
  case (admitted identity now did world raw facts ladder targets)
  have facts: "rf_Tenant facts = id_Tenant identity" "rf_KeyID facts = id_KeyID identity"
    "AllowsModel identity (rf_RequestedModel facts)"
    using admitted(2) by (auto simp: admitted_def ExtractFacts_def split: option.splits if_splits)
  from admitted(3) show ?thesis
    by (cases rule: serve_routed_cases)
      (use admitted(1) facts assms(3) in \<open>auto simp: NewRoutingDecision_def\<close>)
qed

text \<open>
  C3. Every reservation is settled: a request either leaves the quota state alone, or ends in the
  state of a refused \<open>Reserve\<close>, or in the state of a granted one followed by exactly one
  \<open>Reconcile\<close> of that reservation with a valid outcome.
\<close>

theorem reservation_settled:
  assumes "Completions H ctx r px w = (px', w')" "rw_status w = None"
  shows "px_quota px' = px_quota px \<or>
    (\<exists>req. (\<exists>refusal. ha_Reserve H req (px_quota px) = (Inl refusal, px_quota px')) \<or>
       (\<exists>reservation outcome q. ha_Reserve H req (px_quota px) = (Inr reservation, q) \<and>
          Outcome_Validate outcome = None \<and> px_quota px' = ha_Reconcile H reservation outcome q))"
  using assms
proof (cases rule: Completions_cases)
  case refused
  then show ?thesis by simp
next
  case (admitted identity now did world raw facts ladder targets)
  from admitted(3) show ?thesis
  proof (cases rule: serve_routed_cases)
    case (exceeded breach q1)
    then show ?thesis by auto
  next
    case (unavailable cause q1)
    then show ?thesis by auto
  next
    case (dispatched reservation q1 preq outcome world1 out out1)
    have "Outcome_Validate outcome = None"
      using Run_valid [of "ha_dispatcher H"] dispatched(3) by (metis fst_conv)
    moreover have "px_quota px' = ha_Reconcile H reservation outcome q1" using dispatched(4) by simp
    moreover have "ha_Reserve H (quota_request facts ladder now) (px_quota px) = (Inr reservation, q1)"
      using dispatched(1) by simp
    ultimately show ?thesis by blast
  qed
qed


text \<open>
  C2. The proxy is transparent: when the first target of the ladder streams well-formed events and
  closes cleanly, the request succeeds on that target and a client decoding the response reads
  exactly the data of those events, in order, up to the terminal one and without the usage-only
  chunk it did not ask for.
\<close>

theorem proxy_relays_stream:
  assumes "\<forall>ev \<in> set evs. wire_safe defaultMaxLine ev \<and> is_ok (WriteEvent ev)" "evs \<noteq> []"
    and "\<And>w. fst (di_stream d (tg_Provider t) (req\<lparr>pq_Model := tg_Model t\<rparr>) w) =
       Inr (SseReader (NewDecoder (concat (map (\<lambda>ev. projr (WriteEvent ev)) evs)) EOF))"
    and "\<not> cs_committed c" "cs_stream c" "no_faults c" "rw_body (cs_w c) = []"
    and "Run d (proxy_client enc) (t # rest) req w c = (outcome, w', c')"
  shows "o_Status outcome = StatusOK \<and> ChosenTarget outcome = Target_String t \<and>
    drain (NewDecoder (rw_body (cs_w c')) EOF) =
      (map untyped (forwarded req (map (\<lambda>ev. event_of (di_parse d) (ev_Data ev)) evs)), EOF)"
proof -
  let ?in = "NewDecoder (concat (map (\<lambda>ev. projr (WriteEvent ev)) evs)) EOF"
  let ?evs = "map (\<lambda>ev. event_of (di_parse d) (ev_Data ev)) evs"
  have "drain ?in = (evs, EOF)"
    using assms(1) by (intro drain_written) (simp_all add: NewDecoder_def fresh_def)
  then have rd: "reader_drain (di_parse d) (SseReader ?in) = (hd ?evs # tl ?evs, ErrIO EOF)"
    using assms(2) by (simp add: reader_drain_sse)
  have st: "relay_status (hd ?evs # tl ?evs) (ErrIO EOF) = StatusOK" by (simp add: relay_status_def end_status_def)
  obtain t0 w0 t1 w1 where n: "di_now d w = (t0, w0)" "di_now d w0 = (t1, w1)" by fastforce
  obtain w2 where ds: "di_stream d (tg_Provider t) (req\<lparr>pq_Model := tg_Model t\<rparr>) w1 = (Inr (SseReader ?in), w2)"
    using assms(3) [of w1] by (metis prod.collapse)
  obtain o1 w3 c1 where tr: "tryTarget d (proxy_client enc) t req zero_Outcome t0 t1 w1 c = (Inr o1, w3, c1)"
    "o_Status o1 = StatusOK"
    "rw_body (cs_w c1) = rw_body (cs_w c) @ concat (map (wire_of True) (forwarded req (hd ?evs # tl ?evs)))"
    by (rule tryTarget_relays [OF ds rd _ assms(4-6)]) (use st in \<open>auto simp: status_defs\<close>)
  obtain t2 w4 where n2: "di_now d w3 = (t2, w4)" by fastforce
  have out: "outcome = o1\<lparr>o_TotalMs := msBetween t0 t2\<rparr>" "c' = c1"
    using assms(8) n n2 tr(1) by (simp_all add: Run_def)
  have "\<exists>a. o_Attempts o1 = [a] \<and> at_Failure a = None \<and> at_Target a = Target_String t"
    using tryTarget_serves [OF tr(1)] by (simp add: zero_Outcome_def)
  then have "ChosenTarget outcome = Target_String t" using out(1) by (auto simp: ChosenTarget_def)
  moreover have "drain (NewDecoder (rw_body (cs_w c1)) EOF) = (map untyped (forwarded req ?evs), EOF)"
    using tr(3) assms(1,2,7) by (intro forwarded_roundtrip) simp_all
  ultimately show ?thesis using out tr(2) by simp
qed

section \<open>Witnesses\<close>

definition fresh_writer :: ResponseWriter where
  "fresh_writer = \<lparr>rw_header = Map.empty, rw_status = None, rw_sent = Map.empty, rw_body = [], rw_ops = 0,
     rw_faults = (\<lambda>_. None)\<rparr>"

definition plain_encoder :: error_encoder where
  "plain_encoder msg typ code = msg"

definition plain_json :: json_env where
  "plain_json = \<lparr>je_probe = (\<lambda>raw. Some \<lparr>cp_Model = raw, cp_Stream = False, cp_IncludeUsage = None, cp_Messages = '''',
       cp_Tools = '''', cp_MaxTokens = '''', cp_MaxCompletionTokens = '''', cp_N = ''''\<rparr>),
     je_messages = (\<lambda>_. None), je_string = (\<lambda>_. None), je_parts = (\<lambda>_. None), je_int = (\<lambda>_. None)\<rparr>"

definition plain_resp :: response_env where
  "plain_resp = \<lparr>re_encode_error = plain_encoder, re_ceil_seconds = (\<lambda>d. d div 1000000000), re_breach_text = (\<lambda>_. ''''),
     re_uuid_str = (\<lambda>_. '''')\<rparr>"

definition one_ladder :: Ladder where
  "one_ladder = \<lparr>la_Targets = [tg_Ref (named_target ''t'' ())], la_Reason = zero_Reason\<rparr>"

definition plain_handler :: "(go_error + StreamReader, int, nat, RoutingDecision list) Handler" where
  "plain_handler = \<lparr>ha_router = \<lparr>rt_ladders = [(''m'', one_ladder)], rt_aliases = ''m''\<rparr>,
     ha_resolver = [(''p'', Inr (NonStreamReader ''hi'' False))], ha_dispatcher = tick_dispatcher,
     ha_Record = (\<lambda>d log. log @ [d]), ha_Reserve = unlimited_Reserve, ha_Reconcile = unlimited_Reconcile,
     ha_now = (\<lambda>w. (w, w + 1)), ha_NewDecisionID = (\<lambda>w. (7, w + 1)), ha_json = plain_json, ha_resp = plain_resp,
     ha_route_text = (\<lambda>_. ''''), ha_extract_text = (\<lambda>_. '''')\<rparr>"

definition some_identity :: Identity where
  "some_identity = \<lparr>id_Tenant = ''acme'', id_KeyID = 9, id_Allowlist = Some [''m'']\<rparr>"

definition some_request :: http_Request where
  "some_request = \<lparr>rq_Header = [(''X-Go-Route-Team'', [''search'']), (''X-Go-Route-Tenant'', [''other''])],
     rq_Body = ''m'', rq_BodyErr = None\<rparr>"

definition idle_proxy :: "(int, nat, RoutingDecision list) proxy" where
  "idle_proxy = \<lparr>px_world = 0, px_quota = 0, px_sink = []\<rparr>"


theorem decision_attributed_witness:
  "px_sink (fst (Completions plain_handler (Some some_identity) some_request idle_proxy fresh_writer)) = px_sink idle_proxy \<or>
    (\<exists>identity d. Some some_identity = Some identity \<and>
       px_sink (fst (Completions plain_handler (Some some_identity) some_request idle_proxy fresh_writer)) = px_sink idle_proxy @ [d] \<and>
       rd_Tenant d = id_Tenant identity \<and>
       rd_KeyID d = id_KeyID identity \<and> AllowsModel identity (rs_RequestedModel (rd_Request d)))"
  by (rule decision_attributed [OF prod.collapse [symmetric]]) (simp_all add: fresh_writer_def plain_handler_def)

theorem reservation_settled_witness:
  "px_quota (fst (Completions plain_handler (Some some_identity) some_request idle_proxy fresh_writer)) = px_quota idle_proxy \<or>
    (\<exists>req. (\<exists>refusal. ha_Reserve plain_handler req (px_quota idle_proxy) = (Inl refusal,
         px_quota (fst (Completions plain_handler (Some some_identity) some_request idle_proxy fresh_writer)))) \<or>
       (\<exists>reservation outcome q. ha_Reserve plain_handler req (px_quota idle_proxy) = (Inr reservation, q) \<and>
          Outcome_Validate outcome = None \<and>
          px_quota (fst (Completions plain_handler (Some some_identity) some_request idle_proxy fresh_writer)) =
            ha_Reconcile plain_handler reservation outcome q))"
  by (rule reservation_settled [OF prod.collapse [symmetric]]) (simp add: fresh_writer_def)


definition two_events :: "Event list" where
  "two_events = [\<lparr>ev_Type = '''', ev_Data = ''x''\<rparr>, \<lparr>ev_Type = '''', ev_Data = doneSentinel\<rparr>]"

definition streaming_target :: "(go_error + StreamReader) Target" where
  "streaming_target = named_target ''t''
     (Inr (SseReader (NewDecoder (concat (map (\<lambda>ev. projr (WriteEvent ev)) two_events)) EOF)))"

theorem proxy_relays_stream_witness:
  "o_Status (fst (Run tick_dispatcher (proxy_client plain_encoder) [streaming_target] plain_request 0 (NewClientStream fresh_writer '''' True))) = StatusOK \<and>
   ChosenTarget (fst (Run tick_dispatcher (proxy_client plain_encoder) [streaming_target] plain_request 0 (NewClientStream fresh_writer '''' True))) =
     Target_String streaming_target \<and>
   drain (NewDecoder (rw_body (cs_w (snd (snd (Run tick_dispatcher (proxy_client plain_encoder) [streaming_target] plain_request 0
       (NewClientStream fresh_writer '''' True)))))) EOF) =
     (map untyped (forwarded plain_request (map (\<lambda>ev. event_of (di_parse tick_dispatcher) (ev_Data ev)) two_events)), EOF)"
  by (rule proxy_relays_stream [where rest = "[]" and c = "NewClientStream fresh_writer '''' True"
        and w' = "fst (snd (Run tick_dispatcher (proxy_client plain_encoder) [streaming_target] plain_request 0 (NewClientStream fresh_writer '''' True)))"])
    (simp_all add: two_events_def wire_safe_def line_fits_def data_line_def event_line_def defaultMaxLine_def doneSentinel_def
      WriteEvent_def tick_dispatcher_def streaming_target_def named_target_def NewClientStream_def no_faults_def fresh_writer_def)

end
