(* ===== verification/Decision_Sink.thy ===== *)
theory Decision_Sink
  imports Decisions "HOL-Library.Sublist"
begin

text \<open>
  The buffered decision sink, \<open>adapters/outbound/sink/buffered.go\<close>: request goroutines put
  decisions on a bounded channel, one goroutine batches them and hands the batches to the writer.

  \<open>Record\<close> first loads the \<open>closed\<close> flag and then sends, and \<open>Flush\<close> first stores the flag and then
  closes the channel, with no lock around either; the steps are therefore separate
  (\<open>Record_check\<close>, \<open>Record_send\<close>, \<open>Flush_stop\<close>, \<open>Flush_close\<close>) and \<open>sink_step\<close> interleaves them
  freely with the loop's receive, tick and drain. Sending on a closed channel panics, also inside a
  \<open>select\<close> with a default: \<open>bu_panicked\<close>. The writer is an operation on a state of type \<open>'s\<close>; its
  result is whether it failed.
\<close>

section \<open>Definitions\<close>

record sink_Config =
  sc_BufferSize :: int
  sc_BatchSize :: int
  sc_FlushInterval :: duration
  sc_WriteTimeout :: duration

record Buffered =
  bu_ch :: "RoutingDecision list"
  bu_cfg :: sink_Config
  bu_dropped :: int
  bu_failed :: int
  bu_written :: int
  bu_done :: bool
  bu_closed :: bool
  bu_ch_closed :: bool
  bu_batch :: "RoutingDecision list"
  bu_senders :: "RoutingDecision list"
  bu_panicked :: bool

definition NewBuffered :: "sink_Config \<Rightarrow> Buffered" where
  "NewBuffered cfg =
     (let c1 = (if sc_BufferSize cfg \<le> 0 then cfg\<lparr>sc_BufferSize := 4096\<rparr> else cfg);
          c2 = (if sc_BatchSize c1 \<le> 0 then c1\<lparr>sc_BatchSize := 100\<rparr> else c1);
          c3 = (if sc_FlushInterval c2 \<le> 0 then c2\<lparr>sc_FlushInterval := 1000000000\<rparr> else c2);
          c4 = (if sc_WriteTimeout c3 \<le> 0 then c3\<lparr>sc_WriteTimeout := 10000000000\<rparr> else c3)
      in \<lparr>bu_ch = [], bu_cfg = c4, bu_dropped = 0, bu_failed = 0, bu_written = 0, bu_done = False,
          bu_closed = False, bu_ch_closed = False, bu_batch = [], bu_senders = [], bu_panicked = False\<rparr>)"

definition drop_one :: "Buffered \<Rightarrow> Buffered" where
  "drop_one b = b\<lparr>bu_dropped := i64 (bu_dropped b + 1)\<rparr>"

text \<open>\<open>Record\<close>: the load of \<open>closed\<close>, after which the goroutine is about to send; then the \<open>select\<close>.\<close>

definition Record_check :: "RoutingDecision \<Rightarrow> Buffered \<Rightarrow> Buffered" where
  "Record_check d b = (if bu_closed b then drop_one b else b\<lparr>bu_senders := bu_senders b @ [d]\<rparr>)"

definition Record_send :: "RoutingDecision \<Rightarrow> Buffered \<Rightarrow> Buffered" where
  "Record_send d b0 =
     (let b = b0\<lparr>bu_senders := remove1 d (bu_senders b0)\<rparr> in
      if bu_ch_closed b then b\<lparr>bu_panicked := True\<rparr>
      else if int (length (bu_ch b)) < sc_BufferSize (bu_cfg b) then b\<lparr>bu_ch := bu_ch b @ [d]\<rparr>
      else drop_one b)"

definition Buffered_write ::
  "(RoutingDecision list \<Rightarrow> 's \<Rightarrow> bool \<times> 's) \<Rightarrow> RoutingDecision list \<Rightarrow> Buffered \<Rightarrow> 's \<Rightarrow> Buffered \<times> 's" where
  "Buffered_write Write batch b s =
     (if length batch = 0 then (b, s)
      else case Write batch s of
             (True, s') \<Rightarrow> (b\<lparr>bu_failed := i64 (bu_failed b + int (length batch))\<rparr>, s')
           | (False, s') \<Rightarrow> (b\<lparr>bu_written := i64 (bu_written b + int (length batch))\<rparr>, s'))"

text \<open>The three turns of \<open>loop\<close>: a receive, a receive on the closed and empty channel, a tick.\<close>

definition sink_recv :: "(RoutingDecision list \<Rightarrow> 's \<Rightarrow> bool \<times> 's) \<Rightarrow> Buffered \<Rightarrow> 's \<Rightarrow> Buffered \<times> 's" where
  "sink_recv Write b s =
     (case bu_ch b of
        [] \<Rightarrow> (b, s)
      | d # rest \<Rightarrow>
          (let batch = bu_batch b @ [d];
               b1 = b\<lparr>bu_ch := rest, bu_batch := batch\<rparr>
           in if int (length batch) \<ge> sc_BatchSize (bu_cfg b)
              then (case Buffered_write Write batch b1 s of (b2, s') \<Rightarrow> (b2\<lparr>bu_batch := []\<rparr>, s'))
              else (b1, s)))"

definition sink_drained :: "(RoutingDecision list \<Rightarrow> 's \<Rightarrow> bool \<times> 's) \<Rightarrow> Buffered \<Rightarrow> 's \<Rightarrow> Buffered \<times> 's" where
  "sink_drained Write b s =
     (case Buffered_write Write (bu_batch b) b s of (b1, s') \<Rightarrow> (b1\<lparr>bu_batch := [], bu_done := True\<rparr>, s'))"

definition sink_tick :: "(RoutingDecision list \<Rightarrow> 's \<Rightarrow> bool \<times> 's) \<Rightarrow> Buffered \<Rightarrow> 's \<Rightarrow> Buffered \<times> 's" where
  "sink_tick Write b s =
     (if length (bu_batch b) > 0
      then (case Buffered_write Write (bu_batch b) b s of (b1, s') \<Rightarrow> (b1\<lparr>bu_batch := []\<rparr>, s'))
      else (b, s))"

definition Flush_stop :: "Buffered \<Rightarrow> Buffered" where
  "Flush_stop b = b\<lparr>bu_closed := True\<rparr>"

definition Flush_close :: "Buffered \<Rightarrow> Buffered" where
  "Flush_close b = b\<lparr>bu_ch_closed := True\<rparr>"

definition Stats :: "Buffered \<Rightarrow> int \<times> int \<times> int" where
  "Stats b = (bu_written b, bu_dropped b, bu_failed b)"

datatype sink_event =
    SinkCheck RoutingDecision
  | SinkSend RoutingDecision
  | SinkRecv
  | SinkTick
  | SinkDrained
  | SinkStop
  | SinkClose

inductive sink_step ::
  "(RoutingDecision list \<Rightarrow> 's \<Rightarrow> bool \<times> 's) \<Rightarrow> sink_event \<Rightarrow> Buffered \<times> 's \<Rightarrow> Buffered \<times> 's \<Rightarrow> bool"
  for Write where
  check: "\<not> bu_panicked b \<Longrightarrow> sink_step Write (SinkCheck d) (b, s) (Record_check d b, s)"
| send: "\<not> bu_panicked b \<Longrightarrow> d \<in> set (bu_senders b) \<Longrightarrow> sink_step Write (SinkSend d) (b, s) (Record_send d b, s)"
| recv: "\<not> bu_panicked b \<Longrightarrow> \<not> bu_done b \<Longrightarrow> bu_ch b \<noteq> [] \<Longrightarrow> sink_step Write SinkRecv (b, s) (sink_recv Write b s)"
| tick: "\<not> bu_panicked b \<Longrightarrow> \<not> bu_done b \<Longrightarrow> sink_step Write SinkTick (b, s) (sink_tick Write b s)"
| drained: "\<not> bu_panicked b \<Longrightarrow> \<not> bu_done b \<Longrightarrow> bu_ch b = [] \<Longrightarrow> bu_ch_closed b \<Longrightarrow>
    sink_step Write SinkDrained (b, s) (sink_drained Write b s)"
| stop: "\<not> bu_panicked b \<Longrightarrow> \<not> bu_closed b \<Longrightarrow> sink_step Write SinkStop (b, s) (Flush_stop b, s)"
| close: "\<not> bu_panicked b \<Longrightarrow> bu_closed b \<Longrightarrow> \<not> bu_ch_closed b \<Longrightarrow> sink_step Write SinkClose (b, s) (Flush_close b, s)"

inductive sink_run ::
  "(RoutingDecision list \<Rightarrow> 's \<Rightarrow> bool \<times> 's) \<Rightarrow> sink_event list \<Rightarrow> Buffered \<times> 's \<Rightarrow> Buffered \<times> 's \<Rightarrow> bool"
  for Write where
  nil: "sink_run Write [] c c"
| snoc: "sink_run Write es c c' \<Longrightarrow> sink_step Write e c' c'' \<Longrightarrow> sink_run Write (es @ [e]) c c''"

section \<open>Facts\<close>

fun checked :: "sink_event list \<Rightarrow> RoutingDecision list" where
  "checked [] = []"
| "checked (SinkCheck d # es) = d # checked es"
| "checked (_ # es) = checked es"

fun sent :: "sink_event list \<Rightarrow> RoutingDecision list" where
  "sent [] = []"
| "sent (SinkSend d # es) = d # sent es"
| "sent (_ # es) = sent es"

lemma checked_append [simp]: "checked (es @ es') = checked es @ checked es'"
  by (induction es rule: checked.induct) simp_all

lemma sent_append [simp]: "sent (es @ es') = sent es @ sent es'"
  by (induction es rule: sent.induct) simp_all

text \<open>A writer that logs the batches it is given and fails as it likes.\<close>

definition logging :: "(RoutingDecision list list \<Rightarrow> bool) \<Rightarrow> RoutingDecision list \<Rightarrow>
    RoutingDecision list list \<Rightarrow> bool \<times> RoutingDecision list list" where
  "logging fails batch log = (fails log, log @ [batch])"

text \<open>
  The ledger of a history: what was accepted is what the writer was given, then the batch, then the
  channel, in the order of the sends; every other checked record was dropped and counted, is still
  about to be sent, or made its goroutine panic.
\<close>

definition ledger :: "sink_event list \<Rightarrow> Buffered \<Rightarrow> RoutingDecision list list \<Rightarrow> nat \<Rightarrow> bool" where
  "ledger es b log dropped \<longleftrightarrow>
     subseq (concat log @ bu_batch b @ bu_ch b) (sent es) \<and>
     length (checked es) = length (concat log @ bu_batch b @ bu_ch b) + dropped + length (bu_senders b) +
       (if bu_panicked b then 1 else 0) \<and>
     bu_dropped b = i64 (int dropped) \<and>
     i64 (bu_written b + bu_failed b) = i64 (int (length (concat log))) \<and>
     (bu_done b \<longrightarrow> bu_batch b = [] \<and> bu_ch b = [] \<and> bu_ch_closed b)"

definition sink_bounded :: "Buffered \<Rightarrow> bool" where
  "sink_bounded b \<longleftrightarrow> 0 < sc_BufferSize (bu_cfg b) \<and> 0 < sc_BatchSize (bu_cfg b) \<and>
     int (length (bu_ch b)) \<le> sc_BufferSize (bu_cfg b) \<and> int (length (bu_batch b)) < sc_BatchSize (bu_cfg b)"

lemma i64_sum_step:
  assumes "i64 (a + b) = i64 n"
  shows "i64 (a + k + b) = i64 (n + k)" "i64 (a + (b + k)) = i64 (n + k)"
proof -
  have "i64 (a + (b + k)) = i64 (i64 (a + b) + k)" by (simp add: add.assoc)
  also have "\<dots> = i64 (n + k)" using assms by simp
  finally show "i64 (a + (b + k)) = i64 (n + k)" .
  then show "i64 (a + k + b) = i64 (n + k)" by (simp add: add.commute add.left_commute)
qed

lemma subseq_snoc_drop: "subseq xs ys \<Longrightarrow> subseq xs (ys @ zs)"
  by (rule subseq_order.order_trans [of _ ys]) auto

lemma ledger_check:
  assumes "ledger es b log n"
  shows "\<exists>n'. ledger (es @ [SinkCheck d]) (Record_check d b) log n'"
  using assms
  by (intro exI [of _ "if bu_closed b then Suc n else n"])
    (auto simp: ledger_def Record_check_def drop_one_def add.commute)

lemma ledger_send:
  assumes "ledger es b log n" "d \<in> set (bu_senders b)" "\<not> bu_panicked b"
  shows "\<exists>n'. ledger (es @ [SinkSend d]) (Record_send d b) log n'"
proof -
  have len: "length (bu_senders b) = Suc (length (remove1 d (bu_senders b)))"
    using assms(2) length_pos_if_in_set [OF assms(2)] by (simp add: length_remove1)
  have sub: "subseq (concat log @ bu_batch b @ bu_ch b) (sent es)" using assms(1) by (simp add: ledger_def)
  consider "bu_ch_closed b" | "\<not> bu_ch_closed b" "int (length (bu_ch b)) < sc_BufferSize (bu_cfg b)"
    | "\<not> bu_ch_closed b" "\<not> int (length (bu_ch b)) < sc_BufferSize (bu_cfg b)" by blast
  then show ?thesis
  proof cases
    case 1
    with assms(1,3) len subseq_snoc_drop [OF sub] show ?thesis
      by (intro exI [of _ n]) (simp add: ledger_def Record_send_def)
  next
    case 2
    have "subseq ((concat log @ bu_batch b @ bu_ch b) @ [d]) (sent es @ [d])"
      using sub by (intro list_emb_append_mono) auto
    with 2 assms(1,3) len show ?thesis
      by (intro exI [of _ n]) (simp add: ledger_def Record_send_def)
  next
    case 3
    with assms(1,3) len subseq_snoc_drop [OF sub] show ?thesis
      by (intro exI [of _ "Suc n"]) (simp add: ledger_def Record_send_def drop_one_def add.commute)
  qed
qed

lemma ledger_write:
  assumes "ledger es b log n" "Buffered_write (logging fails) (bu_batch b) b log = (b1, log')"
  shows "ledger es (b1\<lparr>bu_batch := []\<rparr>) log' n"
  using assms
  by (auto simp: ledger_def Buffered_write_def logging_def i64_sum_step split: if_splits prod.splits bool.splits)

lemma ledger_recv:
  assumes "ledger es b log n" "\<not> bu_done b" "sink_recv (logging fails) b log = (b', log')"
  shows "ledger es b' log' n"
proof (cases "bu_ch b")
  case Nil
  with assms show ?thesis by (simp add: sink_recv_def)
next
  case (Cons d rest)
  let ?b1 = "b\<lparr>bu_ch := rest, bu_batch := bu_batch b @ [d]\<rparr>"
  have l: "ledger es ?b1 log n" using assms(1,2) Cons by (simp add: ledger_def)
  obtain b2 log2 where w: "Buffered_write (logging fails) (bu_batch ?b1) ?b1 log = (b2, log2)" by fastforce
  from assms(3) Cons w l ledger_write [OF l w] show ?thesis
    by (simp add: sink_recv_def Let_def split: if_splits)
qed

lemma ledger_step:
  assumes "sink_step (logging fails) e (b, log) (b', log')" "ledger es b log n"
  shows "\<exists>n'. ledger (es @ [e]) b' log' n'"
  using assms(1)
proof (cases rule: sink_step.cases)
  case (check d)
  then show ?thesis using ledger_check [OF assms(2)] by simp
next
  case (send d)
  then show ?thesis using ledger_send [OF assms(2)] by simp
next
  case recv
  then have "ledger es b' log' n" using ledger_recv [OF assms(2)] by metis
  then show ?thesis using recv by (intro exI [of _ n]) (simp add: ledger_def)
next
  case tick
  then have "ledger es b' log' n"
    using assms(2) ledger_write [OF assms(2)] by (auto simp: sink_tick_def split: if_splits prod.splits)
  then show ?thesis using tick by (intro exI [of _ n]) (simp add: ledger_def)
next
  case drained
  then obtain b1 where b1: "Buffered_write (logging fails) (bu_batch b) b log = (b1, log')"
    "b' = b1\<lparr>bu_batch := [], bu_done := True\<rparr>"
    by (auto simp: sink_drained_def split: prod.splits)
  have "bu_ch b1 = bu_ch b" "bu_ch_closed b1 = bu_ch_closed b"
    using b1(1) by (auto simp: Buffered_write_def logging_def split: if_splits prod.splits bool.splits)
  with ledger_write [OF assms(2) b1(1)] b1(2) drained show ?thesis
    by (intro exI [of _ n]) (simp add: ledger_def)
next
  case stop
  with assms(2) show ?thesis by (intro exI [of _ n]) (simp add: ledger_def Flush_stop_def)
next
  case close
  with assms(2) show ?thesis by (intro exI [of _ n]) (simp add: ledger_def Flush_close_def)
qed

lemma ledger_run:
  assumes "sink_run (logging fails) es (NewBuffered cfg, []) (b, log)"
  shows "\<exists>n. ledger es b log n"
  using assms
proof (induction es "(NewBuffered cfg, [] :: RoutingDecision list list)" "(b, log)" arbitrary: b log rule: sink_run.induct)
  case nil
  then show ?case by (intro exI [of _ 0]) (auto simp: ledger_def NewBuffered_def Let_def)
next
  case (snoc es c e)
  obtain b1 log1 where c: "c = (b1, log1)" by fastforce
  obtain n where "ledger es b1 log1 n" using snoc(2) [OF c] by blast
  with ledger_step [OF snoc(3) [unfolded c]] show ?case by blast
qed

lemma Buffered_write_keeps:
  "Buffered_write Write batch b s = (b', s') \<Longrightarrow>
   bu_ch b' = bu_ch b \<and> bu_batch b' = bu_batch b \<and> bu_cfg b' = bu_cfg b \<and> bu_panicked b' = bu_panicked b \<and>
   bu_ch_closed b' = bu_ch_closed b"
  by (auto simp: Buffered_write_def split: if_splits prod.splits bool.splits)

lemma sink_bounded_recv:
  assumes "sink_bounded b" "sink_recv Write b s = (b', s')"
  shows "sink_bounded b'"
proof (cases "bu_ch b")
  case Nil
  with assms show ?thesis by (simp add: sink_recv_def)
next
  case (Cons d rest)
  let ?batch = "bu_batch b @ [d]"
  let ?b1 = "b\<lparr>bu_ch := rest, bu_batch := ?batch\<rparr>"
  obtain b2 s2 where w: "Buffered_write Write ?batch ?b1 s = (b2, s2)" by fastforce
  from Buffered_write_keeps [OF w] assms Cons w show ?thesis
    by (auto simp: sink_recv_def sink_bounded_def Let_def split: if_splits)
qed

lemma sink_bounded_write:
  assumes "sink_bounded b" "Buffered_write Write (bu_batch b) b s = (b1, s1)"
  shows "sink_bounded (b1\<lparr>bu_batch := []\<rparr>)"
  using assms Buffered_write_keeps [OF assms(2)] by (simp add: sink_bounded_def)

lemma sink_bounded_step:
  assumes "sink_step Write e (b, s) (b', s')" "sink_bounded b"
  shows "sink_bounded b'"
  using assms(1)
proof (cases rule: sink_step.cases)
  case recv
  then show ?thesis using sink_bounded_recv [OF assms(2)] by metis
next
  case tick
  obtain b1 s1 where w: "Buffered_write Write (bu_batch b) b s = (b1, s1)" by fastforce
  from tick sink_bounded_write [OF assms(2) w] w assms(2) show ?thesis
    by (auto simp: sink_tick_def split: if_splits)
next
  case drained
  obtain b1 s1 where w: "Buffered_write Write (bu_batch b) b s = (b1, s1)" by fastforce
  from drained sink_bounded_write [OF assms(2) w] w show ?thesis
    by (auto simp: sink_drained_def sink_bounded_def)
qed (use assms(2) in \<open>auto simp: sink_bounded_def Record_check_def Record_send_def drop_one_def Flush_stop_def Flush_close_def Let_def\<close>)

lemma sink_bounded_new: "sink_bounded (NewBuffered cfg)"
  by (auto simp: sink_bounded_def NewBuffered_def Let_def)

lemma sink_bounded_run:
  assumes "sink_run Write es (b, s) (b', s')" "sink_bounded b"
  shows "sink_bounded b'"
  using assms
proof (induction es "(b, s)" "(b', s')" arbitrary: b' s' rule: sink_run.induct)
  case (snoc es c e)
  then show ?case using sink_bounded_step [of Write e "fst c" "snd c"] by (cases c) auto
qed simp

text \<open>Receiving empties a closed channel, and then the last batch is written.\<close>

lemma sink_run_trans:
  assumes "sink_run Write es' c' c''" "sink_run Write es c c'"
  shows "sink_run Write (es @ es') c c''"
  using assms
proof (induction es' c' c'' rule: sink_run.induct)
  case (snoc es' c0 c1 e c2)
  then have "sink_run Write ((es @ es') @ [e]) c c2" using sink_run.snoc by blast
  then show ?case by simp
qed simp

lemma sink_recv_shorter:
  assumes "bu_ch b \<noteq> []" "sink_recv Write b s = (b', s')"
  shows "length (bu_ch b') < length (bu_ch b) \<and> bu_ch_closed b' = bu_ch_closed b \<and> bu_panicked b' = bu_panicked b \<and> bu_done b' = bu_done b"
  using assms
  by (auto simp: sink_recv_def Let_def Buffered_write_def split: list.splits if_splits prod.splits bool.splits)

lemma sink_drains:
  assumes "bu_ch_closed b" "\<not> bu_panicked b" "\<not> bu_done b"
  shows "\<exists>b' s'. sink_run Write (replicate (length (bu_ch b)) SinkRecv @ [SinkDrained]) (b, s) (b', s') \<and> bu_done b'"
  using assms
proof (induction "length (bu_ch b)" arbitrary: b s)
  case 0
  obtain b' s' where d: "sink_drained Write b s = (b', s')" by fastforce
  have "sink_step Write SinkDrained (b, s) (b', s')" using sink_step.drained [of b Write s] 0 d by simp
  then have "sink_run Write ([] @ [SinkDrained]) (b, s) (b', s')" by (rule sink_run.snoc [OF sink_run.nil])
  moreover have "bu_done b'" using d by (auto simp: sink_drained_def split: prod.splits)
  ultimately show ?case using 0(1) by auto
next
  case (Suc n)
  obtain b1 s1 where r: "sink_recv Write b s = (b1, s1)" by fastforce
  have ne: "bu_ch b \<noteq> []" using Suc.hyps(2) by auto
  have len: "n = length (bu_ch b1)"
    using Suc.hyps(2) r by (auto simp: sink_recv_def Let_def Buffered_write_def split: list.splits if_splits prod.splits bool.splits)
  have "sink_step Write SinkRecv (b, s) (b1, s1)" using sink_step.recv [of b Write s] Suc.prems ne r by simp
  then have one: "sink_run Write ([] @ [SinkRecv]) (b, s) (b1, s1)" by (rule sink_run.snoc [OF sink_run.nil])
  obtain b' s' where rest: "sink_run Write (replicate (length (bu_ch b1)) SinkRecv @ [SinkDrained]) (b1, s1) (b', s')" "bu_done b'"
    using Suc.hyps(1) [OF len] sink_recv_shorter [OF ne r] Suc.prems by blast
  have "sink_run Write (replicate (length (bu_ch b)) SinkRecv @ [SinkDrained]) (b, s) (b', s')"
    using sink_run_trans [OF rest(1) one] len Suc.hyps(2) by (simp flip: Suc.hyps(2))
  with rest(2) show ?case by blast
qed

section \<open>Properties\<close>


text \<open>
  C39. The sink's memory is bounded: at any moment the channel holds at most \<open>BufferSize\<close> decisions
  and the batch fewer than \<open>BatchSize\<close>, whatever the writer does.
\<close>

theorem sink_memory_bounded:
  assumes "sink_run Write es (NewBuffered cfg, s) (b, s')"
  shows "int (length (bu_ch b)) \<le> sc_BufferSize (bu_cfg b) \<and> int (length (bu_batch b)) < sc_BatchSize (bu_cfg b)"
  using sink_bounded_run [OF assms sink_bounded_new] by (simp add: sink_bounded_def)

text \<open>
  C38. Shutdown terminates: once the channel is closed the loop needs one receive per buffered
  decision and one final write to be done, even when every write fails.
\<close>

theorem sink_shutdown_drains:
  assumes "bu_ch_closed b" "\<not> bu_panicked b" "\<not> bu_done b"
  shows "\<exists>b' s'. sink_run Write (replicate (length (bu_ch b)) SinkRecv @ [SinkDrained]) (b, s) (b', s') \<and> bu_done b'"
  by (rule sink_drains [OF assms])

text \<open>
  \<open>Record\<close> can panic: a goroutine that has read \<open>closed\<close> before \<open>Flush\<close> runs sends on the closed
  channel. No lock orders the two, unlike in the usage flusher.
\<close>

theorem record_races_flush:
  "\<exists>b. sink_run Write [SinkCheck d, SinkStop, SinkClose, SinkSend d] (NewBuffered cfg, s) (b, s) \<and> bu_panicked b"
proof -
  let ?b0 = "NewBuffered cfg"
  let ?b1 = "Record_check d ?b0" let ?b2 = "Flush_stop ?b1" let ?b3 = "Flush_close ?b2" let ?b4 = "Record_send d ?b3"
  have np: "\<not> bu_panicked ?b0" "\<not> bu_closed ?b0" "\<not> bu_ch_closed ?b0" "bu_senders ?b0 = []"
    by (simp_all add: NewBuffered_def Let_def)
  have "sink_run Write ([] @ [SinkCheck d]) (?b0, s) (?b1, s)"
    by (rule sink_run.snoc [OF sink_run.nil sink_step.check [OF np(1)]])
  then have "sink_run Write (([] @ [SinkCheck d]) @ [SinkStop]) (?b0, s) (?b2, s)"
    by (rule sink_run.snoc) (rule sink_step.stop; simp add: np Record_check_def)
  then have "sink_run Write ((([] @ [SinkCheck d]) @ [SinkStop]) @ [SinkClose]) (?b0, s) (?b3, s)"
    by (rule sink_run.snoc) (rule sink_step.close; simp add: np Record_check_def Flush_stop_def)
  then have "sink_run Write (((([] @ [SinkCheck d]) @ [SinkStop]) @ [SinkClose]) @ [SinkSend d]) (?b0, s) (?b4, s)"
    by (rule sink_run.snoc) (rule sink_step.send; simp add: np Record_check_def Flush_stop_def Flush_close_def)
  then show ?thesis
    by (intro exI [of _ ?b4]) (simp add: Record_send_def Flush_close_def)
qed

section \<open>Witnesses\<close>

definition sample_decision :: RoutingDecision where
  "sample_decision =
     \<lparr>rd_ID = 7, rd_OccurredAt = 0, rd_Tenant = ''acme'', rd_KeyID = 9,
      rd_Request = \<lparr>rs_RequestedModel = ''m'', rs_Stream = False, rs_WantsUsage = False, rs_Metadata = Map.empty\<rparr>,
      rd_Ladder = zero_Ladder,
      rd_Outcome = \<lparr>o_Status = StatusPolicyBlocked, o_Attempts = [], o_Usage = zero_usage, o_TTFTMs = 0, o_TotalMs = 0\<rparr>,
      rd_Cost = None\<rparr>"

definition small_config :: sink_Config where
  "small_config = \<lparr>sc_BufferSize = 1, sc_BatchSize = 1, sc_FlushInterval = 0, sc_WriteTimeout = 0\<rparr>"

text \<open>One decision is recorded, batched and written.\<close>

definition recorded_once :: Buffered where
  "recorded_once = fst (sink_recv (logging (\<lambda>_. False)) (Record_send sample_decision (Record_check sample_decision (NewBuffered small_config))) [])"

lemma recorded_once_run:
  "sink_run (logging (\<lambda>_. False)) [SinkCheck sample_decision, SinkSend sample_decision, SinkRecv]
     (NewBuffered small_config, []) (recorded_once, [[sample_decision]])"
proof -
  let ?W = "logging (\<lambda>_. False)" and ?b0 = "NewBuffered small_config"
  let ?b1 = "Record_check sample_decision ?b0" let ?b2 = "Record_send sample_decision ?b1"
  note evals = NewBuffered_def small_config_def Record_check_def Record_send_def
  have "sink_run ?W ([] @ [SinkCheck sample_decision]) (?b0, []) (?b1, [])"
    by (rule sink_run.snoc [OF sink_run.nil sink_step.check]) (simp add: evals)
  then have "sink_run ?W (([] @ [SinkCheck sample_decision]) @ [SinkSend sample_decision]) (?b0, []) (?b2, [])"
    by (rule sink_run.snoc) (rule sink_step.send; simp add: evals)
  then have "sink_run ?W ((([] @ [SinkCheck sample_decision]) @ [SinkSend sample_decision]) @ [SinkRecv]) (?b0, []) (sink_recv ?W ?b2 [])"
    by (rule sink_run.snoc) (rule sink_step.recv; simp add: evals)
  moreover have "sink_recv ?W ?b2 [] = (recorded_once, [[sample_decision]])"
    by (simp add: recorded_once_def evals sink_recv_def Buffered_write_def logging_def)
  ultimately show ?thesis by simp
qed


theorem sink_memory_bounded_witness:
  "int (length (bu_ch recorded_once)) \<le> sc_BufferSize (bu_cfg recorded_once) \<and>
   int (length (bu_batch recorded_once)) < sc_BatchSize (bu_cfg recorded_once)"
  by (rule sink_memory_bounded [OF recorded_once_run])

theorem sink_shutdown_drains_witness:
  "\<exists>b' s'. sink_run (logging (\<lambda>_. True))
       (replicate (length (bu_ch (Flush_close (Record_send sample_decision (NewBuffered small_config))))) SinkRecv @ [SinkDrained])
       (Flush_close (Record_send sample_decision (NewBuffered small_config)), []) (b', s') \<and> bu_done b'"
  by (rule sink_shutdown_drains) (simp_all add: Flush_close_def Record_send_def NewBuffered_def small_config_def)

end
