(* ===== verification/Admin_Domain.thy ===== *)
theory Admin_Domain
  imports Go_Strings Decisions
begin

text \<open>
  The vocabulary of the admin side: accounts, keys, roles and credentials
  (\<open>core/domains/admin.go\<close>, \<open>admin_user.go\<close>), the password policy (\<open>core/password/policy.go\<close>), the
  minting of secrets (\<open>usecases/admin/secret.go\<close>) and the validators of the admin service
  (\<open>usecases/admin/tenants.go\<close>, \<open>keys.go\<close>, \<open>quotas.go\<close>).

  Parameters: lower-casing beyond ASCII and parsing a mail address (\<open>text_env\<close>), SHA-256, decoding
  JSON and reading a number literal as a rational (\<open>json_value_env\<close>).
\<close>

section \<open>Definitions\<close>

subsection \<open>Accounts and keys\<close>

record TenantAccount =
  ta_ID :: uuid
  ta_ExternalID :: Tenant
  ta_Name :: string
  ta_Metadata :: string
  ta_CreatedAt :: time
  ta_DisabledAt :: "time option"

definition TenantAccount_Disabled :: "TenantAccount \<Rightarrow> bool" where
  "TenantAccount_Disabled t \<longleftrightarrow> ta_DisabledAt t \<noteq> None"

record APIKey =
  ak_ID :: uuid
  ak_TenantID :: uuid
  ak_Prefix :: string
  ak_ModelAllowlist :: "string list option"
  ak_CreatedAt :: time
  ak_LastUsedAt :: "time option"
  ak_RevokedAt :: "time option"

definition APIKey_Revoked :: "APIKey \<Rightarrow> bool" where
  "APIKey_Revoked k \<longleftrightarrow> ak_RevokedAt k \<noteq> None"

subsection \<open>Roles and permissions\<close>

type_synonym Role = string
type_synonym Permission = string

definition RoleAdmin :: Role where "RoleAdmin = ''admin''"
definition RoleReadonly :: Role where "RoleReadonly = ''readonly''"
definition Roles :: "Role list" where "Roles = [RoleAdmin, RoleReadonly]"
definition PermissionRead :: Permission where "PermissionRead = ''read''"
definition PermissionWrite :: Permission where "PermissionWrite = ''write''"

definition Role_Valid :: "Role \<Rightarrow> bool" where
  "Role_Valid r = list_ex (\<lambda>known. r = known) Roles"

definition Allows :: "Role \<Rightarrow> Permission \<Rightarrow> bool" where
  "Allows r p =
     (if r = RoleAdmin then True
      else if r = RoleReadonly then p = PermissionRead
      else False)"

subsection \<open>Machine credentials and people\<close>

record AdminCredential =
  cr_ID :: uuid
  cr_Name :: string
  cr_Prefix :: string
  cr_Role :: Role
  cr_ExpiresAt :: "time option"
  cr_CreatedAt :: time
  cr_LastUsedAt :: "time option"
  cr_RevokedAt :: "time option"

definition AdminCredential_Revoked :: "AdminCredential \<Rightarrow> bool" where
  "AdminCredential_Revoked c \<longleftrightarrow> cr_RevokedAt c \<noteq> None"

definition AdminCredential_Expired :: "AdminCredential \<Rightarrow> time \<Rightarrow> bool" where
  "AdminCredential_Expired c now = (case cr_ExpiresAt c of None \<Rightarrow> False | Some t \<Rightarrow> \<not> now < t)"

definition AdminCredential_Actor :: "AdminCredential \<Rightarrow> string" where
  "AdminCredential_Actor c = ''admin:'' @ cr_Name c"

record AdminUser =
  us_ID :: uuid
  us_Email :: string
  us_Role :: Role
  us_CreatedAt :: time
  us_DisabledAt :: "time option"
  us_LastLoginAt :: "time option"
  us_PasswordChangedAt :: time

definition AdminUser_Disabled :: "AdminUser \<Rightarrow> bool" where
  "AdminUser_Disabled u \<longleftrightarrow> us_DisabledAt u \<noteq> None"

text \<open>\<open>Time.Truncate(time.Second)\<close> rounds down since the zero time, which is a whole second.\<close>

definition truncate_second :: "time \<Rightarrow> time" where
  "truncate_second t = t - t mod Second"

definition TokenIssuedAfterPasswordChange :: "AdminUser \<Rightarrow> time \<Rightarrow> bool" where
  "TokenIssuedAfterPasswordChange u issued \<longleftrightarrow>
     \<not> truncate_second issued < truncate_second (us_PasswordChangedAt u)"

definition AdminUser_Actor :: "AdminUser \<Rightarrow> string" where
  "AdminUser_Actor u = ''user:'' @ us_Email u"

record AdminRefreshToken =
  rt_ID :: uuid
  rt_UserID :: uuid
  rt_IssuedAt :: time
  rt_ExpiresAt :: time
  rt_RevokedAt :: "time option"
  rt_ReplacedBy :: "uuid option"

definition RefreshToken_Revoked :: "AdminRefreshToken \<Rightarrow> bool" where
  "RefreshToken_Revoked t \<longleftrightarrow> rt_RevokedAt t \<noteq> None"

definition RefreshToken_Expired :: "AdminRefreshToken \<Rightarrow> time \<Rightarrow> bool" where
  "RefreshToken_Expired t now \<longleftrightarrow> \<not> now < rt_ExpiresAt t"

definition RefreshToken_Usable :: "AdminRefreshToken \<Rightarrow> time \<Rightarrow> bool" where
  "RefreshToken_Usable t now \<longleftrightarrow> \<not> RefreshToken_Revoked t \<and> \<not> RefreshToken_Expired t now"

subsection \<open>Emails and passwords\<close>

record text_env =
  te_ToLower :: "string \<Rightarrow> string"
  te_ParseAddress :: "string \<Rightarrow> (string \<times> string) option"

definition NormaliseEmail :: "text_env \<Rightarrow> string \<Rightarrow> string" where
  "NormaliseEmail T email = te_ToLower T (TrimSpace email)"

definition MaxEmailLen :: nat where "MaxEmailLen = 254"

datatype email_error = EmailRequired | EmailTooLong | NotAnEmail string

text \<open>\<open>te_ParseAddress\<close> returns the display name and the address.\<close>

definition ValidateEmail :: "text_env \<Rightarrow> string \<Rightarrow> email_error option" where
  "ValidateEmail T email =
     (if email = '''' then Some EmailRequired
      else if length email > MaxEmailLen then Some EmailTooLong
      else case te_ParseAddress T email of
             None \<Rightarrow> Some (NotAnEmail email)
           | Some (name, addr) \<Rightarrow> if addr \<noteq> email \<or> name \<noteq> '''' then Some (NotAnEmail email) else None)"

definition MinLength :: nat where "MinLength = 12"
definition MaxLength :: nat where "MaxLength = 128"
definition minLocalPart :: nat where "minLocalPart = 3"
definition productNames :: "string list" where "productNames = [''go-route'', ''goroute'']"

datatype PolicyError = ErrTooShort | ErrTooLong | ErrAllWhitespace | ErrContainsEmail | ErrContainsProduct

definition checkLength :: "string \<Rightarrow> PolicyError option" where
  "checkLength plain =
     (let n = RuneCount plain in
      if n < MinLength then Some ErrTooShort else if n > MaxLength then Some ErrTooLong else None)"

definition TooLong :: "string \<Rightarrow> bool" where
  "TooLong plain \<longleftrightarrow> RuneCount plain > MaxLength"

definition localPart :: "text_env \<Rightarrow> string \<Rightarrow> string" where
  "localPart T email = te_ToLower T (TrimSpace (takeWhile (\<lambda>c. c \<noteq> CHR ''@'') email))"

definition Check :: "text_env \<Rightarrow> string \<Rightarrow> string \<Rightarrow> PolicyError option" where
  "Check T plain email =
     (case checkLength plain of
        Some err \<Rightarrow> Some err
      | None \<Rightarrow>
          if TrimSpace plain = '''' then Some ErrAllWhitespace
          else
            let lower = te_ToLower T plain in
            if list_ex (Contains lower) productNames then Some ErrContainsProduct
            else
              let local = localPart T email in
              if RuneCount local \<ge> minLocalPart \<and> Contains lower local then Some ErrContainsEmail
              else None)"

subsection \<open>Secrets\<close>

definition secretEntropyBytes :: nat where "secretEntropyBytes = 32"
definition displayChars :: nat where "displayChars = 6"
definition secretAlphabet :: string where "secretAlphabet = ''abcdefghijklmnopqrstuvwxyz234567''"

record Minted =
  mi_Secret :: string
  mi_Prefix :: string
  mi_Hash :: string

text \<open>\<open>random\<close> is what \<open>io.ReadFull\<close> returned for 32 bytes, \<open>None\<close> when it failed.\<close>

definition Mint :: "(string \<Rightarrow> string) \<Rightarrow> string \<Rightarrow> string option \<Rightarrow> Minted option" where
  "Mint sha256 pre random =
     (case random of
        None \<Rightarrow> None
      | Some b \<Rightarrow>
          (let secret = pre @ encode_raw 5 secretAlphabet b in
           Some \<lparr>mi_Secret = secret, mi_Prefix = take (length pre + displayChars) secret, mi_Hash = sha256 secret\<rparr>))"

definition hashSecret :: "(string \<Rightarrow> string) \<Rightarrow> string \<Rightarrow> string" where
  "hashSecret sha256 secret = sha256 secret"

subsection \<open>What a valid request is\<close>

text \<open>\<open>ports.ErrInvalid\<close> with the sentence it carries.\<close>

datatype invalid =
    ExternalIDRequired
  | ExternalIDWhitespace
  | ExternalIDTooLong
  | ExternalIDNotUTF8
  | NameRequired
  | NameTooLong
  | MetadataNotObject
  | NothingToUpdate
  | LimitOutOfRange
  | TenantRequired
  | AllowlistTooLong
  | AliasBlank
  | AliasTooLong
  | AliasTwice string
  | UnknownWindowKind WindowKind
  | InvalidQuota quota_error
  | WindowKindTwice WindowKind
  | CredentialName
  | InvalidRole Role
  | InvalidEmail email_error
  | InvalidPassword PolicyError

definition maxNameLen :: nat where "maxNameLen = 256"
definition maxAllowlistLen :: nat where "maxAllowlistLen = 256"
definition maxAliasLen :: nat where "maxAliasLen = 256"

definition validExternalID :: "string \<Rightarrow> invalid option" where
  "validExternalID i =
     (if TrimSpace i = '''' then Some ExternalIDRequired
      else if i \<noteq> TrimSpace i then Some ExternalIDWhitespace
      else if int (length i) > MaxTenantLen then Some ExternalIDTooLong
      else if \<not> ValidUTF8 i then Some ExternalIDNotUTF8
      else None)"

definition validName :: "string \<Rightarrow> invalid option" where
  "validName name =
     (if TrimSpace name = '''' then Some NameRequired
      else if RuneCount name > maxNameLen then Some NameTooLong
      else None)"

datatype json =
    JNull
  | JBool bool
  | JNumber string
  | JString string
  | JArray "json list"
  | JObject "(string \<times> json) list"

text \<open>
  A decoded object is an association list with distinct keys. \<open>jv_is_object\<close> is whether
  \<open>json.Unmarshal\<close> of the whole text gives a non-nil map, \<open>jv_decode\<close> the first value of the text,
  and \<open>jv_rational\<close> \<open>big.Rat.SetString\<close>, into any type of rationals.
\<close>

record 'r json_value_env =
  jv_is_object :: "string \<Rightarrow> bool"
  jv_decode :: "string \<Rightarrow> json option"
  jv_rational :: "string \<Rightarrow> 'r option"

text \<open>\<open>bytes.TrimSpace\<close> trims as \<open>strings.TrimSpace\<close> does.\<close>

definition metadataObject :: "'r json_value_env \<Rightarrow> string \<Rightarrow> invalid + string" where
  "metadataObject J raw =
     (if TrimSpace raw = '''' then Inr ''{}''
      else if jv_is_object J raw then Inr raw else Inl MetadataNotObject)"

function equalJSON :: "(string \<Rightarrow> 'r option) \<Rightarrow> json \<Rightarrow> json \<Rightarrow> bool" where
  "equalJSON rational (JObject xs) y =
     (case y of
        JObject ys \<Rightarrow> length xs = length ys \<and>
          (\<forall>(k, v) \<in> set xs. case map_of ys k of None \<Rightarrow> False | Some w \<Rightarrow> equalJSON rational v w)
      | _ \<Rightarrow> False)"
| "equalJSON rational (JArray xs) y =
     (case y of
        JArray ys \<Rightarrow> length xs = length ys \<and> list_all (\<lambda>(a, b). equalJSON rational a b) (zip xs ys)
      | _ \<Rightarrow> False)"
| "equalJSON rational (JNumber a) y =
     (case y of
        JNumber b \<Rightarrow> (case (rational a, rational b) of (Some p, Some q) \<Rightarrow> p = q | _ \<Rightarrow> False)
      | _ \<Rightarrow> False)"
| "equalJSON rational JNull y \<longleftrightarrow> y = JNull"
| "equalJSON rational (JBool b) y \<longleftrightarrow> y = JBool b"
| "equalJSON rational (JString s) y \<longleftrightarrow> y = JString s"
  by pat_completeness auto
termination
proof (relation "measure (\<lambda>(_, x, _). size x)", goal_cases)
  case (2 rational xs y ys z k v w)
  then show ?case by (auto dest: size_list_estimation' [where y = "size v" and f = "\<lambda>p. size_prod (\<lambda>_. 0) size p"])
next
  case (3 rational xs y ys z a b)
  then have "a \<in> set xs" by (auto dest: set_zip_leftD)
  then show ?case by (auto dest: size_list_estimation' [where y = "size a"])
qed simp

definition sameJSON :: "'r json_value_env \<Rightarrow> string \<Rightarrow> string \<Rightarrow> bool" where
  "sameJSON J a b =
     (case (jv_decode J a, jv_decode J b) of
        (Some x, Some y) \<Rightarrow> equalJSON (jv_rational J) x y
      | _ \<Rightarrow> False)"

fun check_aliases :: "string list \<Rightarrow> string list \<Rightarrow> invalid option" where
  "check_aliases seen [] = None"
| "check_aliases seen (alias # rest) =
     (if TrimSpace alias = '''' then Some AliasBlank
      else if length alias > maxAliasLen then Some AliasTooLong
      else if alias \<in> set seen then Some (AliasTwice alias)
      else check_aliases (alias # seen) rest)"

definition validAllowlist :: "string list option \<Rightarrow> invalid + string list option" where
  "validAllowlist lst =
     (case lst of
        None \<Rightarrow> Inr None
      | Some aliases \<Rightarrow>
          if length aliases > maxAllowlistLen then Inl AllowlistTooLong
          else case check_aliases [] aliases of Some e \<Rightarrow> Inl e | None \<Rightarrow> Inr lst)"

definition sameAllowlist :: "string list option \<Rightarrow> string list option \<Rightarrow> bool" where
  "sameAllowlist a b \<longleftrightarrow> a = b"

definition validQuota :: "Quota \<Rightarrow> invalid + Quota" where
  "validQuota q0 =
     (let q = (if q_OnExceed q0 = '''' then q0\<lparr>q_OnExceed := QuotaBlock\<rparr> else q0) in
      case Quota_Validate q of Some e \<Rightarrow> Inl (InvalidQuota e) | None \<Rightarrow> Inr q)"

fun check_quotas :: "WindowKind list \<Rightarrow> Quota list \<Rightarrow> Quota list \<Rightarrow> invalid + Quota list" where
  "check_quotas seen out [] = Inr out"
| "check_quotas seen out (q0 # rest) =
     (case validQuota q0 of
        Inl e \<Rightarrow> Inl e
      | Inr q \<Rightarrow>
          if q_WindowKind q \<in> set seen then Inl (WindowKindTwice (q_WindowKind q))
          else check_quotas (q_WindowKind q # seen) (out @ [q]) rest)"

definition validQuotaSet :: "Quota list \<Rightarrow> invalid + Quota list" where
  "validQuotaSet qs =
     (case check_quotas [] [] qs of
        Inl e \<Rightarrow> Inl e
      | Inr out \<Rightarrow> Inr (sort_key (\<lambda>q. Rank (q_WindowKind q)) out))"

text \<open>The map built from the current set keeps the last quota of a kind.\<close>

definition sameQuotaSet :: "Quota list \<Rightarrow> Quota list \<Rightarrow> bool" where
  "sameQuotaSet current desired =
     (length current = length desired \<and>
      list_all (\<lambda>q. case map_of (map (\<lambda>c. (q_WindowKind c, c)) (rev current)) (q_WindowKind q) of
                      None \<Rightarrow> False | Some c \<Rightarrow> SameLimits c q) desired)"

definition is_name_char :: "char \<Rightarrow> bool" where
  "is_name_char c \<longleftrightarrow> in_range 65 90 c \<or> in_range 97 122 c \<or> in_range 48 57 c \<or> c \<in> set ''._@:+-''"

text \<open>The regular expression \<open>^[A-Za-z0-9._@:+-]{1,128}$\<close>.\<close>

definition validCredentialName :: "string \<Rightarrow> bool" where
  "validCredentialName name \<longleftrightarrow> 1 \<le> length name \<and> length name \<le> 128 \<and> list_all is_name_char name"

section \<open>Facts\<close>

lemma Allows_write: "Allows r PermissionWrite \<longleftrightarrow> r = RoleAdmin"
  by (simp add: Allows_def PermissionWrite_def PermissionRead_def)

text \<open>The numbers of a value, and whether all of them are readable.\<close>

fun readable :: "(string \<Rightarrow> 'r option) \<Rightarrow> json \<Rightarrow> bool" where
  "readable rational (JObject xs) \<longleftrightarrow> distinct (map fst xs) \<and> (\<forall>(k, v) \<in> set xs. readable rational v)"
| "readable rational (JArray xs) \<longleftrightarrow> (\<forall>x \<in> set xs. readable rational x)"
| "readable rational (JNumber a) \<longleftrightarrow> rational a \<noteq> None"
| "readable rational _ \<longleftrightarrow> True"

lemma equalJSON_refl: "readable rational x \<Longrightarrow> equalJSON rational x x"
proof (induction rational x rule: readable.induct)
  case (1 rational xs)
  have "map_of xs k = Some v \<and> equalJSON rational v v" if "(k, v) \<in> set xs" for k v
    using 1 that by (auto simp: map_of_eq_Some_iff)
  then show ?case by (auto simp del: map_of_eq_Some_iff)
next
  case (2 rational xs)
  have "zip xs xs = map (\<lambda>x. (x, x)) xs" by (induction xs) simp_all
  with 2 show ?case by (auto simp: list_all_iff)
qed auto

lemma check_quotas_ok:
  assumes "check_quotas seen out qs = Inr res" "distinct (map q_WindowKind out)"
    and "set (map q_WindowKind out) = set seen" "\<forall>q \<in> set out. Quota_Validate q = None"
  shows "distinct (map q_WindowKind res) \<and> (\<forall>q \<in> set res. Quota_Validate q = None)"
  using assms
proof (induction seen out qs rule: check_quotas.induct)
  case (2 seen out q0 rest)
  obtain q where q: "validQuota q0 = Inr q" using 2(2) by (cases "validQuota q0") auto
  then have ok: "Quota_Validate q = None" by (auto simp: validQuota_def Let_def split: option.splits)
  have new: "q_WindowKind q \<notin> set seen" "check_quotas (q_WindowKind q # seen) (out @ [q]) rest = Inr res"
    using 2(2) q by (auto split: if_splits)
  show ?case
    by (rule 2(1) [OF q new(1) new(2)]) (use 2(3-5) new ok in auto)
qed simp

lemma validQuotaSet_ok:
  assumes "validQuotaSet qs = Inr out"
  shows "distinct (map q_WindowKind out)" "\<forall>q \<in> set out. Quota_Validate q = None"
    "sorted (map (\<lambda>q. Rank (q_WindowKind q)) out)"
proof -
  obtain res where res: "check_quotas [] [] qs = Inr res" "out = sort_key (\<lambda>q. Rank (q_WindowKind q)) res"
    using assms by (auto simp: validQuotaSet_def split: sum.splits)
  note ok = check_quotas_ok [OF res(1)]
  show "distinct (map q_WindowKind out)" using ok unfolding res(2) by (simp add: distinct_map)
  show "\<forall>q \<in> set out. Quota_Validate q = None" using ok unfolding res(2) by simp
  show "sorted (map (\<lambda>q. Rank (q_WindowKind q)) out)" unfolding res(2) by simp
qed

lemma secretAlphabet_facts:
  "distinct secretAlphabet" "length secretAlphabet = 2 ^ 5"
  "CHR 0x0A \<notin> set secretAlphabet" "CHR 0x0D \<notin> set secretAlphabet"
  by (simp_all add: secretAlphabet_def)

lemma encode_secret_inj:
  assumes "encode_raw 5 secretAlphabet a = encode_raw 5 secretAlphabet b"
  shows "a = b"
proof -
  have "decode_raw 5 secretAlphabet (encode_raw 5 secretAlphabet s) = Some s" for s
    by (rule decode_encode) (simp_all add: secretAlphabet_facts)
  with assms show ?thesis by (metis option.inject)
qed

section \<open>Properties\<close>

text \<open>
  No two secrets coincide unless the random bytes behind them do: minting under one prefix is
  injective in its 32 bytes, and the stored display prefix is a prefix of the secret.
\<close>

theorem mint_injective:
  assumes "Mint sha256 pre (Some a) = Some m" "Mint sha256 pre (Some b) = Some n"
  shows "(mi_Secret m = mi_Secret n \<longleftrightarrow> a = b) \<and> (\<exists>hidden. mi_Secret m = mi_Prefix m @ hidden) \<and>
    mi_Hash m = hashSecret sha256 (mi_Secret m)"
proof -
  have m: "m = \<lparr>mi_Secret = pre @ encode_raw 5 secretAlphabet a,
      mi_Prefix = take (length pre + displayChars) (pre @ encode_raw 5 secretAlphabet a), mi_Hash = sha256 (pre @ encode_raw 5 secretAlphabet a)\<rparr>"
    using assms(1) by (simp add: Mint_def Let_def)
  have "mi_Secret n = pre @ encode_raw 5 secretAlphabet b" using assms(2) by (auto simp: Mint_def Let_def)
  then have "mi_Secret m = mi_Secret n \<longleftrightarrow> a = b" using m encode_secret_inj [of a b] by auto
  moreover have "mi_Secret m = mi_Prefix m @ drop (length pre + displayChars) (mi_Secret m)" using m by simp
  moreover have "mi_Hash m = hashSecret sha256 (mi_Secret m)" using m by (simp add: hashSecret_def)
  ultimately show ?thesis by blast
qed

theorem mint_injective_witness:
  "(mi_Secret (the (Mint id ''gr_'' (Some ''ab''))) = mi_Secret (the (Mint id ''gr_'' (Some ''ac''))) \<longleftrightarrow> ''ab'' = ''ac'') \<and>
   (\<exists>hidden. mi_Secret (the (Mint id ''gr_'' (Some ''ab''))) = mi_Prefix (the (Mint id ''gr_'' (Some ''ab''))) @ hidden) \<and>
   mi_Hash (the (Mint id ''gr_'' (Some ''ab''))) = hashSecret id (mi_Secret (the (Mint id ''gr_'' (Some ''ab''))))"
  by (rule mint_injective [of id "''gr_''" "''ab''" _ "''ac''"]) (simp_all add: Mint_def Let_def)

end
