(* ===== verification/Admin_Store.thy ===== *)
theory Admin_Store
  imports Admin_Domain Postgres Proxy_Api
begin

text \<open>
  Where tenants, keys, quotas, credentials, people and sessions live: the tables with their
  constraints (\<open>db/migrations\<close>), the queries (\<open>db/queries\<close>) as functions on the tables, and the
  repositories over them (\<open>adapters/repositories/admin.go\<close>, \<open>auth.go\<close>, \<open>admin_users.go\<close>,
  \<open>admin_credentials.go\<close>).

  A query that returns no row gives \<open>None\<close>; one that violates a constraint gives
  \<open>StoreFailed\<close>, and one the server refuses for another reason (a string that is not valid
  text, a missing partition) fails by \<open>pg_faults\<close>. \<open>db_now\<close> is the server's \<open>now()\<close>,
  \<open>db_time\<close> the instant it keeps of a time it is sent (a \<open>timestamptz\<close> has microseconds) and
  \<open>db_jsonb\<close> the text it hands back of a \<open>jsonb\<close>. The empty \<open>ae_Detail\<close> is \<open>NULL\<close> in the
  table. Transactions run one after the other: the row lock every mutation takes first is what
  makes writers of one tenant do so.
\<close>

section \<open>Definitions\<close>

subsection \<open>Tables\<close>

record AuditEntry =
  ae_ID :: uuid
  ae_At :: time
  ae_TenantID :: "uuid option"
  ae_KeyID :: "uuid option"
  ae_Actor :: string
  ae_Action :: string
  ae_Detail :: string

record api_key_row =
  kr_Key :: APIKey
  kr_Hash :: string

record admin_user_row =
  ur_User :: AdminUser
  ur_PasswordHash :: string

record refresh_token_row =
  tk_Token :: AdminRefreshToken
  tk_Hash :: string

record credential_row =
  dr_Cred :: AdminCredential
  dr_Hash :: string

record admin_db =
  db_now :: time
  db_time :: "time \<Rightarrow> time"
  db_jsonb :: "string \<Rightarrow> string"
  db_tenants :: "TenantAccount list"
  db_keys :: "api_key_row list"
  db_quotas :: "(uuid \<times> Quota) list"
  db_audit :: "AuditEntry list"
  db_users :: "admin_user_row list"
  db_tokens :: "refresh_token_row list"
  db_creds :: "credential_row list"

datatype admin_error =
    ErrNotFound
  | ErrConflict
  | ErrInvalid invalid
  | ErrUnauthenticated
  | ErrEntropy
  | ErrEncode
  | ErrNoIssuer
  | ErrHash PolicyError
  | StoreFailed

type_synonym 'a query = "admin_db \<Rightarrow> (admin_error + 'a) \<times> admin_db"
type_synonym 'a action = "admin_db pg \<Rightarrow> (admin_error + 'a) \<times> admin_db pg"

subsection \<open>Queries\<close>

definition select_one :: "(admin_db \<Rightarrow> 'a option) \<Rightarrow> 'a option query" where
  "select_one f db = (Inr (f db), db)"

definition find_tenant :: "uuid \<Rightarrow> admin_db \<Rightarrow> TenantAccount option" where
  "find_tenant i db = List.find (\<lambda>t. ta_ID t = i) (db_tenants db)"

definition find_external :: "string \<Rightarrow> admin_db \<Rightarrow> TenantAccount option" where
  "find_external ext db = List.find (\<lambda>t. ta_ExternalID t = ext) (db_tenants db)"

definition find_key :: "uuid \<Rightarrow> admin_db \<Rightarrow> APIKey option" where
  "find_key i db = map_option kr_Key (List.find (\<lambda>r. ak_ID (kr_Key r) = i) (db_keys db))"

definition q_CreateTenant :: "uuid \<Rightarrow> string \<Rightarrow> string \<Rightarrow> string \<Rightarrow> TenantAccount option query" where
  "q_CreateTenant i ext name meta db =
     (if find_external ext db \<noteq> None then (Inr None, db)
      else if find_tenant i db \<noteq> None \<or> ext = '''' then (Inl StoreFailed, db)
      else
        let t = \<lparr>ta_ID = i, ta_ExternalID = ext, ta_Name = name, ta_Metadata = db_jsonb db meta, ta_CreatedAt = db_now db,
                 ta_DisabledAt = None\<rparr>
        in (Inr (Some t), db\<lparr>db_tenants := db_tenants db @ [t]\<rparr>))"

text \<open>An \<open>UPDATE \<dots> WHERE id = $1 AND p RETURNING *\<close> on the tenants and on the keys.\<close>

definition update_tenant :: "uuid \<Rightarrow> (TenantAccount \<Rightarrow> bool) \<Rightarrow> (TenantAccount \<Rightarrow> TenantAccount) \<Rightarrow> TenantAccount option query" where
  "update_tenant i p f db =
     (let hit = (\<lambda>t. ta_ID t = i \<and> p t) in
      (Inr (map_option f (List.find hit (db_tenants db))),
       db\<lparr>db_tenants := map (\<lambda>t. if hit t then f t else t) (db_tenants db)\<rparr>))"

definition q_UpdateTenant :: "uuid \<Rightarrow> string option \<Rightarrow> string option \<Rightarrow> TenantAccount option query" where
  "q_UpdateTenant i name meta db =
     update_tenant i (\<lambda>_. True)
       (\<lambda>t. t\<lparr>ta_Name := (case name of Some n \<Rightarrow> n | None \<Rightarrow> ta_Name t),
             ta_Metadata := (case meta of Some m \<Rightarrow> db_jsonb db m | None \<Rightarrow> ta_Metadata t)\<rparr>) db"

definition q_DisableTenant :: "uuid \<Rightarrow> TenantAccount option query" where
  "q_DisableTenant i db =
     update_tenant i (\<lambda>t. ta_DisabledAt t = None) (\<lambda>t. t\<lparr>ta_DisabledAt := Some (db_now db)\<rparr>) db"

definition q_EnableTenant :: "uuid \<Rightarrow> TenantAccount option query" where
  "q_EnableTenant i = update_tenant i (\<lambda>t. ta_DisabledAt t \<noteq> None) (\<lambda>t. t\<lparr>ta_DisabledAt := None\<rparr>)"

definition q_ListTenants :: "bool \<Rightarrow> int \<Rightarrow> TenantAccount list query" where
  "q_ListTenants include_disabled row_limit db =
     (Inr (take (nat row_limit) (sort_key (\<lambda>t. - ta_CreatedAt t)
        (filter (\<lambda>t. include_disabled \<or> ta_DisabledAt t = None) (db_tenants db)))), db)"

definition q_CreateAPIKey :: "uuid \<Rightarrow> uuid \<Rightarrow> string \<Rightarrow> string \<Rightarrow> string list option \<Rightarrow> APIKey query" where
  "q_CreateAPIKey i tenant hash pre allowlist db =
     (if find_key i db \<noteq> None \<or> list_ex (\<lambda>r. kr_Hash r = hash) (db_keys db) \<or> find_tenant tenant db = None \<or>
         length hash \<noteq> 32 \<or> pre = ''''
      then (Inl StoreFailed, db)
      else
        let k = \<lparr>ak_ID = i, ak_TenantID = tenant, ak_Prefix = pre, ak_ModelAllowlist = allowlist,
                 ak_CreatedAt = db_now db, ak_LastUsedAt = None, ak_RevokedAt = None\<rparr>
        in (Inr k, db\<lparr>db_keys := db_keys db @ [\<lparr>kr_Key = k, kr_Hash = hash\<rparr>]\<rparr>))"

definition update_key :: "uuid \<Rightarrow> (APIKey \<Rightarrow> bool) \<Rightarrow> (APIKey \<Rightarrow> APIKey) \<Rightarrow> APIKey option query" where
  "update_key i p f db =
     (let hit = (\<lambda>r. ak_ID (kr_Key r) = i \<and> p (kr_Key r)) in
      (Inr (map_option (\<lambda>r. f (kr_Key r)) (List.find hit (db_keys db))),
       db\<lparr>db_keys := map (\<lambda>r. if hit r then r\<lparr>kr_Key := f (kr_Key r)\<rparr> else r) (db_keys db)\<rparr>))"

definition q_UpdateAPIKeyAllowlist :: "uuid \<Rightarrow> string list option \<Rightarrow> APIKey option query" where
  "q_UpdateAPIKeyAllowlist i allowlist =
     update_key i (\<lambda>k. ak_RevokedAt k = None) (\<lambda>k. k\<lparr>ak_ModelAllowlist := allowlist\<rparr>)"

definition q_RevokeAPIKey :: "uuid \<Rightarrow> APIKey option query" where
  "q_RevokeAPIKey i db = update_key i (\<lambda>k. ak_RevokedAt k = None) (\<lambda>k. k\<lparr>ak_RevokedAt := Some (db_now db)\<rparr>) db"

definition q_ListAPIKeysByTenant :: "uuid \<Rightarrow> APIKey list query" where
  "q_ListAPIKeysByTenant tenant db =
     (Inr (sort_key (\<lambda>k. - ak_CreatedAt k) (filter (\<lambda>k. ak_TenantID k = tenant) (map kr_Key (db_keys db)))), db)"

text \<open>\<open>GetAPIKeyByHash\<close> joins the tenant.\<close>

definition key_by_hash :: "string \<Rightarrow> admin_db \<Rightarrow> (APIKey \<times> TenantAccount) option" where
  "key_by_hash hash db =
     (case List.find (\<lambda>r. kr_Hash r = hash) (db_keys db) of
        None \<Rightarrow> None
      | Some r \<Rightarrow> map_option (\<lambda>t. (kr_Key r, t)) (find_tenant (ak_TenantID (kr_Key r)) db))"

definition tenant_quotas :: "uuid \<Rightarrow> admin_db \<Rightarrow> Quota list" where
  "tenant_quotas tenant db = map snd (filter (\<lambda>r. fst r = tenant) (db_quotas db))"

definition q_ListQuotas :: "uuid \<Rightarrow> Quota list query" where
  "q_ListQuotas tenant db = (Inr (sort_key (\<lambda>q. Rank (q_WindowKind q)) (tenant_quotas tenant db)), db)"

definition find_quota :: "uuid \<Rightarrow> WindowKind \<Rightarrow> admin_db \<Rightarrow> Quota option" where
  "find_quota tenant kind db = List.find (\<lambda>q. q_WindowKind q = kind) (tenant_quotas tenant db)"

definition q_DeleteQuotasForTenant :: "uuid \<Rightarrow> unit query" where
  "q_DeleteQuotasForTenant tenant db =
     (Inr (), db\<lparr>db_quotas := filter (\<lambda>r. fst r \<noteq> tenant) (db_quotas db)\<rparr>)"

definition quota_row :: "uuid \<Rightarrow> WindowKind \<Rightarrow> uuid \<times> Quota \<Rightarrow> bool" where
  "quota_row tenant kind r \<longleftrightarrow> fst r = tenant \<and> q_WindowKind (snd r) = kind"

definition q_DeleteQuota :: "uuid \<Rightarrow> WindowKind \<Rightarrow> nat query" where
  "q_DeleteQuota tenant kind db =
     (Inr (length (filter (quota_row tenant kind) (db_quotas db))),
      db\<lparr>db_quotas := filter (\<lambda>r. \<not> quota_row tenant kind r) (db_quotas db)\<rparr>)"

text \<open>The table's constraints are those of \<open>Quota.Validate\<close>; a kind or action outside its enum fails too.\<close>

definition stored_quota :: "admin_db \<Rightarrow> Quota \<Rightarrow> Quota" where
  "stored_quota db q =
     q\<lparr>q_PeriodStart := map_option (db_time db) (q_PeriodStart q), q_PeriodEnd := map_option (db_time db) (q_PeriodEnd q),
       q_UpdatedAt := db_now db\<rparr>"

definition q_UpsertQuota :: "uuid \<Rightarrow> Quota \<Rightarrow> Quota query" where
  "q_UpsertQuota tenant q0 db =
     (let q = stored_quota db q0;
          hit = quota_row tenant (q_WindowKind q)
      in if find_tenant tenant db = None \<or> Quota_Validate q \<noteq> None then (Inl StoreFailed, db)
         else (Inr q, db\<lparr>db_quotas :=
                 (if list_ex hit (db_quotas db) then map (\<lambda>r. if hit r then (tenant, q) else r) (db_quotas db)
                  else db_quotas db @ [(tenant, q)])\<rparr>))"

definition q_CreateAuditEntry :: "AuditEntry \<Rightarrow> unit query" where
  "q_CreateAuditEntry e0 db =
     (let e = e0\<lparr>ae_At := db_time db (ae_At e0)\<rparr> in
      if list_ex (\<lambda>r. ae_ID r = ae_ID e \<and> ae_At r = ae_At e) (db_audit db) \<or> ae_Actor e = '''' \<or> ae_Action e = ''''
      then (Inl StoreFailed, db)
      else (Inr (), db\<lparr>db_audit := db_audit db @ [e]\<rparr>))"

subsection \<open>Tenants, keys, quotas and the audit log\<close>

definition stmt :: "'a query \<Rightarrow> 'a action" where
  "stmt q = pg_stmt StoreFailed q"

text \<open>\<open>found\<close>: a query without a row is \<open>ErrNotFound\<close>.\<close>

definition found :: "'a option query \<Rightarrow> 'a action" where
  "found q = pg_bind (stmt q) (\<lambda>row. case row of None \<Rightarrow> pg_fail ErrNotFound | Some a \<Rightarrow> pg_return a)"

definition InTx :: "'a action \<Rightarrow> 'a action" where
  "InTx fn = with_tx StoreFailed fn"

definition tenantRepo_Get :: "uuid \<Rightarrow> TenantAccount action" where
  "tenantRepo_Get i = found (select_one (find_tenant i))"

definition tenantRepo_GetByExternalID :: "string \<Rightarrow> TenantAccount action" where
  "tenantRepo_GetByExternalID ext = found (select_one (find_external ext))"

definition tenantRepo_List :: "bool \<Rightarrow> int \<Rightarrow> TenantAccount list action" where
  "tenantRepo_List include_disabled limit = stmt (q_ListTenants include_disabled limit)"

definition tenantRepo_Lock :: "uuid \<Rightarrow> TenantAccount action" where
  "tenantRepo_Lock i = found (select_one (find_tenant i))"

definition tenantRepo_Create :: "uuid \<Rightarrow> string \<Rightarrow> string \<Rightarrow> string \<Rightarrow> (TenantAccount \<times> bool) action" where
  "tenantRepo_Create i ext name meta =
     pg_bind (stmt (q_CreateTenant i ext name meta)) (\<lambda>row.
       case row of
         Some t \<Rightarrow> pg_return (t, True)
       | None \<Rightarrow> pg_bind (stmt (select_one (find_external ext))) (\<lambda>existing.
           case existing of None \<Rightarrow> pg_fail StoreFailed | Some t \<Rightarrow> pg_return (t, False)))"

definition tenantRepo_Update :: "uuid \<Rightarrow> string option \<Rightarrow> string option \<Rightarrow> TenantAccount action" where
  "tenantRepo_Update i name meta = found (q_UpdateTenant i name meta)"

definition tenantRepo_Disable :: "uuid \<Rightarrow> TenantAccount action" where
  "tenantRepo_Disable i = found (q_DisableTenant i)"

definition tenantRepo_Enable :: "uuid \<Rightarrow> TenantAccount action" where
  "tenantRepo_Enable i = found (q_EnableTenant i)"

definition apiKeyRepo_Get :: "uuid \<Rightarrow> APIKey action" where
  "apiKeyRepo_Get i = found (select_one (find_key i))"

definition apiKeyRepo_ListByTenant :: "uuid \<Rightarrow> APIKey list action" where
  "apiKeyRepo_ListByTenant tenant = stmt (q_ListAPIKeysByTenant tenant)"

definition apiKeyRepo_Create :: "uuid \<Rightarrow> uuid \<Rightarrow> string \<Rightarrow> string list option \<Rightarrow> string \<Rightarrow> APIKey action" where
  "apiKeyRepo_Create i tenant pre allowlist hash = stmt (q_CreateAPIKey i tenant hash pre allowlist)"

definition apiKeyRepo_UpdateAllowlist :: "uuid \<Rightarrow> string list option \<Rightarrow> APIKey action" where
  "apiKeyRepo_UpdateAllowlist i allowlist = found (q_UpdateAPIKeyAllowlist i allowlist)"

definition apiKeyRepo_Revoke :: "uuid \<Rightarrow> APIKey action" where
  "apiKeyRepo_Revoke i = found (q_RevokeAPIKey i)"

definition quotaRepo_Get :: "uuid \<Rightarrow> WindowKind \<Rightarrow> Quota action" where
  "quotaRepo_Get tenant kind = found (select_one (find_quota tenant kind))"

definition quotaRepo_List :: "uuid \<Rightarrow> Quota list action" where
  "quotaRepo_List tenant = stmt (q_ListQuotas tenant)"

definition quotaRepo_Upsert :: "uuid \<Rightarrow> Quota \<Rightarrow> Quota action" where
  "quotaRepo_Upsert tenant q = stmt (q_UpsertQuota tenant q)"

definition quotaRepo_Delete :: "uuid \<Rightarrow> WindowKind \<Rightarrow> bool action" where
  "quotaRepo_Delete tenant kind = pg_bind (stmt (q_DeleteQuota tenant kind)) (\<lambda>n. pg_return (n > 0))"

definition quotaRepo_DeleteAll :: "uuid \<Rightarrow> unit action" where
  "quotaRepo_DeleteAll tenant = stmt (q_DeleteQuotasForTenant tenant)"

definition insertAudit :: "AuditEntry \<Rightarrow> unit action" where
  "insertAudit e = stmt (q_CreateAuditEntry e)"

subsection \<open>Authentication of keys\<close>

definition Authenticate :: "(string \<Rightarrow> string) \<Rightarrow> string \<Rightarrow> admin_db pg \<Rightarrow> (auth_error + Identity) \<times> admin_db pg" where
  "Authenticate sha256 presented p =
     (if presented = '''' then (Inl ErrNoCredentials, p)
      else
        case stmt (select_one (key_by_hash (sha256 presented))) p of
          (Inl _, q) \<Rightarrow> (Inl AuthUnavailable, q)
        | (Inr None, q) \<Rightarrow> (Inl ErrUnknownKey, q)
        | (Inr (Some (k, t)), q) \<Rightarrow>
            if ak_RevokedAt k \<noteq> None then (Inl ErrKeyRevoked, q)
            else if ta_DisabledAt t \<noteq> None then (Inl (ErrTenantDisabled (ta_ExternalID t)), q)
            else (Inr \<lparr>id_Tenant = ta_ExternalID t, id_KeyID = ak_ID k, id_Allowlist = ak_ModelAllowlist k\<rparr>, q))"

subsection \<open>The cache of tenant ids\<close>

record TenantIDs =
  ti_byTenant :: "Tenant \<rightharpoonup> uuid"
  ti_byID :: "uuid \<rightharpoonup> Tenant"

definition NewTenantIDs :: TenantIDs where
  "NewTenantIDs = \<lparr>ti_byTenant = Map.empty, ti_byID = Map.empty\<rparr>"

datatype tenant_error = ErrUnknownTenant | TenantUnavailable

definition TenantIDs_put :: "Tenant \<Rightarrow> uuid \<Rightarrow> TenantIDs \<Rightarrow> TenantIDs" where
  "TenantIDs_put tenant i c = \<lparr>ti_byTenant = (ti_byTenant c)(tenant \<mapsto> i), ti_byID = (ti_byID c)(i \<mapsto> tenant)\<rparr>"

definition TenantIDs_Lookup :: "Tenant \<Rightarrow> TenantIDs \<Rightarrow> admin_db pg \<Rightarrow> (tenant_error + uuid) \<times> TenantIDs \<times> admin_db pg" where
  "TenantIDs_Lookup tenant c p =
     (case ti_byTenant c tenant of
        Some i \<Rightarrow> (Inr i, c, p)
      | None \<Rightarrow>
          (case stmt (select_one (find_external tenant)) p of
             (Inl _, q) \<Rightarrow> (Inl TenantUnavailable, c, q)
           | (Inr None, q) \<Rightarrow> (Inl ErrUnknownTenant, c, q)
           | (Inr (Some t), q) \<Rightarrow> (Inr (ta_ID t), TenantIDs_put tenant (ta_ID t) c, q)))"

definition TenantIDs_Name :: "uuid \<Rightarrow> TenantIDs \<Rightarrow> admin_db pg \<Rightarrow> (tenant_error + Tenant) \<times> TenantIDs \<times> admin_db pg" where
  "TenantIDs_Name i c p =
     (case ti_byID c i of
        Some name \<Rightarrow> (Inr name, c, p)
      | None \<Rightarrow>
          (case stmt (select_one (find_tenant i)) p of
             (Inl _, q) \<Rightarrow> (Inl TenantUnavailable, c, q)
           | (Inr None, q) \<Rightarrow> (Inl ErrUnknownTenant, c, q)
           | (Inr (Some t), q) \<Rightarrow> (Inr (ta_ExternalID t), TenantIDs_put (ta_ExternalID t) (ta_ID t) c, q)))"

text \<open>\<open>parse\<close> is \<open>uuid.Parse\<close>.\<close>

definition TenantIDs_lookup_ref :: "string \<Rightarrow> TenantIDs \<Rightarrow> admin_db pg \<Rightarrow> (tenant_error + Tenant) \<times> TenantIDs \<times> admin_db pg" where
  "TenantIDs_lookup_ref ref c p =
     (case TenantIDs_Lookup ref c p of
        (Inl e, c', q) \<Rightarrow> (Inl e, c', q)
      | (Inr _, c', q) \<Rightarrow> (Inr ref, c', q))"

definition TenantIDs_Resolve ::
  "(string \<Rightarrow> uuid option) \<Rightarrow> string \<Rightarrow> TenantIDs \<Rightarrow> admin_db pg \<Rightarrow> (tenant_error + Tenant) \<times> TenantIDs \<times> admin_db pg" where
  "TenantIDs_Resolve parse ref c p =
     (case parse ref of
        None \<Rightarrow> TenantIDs_lookup_ref ref c p
      | Some i \<Rightarrow>
          (case TenantIDs_Name i c p of
             (Inr name, c', q) \<Rightarrow> (Inr name, c', q)
           | (Inl ErrUnknownTenant, c', q) \<Rightarrow> TenantIDs_lookup_ref ref c' q
           | (Inl TenantUnavailable, c', q) \<Rightarrow> (Inl TenantUnavailable, c', q)))"

section \<open>Facts\<close>

text \<open>The successful runs of the repositories' steps.\<close>

lemma stmt_Inr:
  "stmt query p = (Inr a, q) \<longleftrightarrow>
     pg_next p = PgOk \<and> (\<exists>db. query (pg_db p) = (Inr a, db) \<and> q = (pg_pop p)\<lparr>pg_db := db\<rparr>)"
  by (simp add: stmt_def pg_stmt_Inr)

lemma found_Inr:
  "found query p = (Inr a, q) \<longleftrightarrow>
     pg_next p = PgOk \<and> (\<exists>db. query (pg_db p) = (Inr (Some a), db) \<and> q = (pg_pop p)\<lparr>pg_db := db\<rparr>)"
  by (auto simp: found_def pg_bind_Inr stmt_Inr split: option.splits)

lemma select_one_iff [simp]: "select_one f db = (r, db') \<longleftrightarrow> r = Inr (f db) \<and> db' = db"
  by (auto simp: select_one_def)

lemma definite_query [definite_intros]: "definite_body (stmt query)"
  unfolding stmt_def by (rule definite_stmt)

lemma definite_found [definite_intros]: "definite_body (found query)"
  unfolding found_def by (intro definite_intros)

lemma definite_InTx [definite_intros]: "definite_body body \<Longrightarrow> definite_body (InTx body)"
  unfolding InTx_def by (intro definite_intros)

text \<open>The constraints of the tables: primary keys, unique indexes, foreign keys and the checks on a
  quota.\<close>

definition admin_ok :: "admin_db \<Rightarrow> bool" where
  "admin_ok db \<longleftrightarrow>
     distinct (map ta_ID (db_tenants db)) \<and> distinct (map ta_ExternalID (db_tenants db)) \<and>
     distinct (map (\<lambda>r. ak_ID (kr_Key r)) (db_keys db)) \<and> distinct (map kr_Hash (db_keys db)) \<and>
     set (map (\<lambda>r. ak_TenantID (kr_Key r)) (db_keys db)) \<subseteq> set (map ta_ID (db_tenants db)) \<and>
     distinct (map (\<lambda>r. (fst r, q_WindowKind (snd r))) (db_quotas db)) \<and>
     set (map fst (db_quotas db)) \<subseteq> set (map ta_ID (db_tenants db)) \<and>
     list_all (\<lambda>r. Quota_Validate (snd r) = None) (db_quotas db)"

text \<open>What a change to one tenant leaves alone: the rows of every other tenant, people, their
  sessions and the operators' credentials.\<close>

definition only_tenant :: "uuid \<Rightarrow> admin_db \<Rightarrow> admin_db \<Rightarrow> bool" where
  "only_tenant i db db' \<longleftrightarrow>
     filter (\<lambda>t. ta_ID t \<noteq> i) (db_tenants db') = filter (\<lambda>t. ta_ID t \<noteq> i) (db_tenants db) \<and>
     filter (\<lambda>r. ak_TenantID (kr_Key r) \<noteq> i) (db_keys db') = filter (\<lambda>r. ak_TenantID (kr_Key r) \<noteq> i) (db_keys db) \<and>
     filter (\<lambda>r. fst r \<noteq> i) (db_quotas db') = filter (\<lambda>r. fst r \<noteq> i) (db_quotas db) \<and>
     db_users db' = db_users db \<and> db_tokens db' = db_tokens db \<and> db_creds db' = db_creds db"

text \<open>What no change ever does: tenants and keys are not deleted, and a revoked key stays as it was.\<close>

definition keeps_rows :: "admin_db \<Rightarrow> admin_db \<Rightarrow> bool" where
  "keeps_rows db db' \<longleftrightarrow>
     (\<forall>t \<in> set (db_tenants db). \<exists>t' \<in> set (db_tenants db').
        ta_ID t' = ta_ID t \<and> ta_ExternalID t' = ta_ExternalID t \<and> ta_CreatedAt t' = ta_CreatedAt t) \<and>
     (\<forall>r \<in> set (db_keys db). \<exists>r' \<in> set (db_keys db').
        ak_ID (kr_Key r') = ak_ID (kr_Key r) \<and> ak_TenantID (kr_Key r') = ak_TenantID (kr_Key r) \<and>
        kr_Hash r' = kr_Hash r \<and> (APIKey_Revoked (kr_Key r) \<longrightarrow> r' = r))"

lemma keeps_rows_refl [simp]: "keeps_rows db db"
  by (auto simp: keeps_rows_def)

lemma keeps_rows_same: "db_tenants db' = db_tenants db \<Longrightarrow> db_keys db' = db_keys db \<Longrightarrow> keeps_rows db db'"
  by (auto simp: keeps_rows_def)

lemma keeps_rows_trans: "keeps_rows a b \<Longrightarrow> keeps_rows b c \<Longrightarrow> keeps_rows a c"
  unfolding keeps_rows_def by (intro conjI ballI; elim conjE; metis)

lemma only_tenant_refl [simp]: "only_tenant i db db"
  by (simp add: only_tenant_def)

lemma only_tenant_trans: "only_tenant i a b \<Longrightarrow> only_tenant i b c \<Longrightarrow> only_tenant i a c"
  by (simp add: only_tenant_def)

lemma option_ext: "(\<And>x. a = Some x \<longleftrightarrow> b = Some x) \<Longrightarrow> a = b"
  by (cases a; cases b) auto

lemma find_SomeD: "List.find P xs = Some x \<Longrightarrow> x \<in> set xs \<and> P x"
  by (auto simp: find_Some_iff)

lemma find_unique: "distinct (map f xs) \<Longrightarrow> x \<in> set xs \<Longrightarrow> List.find (\<lambda>y. f y = f x) xs = Some x"
  by (induction xs) auto

lemma find_tenant_Some: "find_tenant i db = Some t \<Longrightarrow> t \<in> set (db_tenants db) \<and> ta_ID t = i"
  by (auto simp: find_tenant_def dest: find_SomeD)

lemma find_external_Some: "find_external ext db = Some t \<Longrightarrow> t \<in> set (db_tenants db) \<and> ta_ExternalID t = ext"
  by (auto simp: find_external_def dest: find_SomeD)

lemma find_tenant_iff: "admin_ok db \<Longrightarrow> find_tenant i db = Some t \<longleftrightarrow> t \<in> set (db_tenants db) \<and> ta_ID t = i"
  using find_unique [of ta_ID "db_tenants db" t] find_tenant_Some [of i db t]
  by (auto simp: admin_ok_def find_tenant_def)

lemma find_external_iff:
  "admin_ok db \<Longrightarrow> find_external ext db = Some t \<longleftrightarrow> t \<in> set (db_tenants db) \<and> ta_ExternalID t = ext"
  using find_unique [of ta_ExternalID "db_tenants db" t] find_external_Some [of ext db t]
  by (auto simp: admin_ok_def find_external_def)

lemma find_tenant_None: "find_tenant i db = None \<longleftrightarrow> i \<notin> ta_ID ` set (db_tenants db)"
  by (auto simp: find_tenant_def find_None_iff)

lemma find_external_None: "find_external ext db = None \<longleftrightarrow> ext \<notin> ta_ExternalID ` set (db_tenants db)"
  by (auto simp: find_external_def find_None_iff)

lemma find_key_iff:
  "admin_ok db \<Longrightarrow> find_key i db = Some k \<longleftrightarrow> (\<exists>r \<in> set (db_keys db). kr_Key r = k \<and> ak_ID k = i)"
  using find_unique [of "\<lambda>r. ak_ID (kr_Key r)" "db_keys db"]
  by (fastforce simp: admin_ok_def find_key_def dest: find_SomeD)

text \<open>The effect of each write: the constraints hold on, and only the named tenant is touched.\<close>

lemma admin_ok_audit [simp]: "admin_ok (db\<lparr>db_audit := a\<rparr>) = admin_ok db"
  by (simp add: admin_ok_def)

lemma only_tenant_audit [simp]: "only_tenant i db (db'\<lparr>db_audit := a\<rparr>) = only_tenant i db db'"
  by (simp add: only_tenant_def)

lemma keeps_rows_audit [simp]: "keeps_rows db (db'\<lparr>db_audit := a\<rparr>) = keeps_rows db db'"
  by (simp add: keeps_rows_def)

lemma keeps_rows_new_tenant: "keeps_rows db (db\<lparr>db_tenants := db_tenants db @ ts\<rparr>)"
  by (auto simp: keeps_rows_def)

lemma q_CreateTenant_Some:
  assumes "q_CreateTenant i ext name meta db = (Inr (Some t), db')" "admin_ok db"
  shows "admin_ok db' \<and> only_tenant i db db' \<and> db_audit db' = db_audit db \<and> ta_ID t = i \<and> ta_ExternalID t = ext \<and>
    ta_Name t = name \<and> ta_Metadata t = db_jsonb db meta \<and> db_jsonb db' = db_jsonb db \<and>
    db' = db\<lparr>db_tenants := db_tenants db @ [t]\<rparr>"
  using assms
  by (clarsimp simp: q_CreateTenant_def Let_def admin_ok_def only_tenant_def find_tenant_None find_external_None
      subset_insertI2 split: if_splits)

lemma q_CreateTenant_None:
  "q_CreateTenant i ext name meta db = (Inr None, db') \<Longrightarrow> db' = db \<and> find_external ext db \<noteq> None"
  by (auto simp: q_CreateTenant_def Let_def split: if_splits)

lemma map_map_same:
  "(\<And>x. x \<in> set xs \<Longrightarrow> P x \<Longrightarrow> f (g x) = f x) \<Longrightarrow> map (\<lambda>x. f (if P x then g x else x)) xs = map f xs"
  by (induction xs) auto

lemma filter_map_other:
  "(\<And>x. x \<in> set xs \<Longrightarrow> P x \<Longrightarrow> \<not> K (g x) \<and> \<not> K x) \<Longrightarrow> filter K (map (\<lambda>x. if P x then g x else x) xs) = filter K xs"
  by (induction xs) auto

lemma update_tenant_Some:
  assumes "update_tenant i P f db = (Inr (Some t), db')" "admin_ok db"
    and "\<And>t. ta_ID (f t) = ta_ID t \<and> ta_ExternalID (f t) = ta_ExternalID t"
  shows "admin_ok db' \<and> only_tenant i db db' \<and> db_audit db' = db_audit db \<and> db_keys db' = db_keys db \<and>
    (\<exists>t0. find_tenant i db = Some t0 \<and> P t0 \<and> t = f t0 \<and> find_tenant i db' = Some t)"
proof -
  have db': "db' = db\<lparr>db_tenants := map (\<lambda>t. if ta_ID t = i \<and> P t then f t else t) (db_tenants db)\<rparr>"
    and hit: "map_option f (List.find (\<lambda>t. ta_ID t = i \<and> P t) (db_tenants db)) = Some t"
    using assms(1) by (auto simp: update_tenant_def Let_def)
  obtain t0 where t0: "t0 \<in> set (db_tenants db)" "ta_ID t0 = i" "P t0" "t = f t0"
    using hit by (auto dest!: find_SomeD)
  have same: "map ta_ID (db_tenants db') = map ta_ID (db_tenants db)"
    "map ta_ExternalID (db_tenants db') = map ta_ExternalID (db_tenants db)"
    by (simp_all add: db' map_map_same assms(3) o_def)
  have ok: "admin_ok db'"
    using assms(2) unfolding admin_ok_def same by (simp add: db')
  have "t \<in> set (db_tenants db')" "ta_ID t = i" using t0 assms(3) by (auto simp: db' intro!: image_eqI)
  then have "find_tenant i db' = Some t" using ok by (simp add: find_tenant_iff)
  moreover have "find_tenant i db = Some t0" using t0 assms(2) by (simp add: find_tenant_iff)
  moreover have "filter (\<lambda>t. ta_ID t \<noteq> i) (db_tenants db') = filter (\<lambda>t. ta_ID t \<noteq> i) (db_tenants db)"
    unfolding db' by simp (rule filter_map_other, simp add: assms(3))
  then have "only_tenant i db db'" by (simp add: only_tenant_def) (simp add: db')
  ultimately show ?thesis using ok t0 by (auto simp: db')
qed

lemma q_CreateAPIKey_Inr:
  assumes "q_CreateAPIKey i tenant hash pre allowlist db = (Inr k, db')" "admin_ok db"
  shows "admin_ok db' \<and> only_tenant tenant db db' \<and> db_audit db' = db_audit db \<and> ak_TenantID k = tenant \<and>
    ak_ID k = i \<and> ak_ModelAllowlist k = allowlist \<and> ak_RevokedAt k = None \<and> find_key i db = None \<and>
    db' = db\<lparr>db_keys := db_keys db @ [\<lparr>kr_Key = k, kr_Hash = hash\<rparr>]\<rparr>"
  using assms
  by (clarsimp simp: q_CreateAPIKey_def Let_def admin_ok_def only_tenant_def find_tenant_None find_key_def
      find_None_iff list_ex_iff split: if_splits) blast

lemma update_key_Some:
  assumes "update_key i P f db = (Inr (Some k), db')" "admin_ok db"
    and "\<And>k. ak_ID (f k) = ak_ID k \<and> ak_TenantID (f k) = ak_TenantID k"
  shows "admin_ok db' \<and> only_tenant (ak_TenantID k) db db' \<and> db_audit db' = db_audit db \<and>
    db_tenants db' = db_tenants db \<and>
    (\<exists>k0. find_key i db = Some k0 \<and> P k0 \<and> k = f k0 \<and> find_key i db' = Some k)"
proof -
  let ?hit = "\<lambda>r. ak_ID (kr_Key r) = i \<and> P (kr_Key r)"
  have db': "db' = db\<lparr>db_keys := map (\<lambda>r. if ?hit r then r\<lparr>kr_Key := f (kr_Key r)\<rparr> else r) (db_keys db)\<rparr>"
    and hit: "map_option (\<lambda>r. f (kr_Key r)) (List.find ?hit (db_keys db)) = Some k"
    using assms(1) by (auto simp: update_key_def Let_def)
  obtain r0 where r0: "r0 \<in> set (db_keys db)" "ak_ID (kr_Key r0) = i" "P (kr_Key r0)" "k = f (kr_Key r0)"
    using hit by (auto dest!: find_SomeD)
  have same: "map (\<lambda>r. ak_ID (kr_Key r)) (db_keys db') = map (\<lambda>r. ak_ID (kr_Key r)) (db_keys db)"
    "map kr_Hash (db_keys db') = map kr_Hash (db_keys db)"
    "map (\<lambda>r. ak_TenantID (kr_Key r)) (db_keys db') = map (\<lambda>r. ak_TenantID (kr_Key r)) (db_keys db)"
    by (simp_all add: db' o_def map_map_same assms(3))
  have ok: "admin_ok db'"
    using assms(2) unfolding admin_ok_def same by (simp add: db')
  have "r0\<lparr>kr_Key := k\<rparr> \<in> set (db_keys db')" "ak_ID k = i" using r0 assms(3) by (auto simp: db' intro!: image_eqI)
  then have "find_key i db' = Some k" using ok by (auto simp: find_key_iff intro!: bexI)
  moreover have "find_key i db = Some (kr_Key r0)" using r0 assms(2) by (auto simp: find_key_iff)
  moreover have "only_tenant (ak_TenantID k) db db'"
  proof -
    have "r = r0" if "r \<in> set (db_keys db)" "ak_ID (kr_Key r) = i" for r
      using that r0(1,2) assms(2) by (auto simp: admin_ok_def distinct_map dest: inj_onD)
    then have "filter (\<lambda>r. ak_TenantID (kr_Key r) \<noteq> ak_TenantID k) (db_keys db') =
        filter (\<lambda>r. ak_TenantID (kr_Key r) \<noteq> ak_TenantID k) (db_keys db)"
      unfolding db' r0(4) by simp (rule filter_map_other, simp add: assms(3))
    then show ?thesis by (simp add: only_tenant_def) (simp add: db')
  qed
  ultimately show ?thesis using ok r0 by (auto simp: db')
qed

lemma update_tenant_keeps:
  assumes "update_tenant i P f db = (res, db')"
    and "\<And>t. ta_ID (f t) = ta_ID t \<and> ta_ExternalID (f t) = ta_ExternalID t \<and> ta_CreatedAt (f t) = ta_CreatedAt t"
  shows "keeps_rows db db'"
proof -
  have "\<exists>t' \<in> set (db_tenants db'). ta_ID t' = ta_ID t \<and> ta_ExternalID t' = ta_ExternalID t \<and> ta_CreatedAt t' = ta_CreatedAt t"
    if "t \<in> set (db_tenants db)" for t
    using assms(1) that assms(2) [of t]
    by (intro bexI [of _ "if ta_ID t = i \<and> P t then f t else t"]) (auto simp: update_tenant_def Let_def)
  moreover have "db_keys db' = db_keys db" using assms(1) by (auto simp: update_tenant_def Let_def)
  ultimately show ?thesis by (auto simp: keeps_rows_def)
qed

lemma update_key_keeps:
  assumes "update_key i P f db = (res, db')" "\<And>k. P k \<Longrightarrow> \<not> APIKey_Revoked k"
    and "\<And>k. ak_ID (f k) = ak_ID k \<and> ak_TenantID (f k) = ak_TenantID k"
  shows "keeps_rows db db'"
proof -
  have "\<exists>r' \<in> set (db_keys db'). ak_ID (kr_Key r') = ak_ID (kr_Key r) \<and> ak_TenantID (kr_Key r') = ak_TenantID (kr_Key r) \<and>
      kr_Hash r' = kr_Hash r \<and> (APIKey_Revoked (kr_Key r) \<longrightarrow> r' = r)" if "r \<in> set (db_keys db)" for r
    using assms(1) that assms(2) [of "kr_Key r"] assms(3) [of "kr_Key r"]
    by (intro bexI [of _ "if ak_ID (kr_Key r) = i \<and> P (kr_Key r) then r\<lparr>kr_Key := f (kr_Key r)\<rparr> else r"])
      (auto simp: update_key_def Let_def)
  moreover have "db_tenants db' = db_tenants db" using assms(1) by (auto simp: update_key_def Let_def)
  ultimately show ?thesis by (auto simp: keeps_rows_def)
qed

lemma find_quota_iff:
  assumes "admin_ok db"
  shows "find_quota i kind db = Some q \<longleftrightarrow> (i, q) \<in> set (db_quotas db) \<and> q_WindowKind q = kind"
proof -
  have "inj_on (\<lambda>r. (fst r, q_WindowKind (snd r))) (set (db_quotas db))" "distinct (db_quotas db)"
    using assms by (auto simp: admin_ok_def distinct_map)
  then have "distinct (map q_WindowKind (tenant_quotas i db))"
    by (auto simp: tenant_quotas_def distinct_map inj_on_def)
  from find_unique [OF this, of q] have "find_quota i kind db = Some q \<longleftrightarrow> q \<in> set (tenant_quotas i db) \<and> q_WindowKind q = kind"
    by (auto simp: find_quota_def dest: find_SomeD)
  moreover have "q \<in> set (tenant_quotas i db) \<longleftrightarrow> (i, q) \<in> set (db_quotas db)"
    by (force simp: tenant_quotas_def)
  ultimately show ?thesis by simp
qed

lemma stored_quota_kind [simp]: "q_WindowKind (stored_quota db q) = q_WindowKind q"
  by (simp add: stored_quota_def)

lemma q_UpsertQuota_Inr:
  assumes "q_UpsertQuota i q db = (Inr stored, db')" "admin_ok db"
  shows "admin_ok db' \<and> only_tenant i db db' \<and> db_audit db' = db_audit db \<and> db_tenants db' = db_tenants db \<and>
    db_keys db' = db_keys db \<and> stored = stored_quota db q \<and> stored_quota db' = stored_quota db \<and>
    find_quota i kind db' = (if kind = q_WindowKind q then Some stored else find_quota i kind db)"
proof -
  let ?hit = "quota_row i (q_WindowKind q)"
  let ?q = "stored_quota db q"
  have t: "find_tenant i db \<noteq> None" "Quota_Validate ?q = None"
    and db': "stored = ?q" "db' = db\<lparr>db_quotas := (if list_ex ?hit (db_quotas db)
      then map (\<lambda>r. if ?hit r then (i, ?q) else r) (db_quotas db) else db_quotas db @ [(i, ?q)])\<rparr>"
    using assms(1) by (auto simp: q_UpsertQuota_def Let_def split: if_splits)
  have mem: "(j, x) \<in> set (db_quotas db') \<longleftrightarrow> (j = i \<and> x = ?q) \<or> ((j, x) \<in> set (db_quotas db) \<and> \<not> ?hit (j, x))" for j x
    unfolding db'(2) by (auto simp: list_ex_iff)
  have keys: "map (\<lambda>r. (fst r, q_WindowKind (snd r))) (db_quotas db') =
      map (\<lambda>r. (fst r, q_WindowKind (snd r))) (db_quotas db) @
      (if list_ex ?hit (db_quotas db) then [] else [(i, q_WindowKind q)])"
    unfolding db'(2) by (auto simp: o_def quota_row_def)
  have ok: "admin_ok db'"
    unfolding admin_ok_def keys
    using assms(2) t mem
    by (auto simp: admin_ok_def db'(2) find_tenant_None list_ex_iff list_all_iff quota_row_def split_pairs)
  have "find_quota i kind db' = (if kind = q_WindowKind q then Some stored else find_quota i kind db)"
    by (rule option_ext) (use find_quota_iff [OF ok] find_quota_iff [OF assms(2)] mem in \<open>auto simp: db'(1) quota_row_def\<close>)
  moreover have "filter (\<lambda>r. fst r \<noteq> i) (db_quotas db') = filter (\<lambda>r. fst r \<noteq> i) (db_quotas db)"
    unfolding db'(2) by (auto simp: quota_row_def intro!: filter_map_other)
  ultimately show ?thesis using ok db' by (simp add: only_tenant_def stored_quota_def fun_eq_iff)
qed

lemma deleted_quotas:
  assumes "admin_ok db" "db' = db\<lparr>db_quotas := filter K (db_quotas db)\<rparr>" "\<And>r. fst r \<noteq> i \<Longrightarrow> K r"
  shows "admin_ok db' \<and> only_tenant i db db' \<and> db_audit db' = db_audit db \<and> db_tenants db' = db_tenants db \<and>
    db_keys db' = db_keys db \<and> stored_quota db' = stored_quota db \<and>
    (find_quota i kind db' = Some q \<longleftrightarrow> find_quota i kind db = Some q \<and> K (i, q))"
proof -
  have ok: "admin_ok db'"
    using assms(1) unfolding assms(2) by (auto simp: admin_ok_def distinct_map_filter list_all_iff)
  have "(\<lambda>r. fst r \<noteq> i \<and> K r) = (\<lambda>r. fst r \<noteq> i)" using assms(3) by auto
  then have "only_tenant i db db'" by (simp add: only_tenant_def assms(2) conj_commute)
  with ok show ?thesis
    using find_quota_iff [OF ok] find_quota_iff [OF assms(1)] by (auto simp: assms(2) stored_quota_def)
qed

lemma q_DeleteQuotasForTenant_Inr:
  assumes "q_DeleteQuotasForTenant i db = (Inr u, db')" "admin_ok db"
  shows "admin_ok db' \<and> only_tenant i db db' \<and> db_audit db' = db_audit db \<and> db_tenants db' = db_tenants db \<and>
    db_keys db' = db_keys db \<and> stored_quota db' = stored_quota db \<and> find_quota i kind db' = None"
  using deleted_quotas [OF assms(2), of db' "\<lambda>r. fst r \<noteq> i" i kind] assms(1)
  by (cases "find_quota i kind db'") (auto simp: q_DeleteQuotasForTenant_def)

lemma q_DeleteQuota_Inr:
  assumes "q_DeleteQuota i kind db = (Inr n, db')" "admin_ok db"
  shows "admin_ok db' \<and> only_tenant i db db' \<and> db_audit db' = db_audit db \<and> db_tenants db' = db_tenants db \<and>
    db_keys db' = db_keys db \<and> (n = 0 \<longrightarrow> db' = db) \<and>
    find_quota i k db' = (if k = kind then None else find_quota i k db)"
proof -
  have db': "db' = db\<lparr>db_quotas := filter (\<lambda>r. \<not> quota_row i kind r) (db_quotas db)\<rparr>"
    and n: "n = length (filter (quota_row i kind) (db_quotas db))"
    using assms(1) by (auto simp: q_DeleteQuota_def)
  have "db' = db" if "n = 0" using that unfolding n db' by (simp add: filter_empty_conv filter_id_conv)
  moreover note del = deleted_quotas [OF assms(2) db', of i]
  have "find_quota i k db' = (if k = kind then None else find_quota i k db)"
    by (rule option_ext) (use del find_quota_iff [OF assms(2)] in \<open>auto simp: quota_row_def\<close>)
  ultimately show ?thesis using del by (auto simp: quota_row_def)
qed

lemma q_CreateAuditEntry_Inr:
  "q_CreateAuditEntry e db = (Inr u, db') \<Longrightarrow>
     db' = db\<lparr>db_audit := db_audit db @ [e\<lparr>ae_At := db_time db (ae_At e)\<rparr>]\<rparr>"
  by (auto simp: q_CreateAuditEntry_def Let_def split: if_splits)

end
