(* ===== verification/Admin_Service.thy ===== *)
theory Admin_Service
  imports Admin_Store
begin

text \<open>
  The admin use cases on tenants, keys and quotas (\<open>usecases/admin/service.go\<close>, \<open>tenants.go\<close>,
  \<open>keys.go\<close>, \<open>quotas.go\<close>), each the whole handler: validation, the transaction, the row lock, the
  comparison that makes a repeat a no-op, the write and its audit row.

  Parameters (\<open>Service\<close>): \<open>uuid.Parse\<close>, SHA-256, JSON decoding and the encoding of audit details.
  What \<open>uuid.NewV7\<close>, the random reader and the clock return during one call is \<open>call_env\<close>.
\<close>

section \<open>Definitions\<close>

subsection \<open>The service\<close>

datatype audit_detail =
    TenantDetail string string string bool
  | APIKeyDetail string "string list option" bool
  | QuotaDetails "(WindowKind \<times> time option \<times> time option \<times> int \<times> QuotaAction) list"
  | WindowKindDetail WindowKind
  | UserDetail uuid string Role
  | LoginFailureDetail string string string
  | CredentialDetail uuid string string Role "time option"

record 'r Service =
  sv_json :: "'r json_value_env"
  sv_parse :: "string \<Rightarrow> uuid option"
  sv_sha256 :: "string \<Rightarrow> string"
  sv_marshal :: "audit_detail \<Rightarrow> string option"

record call_env =
  ce_id :: "uuid option"
  ce_audit_id :: "uuid option"
  ce_random :: "string option"
  ce_now :: time

definition newID :: "call_env \<Rightarrow> uuid action" where
  "newID c = (case ce_id c of None \<Rightarrow> pg_fail ErrEntropy | Some i \<Rightarrow> pg_return i)"

definition mutate :: "'a action \<Rightarrow> 'a action" where
  "mutate fn = InTx (pg_bind fn pg_return)"

definition audit :: "'r Service \<Rightarrow> call_env \<Rightarrow> string \<Rightarrow> string \<Rightarrow> uuid option \<Rightarrow> uuid option \<Rightarrow> audit_detail \<Rightarrow> unit action" where
  "audit S c actor action tenantID keyID detail =
     (case ce_audit_id c of
        None \<Rightarrow> pg_fail ErrEntropy
      | Some i \<Rightarrow>
          (case sv_marshal S detail of
             None \<Rightarrow> pg_fail ErrEncode
           | Some raw \<Rightarrow>
               insertAudit \<lparr>ae_ID = i, ae_At = ce_now c, ae_TenantID = tenantID, ae_KeyID = keyID, ae_Actor = actor,
                            ae_Action = action, ae_Detail = raw\<rparr>))"

subsection \<open>Tenants\<close>

definition tenantDetail :: "TenantAccount \<Rightarrow> audit_detail" where
  "tenantDetail t =
     TenantDetail (ta_ExternalID t) (ta_Name t) (if ta_Metadata t = '''' then ''{}'' else ta_Metadata t)
       (TenantAccount_Disabled t)"

definition resolveTenant :: "'r Service \<Rightarrow> string \<Rightarrow> TenantAccount action" where
  "resolveTenant S ref =
     (if ref = '''' then pg_fail (ErrInvalid TenantRequired)
      else
        case sv_parse S ref of
          None \<Rightarrow> tenantRepo_GetByExternalID ref
        | Some i \<Rightarrow> pg_try (tenantRepo_Get i) (\<lambda>r.
            case r of
              Inr t \<Rightarrow> pg_return t
            | Inl e \<Rightarrow> if e = ErrNotFound then tenantRepo_GetByExternalID ref else pg_fail e))"

definition lockTenant :: "'r Service \<Rightarrow> string \<Rightarrow> TenantAccount action" where
  "lockTenant S ref = pg_bind (resolveTenant S ref) (\<lambda>t. tenantRepo_Lock (ta_ID t))"

record NewTenant =
  nt_ExternalID :: string
  nt_Name :: string
  nt_Metadata :: string

definition CreateTenant :: "'r Service \<Rightarrow> call_env \<Rightarrow> string \<Rightarrow> NewTenant \<Rightarrow> (TenantAccount \<times> bool) action" where
  "CreateTenant S c w spec =
     (case validExternalID (nt_ExternalID spec) of
        Some e \<Rightarrow> pg_fail (ErrInvalid e)
      | None \<Rightarrow>
     (case validName (nt_Name spec) of
        Some e \<Rightarrow> pg_fail (ErrInvalid e)
      | None \<Rightarrow>
     (case metadataObject (sv_json S) (nt_Metadata spec) of
        Inl e \<Rightarrow> pg_fail (ErrInvalid e)
      | Inr metadata \<Rightarrow>
          mutate
            (pg_bind (newID c) (\<lambda>i.
             pg_bind (tenantRepo_Create i (nt_ExternalID spec) (nt_Name spec) metadata) (\<lambda>(t, created).
             if \<not> created then
               if ta_Name t \<noteq> nt_Name spec \<or> \<not> sameJSON (sv_json S) (ta_Metadata t) metadata
               then pg_fail ErrConflict else pg_return (t, False)
             else
               pg_bind (audit S c w ''tenant.create'' (Some (ta_ID t)) None (tenantDetail t)) (\<lambda>_.
               pg_return (t, True))))))))"

definition DefaultTenantLimit :: int where "DefaultTenantLimit = 100"
definition MaxTenantLimit :: int where "MaxTenantLimit = 1000"

definition ListTenants :: "bool \<Rightarrow> int \<Rightarrow> TenantAccount list action" where
  "ListTenants include_disabled limit =
     (if limit = 0 then tenantRepo_List include_disabled DefaultTenantLimit
      else if limit < 0 \<or> limit > MaxTenantLimit then pg_fail (ErrInvalid LimitOutOfRange)
      else tenantRepo_List include_disabled limit)"

definition GetTenant :: "'r Service \<Rightarrow> string \<Rightarrow> TenantAccount action" where
  "GetTenant S ref = resolveTenant S ref"

record TenantPatch =
  tp_Name :: "string option"
  tp_Metadata :: "string option"

definition checked_patch :: "'r Service \<Rightarrow> TenantPatch \<Rightarrow> invalid + TenantPatch" where
  "checked_patch S p =
     (if tp_Name p = None \<and> tp_Metadata p = None then Inl NothingToUpdate
      else
        case (case tp_Name p of None \<Rightarrow> None | Some n \<Rightarrow> validName n) of
          Some e \<Rightarrow> Inl e
        | None \<Rightarrow>
            (case tp_Metadata p of
               None \<Rightarrow> Inr p
             | Some raw \<Rightarrow>
                 (case metadataObject (sv_json S) raw of
                    Inl e \<Rightarrow> Inl e
                  | Inr metadata \<Rightarrow> Inr (p\<lparr>tp_Metadata := Some metadata\<rparr>))))"

definition UpdateTenant :: "'r Service \<Rightarrow> call_env \<Rightarrow> string \<Rightarrow> string \<Rightarrow> TenantPatch \<Rightarrow> TenantAccount action" where
  "UpdateTenant S c w ref p0 =
     (case checked_patch S p0 of
        Inl e \<Rightarrow> pg_fail (ErrInvalid e)
      | Inr p \<Rightarrow>
          mutate
            (pg_bind (lockTenant S ref) (\<lambda>t.
             let nameSame = (case tp_Name p of None \<Rightarrow> True | Some n \<Rightarrow> n = ta_Name t);
                 metaSame = (case tp_Metadata p of None \<Rightarrow> True | Some m \<Rightarrow> sameJSON (sv_json S) m (ta_Metadata t))
             in if nameSame \<and> metaSame then pg_return t
                else
                  pg_bind (tenantRepo_Update (ta_ID t) (tp_Name p) (tp_Metadata p)) (\<lambda>t'.
                  pg_bind (audit S c w ''tenant.update'' (Some (ta_ID t')) None (tenantDetail t')) (\<lambda>_.
                  pg_return t')))))"

definition DisableTenant :: "'r Service \<Rightarrow> call_env \<Rightarrow> string \<Rightarrow> string \<Rightarrow> TenantAccount action" where
  "DisableTenant S c w ref =
     mutate
       (pg_bind (lockTenant S ref) (\<lambda>t.
        if TenantAccount_Disabled t then pg_return t
        else
          pg_bind (tenantRepo_Disable (ta_ID t)) (\<lambda>t'.
          pg_bind (audit S c w ''tenant.disable'' (Some (ta_ID t')) None (tenantDetail t')) (\<lambda>_.
          pg_return t'))))"

definition EnableTenant :: "'r Service \<Rightarrow> call_env \<Rightarrow> string \<Rightarrow> string \<Rightarrow> TenantAccount action" where
  "EnableTenant S c w ref =
     mutate
       (pg_bind (lockTenant S ref) (\<lambda>t.
        if \<not> TenantAccount_Disabled t then pg_return t
        else
          pg_bind (tenantRepo_Enable (ta_ID t)) (\<lambda>t'.
          pg_bind (audit S c w ''tenant.enable'' (Some (ta_ID t')) None (tenantDetail t')) (\<lambda>_.
          pg_return t'))))"

subsection \<open>Keys\<close>

definition KeyPrefix :: string where "KeyPrefix = ''gr_live_''"

definition keyDetail :: "APIKey \<Rightarrow> audit_detail" where
  "keyDetail k = APIKeyDetail (ak_Prefix k) (ak_ModelAllowlist k) (APIKey_Revoked k)"

definition CreateAPIKey :: "'r Service \<Rightarrow> call_env \<Rightarrow> string \<Rightarrow> string \<Rightarrow> string list option \<Rightarrow> (APIKey \<times> string) action" where
  "CreateAPIKey S c w ref allowlist0 =
     (case validAllowlist allowlist0 of
        Inl e \<Rightarrow> pg_fail (ErrInvalid e)
      | Inr allowlist \<Rightarrow>
          mutate
            (pg_bind (lockTenant S ref) (\<lambda>t.
             if TenantAccount_Disabled t then pg_fail ErrConflict
             else
               case Mint (sv_sha256 S) KeyPrefix (ce_random c) of
                 None \<Rightarrow> pg_fail ErrEntropy
               | Some minted \<Rightarrow>
                   pg_bind (newID c) (\<lambda>i.
                   pg_bind (apiKeyRepo_Create i (ta_ID t) (mi_Prefix minted) allowlist (mi_Hash minted)) (\<lambda>k.
                   pg_bind (audit S c w ''key.create'' (Some (ta_ID t)) (Some (ak_ID k)) (keyDetail k)) (\<lambda>_.
                   pg_return (k, mi_Secret minted)))))))"

definition ListAPIKeys :: "'r Service \<Rightarrow> string \<Rightarrow> APIKey list action" where
  "ListAPIKeys S ref = pg_bind (resolveTenant S ref) (\<lambda>t. apiKeyRepo_ListByTenant (ta_ID t))"

definition GetAPIKey :: "uuid \<Rightarrow> APIKey action" where
  "GetAPIKey i = apiKeyRepo_Get i"

definition lockKey :: "uuid \<Rightarrow> APIKey action" where
  "lockKey i =
     pg_bind (apiKeyRepo_Get i) (\<lambda>k.
     pg_bind (tenantRepo_Lock (ak_TenantID k)) (\<lambda>_.
     apiKeyRepo_Get i))"

definition UpdateAPIKey :: "'r Service \<Rightarrow> call_env \<Rightarrow> string \<Rightarrow> uuid \<Rightarrow> string list option \<Rightarrow> APIKey action" where
  "UpdateAPIKey S c w i allowlist0 =
     (case validAllowlist allowlist0 of
        Inl e \<Rightarrow> pg_fail (ErrInvalid e)
      | Inr allowlist \<Rightarrow>
          mutate
            (pg_bind (lockKey i) (\<lambda>k.
             if APIKey_Revoked k then pg_fail ErrConflict
             else if sameAllowlist (ak_ModelAllowlist k) allowlist then pg_return k
             else
               pg_bind (apiKeyRepo_UpdateAllowlist i allowlist) (\<lambda>k'.
               pg_bind (audit S c w ''key.update'' (Some (ak_TenantID k')) (Some (ak_ID k')) (keyDetail k')) (\<lambda>_.
               pg_return k')))))"

definition RevokeAPIKey :: "'r Service \<Rightarrow> call_env \<Rightarrow> string \<Rightarrow> uuid \<Rightarrow> APIKey action" where
  "RevokeAPIKey S c w i =
     mutate
       (pg_bind (lockKey i) (\<lambda>k.
        if APIKey_Revoked k then pg_return k
        else
          pg_bind (apiKeyRepo_Revoke i) (\<lambda>k'.
          pg_bind (audit S c w ''key.revoke'' (Some (ak_TenantID k')) (Some (ak_ID k')) (keyDetail k')) (\<lambda>_.
          pg_return k'))))"

subsection \<open>Quotas\<close>

definition ListQuotas :: "'r Service \<Rightarrow> string \<Rightarrow> Quota list action" where
  "ListQuotas S ref = pg_bind (resolveTenant S ref) (\<lambda>t. quotaRepo_List (ta_ID t))"

definition GetQuota :: "'r Service \<Rightarrow> string \<Rightarrow> WindowKind \<Rightarrow> Quota action" where
  "GetQuota S ref kind =
     (if \<not> WindowKind_Valid kind then pg_fail (ErrInvalid (UnknownWindowKind kind))
      else pg_bind (resolveTenant S ref) (\<lambda>t. quotaRepo_Get (ta_ID t) kind))"

definition quotaDetails :: "Quota list \<Rightarrow> audit_detail" where
  "quotaDetails qs =
     QuotaDetails (map (\<lambda>q. (q_WindowKind q, q_PeriodStart q, q_PeriodEnd q, q_MaxCost q, q_OnExceed q)) qs)"

fun write_quotas :: "uuid \<Rightarrow> Quota list \<Rightarrow> Quota list \<Rightarrow> Quota list action" where
  "write_quotas tenant written [] = pg_return written"
| "write_quotas tenant written (q # rest) =
     pg_bind (quotaRepo_Upsert tenant q) (\<lambda>stored. write_quotas tenant (written @ [stored]) rest)"

definition ReplaceQuotas :: "'r Service \<Rightarrow> call_env \<Rightarrow> string \<Rightarrow> string \<Rightarrow> Quota list \<Rightarrow> Quota list action" where
  "ReplaceQuotas S c w ref set0 =
     (case validQuotaSet set0 of
        Inl e \<Rightarrow> pg_fail (ErrInvalid e)
      | Inr desired \<Rightarrow>
          mutate
            (pg_bind (lockTenant S ref) (\<lambda>t.
             pg_bind (quotaRepo_List (ta_ID t)) (\<lambda>current.
             if sameQuotaSet current desired then pg_return current
             else
               pg_bind (quotaRepo_DeleteAll (ta_ID t)) (\<lambda>_.
               pg_bind (write_quotas (ta_ID t) [] desired) (\<lambda>written.
               pg_bind (audit S c w ''quota.replace'' (Some (ta_ID t)) None (quotaDetails written)) (\<lambda>_.
               pg_return written)))))))"

definition PutQuota :: "'r Service \<Rightarrow> call_env \<Rightarrow> string \<Rightarrow> string \<Rightarrow> Quota \<Rightarrow> Quota action" where
  "PutQuota S c w ref q0 =
     (case validQuota q0 of
        Inl e \<Rightarrow> pg_fail (ErrInvalid e)
      | Inr q \<Rightarrow>
          mutate
            (pg_bind (lockTenant S ref) (\<lambda>t.
             let write =
               pg_bind (quotaRepo_Upsert (ta_ID t) q) (\<lambda>stored.
               pg_bind (audit S c w ''quota.upsert'' (Some (ta_ID t)) None (quotaDetails [stored])) (\<lambda>_.
               pg_return stored))
             in pg_try (quotaRepo_Get (ta_ID t) (q_WindowKind q)) (\<lambda>r.
               case r of
                 Inr current \<Rightarrow> if SameLimits current q then pg_return current else write
               | Inl e \<Rightarrow> if e = ErrNotFound then write else pg_fail e))))"

definition DeleteQuota :: "'r Service \<Rightarrow> call_env \<Rightarrow> string \<Rightarrow> string \<Rightarrow> WindowKind \<Rightarrow> unit action" where
  "DeleteQuota S c w ref kind =
     (if \<not> WindowKind_Valid kind then pg_fail (ErrInvalid (UnknownWindowKind kind))
      else
        mutate
          (pg_bind (lockTenant S ref) (\<lambda>t.
           pg_bind (quotaRepo_Delete (ta_ID t) kind) (\<lambda>deleted.
           if \<not> deleted then pg_return ()
           else audit S c w ''quota.delete'' (Some (ta_ID t)) None (WindowKindDetail kind)))))"

subsection \<open>The mutations of the admin API\<close>

text \<open>The methods of \<open>ports.Admin\<close> that take a \<open>Write\<close>.\<close>

datatype mutation =
    CreateTenantCall NewTenant
  | UpdateTenantCall string TenantPatch
  | DisableTenantCall string
  | EnableTenantCall string
  | CreateAPIKeyCall string "string list option"
  | UpdateAPIKeyCall uuid "string list option"
  | RevokeAPIKeyCall uuid
  | ReplaceQuotasCall string "Quota list"
  | PutQuotaCall string Quota
  | DeleteQuotaCall string WindowKind

definition completed :: "'a action \<Rightarrow> unit action" where
  "completed m p = (case m p of (Inl e, q) \<Rightarrow> (Inl e, q) | (Inr _, q) \<Rightarrow> (Inr (), q))"

fun run_mutation :: "'r Service \<Rightarrow> call_env \<Rightarrow> string \<Rightarrow> mutation \<Rightarrow> unit action" where
  "run_mutation S c w (CreateTenantCall spec) = completed (CreateTenant S c w spec)"
| "run_mutation S c w (UpdateTenantCall ref p) = completed (UpdateTenant S c w ref p)"
| "run_mutation S c w (DisableTenantCall ref) = completed (DisableTenant S c w ref)"
| "run_mutation S c w (EnableTenantCall ref) = completed (EnableTenant S c w ref)"
| "run_mutation S c w (CreateAPIKeyCall ref al) = completed (CreateAPIKey S c w ref al)"
| "run_mutation S c w (UpdateAPIKeyCall i al) = completed (UpdateAPIKey S c w i al)"
| "run_mutation S c w (RevokeAPIKeyCall i) = completed (RevokeAPIKey S c w i)"
| "run_mutation S c w (ReplaceQuotasCall ref qs) = completed (ReplaceQuotas S c w ref qs)"
| "run_mutation S c w (PutQuotaCall ref q) = completed (PutQuota S c w ref q)"
| "run_mutation S c w (DeleteQuotaCall ref kind) = completed (DeleteQuota S c w ref kind)"

section \<open>Facts\<close>

subsection \<open>Looking rows up\<close>

text \<open>What a tenant reference names: our id first, the customer's id otherwise.\<close>

definition tenant_of :: "'r Service \<Rightarrow> string \<Rightarrow> admin_db \<Rightarrow> TenantAccount option" where
  "tenant_of S ref db =
     (if ref = '''' then None
      else
        case sv_parse S ref of
          None \<Rightarrow> find_external ref db
        | Some i \<Rightarrow> (case find_tenant i db of Some t \<Rightarrow> Some t | None \<Rightarrow> find_external ref db))"

lemma found_Inl_NotFound:
  "found (select_one f) p = (Inl ErrNotFound, q) \<Longrightarrow> pg_db q = pg_db p \<and> f (pg_db p) = None"
  by (auto simp: found_def pg_bind_def stmt_def pg_stmt_def split: prod.splits sum.splits option.splits pg_fault.splits)

lemma resolveTenant_Inr:
  assumes "resolveTenant S ref p = (Inr t, q)"
  shows "pg_db q = pg_db p \<and> tenant_of S ref (pg_db p) = Some t"
proof (cases "sv_parse S ref")
  case None
  then show ?thesis
    using assms
    by (auto simp: resolveTenant_def tenant_of_def tenantRepo_GetByExternalID_def found_Inr split: if_splits)
next
  case (Some i)
  obtain r p1 where get: "tenantRepo_Get i p = (r, p1)" by fastforce
  with Some assms have ref: "ref \<noteq> ''''"
    and rest: "(case r of Inr t \<Rightarrow> pg_return t | Inl e \<Rightarrow>
      if e = ErrNotFound then tenantRepo_GetByExternalID ref else pg_fail e) p1 = (Inr t, q)"
    by (auto simp: resolveTenant_def pg_try_def split: if_splits)
  show ?thesis
  proof (cases r)
    case (Inr t')
    with rest get ref Some show ?thesis by (auto simp: tenantRepo_Get_def found_Inr tenant_of_def split: option.splits)
  next
    case (Inl e)
    then have "e = ErrNotFound" using rest by (auto split: if_splits)
    with Inl rest get ref Some show ?thesis
      by (auto simp: tenantRepo_Get_def tenantRepo_GetByExternalID_def found_Inr tenant_of_def dest!: found_Inl_NotFound)
  qed
qed

lemma tenant_of_Some: "tenant_of S ref db = Some t \<Longrightarrow> t \<in> set (db_tenants db)"
  by (auto simp: tenant_of_def dest: find_tenant_Some find_external_Some split: if_splits option.splits)

lemma lockTenant_Inr:
  assumes "lockTenant S ref p = (Inr t, q)" "admin_ok (pg_db p)"
  shows "pg_db q = pg_db p \<and> tenant_of S ref (pg_db p) = Some t \<and> find_tenant (ta_ID t) (pg_db p) = Some t"
proof -
  obtain t' p' where t': "resolveTenant S ref p = (Inr t', p')" "tenantRepo_Lock (ta_ID t') p' = (Inr t, q)"
    using assms(1) by (auto simp: lockTenant_def pg_bind_Inr)
  note r = resolveTenant_Inr [OF t'(1)]
  have "find_tenant (ta_ID t') (pg_db p) = Some t'"
    using r tenant_of_Some [of S ref "pg_db p" t'] assms(2) by (simp add: find_tenant_iff)
  then show ?thesis using t'(2) r by (auto simp: tenantRepo_Lock_def found_Inr)
qed

lemma lockKey_Inr: "lockKey i p = (Inr k, q) \<Longrightarrow> pg_db q = pg_db p \<and> find_key i (pg_db p) = Some k"
  by (auto simp: lockKey_def pg_bind_Inr apiKeyRepo_Get_def tenantRepo_Lock_def found_Inr)

subsection \<open>Change and audit row together\<close>

lemma audit_Inr:
  assumes "audit S c w act tid kid d p = (Inr u, q)"
  shows "\<exists>e. ae_Actor e = w \<and> ae_Action e = act \<and> ae_TenantID e = tid \<and> ae_KeyID e = kid \<and>
    pg_db q = (pg_db p)\<lparr>db_audit := db_audit (pg_db p) @ [e]\<rparr>"
  using assms
  by (force simp: audit_def insertAudit_def stmt_Inr dest!: q_CreateAuditEntry_Inr split: option.splits)

lemma definite_audit [definite_intros]: "definite_body (audit S c w act tid kid d)"
  unfolding audit_def insertAudit_def by (intro definite_intros)

lemma definite_newID [definite_intros]: "definite_body (newID c)"
  unfolding newID_def by (intro definite_intros)

lemma definite_lockTenant [definite_intros]: "definite_body (lockTenant S ref)"
  unfolding lockTenant_def resolveTenant_def tenantRepo_Lock_def tenantRepo_Get_def tenantRepo_GetByExternalID_def
  by (intro definite_intros)

lemma definite_lockKey [definite_intros]: "definite_body (lockKey i)"
  unfolding lockKey_def tenantRepo_Lock_def apiKeyRepo_Get_def by (intro definite_intros)

lemma definite_write_quotas [definite_intros]: "definite_body (write_quotas i acc qs)"
  by (induction qs arbitrary: acc) (auto simp: quotaRepo_Upsert_def intro!: definite_intros)

lemmas repo_defs = tenantRepo_Create_def tenantRepo_Update_def tenantRepo_Disable_def tenantRepo_Enable_def
  apiKeyRepo_Create_def apiKeyRepo_UpdateAllowlist_def apiKeyRepo_Revoke_def quotaRepo_Get_def quotaRepo_List_def
  quotaRepo_Upsert_def quotaRepo_Delete_def quotaRepo_DeleteAll_def

definition audited_change :: "string \<Rightarrow> string \<Rightarrow> admin_db \<Rightarrow> admin_db \<Rightarrow> bool" where
  "audited_change w act db db' \<longleftrightarrow>
     (\<exists>e i. db_audit db' = db_audit db @ [e] \<and> ae_Actor e = w \<and> ae_Action e = act \<and> ae_TenantID e = Some i \<and>
            only_tenant i db db' \<and> keeps_rows db db')"

text \<open>A write to one tenant's rows that the constraints allow and that has not been audited yet.\<close>

definition changes :: "uuid \<Rightarrow> admin_db \<Rightarrow> admin_db \<Rightarrow> bool" where
  "changes i db db' \<longleftrightarrow> admin_ok db' \<and> only_tenant i db db' \<and> keeps_rows db db' \<and> db_audit db' = db_audit db"

lemma audit_changes:
  assumes "audit S c w act (Some i) kid d u = (Inr x, t)" "changes i db (pg_db u)"
  shows "audited_change w act db (pg_db t) \<and> admin_ok (pg_db t)"
  using assms by (auto simp: audited_change_def changes_def dest!: audit_Inr)

lemma changes_trans: "changes i a b \<Longrightarrow> changes i b c \<Longrightarrow> changes i a c"
  by (auto simp: changes_def intro: only_tenant_trans keeps_rows_trans)

lemma tenant_update_changes:
  assumes "found (\<lambda>db. update_tenant i (P db) (f db) db) s = (Inr t, u)" "admin_ok (pg_db s)"
    and "\<And>db t. ta_ID (f db t) = ta_ID t \<and> ta_ExternalID (f db t) = ta_ExternalID t \<and> ta_CreatedAt (f db t) = ta_CreatedAt t"
  shows "changes i (pg_db s) (pg_db u) \<and> ta_ID t = i"
proof -
  have run: "update_tenant i (P (pg_db s)) (f (pg_db s)) (pg_db s) = (Inr (Some t), pg_db u)"
    using assms(1) by (auto simp: found_Inr)
  from update_tenant_Some [OF this assms(2)] update_tenant_keeps [OF run] assms(3) show ?thesis
    by (auto simp: changes_def dest: find_tenant_Some)
qed

lemma key_update_changes:
  assumes "found (\<lambda>db. update_key i (P db) (f db) db) s = (Inr k, u)" "admin_ok (pg_db s)"
    and "\<And>db k. ak_ID (f db k) = ak_ID k \<and> ak_TenantID (f db k) = ak_TenantID k" "\<And>db k. P db k \<Longrightarrow> \<not> APIKey_Revoked k"
  shows "changes (ak_TenantID k) (pg_db s) (pg_db u) \<and> ak_ID k = i"
proof -
  have run: "update_key i (P (pg_db s)) (f (pg_db s)) (pg_db s) = (Inr (Some k), pg_db u)"
    using assms(1) by (auto simp: found_Inr)
  from update_key_Some [OF this assms(2,3)] update_key_keeps [OF run assms(4,3)] show ?thesis
    using assms(2) by (auto simp: changes_def find_key_iff)
qed

lemma repo_changes:
  assumes "admin_ok (pg_db s)"
  shows "tenantRepo_Update i n m s = (Inr t, u) \<Longrightarrow> changes i (pg_db s) (pg_db u) \<and> ta_ID t = i"
    "tenantRepo_Disable i s = (Inr t, u) \<Longrightarrow> changes i (pg_db s) (pg_db u) \<and> ta_ID t = i"
    "tenantRepo_Enable i s = (Inr t, u) \<Longrightarrow> changes i (pg_db s) (pg_db u) \<and> ta_ID t = i"
    "apiKeyRepo_Create j i pre al hash s = (Inr k, u) \<Longrightarrow> changes i (pg_db s) (pg_db u)"
    "apiKeyRepo_UpdateAllowlist j al s = (Inr k, u) \<Longrightarrow> changes (ak_TenantID k) (pg_db s) (pg_db u) \<and> ak_ID k = j"
    "apiKeyRepo_Revoke j s = (Inr k, u) \<Longrightarrow> changes (ak_TenantID k) (pg_db s) (pg_db u) \<and> ak_ID k = j"
    "quotaRepo_Upsert i quo s = (Inr stored, u) \<Longrightarrow> changes i (pg_db s) (pg_db u)"
    "quotaRepo_DeleteAll i s = (Inr x, u) \<Longrightarrow> changes i (pg_db s) (pg_db u)"
    "quotaRepo_Delete i kind s = (Inr gone, u) \<Longrightarrow> changes i (pg_db s) (pg_db u) \<and> (\<not> gone \<longrightarrow> pg_db u = pg_db s)"
proof -
  note upd = tenant_update_changes [OF _ assms] key_update_changes [OF _ assms]
  show "changes i (pg_db s) (pg_db u) \<and> ta_ID t = i" if "tenantRepo_Update i n m s = (Inr t, u)"
    using that unfolding tenantRepo_Update_def q_UpdateTenant_def by (rule upd) simp
  show "changes i (pg_db s) (pg_db u) \<and> ta_ID t = i" if "tenantRepo_Disable i s = (Inr t, u)"
    using that unfolding tenantRepo_Disable_def q_DisableTenant_def by (rule upd) simp
  show "changes i (pg_db s) (pg_db u) \<and> ta_ID t = i" if "tenantRepo_Enable i s = (Inr t, u)"
    using that unfolding tenantRepo_Enable_def q_EnableTenant_def by (rule upd) simp
  show "changes i (pg_db s) (pg_db u)" if "apiKeyRepo_Create j i pre al hash s = (Inr k, u)"
    using that assms by (auto simp: apiKeyRepo_Create_def stmt_Inr changes_def keeps_rows_def dest!: q_CreateAPIKey_Inr)
  show "changes (ak_TenantID k) (pg_db s) (pg_db u) \<and> ak_ID k = j" if "apiKeyRepo_UpdateAllowlist j al s = (Inr k, u)"
    using that unfolding apiKeyRepo_UpdateAllowlist_def q_UpdateAPIKeyAllowlist_def
    by (rule upd) (simp_all add: APIKey_Revoked_def)
  show "changes (ak_TenantID k) (pg_db s) (pg_db u) \<and> ak_ID k = j" if "apiKeyRepo_Revoke j s = (Inr k, u)"
    using that unfolding apiKeyRepo_Revoke_def q_RevokeAPIKey_def
    by (rule upd) (simp_all add: APIKey_Revoked_def)
  show "changes i (pg_db s) (pg_db u)" if "quotaRepo_Upsert i quo s = (Inr stored, u)"
    using that assms by (auto simp: quotaRepo_Upsert_def stmt_Inr changes_def dest!: q_UpsertQuota_Inr intro!: keeps_rows_same)
  show "changes i (pg_db s) (pg_db u)" if "quotaRepo_DeleteAll i s = (Inr x, u)"
    using that assms by (auto simp: quotaRepo_DeleteAll_def stmt_Inr changes_def dest!: q_DeleteQuotasForTenant_Inr intro!: keeps_rows_same)
  show "changes i (pg_db s) (pg_db u) \<and> (\<not> gone \<longrightarrow> pg_db u = pg_db s)" if "quotaRepo_Delete i kind s = (Inr gone, u)"
    using that assms by (auto simp: quotaRepo_Delete_def pg_bind_Inr stmt_Inr changes_def dest!: q_DeleteQuota_Inr intro!: keeps_rows_same)
qed

lemma mutate_all_or_nothing:
  assumes "mutate fn p = (r, q)" "pg_definite p" "definite_body fn"
    and "\<And>s a t. fn s = (Inr a, t) \<Longrightarrow> R (pg_db s) (pg_db t)"
  shows "pg_db q = pg_db p \<or> ((\<exists>a. r = Inr a) \<and> R (pg_db p) (pg_db q))"
proof (rule pg_tx.all_or_nothing)
  show "with_tx StoreFailed (pg_bind fn pg_return) p = (r, q)" using assms(1) by (simp add: mutate_def InTx_def)
qed (use assms(2-4) in \<open>auto simp: pg_bind_Inr intro!: definite_intros\<close>)

lemma mutate_audited:
  assumes "mutate fn p = (r, q)" "pg_definite p" "admin_ok (pg_db p)" "definite_body fn"
    and "\<And>s a t. fn s = (Inr a, t) \<Longrightarrow> admin_ok (pg_db s) \<Longrightarrow>
      pg_db t = pg_db s \<or> (audited_change w act (pg_db s) (pg_db t) \<and> admin_ok (pg_db t))"
  shows "pg_db q = pg_db p \<or> ((\<exists>a. r = Inr a) \<and> audited_change w act (pg_db p) (pg_db q) \<and> admin_ok (pg_db q))"
  using mutate_all_or_nothing [OF assms(1,2,4), of "\<lambda>d e. admin_ok d \<longrightarrow>
      e = d \<or> (audited_change w act d e \<and> admin_ok e)"] assms(3,5) by blast

subsection \<open>Every mutation\<close>

lemma CreateTenant_refused:
  assumes "CreateTenant S c w spec p = (r, q)"
    and "\<not> (validExternalID (nt_ExternalID spec) = None \<and> validName (nt_Name spec) = None \<and>
           (\<exists>m. metadataObject (sv_json S) (nt_Metadata spec) = Inr m))"
  shows "q = p"
proof -
  have "(\<exists>e. validExternalID (nt_ExternalID spec) = Some e) \<or>
      (validExternalID (nt_ExternalID spec) = None \<and> (\<exists>e. validName (nt_Name spec) = Some e)) \<or>
      (validExternalID (nt_ExternalID spec) = None \<and> validName (nt_Name spec) = None \<and>
       (\<exists>e. metadataObject (sv_json S) (nt_Metadata spec) = Inl e))"
    using assms(2) by (meson not_Some_eq sumE)
  then have "\<exists>e. CreateTenant S c w spec = pg_fail e"
    unfolding CreateTenant_def by (elim disjE conjE exE) (simp_all only: option.case sum.case; blast)+
  then show ?thesis using assms(1) by auto
qed

lemma tenantRepo_Create_cases:
  assumes "tenantRepo_Create i ext name m s = (Inr (t, created), u)"
  shows "(created \<and> q_CreateTenant i ext name m (pg_db s) = (Inr (Some t), pg_db u)) \<or>
    (\<not> created \<and> q_CreateTenant i ext name m (pg_db s) = (Inr None, pg_db u) \<and> find_external ext (pg_db u) = Some t)"
  using assms unfolding tenantRepo_Create_def pg_bind_Inr stmt_Inr
  by (elim exE conjE) (auto simp: pg_bind_Inr stmt_Inr split: option.splits)

lemma tenantRepo_Create_changes:
  assumes "tenantRepo_Create i ext name m s = (Inr (t, created), u)" "admin_ok (pg_db s)"
  shows "(created \<longrightarrow> changes (ta_ID t) (pg_db s) (pg_db u)) \<and> (\<not> created \<longrightarrow> pg_db u = pg_db s)"
  using tenantRepo_Create_cases [OF assms(1)]
proof (elim disjE conjE)
  assume created and row: "q_CreateTenant i ext name m (pg_db s) = (Inr (Some t), pg_db u)"
  note cr = q_CreateTenant_Some [OF row assms(2)]
  then have "keeps_rows (pg_db s) (pg_db u)" by (metis keeps_rows_new_tenant)
  then have "changes (ta_ID t) (pg_db s) (pg_db u)" using cr unfolding changes_def by blast
  with \<open>created\<close> show ?thesis by blast
qed (use q_CreateTenant_None in blast)

lemma CreateTenant_audited:
  assumes "CreateTenant S c w spec p = (r, q)" "pg_definite p" "admin_ok (pg_db p)"
  shows "pg_db q = pg_db p \<or>
    ((\<exists>a. r = Inr a) \<and> audited_change w ''tenant.create'' (pg_db p) (pg_db q) \<and> admin_ok (pg_db q))"
proof (cases "validExternalID (nt_ExternalID spec) = None \<and> validName (nt_Name spec) = None \<and>
    (\<exists>m. metadataObject (sv_json S) (nt_Metadata spec) = Inr m)")
  case True
  then obtain m where v: "validExternalID (nt_ExternalID spec) = None" "validName (nt_Name spec) = None"
    "metadataObject (sv_json S) (nt_Metadata spec) = Inr m" by blast
  show ?thesis
  proof (rule mutate_audited [OF assms(1) [unfolded CreateTenant_def v option.case sum.case] assms(2,3)], goal_cases)
    case 1
    show ?case unfolding repo_defs by (intro definite_intros)
  next
    case (2 s a t)
    from 2(1) obtain i s1 where new: "newID c s = (Inr i, s1)" and body: "pg_bind
        (tenantRepo_Create i (nt_ExternalID spec) (nt_Name spec) m) (\<lambda>(t, created).
          if \<not> created then
            if ta_Name t \<noteq> nt_Name spec \<or> \<not> sameJSON (sv_json S) (ta_Metadata t) m
            then pg_fail ErrConflict else pg_return (t, False)
          else
            pg_bind (audit S c w ''tenant.create'' (Some (ta_ID t)) None (tenantDetail t)) (\<lambda>_.
            pg_return (t, True))) s1 = (Inr a, t)"
      unfolding pg_bind_Inr [of "newID c"] by blast
    from body obtain x created u where
        cr: "tenantRepo_Create i (nt_ExternalID spec) (nt_Name spec) m s1 = (Inr (x, created), u)"
      and rest: "(if \<not> created then
               if ta_Name x \<noteq> nt_Name spec \<or> \<not> sameJSON (sv_json S) (ta_Metadata x) m
               then pg_fail ErrConflict else pg_return (x, False)
             else
               pg_bind (audit S c w ''tenant.create'' (Some (ta_ID x)) None (tenantDetail x)) (\<lambda>_.
               pg_return (x, True))) u = (Inr a, t)"
      unfolding pg_bind_Inr [of "tenantRepo_Create _ _ _ _"] by auto
    have s1: "pg_db s1 = pg_db s" using new by (auto simp: newID_def split: option.splits)
    note ch = tenantRepo_Create_changes [OF cr, unfolded s1, OF 2(2)]
    show ?case
    proof (cases created)
      case True
      then obtain z where "audit S c w ''tenant.create'' (Some (ta_ID x)) None (tenantDetail x) u = (Inr z, t)"
        using rest by (auto simp: pg_bind_Inr)
      from audit_changes [OF this] ch True show ?thesis by blast
    qed (use rest ch in \<open>simp split: if_splits\<close>)
  qed
qed (use CreateTenant_refused [OF assms(1)] in blast)

lemma UpdateTenant_audited:
  assumes "UpdateTenant S c w ref patch p = (r, q)" "pg_definite p" "admin_ok (pg_db p)"
  shows "pg_db q = pg_db p \<or>
    ((\<exists>a. r = Inr a) \<and> audited_change w ''tenant.update'' (pg_db p) (pg_db q) \<and> admin_ok (pg_db q))"
proof (cases "checked_patch S patch")
  case (Inl e)
  then show ?thesis using assms(1) by (auto simp: UpdateTenant_def)
next
  case (Inr pt)
  show ?thesis
  proof (rule mutate_audited [OF assms(1) [unfolded UpdateTenant_def Inr sum.case] assms(2,3)], goal_cases)
    case 1
    show ?case unfolding Let_def repo_defs by (intro definite_intros)
  next
    case (2 s a t)
    then show ?case
      by (auto simp: pg_bind_Inr Let_def dest!: lockTenant_Inr repo_changes(1) [rotated] audit_changes split: if_splits)
  qed
qed

lemma DisableTenant_audited:
  assumes "DisableTenant S c w ref p = (r, q)" "pg_definite p" "admin_ok (pg_db p)"
  shows "pg_db q = pg_db p \<or>
    ((\<exists>a. r = Inr a) \<and> audited_change w ''tenant.disable'' (pg_db p) (pg_db q) \<and> admin_ok (pg_db q))"
proof (rule mutate_audited [OF assms(1) [unfolded DisableTenant_def] assms(2,3)], goal_cases)
  case 1
  show ?case unfolding repo_defs by (intro definite_intros)
next
  case (2 s a t)
  then show ?case
    by (auto simp: pg_bind_Inr dest!: lockTenant_Inr repo_changes(2) [rotated] audit_changes split: if_splits)
qed

lemma EnableTenant_audited:
  assumes "EnableTenant S c w ref p = (r, q)" "pg_definite p" "admin_ok (pg_db p)"
  shows "pg_db q = pg_db p \<or>
    ((\<exists>a. r = Inr a) \<and> audited_change w ''tenant.enable'' (pg_db p) (pg_db q) \<and> admin_ok (pg_db q))"
proof (rule mutate_audited [OF assms(1) [unfolded EnableTenant_def] assms(2,3)], goal_cases)
  case 1
  show ?case unfolding repo_defs by (intro definite_intros)
next
  case (2 s a t)
  then show ?case
    by (auto simp: pg_bind_Inr dest!: lockTenant_Inr repo_changes(3) [rotated] audit_changes split: if_splits)
qed

lemma CreateAPIKey_audited:
  assumes "CreateAPIKey S c w ref al p = (r, q)" "pg_definite p" "admin_ok (pg_db p)"
  shows "pg_db q = pg_db p \<or>
    ((\<exists>a. r = Inr a) \<and> audited_change w ''key.create'' (pg_db p) (pg_db q) \<and> admin_ok (pg_db q))"
proof (cases "validAllowlist al")
  case (Inr allowlist)
  show ?thesis
  proof (rule mutate_audited [OF assms(1) [unfolded CreateAPIKey_def Inr sum.case] assms(2,3)], goal_cases)
    case 1
    show ?case unfolding repo_defs by (intro definite_intros)
  next
    case (2 s a t)
    then show ?case
      by (auto simp: pg_bind_Inr newID_def dest!: lockTenant_Inr repo_changes(4) [rotated] audit_changes
          split: if_splits option.splits)
  qed
qed (use assms(1) in \<open>simp add: CreateAPIKey_def\<close>)

lemma UpdateAPIKey_audited:
  assumes "UpdateAPIKey S c w i al p = (r, q)" "pg_definite p" "admin_ok (pg_db p)"
  shows "pg_db q = pg_db p \<or>
    ((\<exists>a. r = Inr a) \<and> audited_change w ''key.update'' (pg_db p) (pg_db q) \<and> admin_ok (pg_db q))"
proof (cases "validAllowlist al")
  case (Inr allowlist)
  show ?thesis
  proof (rule mutate_audited [OF assms(1) [unfolded UpdateAPIKey_def Inr sum.case] assms(2,3)], goal_cases)
    case 1
    show ?case unfolding repo_defs by (intro definite_intros)
  next
    case (2 s a t)
    then show ?case
      by (auto simp: pg_bind_Inr dest!: lockKey_Inr repo_changes(5) [rotated] audit_changes split: if_splits)
  qed
qed (use assms(1) in \<open>simp add: UpdateAPIKey_def\<close>)

lemma RevokeAPIKey_audited:
  assumes "RevokeAPIKey S c w i p = (r, q)" "pg_definite p" "admin_ok (pg_db p)"
  shows "pg_db q = pg_db p \<or>
    ((\<exists>a. r = Inr a) \<and> audited_change w ''key.revoke'' (pg_db p) (pg_db q) \<and> admin_ok (pg_db q))"
proof (rule mutate_audited [OF assms(1) [unfolded RevokeAPIKey_def] assms(2,3)], goal_cases)
  case 1
  show ?case unfolding repo_defs by (intro definite_intros)
next
  case (2 s a t)
  then show ?case
    by (auto simp: pg_bind_Inr dest!: lockKey_Inr repo_changes(6) [rotated] audit_changes split: if_splits)
qed

lemma quotaRepo_List_Inr:
  "quotaRepo_List i p = (Inr qs, q) \<Longrightarrow>
     pg_db q = pg_db p \<and> qs = sort_key (\<lambda>q. Rank (q_WindowKind q)) (tenant_quotas i (pg_db p))"
  by (auto simp: quotaRepo_List_def stmt_Inr q_ListQuotas_def)

lemma write_quotas_changes:
  "write_quotas i acc qs s = (Inr a, t) \<Longrightarrow> admin_ok (pg_db s) \<Longrightarrow> changes i (pg_db s) (pg_db t)"
proof (induction qs arbitrary: acc s)
  case Nil
  then show ?case by (simp add: changes_def)
next
  case (Cons q qs)
  then obtain stored u where u: "quotaRepo_Upsert i q s = (Inr stored, u)" "write_quotas i (acc @ [stored]) qs u = (Inr a, t)"
    by (auto simp: pg_bind_Inr)
  have step: "changes i (pg_db s) (pg_db u)" by (rule repo_changes(7) [OF Cons.prems(2) u(1)])
  then have "changes i (pg_db u) (pg_db t)" using Cons.IH [OF u(2)] by (simp add: changes_def)
  with step show ?case by (rule changes_trans)
qed

lemma ReplaceQuotas_audited:
  assumes "ReplaceQuotas S c w ref qs p = (r, q)" "pg_definite p" "admin_ok (pg_db p)"
  shows "pg_db q = pg_db p \<or>
    ((\<exists>a. r = Inr a) \<and> audited_change w ''quota.replace'' (pg_db p) (pg_db q) \<and> admin_ok (pg_db q))"
proof (cases "validQuotaSet qs")
  case (Inr desired)
  show ?thesis
  proof (rule mutate_audited [OF assms(1) [unfolded ReplaceQuotas_def Inr sum.case] assms(2,3)], goal_cases)
    case 1
    show ?case unfolding repo_defs by (intro definite_intros)
  next
    case (2 s a t)
    from 2(1) obtain x s1 current s2 where s: "lockTenant S ref s = (Inr x, s1)" "quotaRepo_List (ta_ID x) s1 = (Inr current, s2)"
      and rest: "(if sameQuotaSet current desired then pg_return current
         else
           pg_bind (quotaRepo_DeleteAll (ta_ID x)) (\<lambda>_.
           pg_bind (write_quotas (ta_ID x) [] desired) (\<lambda>written.
           pg_bind (audit S c w ''quota.replace'' (Some (ta_ID x)) None (quotaDetails written)) (\<lambda>_.
           pg_return written)))) s2 = (Inr a, t)"
      by (auto simp: pg_bind_Inr)
    have db: "pg_db s2 = pg_db s" using lockTenant_Inr [OF s(1) 2(2)] quotaRepo_List_Inr [OF s(2)] by simp
    show ?case
    proof (cases "sameQuotaSet current desired")
      case False
      then obtain s3 s4 u where w: "quotaRepo_DeleteAll (ta_ID x) s2 = (Inr (), s3)"
          "write_quotas (ta_ID x) [] desired s3 = (Inr a, s4)"
          "audit S c w ''quota.replace'' (Some (ta_ID x)) None (quotaDetails a) s4 = (Inr u, t)"
        using rest by (auto simp: pg_bind_Inr)
      have "changes (ta_ID x) (pg_db s) (pg_db s3)" using repo_changes(8) [OF _ w(1)] 2(2) db by simp
      moreover from this have "changes (ta_ID x) (pg_db s3) (pg_db s4)"
        using write_quotas_changes [OF w(2)] by (simp add: changes_def)
      ultimately have "changes (ta_ID x) (pg_db s) (pg_db s4)" by (rule changes_trans)
      from audit_changes [OF w(3) this] show ?thesis ..
    qed (use rest db in simp)
  qed
qed (use assms(1) in \<open>simp add: ReplaceQuotas_def\<close>)

lemma PutQuota_audited:
  assumes "PutQuota S c w ref q0 p = (r, q)" "pg_definite p" "admin_ok (pg_db p)"
  shows "pg_db q = pg_db p \<or>
    ((\<exists>a. r = Inr a) \<and> audited_change w ''quota.upsert'' (pg_db p) (pg_db q) \<and> admin_ok (pg_db q))"
proof (cases "validQuota q0")
  case (Inr quo)
  show ?thesis
  proof (rule mutate_audited [OF assms(1) [unfolded PutQuota_def Inr sum.case] assms(2,3)], goal_cases)
    case 1
    show ?case unfolding repo_defs Let_def by (intro definite_intros)
  next
    case (2 s a t)
    then obtain x s1 res s2 where s: "lockTenant S ref s = (Inr x, s1)" "quotaRepo_Get (ta_ID x) (q_WindowKind quo) s1 = (res, s2)"
      by (auto simp: pg_bind_Inr) (metis surj_pair)
    have "pg_db s1 = pg_db s" using lockTenant_Inr [OF s(1) 2(2)] by simp
    moreover have "pg_db s2 = pg_db s1 \<or> (\<exists>e. res = Inl e \<and> e \<noteq> ErrNotFound)"
      using s(2) by (cases res) (auto simp: quotaRepo_Get_def found_Inr dest: found_Inl_NotFound)
    ultimately show ?case
      using 2 s
      by (auto simp: pg_bind_Inr pg_try_def Let_def dest!: repo_changes(7) [rotated] audit_changes
          split: sum.splits if_splits)
  qed
qed (use assms(1) in \<open>simp add: PutQuota_def\<close>)

lemma DeleteQuota_audited:
  assumes "DeleteQuota S c w ref kind p = (r, q)" "pg_definite p" "admin_ok (pg_db p)"
  shows "pg_db q = pg_db p \<or>
    ((\<exists>a. r = Inr a) \<and> audited_change w ''quota.delete'' (pg_db p) (pg_db q) \<and> admin_ok (pg_db q))"
proof (cases "WindowKind_Valid kind")
  case True
  show ?thesis
  proof (rule mutate_audited [OF assms(1) [unfolded DeleteQuota_def eqTrueI [OF True] not_True_eq_False if_False] assms(2,3)], goal_cases)
    case 1
    show ?case unfolding repo_defs by (intro definite_intros)
  next
    case (2 s a t)
    then show ?case
      by (auto simp: pg_bind_Inr dest!: lockTenant_Inr repo_changes(9) [rotated] audit_changes split: if_splits)
  qed
qed (use assms(1) in \<open>simp add: DeleteQuota_def\<close>)

fun action_name :: "mutation \<Rightarrow> string" where
  "action_name (CreateTenantCall _) = ''tenant.create''"
| "action_name (UpdateTenantCall _ _) = ''tenant.update''"
| "action_name (DisableTenantCall _) = ''tenant.disable''"
| "action_name (EnableTenantCall _) = ''tenant.enable''"
| "action_name (CreateAPIKeyCall _ _) = ''key.create''"
| "action_name (UpdateAPIKeyCall _ _) = ''key.update''"
| "action_name (RevokeAPIKeyCall _) = ''key.revoke''"
| "action_name (ReplaceQuotasCall _ _) = ''quota.replace''"
| "action_name (PutQuotaCall _ _) = ''quota.upsert''"
| "action_name (DeleteQuotaCall _ _) = ''quota.delete''"

lemmas operations_audited = CreateTenant_audited UpdateTenant_audited DisableTenant_audited EnableTenant_audited
  CreateAPIKey_audited UpdateAPIKey_audited RevokeAPIKey_audited ReplaceQuotas_audited PutQuota_audited
  DeleteQuota_audited

lemma completed_iff:
  "completed m p = (r, q) \<longleftrightarrow> (\<exists>res. m p = (res, q) \<and> r = (case res of Inl e \<Rightarrow> Inl e | Inr _ \<Rightarrow> Inr ()))"
  by (auto simp: completed_def split: prod.splits sum.splits)

lemma run_mutation_audited:
  assumes "run_mutation S c w m p = (r, q)" "pg_definite p" "admin_ok (pg_db p)"
  shows "pg_db q = pg_db p \<or>
    (r = Inr () \<and> audited_change w (action_name m) (pg_db p) (pg_db q) \<and> admin_ok (pg_db q))"
  using assms by (cases m) (auto simp: completed_iff dest!: operations_audited)

subsection \<open>Histories\<close>

fun run_mutations :: "'r Service \<Rightarrow> (call_env \<times> string \<times> mutation) list \<Rightarrow> admin_db pg \<Rightarrow> admin_db pg" where
  "run_mutations S [] p = p"
| "run_mutations S ((c, w, m) # rest) p = run_mutations S rest (snd (run_mutation S c w m p))"

lemma definite_completed: "definite_body m \<Longrightarrow> definite_body (completed m)"
  by (auto simp: definite_body_def completed_def split: prod.splits sum.splits)

lemma definite_mutate: "definite_body m \<Longrightarrow> definite_body (mutate m)"
  unfolding mutate_def by (intro definite_intros)

lemma definite_run_mutation: "definite_body (run_mutation S c w m)"
  by (cases m; simp only: run_mutation.simps CreateTenant_def UpdateTenant_def DisableTenant_def EnableTenant_def
      CreateAPIKey_def UpdateAPIKey_def RevokeAPIKey_def ReplaceQuotas_def PutQuota_def DeleteQuota_def repo_defs Let_def;
      intro definite_completed definite_mutate definite_intros)

lemma run_mutations_keeps:
  assumes "pg_definite p" "admin_ok (pg_db p)"
  shows "pg_definite (run_mutations S ms p) \<and> admin_ok (pg_db (run_mutations S ms p)) \<and>
    keeps_rows (pg_db p) (pg_db (run_mutations S ms p))"
  using assms
proof (induction S ms p rule: run_mutations.induct)
  case (2 S c w m rest p)
  let ?q = "snd (run_mutation S c w m p)"
  have step: "run_mutation S c w m p = (fst (run_mutation S c w m p), ?q)" by simp
  have q: "pg_definite ?q" using definite_run_mutation [of S c w m] 2(2) by (simp add: definite_body_def)
  have "admin_ok (pg_db ?q) \<and> keeps_rows (pg_db p) (pg_db ?q)"
    using run_mutation_audited [OF step 2(2,3)] 2(3) by (auto simp: audited_change_def)
  then show ?case using 2(1) [OF q] by (auto intro: keeps_rows_trans)
qed simp

subsection \<open>Keys and their authentication\<close>

lemma Authenticate_Inr:
  assumes "Authenticate sha presented p = (Inr ident, q)"
  shows "\<exists>r t. r \<in> set (db_keys (pg_db p)) \<and> kr_Hash r = sha presented \<and> ak_RevokedAt (kr_Key r) = None \<and>
    find_tenant (ak_TenantID (kr_Key r)) (pg_db p) = Some t \<and> ta_DisabledAt t = None \<and>
    ident = \<lparr>id_Tenant = ta_ExternalID t, id_KeyID = ak_ID (kr_Key r), id_Allowlist = ak_ModelAllowlist (kr_Key r)\<rparr>"
proof -
  obtain k t where kt: "key_by_hash (sha presented) (pg_db p) = Some (k, t)" "ak_RevokedAt k = None" "ta_DisabledAt t = None"
    "ident = \<lparr>id_Tenant = ta_ExternalID t, id_KeyID = ak_ID k, id_Allowlist = ak_ModelAllowlist k\<rparr>"
    using assms
    by (auto simp: Authenticate_def stmt_def pg_stmt_def select_one_def Let_def
        split: if_splits prod.splits sum.splits option.splits pg_fault.splits)
  then show ?thesis by (auto simp: key_by_hash_def dest!: find_SomeD split: option.splits)
qed

lemma Authenticate_complete:
  assumes "admin_ok (pg_db p)" "pg_next p = PgOk" "presented \<noteq> ''''" "r \<in> set (db_keys (pg_db p))" "kr_Hash r = sha presented"
    and "ak_RevokedAt (kr_Key r) = None" "find_tenant (ak_TenantID (kr_Key r)) (pg_db p) = Some t" "ta_DisabledAt t = None"
  shows "fst (Authenticate sha presented p) =
    Inr \<lparr>id_Tenant = ta_ExternalID t, id_KeyID = ak_ID (kr_Key r), id_Allowlist = ak_ModelAllowlist (kr_Key r)\<rparr>"
proof -
  have "List.find (\<lambda>x. kr_Hash x = sha presented) (db_keys (pg_db p)) = Some r"
    using find_unique [of kr_Hash "db_keys (pg_db p)" r] assms(1,4,5) by (simp add: admin_ok_def)
  then have "key_by_hash (sha presented) (pg_db p) = Some (kr_Key r, t)" using assms(7) by (simp add: key_by_hash_def)
  then show ?thesis using assms(2,3,6,8) by (simp add: Authenticate_def stmt_def pg_stmt_def select_one_def)
qed

text \<open>A mutation that succeeded ran its body on the database it found.\<close>

lemma mutate_Inr:
  "mutate fn p = (Inr a, q) \<Longrightarrow> \<exists>s t. fn s = (Inr a, t) \<and> pg_db s = pg_db p \<and> pg_db q = pg_db t"
  using pg_tx.commits [of StoreFailed "pg_bind fn pg_return" p a q] by (auto simp: mutate_def InTx_def pg_bind_Inr)

lemma RevokeAPIKey_Inr:
  assumes "RevokeAPIKey S c w i p = (Inr k, q)" "admin_ok (pg_db p)"
  shows "find_key i (pg_db q) = Some k \<and> APIKey_Revoked k"
proof -
  obtain s t k0 s1 where k0: "lockKey i s = (Inr k0, s1)" and db: "pg_db s = pg_db p" "pg_db q = pg_db t"
    and rest: "(if APIKey_Revoked k0 then pg_return k0
        else
          pg_bind (apiKeyRepo_Revoke i) (\<lambda>k'.
          pg_bind (audit S c w ''key.revoke'' (Some (ak_TenantID k')) (Some (ak_ID k')) (keyDetail k')) (\<lambda>_.
          pg_return k'))) s1 = (Inr k, t)"
    using mutate_Inr [OF assms(1) [unfolded RevokeAPIKey_def]] unfolding pg_bind_Inr [of "lockKey i"] by blast
  note l = lockKey_Inr [OF k0]
  show ?thesis
  proof (cases "APIKey_Revoked k0")
    case False
    then obtain s2 where s2: "apiKeyRepo_Revoke i s1 = (Inr k, s2)" and
        aud: "\<exists>u. audit S c w ''key.revoke'' (Some (ak_TenantID k)) (Some (ak_ID k)) (keyDetail k) s2 = (Inr u, t)"
      using rest by (auto simp: pg_bind_Inr)
    have upd: "update_key i (\<lambda>k. ak_RevokedAt k = None) (\<lambda>k. k\<lparr>ak_RevokedAt := Some (db_now (pg_db s1))\<rparr>) (pg_db s1) =
        (Inr (Some k), pg_db s2)"
      using s2 by (auto simp: apiKeyRepo_Revoke_def found_Inr q_RevokeAPIKey_def)
    have "find_key i (pg_db s2) = Some k \<and> APIKey_Revoked k"
      using update_key_Some [OF upd] l db assms(2) by (auto simp: APIKey_Revoked_def)
    then show ?thesis using aud db by (auto simp: find_key_def dest!: audit_Inr)
  qed (use rest l db in auto)
qed

lemma CreateAPIKey_Inr:
  assumes "CreateAPIKey S c w ref al p = (Inr (k, secret), q)" "admin_ok (pg_db p)"
  shows "\<exists>t. tenant_of S ref (pg_db p) = Some t \<and> \<not> TenantAccount_Disabled t \<and> find_tenant (ta_ID t) (pg_db q) = Some t \<and>
    admin_ok (pg_db q) \<and> \<lparr>kr_Key = k, kr_Hash = sv_sha256 S secret\<rparr> \<in> set (db_keys (pg_db q)) \<and>
    ak_TenantID k = ta_ID t \<and> ak_RevokedAt k = None \<and> ak_ModelAllowlist k = al \<and> secret \<noteq> ''''"
proof -
  obtain al' where al: "validAllowlist al = Inr al'" using assms(1) by (cases "validAllowlist al") (auto simp: CreateAPIKey_def)
  have [simp]: "al' = al" using al by (auto simp: validAllowlist_def split: option.splits if_splits)
  obtain s u where run: "pg_bind (lockTenant S ref) (\<lambda>t.
             if TenantAccount_Disabled t then pg_fail ErrConflict
             else
               case Mint (sv_sha256 S) KeyPrefix (ce_random c) of
                 None \<Rightarrow> pg_fail ErrEntropy
               | Some minted \<Rightarrow>
                   pg_bind (newID c) (\<lambda>i.
                   pg_bind (apiKeyRepo_Create i (ta_ID t) (mi_Prefix minted) al' (mi_Hash minted)) (\<lambda>k.
                   pg_bind (audit S c w ''key.create'' (Some (ta_ID t)) (Some (ak_ID k)) (keyDetail k)) (\<lambda>_.
                   pg_return (k, mi_Secret minted))))) s = (Inr (k, secret), u)"
    and db: "pg_db s = pg_db p" "pg_db q = pg_db u"
    using mutate_Inr [OF assms(1) [unfolded CreateAPIKey_def al sum.case]] by auto
  obtain t s1 where t: "lockTenant S ref s = (Inr t, s1)" using run by (auto simp: pg_bind_Inr)
  note l = lockTenant_Inr [OF t, unfolded db, OF assms(2)]
  obtain m i s2 where m: "\<not> TenantAccount_Disabled t" "Mint (sv_sha256 S) KeyPrefix (ce_random c) = Some m" "secret = mi_Secret m"
      "apiKeyRepo_Create i (ta_ID t) (mi_Prefix m) al (mi_Hash m) s1 = (Inr k, s2)"
      "\<exists>x. audit S c w ''key.create'' (Some (ta_ID t)) (Some (ak_ID k)) (keyDetail k) s2 = (Inr x, u)"
    using run t by (auto simp: pg_bind_Inr newID_def split: if_splits option.splits)
  have "q_CreateAPIKey i (ta_ID t) (mi_Hash m) (mi_Prefix m) al (pg_db p) = (Inr k, pg_db s2)"
    using m(4) l by (auto simp: apiKeyRepo_Create_def stmt_Inr)
  note key = q_CreateAPIKey_Inr [OF this assms(2)]
  have "mi_Hash m = sv_sha256 S secret" "secret \<noteq> ''''"
    using m(2,3) by (auto simp: Mint_def Let_def KeyPrefix_def split: option.splits)
  then show ?thesis using l m(1,5) key db by (auto simp: find_tenant_def dest!: audit_Inr)
qed

subsection \<open>The quota set of a tenant\<close>

lemma write_quotas_Inr:
  assumes "write_quotas i acc qs s = (Inr out, t)" "admin_ok (pg_db s)" "distinct (map q_WindowKind qs)"
  shows "stored_quota (pg_db t) = stored_quota (pg_db s) \<and> find_quota i kind (pg_db t) =
    (case List.find (\<lambda>d. q_WindowKind d = kind) qs of
       Some d \<Rightarrow> Some (stored_quota (pg_db s) d) | None \<Rightarrow> find_quota i kind (pg_db s))"
  using assms
proof (induction qs arbitrary: acc s)
  case (Cons q qs)
  from Cons.prems(1) obtain stored u where u: "quotaRepo_Upsert i q s = (Inr stored, u)"
      "write_quotas i (acc @ [stored]) qs u = (Inr out, t)" by (auto simp: pg_bind_Inr)
  have "q_UpsertQuota i q (pg_db s) = (Inr stored, pg_db u)" using u(1) by (auto simp: quotaRepo_Upsert_def stmt_Inr)
  note up = q_UpsertQuota_Inr [OF this Cons.prems(2), of kind]
  have "List.find (\<lambda>d. q_WindowKind d = q_WindowKind q) qs = None" using Cons.prems(3) unfolding find_None_iff by (metis distinct.simps(2) imageI list.set_map list.simps(9))
  then show ?case using up Cons.IH [OF u(2)] Cons.prems(3) by (auto split: option.splits)
qed auto

lemma tenant_quotas_distinct: "admin_ok db \<Longrightarrow> distinct (map q_WindowKind (tenant_quotas i db))"
  by (auto simp: admin_ok_def tenant_quotas_def distinct_map inj_on_def)

lemma find_quota_mem: "find_quota i kind db = Some q \<Longrightarrow> q \<in> set (tenant_quotas i db) \<and> q_WindowKind q = kind"
  by (auto simp: find_quota_def dest: find_SomeD)

lemma sameQuotaSet_find:
  assumes "sameQuotaSet (sort_key (\<lambda>q. Rank (q_WindowKind q)) (tenant_quotas i db)) desired" "admin_ok db"
    and "distinct (map q_WindowKind desired)"
  shows "case List.find (\<lambda>d. q_WindowKind d = kind) desired of
      None \<Rightarrow> find_quota i kind db = None
    | Some d \<Rightarrow> \<exists>c. find_quota i kind db = Some c \<and> SameLimits c d"
proof -
  let ?cur = "tenant_quotas i db"
  have len: "length ?cur = length desired" using assms(1) by (simp add: sameQuotaSet_def)
  have hit: "\<exists>c \<in> set ?cur. q_WindowKind c = q_WindowKind d \<and> SameLimits c d" if "d \<in> set desired" for d
    using assms(1) that unfolding sameQuotaSet_def list_all_iff
    by (fastforce dest: map_of_SomeD split: option.splits)
  have found: "find_quota i (q_WindowKind c) db = Some c" if "c \<in> set ?cur" for c
    using find_unique [OF tenant_quotas_distinct [OF assms(2)] that] by (simp add: find_quota_def)
  have "q_WindowKind ` set desired \<subseteq> q_WindowKind ` set ?cur" using hit by (metis image_subsetI imageI)
  moreover have "card (q_WindowKind ` set desired) = card (q_WindowKind ` set ?cur)"
    using len distinct_card [OF assms(3)] distinct_card [OF tenant_quotas_distinct [OF assms(2), of i]] by simp
  ultimately have kinds: "q_WindowKind ` set desired = q_WindowKind ` set ?cur"
    by (simp add: card_subset_eq)
  show ?thesis
  proof (cases "List.find (\<lambda>d. q_WindowKind d = kind) desired")
    case None
    then have "kind \<notin> q_WindowKind ` set desired" by (auto simp: find_None_iff)
    then have "find_quota i kind db = None" unfolding kinds
      by (cases "find_quota i kind db") (auto dest: find_quota_mem)
    with None show ?thesis by simp
  next
    case (Some d)
    then obtain c where "c \<in> set ?cur" "q_WindowKind c = kind" "SameLimits c d"
      using hit find_SomeD [OF Some] by blast
    with Some found [of c] show ?thesis by auto
  qed
qed

lemma ReplaceQuotas_Inr:
  assumes "ReplaceQuotas S c w ref qs p = (Inr out, q)" "admin_ok (pg_db p)"
  shows "\<exists>t desired. tenant_of S ref (pg_db p) = Some t \<and> validQuotaSet qs = Inr desired \<and>
    (\<forall>kind. case List.find (\<lambda>d. q_WindowKind d = kind) desired of
        None \<Rightarrow> find_quota (ta_ID t) kind (pg_db q) = None
      | Some d \<Rightarrow> \<exists>c. find_quota (ta_ID t) kind (pg_db q) = Some c \<and> (c = stored_quota (pg_db p) d \<or> SameLimits c d))"
proof -
  obtain desired where des: "validQuotaSet qs = Inr desired"
    using assms(1) by (cases "validQuotaSet qs") (auto simp: ReplaceQuotas_def)
  note dist = validQuotaSet_ok(1) [OF des]
  from mutate_Inr [OF assms(1) [unfolded ReplaceQuotas_def des sum.case]]
  obtain s u t s1 cur s2 where s: "lockTenant S ref s = (Inr t, s1)" "quotaRepo_List (ta_ID t) s1 = (Inr cur, s2)"
    and db: "pg_db s = pg_db p" "pg_db q = pg_db u"
    and rest: "(if sameQuotaSet cur desired then pg_return cur
       else
         pg_bind (quotaRepo_DeleteAll (ta_ID t)) (\<lambda>_.
         pg_bind (write_quotas (ta_ID t) [] desired) (\<lambda>written.
         pg_bind (audit S c w ''quota.replace'' (Some (ta_ID t)) None (quotaDetails written)) (\<lambda>_.
         pg_return written)))) s2 = (Inr out, u)"
    unfolding pg_bind_Inr [of "lockTenant S ref"] pg_bind_Inr [of "quotaRepo_List _"] by blast
  note l = lockTenant_Inr [OF s(1), unfolded db, OF assms(2)] and cur = quotaRepo_List_Inr [OF s(2)]
  have "case List.find (\<lambda>d. q_WindowKind d = kind) desired of
        None \<Rightarrow> find_quota (ta_ID t) kind (pg_db q) = None
      | Some d \<Rightarrow> \<exists>c. find_quota (ta_ID t) kind (pg_db q) = Some c \<and> (c = stored_quota (pg_db p) d \<or> SameLimits c d)" for kind
  proof (cases "sameQuotaSet cur desired")
    case True
    then have "pg_db q = pg_db p" using rest db cur l by auto
    then show ?thesis using True sameQuotaSet_find [OF _ assms(2) dist, of "ta_ID t" kind] cur l
      by (auto split: option.splits)
  next
    case False
    then obtain s3 s4 x where w: "quotaRepo_DeleteAll (ta_ID t) s2 = (Inr (), s3)"
        "write_quotas (ta_ID t) [] desired s3 = (Inr out, s4)"
        "audit S c w ''quota.replace'' (Some (ta_ID t)) None (quotaDetails out) s4 = (Inr x, u)"
      using rest by (auto simp: pg_bind_Inr)
    have "q_DeleteQuotasForTenant (ta_ID t) (pg_db p) = (Inr (), pg_db s3)"
      using w(1) cur l by (auto simp: quotaRepo_DeleteAll_def stmt_Inr)
    note del = q_DeleteQuotasForTenant_Inr [OF this assms(2), of kind]
    note wr = write_quotas_Inr [OF w(2) _ dist, of kind]
    have "find_quota (ta_ID t) kind (pg_db q) = find_quota (ta_ID t) kind (pg_db s4)"
      using audit_Inr [OF w(3)] db by (auto simp: find_quota_def tenant_quotas_def)
    then show ?thesis using del wr by (auto split: option.splits)
  qed
  then show ?thesis using l des by blast
qed

subsection \<open>Creating a tenant twice\<close>

lemma tenantRepo_Create_Inr:
  assumes "tenantRepo_Create i ext name m s = (Inr (t, created), u)" "admin_ok (pg_db s)"
  shows "find_external ext (pg_db u) = Some t \<and> (created \<longrightarrow> ta_Name t = name) \<and> (\<not> created \<longrightarrow> pg_db u = pg_db s)"
  using tenantRepo_Create_cases [OF assms(1)]
proof (elim disjE conjE)
  assume created and row: "q_CreateTenant i ext name m (pg_db s) = (Inr (Some t), pg_db u)"
  note cr = q_CreateTenant_Some [OF row assms(2)]
  then have "t \<in> set (db_tenants (pg_db u))" by simp
  then have "find_external ext (pg_db u) = Some t" using cr find_external_iff [of "pg_db u" ext t] by blast
  then show ?thesis using \<open>created\<close> cr by blast
qed (use q_CreateTenant_None in blast)

lemma CreateTenant_Inr:
  assumes "CreateTenant S c w spec p = (Inr (t, created), q)" "admin_ok (pg_db p)"
  shows "validExternalID (nt_ExternalID spec) = None \<and> validName (nt_Name spec) = None \<and>
    (\<exists>m. metadataObject (sv_json S) (nt_Metadata spec) = Inr m) \<and>
    find_external (nt_ExternalID spec) (pg_db q) = Some t \<and> ta_Name t = nt_Name spec"
proof -
  obtain m where v: "validExternalID (nt_ExternalID spec) = None" "validName (nt_Name spec) = None"
      "metadataObject (sv_json S) (nt_Metadata spec) = Inr m"
    using assms(1) by (auto simp: CreateTenant_def split: option.splits sum.splits)
  let ?rest = "\<lambda>(t, created).
             if \<not> created then
               if ta_Name t \<noteq> nt_Name spec \<or> \<not> sameJSON (sv_json S) (ta_Metadata t) m
               then pg_fail ErrConflict else pg_return (t, False)
             else
               pg_bind (audit S c w ''tenant.create'' (Some (ta_ID t)) None (tenantDetail t)) (\<lambda>_.
               pg_return (t, True))"
  have "mutate (pg_bind (newID c) (\<lambda>i.
      pg_bind (tenantRepo_Create i (nt_ExternalID spec) (nt_Name spec) m) ?rest)) p = (Inr (t, created), q)"
    using assms(1) v by (simp add: CreateTenant_def)
  from mutate_Inr [OF this] obtain s u i x where x: "tenantRepo_Create i (nt_ExternalID spec) (nt_Name spec) m s = (Inr x, u)"
      and rest: "\<exists>z. ?rest x u = (Inr (t, created), z) \<and> pg_db q = pg_db z" and db: "pg_db s = pg_db p"
    by (auto simp: pg_bind_Inr newID_def split: option.splits)
  obtain y made where xy: "x = (y, made)" by fastforce
  note cr = tenantRepo_Create_Inr [OF x [unfolded xy], unfolded db, OF assms(2)]
  show ?thesis using rest v cr unfolding xy
    by (auto simp: pg_bind_Inr find_external_def dest!: audit_Inr split: if_splits)
qed

section \<open>Properties\<close>

definition sample_service :: "int Service" where
  "sample_service =
     \<lparr>sv_json = \<lparr>jv_is_object = (\<lambda>_. True), jv_decode = (\<lambda>s. Some (JString s)), jv_rational = (\<lambda>_. None)\<rparr>,
      sv_parse = (\<lambda>_. None), sv_sha256 = (\<lambda>s. take 32 (s @ replicate 32 CHR ''.'')), sv_marshal = (\<lambda>_. Some ''{}'')\<rparr>"

definition sample_call :: "uuid \<Rightarrow> call_env" where
  "sample_call i = \<lparr>ce_id = Some i, ce_audit_id = Some i, ce_random = Some ''0123456789'', ce_now = 5\<rparr>"

definition sample_quota :: Quota where
  "sample_quota = \<lparr>q_WindowKind = WindowDay, q_PeriodStart = None, q_PeriodEnd = None, q_MaxCost = 10, q_OnExceed = QuotaBlock,
     q_UpdatedAt = 0\<rparr>"

definition sample_key :: APIKey where
  "sample_key = \<lparr>ak_ID = 8, ak_TenantID = 1, ak_Prefix = ''gr_live_a'', ak_ModelAllowlist = None, ak_CreatedAt = 0,
     ak_LastUsedAt = None, ak_RevokedAt = None\<rparr>"

definition sample_db :: "admin_db pg" where
  "sample_db =
     \<lparr>pg_db = \<lparr>db_now = 7, db_time = id, db_jsonb = id,
        db_tenants = [\<lparr>ta_ID = 1, ta_ExternalID = ''acme'', ta_Name = ''Acme'', ta_Metadata = ''{}'', ta_CreatedAt = 0,
                       ta_DisabledAt = None\<rparr>],
        db_keys = [\<lparr>kr_Key = sample_key, kr_Hash = sv_sha256 sample_service ''gr_live_key''\<rparr>],
        db_quotas = [(1, sample_quota)], db_audit = [], db_users = [], db_tokens = [], db_creds = []\<rparr>,
      pg_faults = []\<rparr>"


lemma sample_db_ok: "pg_definite sample_db \<and> admin_ok (pg_db sample_db)"
  by (simp add: pg_definite_def) code_simp


text \<open>
  C23. A key that was issued authenticates, at once and as what it was issued for: the secret
  \<open>CreateAPIKey\<close> returns resolves to the tenant that was named, to the new key and to the
  allowlist that was asked for. Nothing is assumed of SHA-256: a collision is refused by the
  unique index when the key is created.
\<close>

theorem issued_key_authenticates:
  assumes "CreateAPIKey S c w ref al p = (Inr (k, secret), q)" "admin_ok (pg_db p)" "pg_next q = PgOk"
  shows "\<exists>t. tenant_of S ref (pg_db p) = Some t \<and>
    fst (Authenticate (sv_sha256 S) secret q) =
      Inr \<lparr>id_Tenant = ta_ExternalID t, id_KeyID = ak_ID k, id_Allowlist = al\<rparr>"
proof -
  obtain t where t: "tenant_of S ref (pg_db p) = Some t" "\<not> TenantAccount_Disabled t" "find_tenant (ta_ID t) (pg_db q) = Some t"
    "admin_ok (pg_db q)" "\<lparr>kr_Key = k, kr_Hash = sv_sha256 S secret\<rparr> \<in> set (db_keys (pg_db q))"
    "ak_TenantID k = ta_ID t" "ak_RevokedAt k = None" "ak_ModelAllowlist k = al" "secret \<noteq> ''''"
    using CreateAPIKey_Inr [OF assms(1,2)] by blast
  then show ?thesis
    using Authenticate_complete [OF t(4) assms(3) t(9) t(5), of "sv_sha256 S" t] by (simp add: TenantAccount_Disabled_def)
qed

theorem issued_key_authenticates_witness:
  "let (r, q) = CreateAPIKey sample_service (sample_call 4) ''admin:ops'' ''acme'' (Some [''fast'']) sample_db in
   case r of
     Inl _ \<Rightarrow> False
   | Inr (k, secret) \<Rightarrow> (\<exists>t. tenant_of sample_service ''acme'' (pg_db sample_db) = Some t \<and>
       fst (Authenticate (sv_sha256 sample_service) secret q) =
         Inr \<lparr>id_Tenant = ta_ExternalID t, id_KeyID = ak_ID k, id_Allowlist = Some [''fast'']\<rparr>)"
proof -
  let ?run = "CreateAPIKey sample_service (sample_call 4) ''admin:ops'' ''acme'' (Some [''fast'']) sample_db"
  have ok: "\<not> isl (fst ?run)" "pg_next (snd ?run) = PgOk" by code_simp+
  obtain k secret q where run: "?run = (Inr (k, secret), q)"
    using ok(1) by (cases ?run; cases "fst ?run") auto
  then show ?thesis
    using issued_key_authenticates [OF run] ok(2) sample_db_ok by simp
qed

text \<open>
  C11. Revocation is final. Once \<open>RevokeAPIKey\<close> has succeeded, no presented secret ever
  authenticates as that key again, whatever admin calls follow, successful or failed.
\<close>

theorem revocation_final:
  assumes "RevokeAPIKey S c w i p = (Inr k, q)" "pg_definite p" "admin_ok (pg_db p)"
    and "fst (Authenticate sha presented (run_mutations S ms q)) = Inr ident"
  shows "id_KeyID ident \<noteq> i"
proof -
  have step: "run_mutation S c w (RevokeAPIKeyCall i) p = (Inr (), q)" using assms(1) by (simp add: completed_def)
  have q: "admin_ok (pg_db q)" "pg_definite q"
    using run_mutations_keeps [OF assms(2,3), of S "[(c, w, RevokeAPIKeyCall i)]"] step by auto
  let ?z = "run_mutations S ms q"
  have z: "admin_ok (pg_db ?z)" "keeps_rows (pg_db q) (pg_db ?z)" using run_mutations_keeps [OF q(2,1)] by auto
  obtain r0 where "r0 \<in> set (db_keys (pg_db q))" "kr_Key r0 = k" "ak_ID k = i" "APIKey_Revoked k"
    using RevokeAPIKey_Inr [OF assms(1,3)] q(1) by (auto simp: find_key_iff)
  then have r0: "r0 \<in> set (db_keys (pg_db ?z))" "ak_ID (kr_Key r0) = i" "APIKey_Revoked (kr_Key r0)"
    using z(2) by (auto simp: keeps_rows_def)
  obtain r where r: "r \<in> set (db_keys (pg_db ?z))" "ak_RevokedAt (kr_Key r) = None" "id_KeyID ident = ak_ID (kr_Key r)"
    using assms(4) Authenticate_Inr [of sha presented ?z ident] by (cases "Authenticate sha presented ?z") auto
  have "inj_on (\<lambda>r. ak_ID (kr_Key r)) (set (db_keys (pg_db ?z)))" using z(1) by (simp add: admin_ok_def distinct_map)
  from inj_onD [OF this _ r(1) r0(1)] show ?thesis using r(2,3) r0(2,3) by (auto simp: APIKey_Revoked_def)
qed

theorem revocation_final_witness:
  "let q = snd (RevokeAPIKey sample_service (sample_call 3) ''admin:ops'' 8 sample_db);
       z = run_mutations sample_service [(sample_call 4, ''admin:ops'', CreateAPIKeyCall ''acme'' None)] q;
       secret = KeyPrefix @ encode_raw 5 secretAlphabet ''0123456789''
   in id_KeyID (projr (fst (Authenticate (sv_sha256 sample_service) secret z))) \<noteq> 8"
proof -
  let ?revoke = "RevokeAPIKey sample_service (sample_call 3) ''admin:ops'' 8 sample_db"
  let ?auth = "Authenticate (sv_sha256 sample_service) (KeyPrefix @ encode_raw 5 secretAlphabet ''0123456789'')
    (run_mutations sample_service [(sample_call 4, ''admin:ops'', CreateAPIKeyCall ''acme'' None)] (snd ?revoke))"
  have ok: "\<not> isl (fst ?revoke)" "\<not> isl (fst ?auth)" by code_simp+
  obtain k q where run: "?revoke = (Inr k, q)" using ok(1) by (cases ?revoke; cases "fst ?revoke") auto
  show ?thesis
    using revocation_final [OF run, of "sv_sha256 sample_service" "KeyPrefix @ encode_raw 5 secretAlphabet ''0123456789''"
        "[(sample_call 4, ''admin:ops'', CreateAPIKeyCall ''acme'' None)]" "projr (fst ?auth)"] ok(2) sample_db_ok
    unfolding run Let_def by simp
qed

text \<open>
  C22. \<open>ReplaceQuotas\<close> makes the given set the tenant's whole quota set. Abstractly a tenant has at
  most one quota per window kind; after a call that succeeds, a kind that is not in the validated
  set has none, and one that is has the quota given for it, either written now or already
  there with the same limits. A failure leaves the old set (\<open>mutation_audited\<close>), so the
  tenant is never unlimited on the way.
\<close>

theorem replace_quotas_exact:
  assumes "ReplaceQuotas S c w ref qs p = (Inr out, q)" "admin_ok (pg_db p)"
  shows "\<exists>t desired. tenant_of S ref (pg_db p) = Some t \<and> validQuotaSet qs = Inr desired \<and>
    (\<forall>kind. case List.find (\<lambda>d. q_WindowKind d = kind) desired of
        None \<Rightarrow> find_quota (ta_ID t) kind (pg_db q) = None
      | Some d \<Rightarrow> \<exists>c. find_quota (ta_ID t) kind (pg_db q) = Some c \<and> (c = stored_quota (pg_db p) d \<or> SameLimits c d))"
  by (rule ReplaceQuotas_Inr [OF assms])

theorem replace_quotas_exact_witness:
  "let (r, q) = ReplaceQuotas sample_service (sample_call 4) ''admin:ops'' ''acme'' [sample_quota\<lparr>q_WindowKind := WindowMonth\<rparr>] sample_db in
   \<exists>t desired. tenant_of sample_service ''acme'' (pg_db sample_db) = Some t \<and>
    validQuotaSet [sample_quota\<lparr>q_WindowKind := WindowMonth\<rparr>] = Inr desired \<and>
    (\<forall>kind. case List.find (\<lambda>d. q_WindowKind d = kind) desired of
        None \<Rightarrow> find_quota (ta_ID t) kind (pg_db q) = None
      | Some d \<Rightarrow> \<exists>c. find_quota (ta_ID t) kind (pg_db q) = Some c \<and>
                       (c = stored_quota (pg_db sample_db) d \<or> SameLimits c d))"
proof -
  let ?run = "ReplaceQuotas sample_service (sample_call 4) ''admin:ops'' ''acme'' [sample_quota\<lparr>q_WindowKind := WindowMonth\<rparr>] sample_db"
  have ok: "\<not> isl (fst ?run)" by code_simp
  obtain out q where run: "?run = (Inr out, q)" using ok by (cases ?run; cases "fst ?run") auto
  show ?thesis using replace_quotas_exact [OF run] sample_db_ok unfolding run by simp
qed

text \<open>
  C31. A signup may be retried. Once \<open>CreateTenant\<close> has returned a tenant, the same request made
  again on a working database returns that tenant, not created anew, and writes nothing: no second
  tenant and no second audit row. The hypothesis on the metadata is what \<open>sameJSON\<close> is for: what
  Postgres hands back means what was sent.
\<close>

theorem create_tenant_retry:
  assumes "CreateTenant S c w spec p = (Inr (t, created), q)" "admin_ok (pg_db p)" "pg_up q" "ce_id c' \<noteq> None"
    and "metadataObject (sv_json S) (nt_Metadata spec) = Inr m" "sameJSON (sv_json S) (ta_Metadata t) m"
  shows "\<exists>q'. CreateTenant S c' w' spec q = (Inr (t, False), q') \<and> pg_db q' = pg_db q"
proof -
  note first = CreateTenant_Inr [OF assms(1,2)]
  obtain i where i: "ce_id c' = Some i" using assms(4) by blast
  have create: "tenantRepo_Create i (nt_ExternalID spec) (nt_Name spec) m (pg_pop q) = (Inr (t, False), pg_pop (pg_pop (pg_pop q)))"
    using first assms(3)
    by (simp add: tenantRepo_Create_def pg_bind_def stmt_def pg_stmt_def q_CreateTenant_def select_one_def pg_return_def)
  show ?thesis
    using first assms(3,5,6) create i
    by (simp add: CreateTenant_def mutate_def InTx_def with_tx_def pg_bind_def newID_def pg_return_def)
qed

theorem create_tenant_retry_witness:
  "let spec = \<lparr>nt_ExternalID = ''acme'', nt_Name = ''Acme'', nt_Metadata = ''''\<rparr> in
   \<exists>t q. CreateTenant sample_service (sample_call 3) ''admin:ops'' spec sample_db = (Inr (t, False), q) \<and>
     (\<exists>q'. CreateTenant sample_service (sample_call 4) ''admin:ops'' spec q = (Inr (t, False), q') \<and> pg_db q' = pg_db q)"
proof -
  let ?spec = "\<lparr>nt_ExternalID = ''acme'', nt_Name = ''Acme'', nt_Metadata = ''''\<rparr>"
  let ?run = "CreateTenant sample_service (sample_call 3) ''admin:ops'' ?spec sample_db"
  have ok: "\<not> isl (fst ?run)" "\<not> snd (projr (fst ?run))" "sameJSON (sv_json sample_service) (ta_Metadata (fst (projr (fst ?run)))) ''{}''"
    "metadataObject (sv_json sample_service) (nt_Metadata ?spec) = Inr ''{}''" "pg_up (snd ?run)"
    by code_simp+
  obtain t q where run: "?run = (Inr (t, False), q)" using ok(1,2) by (cases ?run; cases "fst ?run") auto
  have "pg_up q" "sameJSON (sv_json sample_service) (ta_Metadata t) ''{}''" using ok(3,5) by (simp_all add: run)
  from create_tenant_retry [OF run _ this(1) _ ok(4) this(2), of "sample_call 4" "''admin:ops''"] run sample_db_ok
  show ?thesis by (auto simp: Let_def sample_call_def)
qed

end
