(* ===== verification/Admin_Identities.thy ===== *)
theory Admin_Identities
  imports Admin_Service
begin

text \<open>
  The people and the machine credentials behind the admin API, with the stored half of sessions: the
  queries of \<open>admin_users.sql\<close> and \<open>admin_credentials.sql\<close> and the repositories over them
  (\<open>adapters/repositories/admin_users.go\<close>, \<open>admin_credentials.go\<close>). Each repository method that
  writes is one transaction that holds the change and its audit row.

  The text of a UUID is the parameter \<open>text_of\<close>.
\<close>

section \<open>Definitions\<close>

subsection \<open>Queries on people and sessions\<close>

definition user_by_id :: "uuid \<Rightarrow> admin_db \<Rightarrow> admin_user_row option" where
  "user_by_id i db = List.find (\<lambda>r. us_ID (ur_User r) = i) (db_users db)"

definition user_by_email :: "string \<Rightarrow> admin_db \<Rightarrow> admin_user_row option" where
  "user_by_email email db = List.find (\<lambda>r. us_Email (ur_User r) = email) (db_users db)"

definition q_ListAdminUsers :: "AdminUser list query" where
  "q_ListAdminUsers db = (Inr (sort_key us_CreatedAt (map ur_User (db_users db))), db)"

definition q_CreateAdminUser :: "AdminUser \<Rightarrow> string \<Rightarrow> AdminUser option query" where
  "q_CreateAdminUser u hash db =
     (if user_by_email (us_Email u) db \<noteq> None then (Inr None, db)
      else if user_by_id (us_ID u) db \<noteq> None \<or> us_Email u = '''' \<or> hash = '''' \<or> \<not> Role_Valid (us_Role u)
      then (Inl StoreFailed, db)
      else
        let row = \<lparr>us_ID = us_ID u, us_Email = us_Email u, us_Role = us_Role u, us_CreatedAt = db_now db,
                   us_DisabledAt = None, us_LastLoginAt = None, us_PasswordChangedAt = db_time db (us_PasswordChangedAt u)\<rparr>
        in (Inr (Some row), db\<lparr>db_users := db_users db @ [\<lparr>ur_User = row, ur_PasswordHash = hash\<rparr>]\<rparr>))"

text \<open>An \<open>UPDATE \<dots> WHERE id = $1 AND p RETURNING *\<close> on the people.\<close>

definition update_user :: "uuid \<Rightarrow> (AdminUser \<Rightarrow> bool) \<Rightarrow> (admin_user_row \<Rightarrow> admin_user_row) \<Rightarrow> AdminUser option query" where
  "update_user i p f db =
     (let hit = (\<lambda>r. us_ID (ur_User r) = i \<and> p (ur_User r)) in
      (Inr (map_option (\<lambda>r. ur_User (f r)) (List.find hit (db_users db))),
       db\<lparr>db_users := map (\<lambda>r. if hit r then f r else r) (db_users db)\<rparr>))"

definition q_DisableAdminUser :: "uuid \<Rightarrow> time \<Rightarrow> AdminUser option query" where
  "q_DisableAdminUser i at db =
     update_user i (\<lambda>u. us_DisabledAt u = None)
       (\<lambda>r. r\<lparr>ur_User := (ur_User r)\<lparr>us_DisabledAt := Some (db_time db at)\<rparr>\<rparr>) db"

definition q_SetAdminUserPassword :: "uuid \<Rightarrow> string \<Rightarrow> time \<Rightarrow> AdminUser option query" where
  "q_SetAdminUserPassword i hash at db =
     (if hash = '''' \<and> user_by_id i db \<noteq> None then (Inl StoreFailed, db)
      else update_user i (\<lambda>_. True)
             (\<lambda>r. r\<lparr>ur_User := (ur_User r)\<lparr>us_PasswordChangedAt := db_time db at\<rparr>, ur_PasswordHash := hash\<rparr>) db)"

definition q_TouchAdminUserLogin :: "uuid \<Rightarrow> time \<Rightarrow> unit query" where
  "q_TouchAdminUserLogin i at db =
     (let latest = (\<lambda>u. case us_LastLoginAt u of None \<Rightarrow> db_time db at | Some t \<Rightarrow> max t (db_time db at))
      in (Inr (), snd (update_user i (\<lambda>_. True)
            (\<lambda>r. r\<lparr>ur_User := (ur_User r)\<lparr>us_LastLoginAt := Some (latest (ur_User r))\<rparr>\<rparr>) db)))"

record NewAdminSession =
  ns_ID :: uuid
  ns_UserID :: uuid
  ns_TokenHash :: string
  ns_IssuedAt :: time
  ns_ExpiresAt :: time

definition token_by_id :: "uuid \<Rightarrow> admin_db \<Rightarrow> refresh_token_row option" where
  "token_by_id i db = List.find (\<lambda>r. rt_ID (tk_Token r) = i) (db_tokens db)"

definition q_CreateAdminRefreshToken :: "NewAdminSession \<Rightarrow> unit query" where
  "q_CreateAdminRefreshToken s db =
     (let tok = \<lparr>rt_ID = ns_ID s, rt_UserID = ns_UserID s, rt_IssuedAt = db_time db (ns_IssuedAt s),
                 rt_ExpiresAt = db_time db (ns_ExpiresAt s), rt_RevokedAt = None, rt_ReplacedBy = None\<rparr>
      in if token_by_id (ns_ID s) db \<noteq> None \<or> list_ex (\<lambda>r. tk_Hash r = ns_TokenHash s) (db_tokens db) \<or>
            user_by_id (ns_UserID s) db = None \<or> length (ns_TokenHash s) \<noteq> 32 \<or> \<not> rt_IssuedAt tok < rt_ExpiresAt tok
         then (Inl StoreFailed, db)
         else (Inr (), db\<lparr>db_tokens := db_tokens db @ [\<lparr>tk_Token = tok, tk_Hash = ns_TokenHash s\<rparr>]\<rparr>))"

text \<open>\<open>GetAdminRefreshTokenByHash\<close> joins the person.\<close>

definition session_by_hash :: "string \<Rightarrow> admin_db \<Rightarrow> (AdminRefreshToken \<times> AdminUser) option" where
  "session_by_hash hash db =
     (case List.find (\<lambda>r. tk_Hash r = hash) (db_tokens db) of
        None \<Rightarrow> None
      | Some r \<Rightarrow> map_option (\<lambda>u. (tk_Token r, ur_User u)) (user_by_id (rt_UserID (tk_Token r)) db))"

definition revoke_token :: "time \<Rightarrow> uuid option \<Rightarrow> refresh_token_row \<Rightarrow> refresh_token_row" where
  "revoke_token at by r = r\<lparr>tk_Token := (tk_Token r)\<lparr>rt_RevokedAt := Some at, rt_ReplacedBy := by\<rparr>\<rparr>"

text \<open>Whether a row was there to revoke; \<open>replaced_by\<close> has to name a token.\<close>

definition q_RevokeAdminRefreshToken :: "uuid \<Rightarrow> time \<Rightarrow> uuid option \<Rightarrow> bool query" where
  "q_RevokeAdminRefreshToken i at by db =
     (let hit = (\<lambda>r. rt_ID (tk_Token r) = i \<and> rt_RevokedAt (tk_Token r) = None) in
      if \<not> list_ex hit (db_tokens db) then (Inr False, db)
      else if (case by of None \<Rightarrow> False | Some j \<Rightarrow> token_by_id j db = None) then (Inl StoreFailed, db)
      else (Inr True, db\<lparr>db_tokens :=
              map (\<lambda>r. if hit r then revoke_token (db_time db at) by r else r) (db_tokens db)\<rparr>))"

definition q_RevokeAdminUserRefreshTokens :: "uuid \<Rightarrow> time \<Rightarrow> unit query" where
  "q_RevokeAdminUserRefreshTokens i at db =
     (Inr (), db\<lparr>db_tokens :=
        map (\<lambda>r. if rt_UserID (tk_Token r) = i \<and> rt_RevokedAt (tk_Token r) = None
                 then r\<lparr>tk_Token := (tk_Token r)\<lparr>rt_RevokedAt := Some (db_time db at)\<rparr>\<rparr> else r) (db_tokens db)\<rparr>)"

text \<open>A token that one of the remaining rows names as its replacement cannot be deleted.\<close>

definition q_DeleteExpiredAdminRefreshTokens :: "uuid \<Rightarrow> time \<Rightarrow> unit query" where
  "q_DeleteExpiredAdminRefreshTokens i before db =
     (let dead = (\<lambda>r. rt_UserID (tk_Token r) = i \<and> rt_ExpiresAt (tk_Token r) < db_time db before);
          gone = map (\<lambda>r. rt_ID (tk_Token r)) (filter dead (db_tokens db));
          kept = filter (\<lambda>r. \<not> dead r) (db_tokens db)
      in if list_ex (\<lambda>r. case rt_ReplacedBy (tk_Token r) of None \<Rightarrow> False | Some j \<Rightarrow> j \<in> set gone) kept
         then (Inl StoreFailed, db)
         else (Inr (), db\<lparr>db_tokens := kept\<rparr>))"

subsection \<open>The repository of people and sessions\<close>

definition AdminUserByID :: "uuid \<Rightarrow> AdminUser action" where
  "AdminUserByID i = found (select_one (\<lambda>db. map_option ur_User (user_by_id i db)))"

definition AdminUserByEmail :: "string \<Rightarrow> AdminUser action" where
  "AdminUserByEmail email = found (select_one (\<lambda>db. map_option ur_User (user_by_email email db)))"

definition AdminUserForLogin :: "string \<Rightarrow> (AdminUser \<times> string) action" where
  "AdminUserForLogin email = found (select_one (\<lambda>db. map_option (\<lambda>r. (ur_User r, ur_PasswordHash r)) (user_by_email email db)))"

definition ListAdminUsers :: "AdminUser list action" where
  "ListAdminUsers = stmt q_ListAdminUsers"

definition user_inTx :: "'a action \<Rightarrow> 'a action" where
  "user_inTx fn = with_tx StoreFailed fn"

definition CreateAdminUser :: "AdminUser \<Rightarrow> string \<Rightarrow> AuditEntry \<Rightarrow> AdminUser action" where
  "CreateAdminUser u hash e =
     user_inTx (pg_bind (stmt (q_CreateAdminUser u hash)) (\<lambda>row.
       case row of
         None \<Rightarrow> pg_fail ErrConflict
       | Some out \<Rightarrow> pg_bind (insertAudit e) (\<lambda>_. pg_return out)))"

definition DisableAdminUser :: "uuid \<Rightarrow> time \<Rightarrow> AuditEntry \<Rightarrow> AdminUser action" where
  "DisableAdminUser i at e =
     user_inTx (pg_bind (stmt (q_DisableAdminUser i at)) (\<lambda>row.
       case row of
         None \<Rightarrow> AdminUserByID i
       | Some out \<Rightarrow>
           pg_bind (stmt (q_RevokeAdminUserRefreshTokens i at)) (\<lambda>_.
           pg_bind (insertAudit e) (\<lambda>_. pg_return out))))"

definition SetAdminUserPassword :: "uuid \<Rightarrow> string \<Rightarrow> time \<Rightarrow> AuditEntry \<Rightarrow> AdminUser action" where
  "SetAdminUserPassword i hash at e =
     user_inTx (pg_bind (found (q_SetAdminUserPassword i hash at)) (\<lambda>out.
       pg_bind (stmt (q_RevokeAdminUserRefreshTokens i at)) (\<lambda>_.
       pg_bind (insertAudit e) (\<lambda>_. pg_return out))))"

definition insertSession :: "NewAdminSession \<Rightarrow> unit action" where
  "insertSession s = stmt (q_CreateAdminRefreshToken s)"

definition StartAdminSession :: "NewAdminSession \<Rightarrow> AuditEntry \<Rightarrow> unit action" where
  "StartAdminSession s e =
     user_inTx (pg_bind (stmt (q_DeleteExpiredAdminRefreshTokens (ns_UserID s) (ns_IssuedAt s))) (\<lambda>_.
       pg_bind (insertSession s) (\<lambda>_.
       pg_bind (stmt (q_TouchAdminUserLogin (ns_UserID s) (ns_IssuedAt s))) (\<lambda>_.
       insertAudit e))))"

definition AdminSessionByTokenHash :: "string \<Rightarrow> (AdminRefreshToken \<times> AdminUser) action" where
  "AdminSessionByTokenHash hash = found (select_one (session_by_hash hash))"

definition RotateAdminSession :: "uuid \<Rightarrow> NewAdminSession \<Rightarrow> unit action" where
  "RotateAdminSession presented s =
     user_inTx (pg_bind (insertSession s) (\<lambda>_.
       pg_bind (stmt (q_RevokeAdminRefreshToken presented (ns_IssuedAt s) (Some (ns_ID s)))) (\<lambda>hit.
       if \<not> hit then pg_fail ErrConflict else pg_return ())))"

definition EndAdminSession :: "uuid \<Rightarrow> time \<Rightarrow> AuditEntry \<Rightarrow> unit action" where
  "EndAdminSession i at e =
     user_inTx (pg_bind (stmt (q_RevokeAdminRefreshToken i at None)) (\<lambda>hit.
       if \<not> hit then pg_return () else insertAudit e))"

definition RevokeAdminSessions :: "uuid \<Rightarrow> time \<Rightarrow> AuditEntry \<Rightarrow> unit action" where
  "RevokeAdminSessions i at e =
     user_inTx (pg_bind (stmt (q_RevokeAdminUserRefreshTokens i at)) (\<lambda>_. insertAudit e))"

definition WriteAudit :: "AuditEntry \<Rightarrow> unit action" where
  "WriteAudit e = insertAudit e"

subsection \<open>Machine credentials\<close>

definition cred_by_hash :: "string \<Rightarrow> admin_db \<Rightarrow> AdminCredential option" where
  "cred_by_hash hash db = map_option dr_Cred (List.find (\<lambda>r. dr_Hash r = hash) (db_creds db))"

definition cred_by_ref :: "(uuid \<Rightarrow> string) \<Rightarrow> string \<Rightarrow> admin_db \<Rightarrow> AdminCredential option" where
  "cred_by_ref text_of ref db =
     map_option dr_Cred (List.find (\<lambda>r. cr_Name (dr_Cred r) = ref \<or> text_of (cr_ID (dr_Cred r)) = ref) (db_creds db))"

definition q_ListAdminCredentials :: "AdminCredential list query" where
  "q_ListAdminCredentials db = (Inr (sort_key cr_CreatedAt (map dr_Cred (db_creds db))), db)"

definition q_CreateAdminCredential :: "AdminCredential \<Rightarrow> string \<Rightarrow> AdminCredential option query" where
  "q_CreateAdminCredential c hash db =
     (if list_ex (\<lambda>r. cr_Name (dr_Cred r) = cr_Name c) (db_creds db) then (Inr None, db)
      else if list_ex (\<lambda>r. cr_ID (dr_Cred r) = cr_ID c \<or> dr_Hash r = hash) (db_creds db) \<or> cr_Name c = '''' \<or>
              cr_Prefix c = '''' \<or> length hash \<noteq> 32 \<or> \<not> Role_Valid (cr_Role c)
      then (Inl StoreFailed, db)
      else
        let row = c\<lparr>cr_ExpiresAt := map_option (db_time db) (cr_ExpiresAt c), cr_CreatedAt := db_now db,
                    cr_LastUsedAt := None, cr_RevokedAt := None\<rparr>
        in (Inr (Some row), db\<lparr>db_creds := db_creds db @ [\<lparr>dr_Cred = row, dr_Hash = hash\<rparr>]\<rparr>))"

definition q_RevokeAdminCredential :: "uuid \<Rightarrow> AdminCredential option query" where
  "q_RevokeAdminCredential i db =
     (let hit = (\<lambda>r. cr_ID (dr_Cred r) = i \<and> cr_RevokedAt (dr_Cred r) = None);
          f = (\<lambda>r. r\<lparr>dr_Cred := (dr_Cred r)\<lparr>cr_RevokedAt := Some (db_now db)\<rparr>\<rparr>)
      in (Inr (map_option (\<lambda>r. dr_Cred (f r)) (List.find hit (db_creds db))),
          db\<lparr>db_creds := map (\<lambda>r. if hit r then f r else r) (db_creds db)\<rparr>))"

definition q_TouchAdminCredential :: "uuid \<Rightarrow> time \<Rightarrow> unit query" where
  "q_TouchAdminCredential i at db =
     (let latest = (\<lambda>c. case cr_LastUsedAt c of None \<Rightarrow> db_time db at | Some t \<Rightarrow> max t (db_time db at))
      in (Inr (), db\<lparr>db_creds := map (\<lambda>r. if cr_ID (dr_Cred r) = i
            then r\<lparr>dr_Cred := (dr_Cred r)\<lparr>cr_LastUsedAt := Some (latest (dr_Cred r))\<rparr>\<rparr> else r) (db_creds db)\<rparr>))"

definition AdminCredentialByTokenHash :: "string \<Rightarrow> AdminCredential action" where
  "AdminCredentialByTokenHash hash = found (select_one (cred_by_hash hash))"

definition AdminCredentialByRef :: "(uuid \<Rightarrow> string) \<Rightarrow> string \<Rightarrow> AdminCredential action" where
  "AdminCredentialByRef text_of ref = found (select_one (cred_by_ref text_of ref))"

definition ListAdminCredentials :: "AdminCredential list action" where
  "ListAdminCredentials = stmt q_ListAdminCredentials"

definition TouchAdminCredential :: "uuid \<Rightarrow> time \<Rightarrow> unit action" where
  "TouchAdminCredential i at = stmt (q_TouchAdminCredential i at)"

definition cred_inTx :: "'a action \<Rightarrow> 'a action" where
  "cred_inTx fn = with_tx StoreFailed fn"

definition CreateAdminCredential :: "AdminCredential \<Rightarrow> string \<Rightarrow> AuditEntry \<Rightarrow> AdminCredential action" where
  "CreateAdminCredential c hash e =
     cred_inTx (pg_bind (stmt (q_CreateAdminCredential c hash)) (\<lambda>row.
       case row of
         None \<Rightarrow> pg_fail ErrConflict
       | Some out \<Rightarrow> pg_bind (insertAudit e) (\<lambda>_. pg_return out)))"

definition RevokeAdminCredential :: "(uuid \<Rightarrow> string) \<Rightarrow> uuid \<Rightarrow> AuditEntry \<Rightarrow> AdminCredential action" where
  "RevokeAdminCredential text_of i e =
     cred_inTx (pg_bind (stmt (q_RevokeAdminCredential i)) (\<lambda>row.
       case row of
         None \<Rightarrow> AdminCredentialByRef text_of (text_of i)
       | Some out \<Rightarrow> pg_bind (insertAudit e) (\<lambda>_. pg_return out)))"

section \<open>Facts\<close>

subsection \<open>The constraints of the tables\<close>

text \<open>Primary keys, unique indexes and the foreign keys of people, refresh tokens and credentials; a
  token that was replaced is a token that was revoked.\<close>

definition users_ok :: "admin_user_row list \<Rightarrow> bool" where
  "users_ok us \<longleftrightarrow> distinct (map (\<lambda>r. us_ID (ur_User r)) us) \<and> distinct (map (\<lambda>r. us_Email (ur_User r)) us)"

definition tokens_ok :: "uuid set \<Rightarrow> refresh_token_row list \<Rightarrow> bool" where
  "tokens_ok people ts \<longleftrightarrow>
     distinct (map (\<lambda>r. rt_ID (tk_Token r)) ts) \<and> distinct (map tk_Hash ts) \<and>
     set (map (\<lambda>r. rt_UserID (tk_Token r)) ts) \<subseteq> people \<and>
     (\<forall>r \<in> set ts. \<forall>j. rt_ReplacedBy (tk_Token r) = Some j \<longrightarrow>
        RefreshToken_Revoked (tk_Token r) \<and> j \<in> set (map (\<lambda>r. rt_ID (tk_Token r)) ts))"

definition creds_ok :: "credential_row list \<Rightarrow> bool" where
  "creds_ok cs \<longleftrightarrow>
     distinct (map (\<lambda>r. cr_ID (dr_Cred r)) cs) \<and> distinct (map (\<lambda>r. cr_Name (dr_Cred r)) cs) \<and> distinct (map dr_Hash cs)"

definition identity_ok :: "admin_db \<Rightarrow> bool" where
  "identity_ok db \<longleftrightarrow>
     users_ok (db_users db) \<and> tokens_ok (set (map (\<lambda>r. us_ID (ur_User r)) (db_users db))) (db_tokens db) \<and> creds_ok (db_creds db)"

text \<open>An \<open>UPDATE\<close> that keeps a column keeps the list of its values.\<close>

lemma map_if_same: "(\<And>x. g (f x) = g x) \<Longrightarrow> map g (map (\<lambda>x. if P x then f x else x) xs) = map g xs"
  by (induction xs) auto

lemma find_None_all: "List.find P xs = None \<longleftrightarrow> (\<forall>x \<in> set xs. \<not> P x)"
  by (auto simp: find_None_iff)

lemma tokens_ok_update:
  assumes "tokens_ok people ts"
    and f: "\<And>r. rt_ID (tk_Token (f r)) = rt_ID (tk_Token r)" "\<And>r. rt_UserID (tk_Token (f r)) = rt_UserID (tk_Token r)"
      "\<And>r. tk_Hash (f r) = tk_Hash r" "\<And>r. RefreshToken_Revoked (tk_Token (f r))"
    and "\<And>r j. r \<in> set ts \<Longrightarrow> rt_ReplacedBy (tk_Token (f r)) = Some j \<Longrightarrow> P r \<Longrightarrow> j \<in> set (map (\<lambda>r. rt_ID (tk_Token r)) ts)"
  shows "tokens_ok people (map (\<lambda>r. if P r then f r else r) ts)"
  using assms(1) assms(6) unfolding tokens_ok_def map_if_same [of "\<lambda>r. rt_ID (tk_Token r)" f, OF f(1)]
    map_if_same [of "\<lambda>r. rt_UserID (tk_Token r)" f, OF f(2)] map_if_same [of tk_Hash f, OF f(3)]
  by (auto simp: f(4))

lemma query_keeps_identity:
  assumes "identity_ok db"
  shows create_user_ok: "identity_ok (snd (q_CreateAdminUser u hash db))"
    and update_user_ok: "(\<And>r. us_ID (ur_User (f r)) = us_ID (ur_User r) \<and> us_Email (ur_User (f r)) = us_Email (ur_User r)) \<Longrightarrow>
      identity_ok (snd (update_user i P f db))"
    and create_token_ok: "identity_ok (snd (q_CreateAdminRefreshToken s db))"
    and revoke_all_ok: "identity_ok (snd (q_RevokeAdminUserRefreshTokens i at db))"
    and create_cred_ok: "identity_ok (snd (q_CreateAdminCredential c hash db))"
    and revoke_cred_ok: "identity_ok (snd (q_RevokeAdminCredential i db))"
    and touch_cred_ok: "identity_ok (snd (q_TouchAdminCredential i at db))"
    and audit_ok: "identity_ok (snd (q_CreateAuditEntry e db))"
proof -
  have "tokens_ok (insert x P) ts" if "tokens_ok P ts" for x P ts using that by (auto simp: tokens_ok_def)
  then show "identity_ok (snd (q_CreateAdminUser u hash db))"
    using assms by (auto simp: q_CreateAdminUser_def identity_ok_def users_ok_def user_by_email_def user_by_id_def find_None_all Let_def)
  show "identity_ok (snd (update_user i P f db))"
    if f: "\<And>r. us_ID (ur_User (f r)) = us_ID (ur_User r) \<and> us_Email (ur_User (f r)) = us_Email (ur_User r)"
    using assms map_if_same [of "\<lambda>r. us_ID (ur_User r)" f] map_if_same [of "\<lambda>r. us_Email (ur_User r)" f] f
    by (simp add: update_user_def identity_ok_def users_ok_def Let_def del: map_map set_map)
  show "identity_ok (snd (q_CreateAdminRefreshToken s db))"
    using assms unfolding q_CreateAdminRefreshToken_def identity_ok_def tokens_ok_def token_by_id_def user_by_id_def Let_def
    by (auto simp: find_None_all list_ex_iff image_iff) metis+
  show "identity_ok (snd (q_RevokeAdminUserRefreshTokens i at db))"
    using assms unfolding q_RevokeAdminUserRefreshTokens_def identity_ok_def
    by (auto intro!: tokens_ok_update simp: RefreshToken_Revoked_def) (auto simp: tokens_ok_def)
  show "identity_ok (snd (q_CreateAdminCredential c hash db))"
    using assms by (auto simp: q_CreateAdminCredential_def identity_ok_def creds_ok_def list_ex_iff Let_def)
  show "identity_ok (snd (q_RevokeAdminCredential i db))"
    using assms by (simp add: q_RevokeAdminCredential_def identity_ok_def creds_ok_def Let_def map_if_same del: map_map)
  show "identity_ok (snd (q_TouchAdminCredential i at db))"
    using assms by (simp add: q_TouchAdminCredential_def identity_ok_def creds_ok_def Let_def map_if_same del: map_map)
  show "identity_ok (snd (q_CreateAuditEntry e db))"
    using assms by (simp add: q_CreateAuditEntry_def identity_ok_def Let_def)
qed

lemma revoke_token_ok:
  assumes "identity_ok db"
  shows "identity_ok (snd (q_RevokeAdminRefreshToken i at by db))"
  using assms unfolding q_RevokeAdminRefreshToken_def identity_ok_def Let_def
  by (auto intro!: tokens_ok_update simp: RefreshToken_Revoked_def revoke_token_def token_by_id_def find_None_all split: option.splits)

lemma delete_expired_ok:
  assumes "identity_ok db"
  shows "identity_ok (snd (q_DeleteExpiredAdminRefreshTokens i before db))"
proof -
  let ?dead = "\<lambda>r. rt_UserID (tk_Token r) = i \<and> rt_ExpiresAt (tk_Token r) < db_time db before"
  let ?id = "\<lambda>r. rt_ID (tk_Token r)"
  have keep: "tokens_ok P (filter (\<lambda>r. \<not> D r) ts)"
    if "tokens_ok P ts" "\<forall>r \<in> set (filter (\<lambda>r. \<not> D r) ts). \<forall>j. rt_ReplacedBy (tk_Token r) = Some j \<longrightarrow> j \<notin> set (map ?id (filter D ts))" for P D ts
    using that by (fastforce simp: tokens_ok_def distinct_map_filter)
  have "tokens_ok P (filter (\<lambda>r. \<not> ?dead r) (db_tokens db))"
    if "tokens_ok P (db_tokens db)" "\<not> list_ex (\<lambda>r. case rt_ReplacedBy (tk_Token r) of None \<Rightarrow> False
      | Some j \<Rightarrow> j \<in> set (map ?id (filter ?dead (db_tokens db)))) (filter (\<lambda>r. \<not> ?dead r) (db_tokens db))" for P
    by (rule keep [OF that(1)]) (use that(2) in \<open>auto simp: list_ex_iff split: option.splits\<close>)
  then show ?thesis using assms unfolding q_DeleteExpiredAdminRefreshTokens_def Let_def by (simp add: identity_ok_def)
qed

lemma user_queries_ok:
  assumes "identity_ok db"
  shows "identity_ok (snd (q_DisableAdminUser i at db))" "identity_ok (snd (q_SetAdminUserPassword i hash at db))"
    "identity_ok (snd (q_TouchAdminUserLogin i at db))"
  using assms by (auto simp: q_DisableAdminUser_def q_SetAdminUserPassword_def q_TouchAdminUserLogin_def Let_def intro!: update_user_ok)

text \<open>Hence every method of the two repositories keeps them, committed, rolled back or cut off.\<close>

lemma keeps_query [keeps_intros]: "(\<And>db. I db \<Longrightarrow> I (snd (query db))) \<Longrightarrow> keeps_body I (stmt query)"
  unfolding stmt_def by (rule keeps_stmt)

lemma keeps_found [keeps_intros]: "(\<And>db. I db \<Longrightarrow> I (snd (query db))) \<Longrightarrow> keeps_body I (found query)"
  unfolding found_def by (intro keeps_intros)

lemmas identity_queries = create_user_ok create_token_ok revoke_all_ok create_cred_ok revoke_cred_ok touch_cred_ok audit_ok
  revoke_token_ok delete_expired_ok user_queries_ok

lemmas identity_repo_defs = AdminUserByID_def AdminUserByEmail_def AdminUserForLogin_def ListAdminUsers_def CreateAdminUser_def
  DisableAdminUser_def SetAdminUserPassword_def insertSession_def StartAdminSession_def AdminSessionByTokenHash_def
  RotateAdminSession_def EndAdminSession_def RevokeAdminSessions_def WriteAudit_def AdminCredentialByTokenHash_def
  AdminCredentialByRef_def ListAdminCredentials_def TouchAdminCredential_def CreateAdminCredential_def
  RevokeAdminCredential_def insertAudit_def user_inTx_def cred_inTx_def

text \<open>The contract of the queries, for a predicate of the tables: whatever every query keeps, every method
  of the two repositories keeps, and every use case over them.\<close>

locale query_invariant =
  fixes I :: "admin_db \<Rightarrow> bool"
  assumes users: "I db \<Longrightarrow> I (snd (q_CreateAdminUser u hash db))" "I db \<Longrightarrow> I (snd (q_DisableAdminUser i at db))"
      "I db \<Longrightarrow> I (snd (q_SetAdminUserPassword i hash at db))" "I db \<Longrightarrow> I (snd (q_TouchAdminUserLogin i at db))"
    and tokens: "I db \<Longrightarrow> I (snd (q_CreateAdminRefreshToken s db))" "I db \<Longrightarrow> I (snd (q_RevokeAdminUserRefreshTokens i at db))"
      "I db \<Longrightarrow> I (snd (q_RevokeAdminRefreshToken i at by db))" "I db \<Longrightarrow> I (snd (q_DeleteExpiredAdminRefreshTokens i at db))"
    and creds: "I db \<Longrightarrow> I (snd (q_CreateAdminCredential c hash db))" "I db \<Longrightarrow> I (snd (q_RevokeAdminCredential i db))"
      "I db \<Longrightarrow> I (snd (q_TouchAdminCredential i at db))"
    and audit: "I db \<Longrightarrow> I (snd (q_CreateAuditEntry e db))"
begin

lemma reads: "I db \<Longrightarrow> I (snd (select_one f db))" "I db \<Longrightarrow> I (snd (q_ListAdminUsers db))"
  "I db \<Longrightarrow> I (snd (q_ListAdminCredentials db))"
  by (simp_all add: select_one_def q_ListAdminUsers_def q_ListAdminCredentials_def)

lemma repo_keeps:
  "keeps_body I (AdminUserByID i)" "keeps_body I (AdminUserByEmail email)" "keeps_body I (AdminUserForLogin email)"
  "keeps_body I ListAdminUsers" "keeps_body I (CreateAdminUser u hash e)"
  "keeps_body I (DisableAdminUser i at e)" "keeps_body I (SetAdminUserPassword i hash at e)"
  "keeps_body I (StartAdminSession s e)" "keeps_body I (AdminSessionByTokenHash hash)"
  "keeps_body I (RotateAdminSession i s)" "keeps_body I (EndAdminSession i at e)"
  "keeps_body I (RevokeAdminSessions i at e)" "keeps_body I (WriteAudit e)"
  "keeps_body I (AdminCredentialByTokenHash hash)" "keeps_body I (AdminCredentialByRef text_of ref)"
  "keeps_body I ListAdminCredentials" "keeps_body I (TouchAdminCredential i at)"
  "keeps_body I (CreateAdminCredential c hash e)" "keeps_body I (RevokeAdminCredential text_of i e)"
  unfolding identity_repo_defs
  by (intro keeps_intros users tokens creds audit reads; assumption)+

end

interpretation tables: query_invariant identity_ok
  by unfold_locales (rule identity_queries; assumption)+

end
