(* ===== verification/Password.thy ===== *)
theory Password
  imports Admin_Domain
begin

text \<open>
  How passwords are stored and checked (\<open>core/password/password.go\<close>): the PHC string an argon2id
  hash is kept as, its reader, \<open>Hash\<close> and \<open>Verify\<close>. The policy a password has to satisfy is in
  \<open>Admin_Domain\<close>.

  Parameters: \<open>argon2.IDKey\<close> and \<open>argon2.Version\<close> (\<open>argon2\<close>), and the salt \<open>rand.Read\<close> returns.
  \<open>fmt.Sscanf\<close> is modelled for the formats the source uses, its white space being ASCII.
\<close>

section \<open>Definitions\<close>

definition timeCost :: nat where "timeCost = 3"
definition memoryCost :: nat where "memoryCost = 64 * 1024"
definition parallelism :: nat where "parallelism = 2"
definition saltLength :: nat where "saltLength = 16"
definition keyLength :: nat where "keyLength = 32"

record argon2 =
  ar_IDKey :: "string \<Rightarrow> string \<Rightarrow> nat \<Rightarrow> nat \<Rightarrow> nat \<Rightarrow> nat \<Rightarrow> string"
  ar_Version :: int

definition base64std :: string where
  "base64std = ''ABCDEFGHIJKLMNOPQRSTUVWXYZabcdefghijklmnopqrstuvwxyz0123456789+/''"

datatype password_error = ErrMismatch | ErrMalformed | ErrPolicy PolicyError | SaltFailed

subsection \<open>The PHC string\<close>

definition phc_encode :: "argon2 \<Rightarrow> string \<Rightarrow> string \<Rightarrow> string" where
  "phc_encode A salt digest =
     ''$argon2id$v='' @ FormatInt (ar_Version A) @ ''$m='' @ FormatInt (int memoryCost) @
     '',t='' @ FormatInt (int timeCost) @ '',p='' @ FormatInt (int parallelism) @ ''$'' @
     encode_raw 6 base64std salt @ ''$'' @ encode_raw 6 base64std digest"

definition scan_literal :: "string \<Rightarrow> string \<Rightarrow> string option" where
  "scan_literal lit s = (if take (length lit) s = lit then Some (drop (length lit) s) else None)"

definition is_scan_space :: "char \<Rightarrow> bool" where
  "is_scan_space c \<longleftrightarrow> c \<in> {CHR 0x09, CHR 0x0B, CHR 0x0C, CHR 0x0D, CHR 0x20}"

text \<open>The verb \<open>%d\<close> into an unsigned integer of the given width, and into an \<open>int\<close>.\<close>

definition scan_uint :: "nat \<Rightarrow> string \<Rightarrow> (nat \<times> string) option" where
  "scan_uint bits s0 =
     (let s = dropWhile is_scan_space s0;
          ds = takeWhile is_digit s;
          n = digits_value (rev ds)
      in if ds = [] \<or> n \<ge> 2 ^ bits then None else Some (n, dropWhile is_digit s))"

definition scan_int :: "string \<Rightarrow> (int \<times> string) option" where
  "scan_int s0 =
     (let s = dropWhile is_scan_space s0;
          sign = (case s of c # _ \<Rightarrow> if c \<in> set ''+-'' then [c] else [] | [] \<Rightarrow> []);
          t = drop (length sign) s;
          ds = takeWhile is_digit t
      in case (if ds = [] then None else ParseInt (sign @ ds)) of
           None \<Rightarrow> None
         | Some n \<Rightarrow> Some (n, dropWhile is_digit t))"

definition scan_version :: "string \<Rightarrow> int option" where
  "scan_version s = Option.bind (scan_literal ''v='' s) (\<lambda>s1. map_option fst (scan_int s1))"

definition scan_parameters :: "string \<Rightarrow> (nat \<times> nat \<times> nat) option" where
  "scan_parameters s =
     Option.bind (scan_literal ''m='' s) (\<lambda>s1.
     Option.bind (scan_uint 32 s1) (\<lambda>(m, s2).
     Option.bind (scan_literal '',t='' s2) (\<lambda>s3.
     Option.bind (scan_uint 32 s3) (\<lambda>(t, s4).
     Option.bind (scan_literal '',p='' s4) (\<lambda>s5.
     Option.bind (scan_uint 8 s5) (\<lambda>(p, _).
     Some (m, t, p)))))))"

text \<open>\<open>decode\<close>, \<open>None\<close> standing for \<open>ErrMalformed\<close>: the costs, the salt and the digest.\<close>

definition phc_decode :: "argon2 \<Rightarrow> string \<Rightarrow> (nat \<times> nat \<times> nat \<times> string \<times> string) option" where
  "phc_decode A encoded =
     (let parts = Split CHR ''$'' encoded in
      if length parts \<noteq> 6 \<or> parts ! 0 \<noteq> '''' \<or> parts ! 1 \<noteq> ''argon2id'' then None
      else if scan_version (parts ! 2) \<noteq> Some (ar_Version A) then None
      else
        case scan_parameters (parts ! 3) of
          None \<Rightarrow> None
        | Some (m, t, p) \<Rightarrow>
            if m = 0 \<or> t = 0 \<or> p = 0 then None
            else
              case (decode_raw 6 base64std (parts ! 4), decode_raw 6 base64std (parts ! 5)) of
                (Some salt, Some digest) \<Rightarrow>
                  if salt = '''' \<or> digest = '''' then None else Some (t, m, p, salt, digest)
              | _ \<Rightarrow> None)"

subsection \<open>Hash and Verify\<close>

definition derive :: "argon2 \<Rightarrow> string \<Rightarrow> string \<Rightarrow> nat \<Rightarrow> nat \<Rightarrow> nat \<Rightarrow> nat \<Rightarrow> string" where
  "derive A plain salt t m p len = ar_IDKey A plain salt t m p len"

definition Hash :: "argon2 \<Rightarrow> string option \<Rightarrow> string \<Rightarrow> password_error + string" where
  "Hash A random plain =
     (case checkLength plain of
        Some e \<Rightarrow> Inl (ErrPolicy e)
      | None \<Rightarrow>
          (case random of
             None \<Rightarrow> Inl SaltFailed
           | Some salt \<Rightarrow> Inr (phc_encode A salt (derive A plain salt timeCost memoryCost parallelism keyLength))))"

definition Verify :: "argon2 \<Rightarrow> string \<Rightarrow> string \<Rightarrow> password_error option" where
  "Verify A encoded plain =
     (case phc_decode A encoded of
        None \<Rightarrow> Some ErrMalformed
      | Some (t, m, p, salt, want) \<Rightarrow>
          if derive A plain salt t m p (length want) \<noteq> want then Some ErrMismatch else None)"

text \<open>The hash an unknown email is verified against; a failed read leaves the salt zeroed.\<close>

definition Dummy :: "argon2 \<Rightarrow> string option \<Rightarrow> string" where
  "Dummy A random =
     (let salt = (case random of Some s \<Rightarrow> s | None \<Rightarrow> replicate saltLength CHR 0x00)
      in phc_encode A salt (derive A salt salt timeCost memoryCost parallelism keyLength))"

section \<open>Facts\<close>

lemma base64std_alphabet:
  "distinct base64std" "length base64std = 2 ^ 6" "CHR 0x0A \<notin> set base64std" "CHR 0x0D \<notin> set base64std"
  "CHR ''$'' \<notin> set base64std"
  by (simp_all add: base64std_def)

lemma decode_base64std: "decode_raw 6 base64std (encode_raw 6 base64std s) = Some s"
  by (rule decode_encode) (simp_all add: base64std_alphabet)

lemma encode_raw_alphabet:
  assumes "0 < k" "length alphabet = 2 ^ k"
  shows "set (encode_raw k alphabet s) \<subseteq> set alphabet"
proof -
  have "\<forall>g \<in> set (chunks k (bytes_bits s)). length g \<le> k" using concat_chunks [OF assms(1)] by blast
  then have "value_msb (g @ replicate (k - length g) False) < length alphabet" if "g \<in> set (chunks k (bytes_bits s))" for g
    using value_msb_less [of "g @ replicate (k - length g) False"] that assms(2) by auto
  then show ?thesis by (auto simp: encode_raw_def)
qed

lemma digits_all: "list_all is_digit (rev (digits_rev n))"
  by (auto simp: list_all_iff dest: digit_chars)

lemma span_digits:
  "\<forall>c \<in> set ds. is_digit c \<Longrightarrow> rest = [] \<or> \<not> is_digit (hd rest) \<Longrightarrow>
     takeWhile is_digit (ds @ rest) = ds \<and> dropWhile is_digit (ds @ rest) = rest"
  by (induction ds) (cases rest; auto)+

lemma takeWhile_digits:
  assumes "rest = [] \<or> \<not> is_digit (hd rest)"
  shows "takeWhile is_digit (rev (digits_rev n) @ rest) = rev (digits_rev n)"
    "dropWhile is_digit (rev (digits_rev n) @ rest) = rest"
  using span_digits [OF _ assms, of "rev (digits_rev n)"] digit_chars by auto

lemma digit_not_space: "is_digit c \<Longrightarrow> \<not> is_scan_space c \<and> c \<notin> set ''+-''"
  by (auto simp: is_digit_def in_range_def byte_def is_scan_space_def)

lemma first_digit: "\<exists>c cs. rev (digits_rev n) = c # cs \<and> is_digit c"
  using digits_all [of n] by (cases "rev (digits_rev n)") auto

lemma scan_uint_digits:
  assumes "n < 2 ^ bits" "rest = [] \<or> \<not> is_digit (hd rest)"
  shows "scan_uint bits (FormatInt (int n) @ rest) = Some (n, rest)"
proof -
  obtain c cs where c: "rev (digits_rev n) = c # cs" "is_digit c" using first_digit by blast
  then have "dropWhile is_scan_space (rev (digits_rev n) @ rest) = rev (digits_rev n) @ rest"
    using digit_not_space by simp
  then show ?thesis
    using assms by (simp add: scan_uint_def FormatInt_def takeWhile_digits digits_rev_value)
qed

lemma scan_int_digits:
  assumes "in_i64 (int n)"
  shows "map_option fst (scan_int (FormatInt (int n))) = Some (int n)"
proof -
  obtain c cs where c: "rev (digits_rev n) = c # cs" "is_digit c" using first_digit by blast
  have sp: "dropWhile is_scan_space (rev (digits_rev n)) = rev (digits_rev n)" using c digit_not_space by simp
  have sign: "(case rev (digits_rev n) of c # _ \<Rightarrow> if c \<in> set ''+-'' then [c] else [] | [] \<Rightarrow> []) = []"
    using c digit_not_space [of c] by simp
  have "ParseInt (rev (digits_rev n)) = Some (int n)" using ParseInt_FormatInt [OF assms] by (simp add: FormatInt_def)
  then show ?thesis
    using takeWhile_digits [of "[]" n, simplified append_Nil2] unfolding scan_int_def Let_def FormatInt_def
    by (simp add: sp sign del: takeWhile_eq_all_conv)
qed

lemma scan_literal_append [simp]: "scan_literal lit (lit @ s) = Some s"
  by (simp add: scan_literal_def)

lemma format_no_dollar: "0 \<le> n \<Longrightarrow> CHR ''$'' \<notin> set (FormatInt n)"
  using digit_chars [of "CHR ''$''" "nat n"] by (auto simp: FormatInt_def is_digit_def in_range_def byte_def)

lemma scan_parameters_encoded:
  assumes "m < 2 ^ 32" "t < 2 ^ 32" "p < 2 ^ 8"
  shows "scan_parameters (''m='' @ FormatInt (int m) @ '',t='' @ FormatInt (int t) @ '',p='' @ FormatInt (int p)) = Some (m, t, p)"
proof -
  have comma: "\<not> is_digit CHR '',''" by (simp add: is_digit_def in_range_def byte_def)
  show ?thesis
    using scan_uint_digits [OF assms(1), of "'',t='' @ FormatInt (int t) @ '',p='' @ FormatInt (int p)"]
      scan_uint_digits [OF assms(2), of "'',p='' @ FormatInt (int p)"] scan_uint_digits [OF assms(3), of "[]"] comma
    by (simp only: scan_parameters_def scan_literal_append Option.bind.simps prod.case) (simp add: comma scan_literal_def)
qed

lemma phc_decode_encode:
  assumes "salt \<noteq> ''''" "digest \<noteq> ''''" "0 \<le> ar_Version A" "in_i64 (ar_Version A)"
  shows "phc_decode A (phc_encode A salt digest) = Some (timeCost, memoryCost, parallelism, salt, digest)"
proof -
  let ?parts = "['''', ''argon2id'', ''v='' @ FormatInt (ar_Version A),
    ''m='' @ FormatInt (int memoryCost) @ '',t='' @ FormatInt (int timeCost) @ '',p='' @ FormatInt (int parallelism),
    encode_raw 6 base64std salt, encode_raw 6 base64std digest]"
  have b64: "CHR ''$'' \<notin> set (encode_raw 6 base64std x)" for x
    using encode_raw_alphabet [of 6 base64std x] base64std_alphabet by auto
  have "phc_encode A salt digest = Join CHR ''$'' ?parts" by (simp add: phc_encode_def)
  moreover have "Split CHR ''$'' (Join CHR ''$'' ?parts) = ?parts"
    by (rule Split_Join) (simp_all add: b64 format_no_dollar assms(3))
  ultimately have split: "Split CHR ''$'' (phc_encode A salt digest) = ?parts" by simp
  have version: "scan_version (''v='' @ FormatInt (ar_Version A)) = Some (ar_Version A)"
    using scan_int_digits [of "nat (ar_Version A)"] assms(3,4)
    by (simp only: scan_version_def scan_literal_append Option.bind.simps) simp
  have params: "scan_parameters (''m='' @ FormatInt (int memoryCost) @ '',t='' @ FormatInt (int timeCost) @ '',p='' @ FormatInt (int parallelism)) =
      Some (memoryCost, timeCost, parallelism)"
    by (rule scan_parameters_encoded) (simp_all add: memoryCost_def timeCost_def parallelism_def)
  have pos: "memoryCost \<noteq> 0" "timeCost \<noteq> 0" "parallelism \<noteq> 0" by (simp_all add: memoryCost_def timeCost_def parallelism_def)
  have parts: "length ?parts = 6" "?parts ! 0 = ''''" "?parts ! 1 = ''argon2id''" "?parts ! 2 = ''v='' @ FormatInt (ar_Version A)"
    "?parts ! 3 = ''m='' @ FormatInt (int memoryCost) @ '',t='' @ FormatInt (int timeCost) @ '',p='' @ FormatInt (int parallelism)"
    "?parts ! 4 = encode_raw 6 base64std salt" "?parts ! 5 = encode_raw 6 base64std digest"
    by simp_all
  show ?thesis
    unfolding phc_decode_def Let_def split parts version params decode_base64std using pos assms(1,2) by simp
qed

section \<open>Properties\<close>

text \<open>
  C32. What \<open>Hash\<close> stores, \<open>Verify\<close> reads back: a stored hash is well formed, the salt and the costs
  survive the PHC string, and a password is accepted exactly when argon2id derives the same digest
  from it under the stored salt. In particular the password that was hashed is accepted, and a
  password outside the length bounds is never hashed. The hypotheses on argon2id are its
  documentation: \<open>IDKey\<close> returns as many bytes as asked for, \<open>Version\<close> is a small positive number.
\<close>

theorem hash_verify_roundtrip:
  assumes "Hash A (Some salt) plain = Inr stored" "length salt = saltLength"
    and "\<And>p s t m n k. length (ar_IDKey A p s t m n k) = k" "0 \<le> ar_Version A" "in_i64 (ar_Version A)"
  shows "MinLength \<le> RuneCount plain \<and> RuneCount plain \<le> MaxLength \<and> Verify A stored plain = None \<and>
    (Verify A stored attempt = None \<longleftrightarrow>
       derive A attempt salt timeCost memoryCost parallelism keyLength = derive A plain salt timeCost memoryCost parallelism keyLength)"
proof -
  let ?d = "\<lambda>p. derive A p salt timeCost memoryCost parallelism keyLength"
  have stored: "stored = phc_encode A salt (?d plain)" and len: "checkLength plain = None"
    using assms(1) by (auto simp: Hash_def split: option.splits)
  have d: "length (?d plain) = keyLength" by (simp add: derive_def assms(3))
  have "salt \<noteq> ''''" "?d plain \<noteq> ''''" using assms(2) d by (auto simp: saltLength_def keyLength_def)
  then have "phc_decode A stored = Some (timeCost, memoryCost, parallelism, salt, ?d plain)"
    unfolding stored by (rule phc_decode_encode) (rule assms(4,5))+
  then have "Verify A stored p = None \<longleftrightarrow> ?d p = ?d plain" for p by (simp add: Verify_def d)
  moreover have "MinLength \<le> RuneCount plain \<and> RuneCount plain \<le> MaxLength"
    using len by (auto simp: checkLength_def Let_def split: if_splits)
  ultimately show ?thesis by blast
qed

theorem hash_verify_roundtrip_witness:
  "let A = \<lparr>ar_IDKey = (\<lambda>p s t m n k. take k (p @ replicate k CHR ''.'')), ar_Version = 19\<rparr>;
       salt = replicate 16 CHR ''s'';
       stored = projr (Hash A (Some salt) ''correct-horse'')
   in MinLength \<le> RuneCount ''correct-horse'' \<and> RuneCount ''correct-horse'' \<le> MaxLength \<and>
      Verify A stored ''correct-horse'' = None \<and>
      (Verify A stored ''incorrect-horse'' = None \<longleftrightarrow>
         derive A ''incorrect-horse'' salt timeCost memoryCost parallelism keyLength =
         derive A ''correct-horse'' salt timeCost memoryCost parallelism keyLength)"
proof -
  let ?A = "\<lparr>ar_IDKey = (\<lambda>p s t m n k. take k (p @ replicate k CHR ''.'')), ar_Version = 19\<rparr>"
  let ?salt = "replicate 16 CHR ''s''"
  have "checkLength ''correct-horse'' = None" by code_simp
  then have "Hash ?A (Some ?salt) ''correct-horse'' = Inr (projr (Hash ?A (Some ?salt) ''correct-horse''))"
    by (simp add: Hash_def)
  from hash_verify_roundtrip [OF this, of "''incorrect-horse''"] show ?thesis
    unfolding Let_def by (simp add: saltLength_def in_i64_def)
qed

end
