(* ===== verification/Admin_Sessions.thy ===== *)
theory Admin_Sessions
  imports Admin_Identities Password "HOL-Library.AList"
begin

text \<open>
  The people half of the admin API: access tokens (\<open>core/tokens/jwt.go\<close>), the throttle of failed
  logins (\<open>usecases/admin/throttle.go\<close>), accounts and sessions (\<open>usecases/admin/users.go\<close>) and the
  operators' machine credentials (\<open>usecases/admin/credentials.go\<close>).

  Parameters: signing and parsing of a JWT and the text of a UUID (\<open>jwt_env\<close>), argon2id, SHA-256, the
  encoding of audit details. What the clock, \<open>uuid.NewV7\<close> and the random reader return during one
  call is \<open>session_call\<close>.
\<close>

section \<open>Definitions\<close>

subsection \<open>Access tokens\<close>

definition MinSecretBytes :: nat where "MinSecretBytes = 32"
definition MinAccessTTL :: duration where "MinAccessTTL = Minute"
definition MaxAccessTTL :: duration where "MaxAccessTTL = 24 * Hour"

record Claims =
  cl_UserID :: uuid
  cl_Email :: string
  cl_Role :: Role
  cl_ID :: string
  cl_Issued :: time
  cl_Expiry :: time

record accessClaims =
  jc_Subject :: string
  jc_Issuer :: string
  jc_ID :: string
  jc_IssuedAt :: "time option"
  jc_ExpiresAt :: "time option"
  jc_Email :: string
  jc_Role :: Role

datatype jwt_failure = ErrTokenExpired | ErrTokenOther

datatype token_error = ErrExpired | ErrInvalidToken

text \<open>\<open>jw_parse secret issuer now token\<close> is \<open>jwt.ParseWithClaims\<close> with the options of the source: HS256
  only, this issuer, an expiry required, not issued in the future.\<close>

record jwt_env =
  jw_sign :: "string \<Rightarrow> accessClaims \<Rightarrow> string option"
  jw_parse :: "string \<Rightarrow> string \<Rightarrow> time \<Rightarrow> string \<Rightarrow> jwt_failure + accessClaims"
  jw_text :: "uuid \<Rightarrow> string"
  jw_uuid :: "string \<Rightarrow> uuid option"

record Issuer =
  is_secret :: string
  is_issuer :: string
  is_ttl :: duration

definition NewIssuer :: "string \<Rightarrow> string \<Rightarrow> duration \<Rightarrow> Issuer option" where
  "NewIssuer secret issuer ttl =
     (if length secret < MinSecretBytes then None
      else if issuer = '''' then None
      else if ttl < MinAccessTTL \<or> ttl > MaxAccessTTL then None
      else Some \<lparr>is_secret = secret, is_issuer = issuer, is_ttl = ttl\<rparr>)"

definition Issue :: "jwt_env \<Rightarrow> Issuer \<Rightarrow> uuid option \<Rightarrow> time \<Rightarrow> AdminUser \<Rightarrow> (string \<times> Claims) option" where
  "Issue J i random_id now user =
     (case random_id of
        None \<Rightarrow> None
      | Some jti \<Rightarrow>
          (let issued = Truncate now Second;
               claims = \<lparr>cl_UserID = us_ID user, cl_Email = us_Email user, cl_Role = us_Role user, cl_ID = jw_text J jti,
                         cl_Issued = issued, cl_Expiry = issued + is_ttl i\<rparr>
           in map_option (\<lambda>signed. (signed, claims))
                (jw_sign J (is_secret i)
                   \<lparr>jc_Subject = jw_text J (cl_UserID claims), jc_Issuer = is_issuer i, jc_ID = cl_ID claims,
                    jc_IssuedAt = Some (cl_Issued claims), jc_ExpiresAt = Some (cl_Expiry claims),
                    jc_Email = cl_Email claims, jc_Role = cl_Role claims\<rparr>)))"

definition Issuer_Verify :: "jwt_env \<Rightarrow> Issuer \<Rightarrow> time \<Rightarrow> string \<Rightarrow> token_error + Claims" where
  "Issuer_Verify J i now token =
     (case jw_parse J (is_secret i) (is_issuer i) now token of
        Inl ErrTokenExpired \<Rightarrow> Inl ErrExpired
      | Inl ErrTokenOther \<Rightarrow> Inl ErrInvalidToken
      | Inr c \<Rightarrow>
          (case (jc_ExpiresAt c, jc_IssuedAt c, jw_uuid J (jc_Subject c)) of
             (Some expiry, Some issued, Some userID) \<Rightarrow>
               Inr \<lparr>cl_UserID = userID, cl_Email = jc_Email c, cl_Role = jc_Role c, cl_ID = jc_ID c,
                    cl_Issued = issued, cl_Expiry = expiry\<rparr>
           | _ \<Rightarrow> Inl ErrInvalidToken))"

subsection \<open>The throttle\<close>

definition MaxLoginFailures :: int where "MaxLoginFailures = 5"
definition LoginFailureWindow :: duration where "LoginFailureWindow = 15 * Minute"
definition maxThrottleTracked :: nat where "maxThrottleTracked = 4096"
definition throttleSweepEvery :: int where "throttleSweepEvery = 256"

record window =
  wi_failures :: int
  wi_until :: time

record throttle =
  th_counts :: "(string \<times> window) list"
  th_writes :: int

definition newThrottle :: throttle where
  "newThrottle = \<lparr>th_counts = [], th_writes = 0\<rparr>"

definition blocked :: "throttle \<Rightarrow> string \<Rightarrow> time \<Rightarrow> bool" where
  "blocked t key now =
     (case map_of (th_counts t) key of
        None \<Rightarrow> False
      | Some w \<Rightarrow> now < wi_until w \<and> wi_failures w \<ge> MaxLoginFailures)"

definition sweep :: "time \<Rightarrow> throttle \<Rightarrow> throttle" where
  "sweep now t = t\<lparr>th_counts := filter (\<lambda>(_, w). \<not> wi_until w < now) (th_counts t)\<rparr>"

definition throttle_fail :: "string \<Rightarrow> time \<Rightarrow> throttle \<Rightarrow> throttle" where
  "throttle_fail key now t =
     (let w0 = (case map_of (th_counts t) key of Some w \<Rightarrow> w | None \<Rightarrow> \<lparr>wi_failures = 0, wi_until = zero_time\<rparr>);
          w = (if wi_until w0 < now then \<lparr>wi_failures = 0, wi_until = zero_time\<rparr> else w0);
          t' = \<lparr>th_counts = AList.update key \<lparr>wi_failures = i64 (wi_failures w + 1), wi_until = now + LoginFailureWindow\<rparr>
                  (th_counts t), th_writes = i64 (th_writes t + 1)\<rparr>
      in if th_writes t' smod throttleSweepEvery = 0 \<or> length (th_counts t') > maxThrottleTracked
         then sweep now t' else t')"

definition succeed :: "string \<Rightarrow> throttle \<Rightarrow> throttle" where
  "succeed key t = t\<lparr>th_counts := AList.delete key (th_counts t)\<rparr>"

subsection \<open>Accounts\<close>

definition RefreshTokenPrefix :: string where "RefreshTokenPrefix = ''gr_refresh_''"
definition DefaultRefreshTTL :: duration where "DefaultRefreshTTL = 30 * 24 * Hour"

record Users =
  uz_text :: text_env
  uz_argon :: argon2
  uz_sha256 :: "string \<Rightarrow> string"
  uz_marshal :: "audit_detail \<Rightarrow> string option"
  uz_jwt :: jwt_env
  uz_issuer :: "Issuer option"
  uz_refreshTTL :: duration
  uz_dummy_salt :: "string option"

definition NewUsers ::
  "text_env \<Rightarrow> argon2 \<Rightarrow> (string \<Rightarrow> string) \<Rightarrow> (audit_detail \<Rightarrow> string option) \<Rightarrow> jwt_env \<Rightarrow> string option \<Rightarrow>
   Issuer option \<Rightarrow> duration \<Rightarrow> Users" where
  "NewUsers T A sha256 marshal J dummy issuer refreshTTL =
     \<lparr>uz_text = T, uz_argon = A, uz_sha256 = sha256, uz_marshal = marshal, uz_jwt = J, uz_issuer = issuer,
      uz_refreshTTL = (if refreshTTL \<le> 0 then DefaultRefreshTTL else refreshTTL), uz_dummy_salt = dummy\<rparr>"

record session_call =
  sc_now :: time
  sc_audit_at :: time
  sc_issue_at :: time
  sc_id :: "uuid option"
  sc_audit_id :: "uuid option"
  sc_jti :: "uuid option"
  sc_random :: "string option"
  sc_salt :: "string option"

definition pg_lift :: "admin_error + 'a \<Rightarrow> 'a action" where
  "pg_lift r = (case r of Inl e \<Rightarrow> pg_fail e | Inr a \<Rightarrow> pg_return a)"

definition auditEntry :: "Users \<Rightarrow> session_call \<Rightarrow> string \<Rightarrow> string \<Rightarrow> audit_detail \<Rightarrow> admin_error + AuditEntry" where
  "auditEntry U c actor action detail =
     (case sc_audit_id c of
        None \<Rightarrow> Inl ErrEntropy
      | Some i \<Rightarrow>
          (case uz_marshal U detail of
             None \<Rightarrow> Inl ErrEncode
           | Some raw \<Rightarrow> Inr \<lparr>ae_ID = i, ae_At = sc_audit_at c, ae_TenantID = None, ae_KeyID = None, ae_Actor = actor,
                              ae_Action = action, ae_Detail = raw\<rparr>))"

definition userDetail :: "AdminUser \<Rightarrow> audit_detail" where
  "userDetail u = UserDetail (us_ID u) (us_Email u) (us_Role u)"

definition user_newID :: "session_call \<Rightarrow> admin_error + uuid" where
  "user_newID c = (case sc_id c of None \<Rightarrow> Inl ErrEntropy | Some i \<Rightarrow> Inr i)"

definition choosePassword :: "Users \<Rightarrow> session_call \<Rightarrow> string \<Rightarrow> string \<Rightarrow> admin_error + (string \<times> string)" where
  "choosePassword U c supplied email =
     (if supplied = '''' then
        (case Mint (uz_sha256 U) '''' (sc_random c) of
           None \<Rightarrow> Inl ErrEntropy
         | Some m \<Rightarrow> Inr (mi_Secret m, mi_Secret m))
      else
        (case Check (uz_text U) supplied email of
           Some rule \<Rightarrow> Inl (ErrInvalid (InvalidPassword rule))
         | None \<Rightarrow> Inr (supplied, '''')))"

definition hash_password :: "Users \<Rightarrow> session_call \<Rightarrow> string \<Rightarrow> admin_error + string" where
  "hash_password U c chosen =
     (case Hash (uz_argon U) (sc_salt c) chosen of
        Inr h \<Rightarrow> Inr h
      | Inl (ErrPolicy e) \<Rightarrow> Inl (ErrHash e)
      | Inl _ \<Rightarrow> Inl ErrEntropy)"

text \<open>The person and the generated password, empty when the caller supplied one.\<close>

definition Users_Create :: "Users \<Rightarrow> session_call \<Rightarrow> string \<Rightarrow> string \<Rightarrow> Role \<Rightarrow> string \<Rightarrow> (AdminUser \<times> string) action" where
  "Users_Create U c w email0 role supplied =
     (let email = NormaliseEmail (uz_text U) email0 in
      case ValidateEmail (uz_text U) email of
        Some e \<Rightarrow> pg_fail (ErrInvalid (InvalidEmail e))
      | None \<Rightarrow>
          if \<not> Role_Valid role then pg_fail (ErrInvalid (InvalidRole role))
          else
            pg_bind (pg_lift (choosePassword U c supplied email)) (\<lambda>(chosen, generated).
            pg_bind (pg_lift (hash_password U c chosen)) (\<lambda>hash.
            pg_bind (pg_lift (user_newID c)) (\<lambda>i.
            let user = \<lparr>us_ID = i, us_Email = email, us_Role = role, us_CreatedAt = zero_time, us_DisabledAt = None,
                        us_LastLoginAt = None, us_PasswordChangedAt = sc_now c\<rparr> in
            pg_bind (pg_lift (auditEntry U c w ''user.create'' (userDetail user))) (\<lambda>entry.
            pg_bind (CreateAdminUser user hash entry) (\<lambda>stored.
            pg_return (stored, generated)))))))"

definition Users_List :: "AdminUser list action" where
  "Users_List = ListAdminUsers"

definition byEmail :: "Users \<Rightarrow> string \<Rightarrow> AdminUser action" where
  "byEmail U email = AdminUserByEmail (NormaliseEmail (uz_text U) email)"

definition Users_Disable :: "Users \<Rightarrow> session_call \<Rightarrow> string \<Rightarrow> string \<Rightarrow> AdminUser action" where
  "Users_Disable U c w email =
     pg_bind (byEmail U email) (\<lambda>user.
     if AdminUser_Disabled user then pg_return user
     else
       pg_bind (pg_lift (auditEntry U c w ''user.disable'' (userDetail user))) (\<lambda>entry.
       DisableAdminUser (us_ID user) (sc_now c) entry))"

definition Users_SetPassword :: "Users \<Rightarrow> session_call \<Rightarrow> string \<Rightarrow> string \<Rightarrow> string \<Rightarrow> (AdminUser \<times> string) action" where
  "Users_SetPassword U c w email supplied =
     pg_bind (byEmail U email) (\<lambda>user.
     pg_bind (pg_lift (choosePassword U c supplied (us_Email user))) (\<lambda>(chosen, generated).
     pg_bind (pg_lift (hash_password U c chosen)) (\<lambda>hash.
     pg_bind (pg_lift (auditEntry U c w ''user.password_change'' (userDetail user))) (\<lambda>entry.
     pg_bind (SetAdminUserPassword (us_ID user) hash (sc_now c) entry) (\<lambda>stored.
     pg_return (stored, generated))))))"

subsection \<open>Sessions\<close>

record AdminSessionTokens =
  st_AccessToken :: string
  st_ExpiresAt :: time
  st_RefreshToken :: string
  st_User :: AdminUser

record Credentials =
  cd_Email :: string
  cd_Password :: string
  cd_ClientIP :: string

definition user_issue :: "Users \<Rightarrow> session_call \<Rightarrow> AdminUser \<Rightarrow> admin_error + (string \<times> time)" where
  "user_issue U c user =
     (case uz_issuer U of
        None \<Rightarrow> Inl ErrNoIssuer
      | Some i \<Rightarrow>
          (case Issue (uz_jwt U) i (sc_jti c) (sc_issue_at c) user of
             None \<Rightarrow> Inl ErrEntropy
           | Some (access, claims) \<Rightarrow> Inr (access, cl_Expiry claims)))"

definition mintSession :: "Users \<Rightarrow> session_call \<Rightarrow> uuid \<Rightarrow> time \<Rightarrow> admin_error + (Minted \<times> NewAdminSession)" where
  "mintSession U c userID now =
     (case Mint (uz_sha256 U) RefreshTokenPrefix (sc_random c) of
        None \<Rightarrow> Inl ErrEntropy
      | Some minted \<Rightarrow>
          (case user_newID c of
             Inl e \<Rightarrow> Inl e
           | Inr i \<Rightarrow> Inr (minted, \<lparr>ns_ID = i, ns_UserID = userID, ns_TokenHash = mi_Hash minted, ns_IssuedAt = now,
                                   ns_ExpiresAt = now + uz_refreshTTL U\<rparr>)))"

definition startSession :: "Users \<Rightarrow> session_call \<Rightarrow> AdminUser \<Rightarrow> time \<Rightarrow> AdminSessionTokens action" where
  "startSession U c user now =
     pg_bind (pg_lift (user_issue U c user)) (\<lambda>(access, expiry).
     pg_bind (pg_lift (mintSession U c (us_ID user) now)) (\<lambda>(minted, session).
     pg_bind (pg_lift (auditEntry U c (AdminUser_Actor user) ''user.login'' (userDetail user))) (\<lambda>entry.
     pg_bind (StartAdminSession session entry) (\<lambda>_.
     pg_return \<lparr>st_AccessToken = access, st_ExpiresAt = expiry, st_RefreshToken = mi_Secret minted, st_User = user\<rparr>))))"

text \<open>An audit row that cannot be written is logged and not reported.\<close>

definition auditLoginFailure :: "Users \<Rightarrow> session_call \<Rightarrow> string \<Rightarrow> string \<Rightarrow> string \<Rightarrow> admin_db pg \<Rightarrow> admin_db pg" where
  "auditLoginFailure U c email clientIP reason p =
     (case auditEntry U c (''user:'' @ email) ''user.login_failed'' (LoginFailureDetail email clientIP reason) of
        Inl _ \<Rightarrow> p
      | Inr entry \<Rightarrow> snd (WriteAudit entry p))"

definition auditSessionReuse :: "Users \<Rightarrow> session_call \<Rightarrow> AdminUser \<Rightarrow> time \<Rightarrow> admin_db pg \<Rightarrow> admin_db pg" where
  "auditSessionReuse U c user now p =
     (case auditEntry U c (AdminUser_Actor user) ''user.refresh_reuse'' (userDetail user) of
        Inl _ \<Rightarrow> p
      | Inr entry \<Rightarrow> snd (RevokeAdminSessions (us_ID user) now entry p))"

definition login_key :: "string \<Rightarrow> string \<Rightarrow> string" where
  "login_key email clientIP = email @ CHR 0x00 # clientIP"

definition Login :: "Users \<Rightarrow> session_call \<Rightarrow> Credentials \<Rightarrow> throttle \<Rightarrow> admin_db pg \<Rightarrow>
    (admin_error + AdminSessionTokens) \<times> throttle \<times> admin_db pg" where
  "Login U c creds th p =
     (let email = NormaliseEmail (uz_text U) (cd_Email creds);
          now = sc_now c;
          key = login_key email (cd_ClientIP creds);
          refuse = (\<lambda>reason th q. (Inl ErrUnauthenticated, th, auditLoginFailure U c email (cd_ClientIP creds) reason q))
      in if blocked th key now then refuse ''throttled'' th p
         else if TooLong (cd_Password creds) then refuse ''password_over_cap'' (throttle_fail key now th) p
         else
           case AdminUserForLogin email p of
             (Inr (user, hash), q) \<Rightarrow>
               if Verify (uz_argon U) hash (cd_Password creds) \<noteq> None \<or> us_ID user = 0 \<or> AdminUser_Disabled user
               then refuse ''invalid_credentials'' (throttle_fail key now th) q
               else (case startSession U c user now q of (r, q') \<Rightarrow> (r, succeed key th, q'))
           | (Inl e, q) \<Rightarrow>
               if e = ErrNotFound then refuse ''invalid_credentials'' (throttle_fail key now th) q
               else (Inl e, th, q))"

definition Refresh :: "Users \<Rightarrow> session_call \<Rightarrow> string \<Rightarrow> AdminSessionTokens action" where
  "Refresh U c refreshToken p =
     (let now = sc_now c in
      case AdminSessionByTokenHash (hashSecret (uz_sha256 U) refreshToken) p of
        (Inl e, q) \<Rightarrow> (Inl (if e = ErrNotFound then ErrUnauthenticated else e), q)
      | (Inr (tok, user), q) \<Rightarrow>
          if RefreshToken_Revoked tok then (Inl ErrUnauthenticated, auditSessionReuse U c user now q)
          else if RefreshToken_Expired tok now \<or> AdminUser_Disabled user then (Inl ErrUnauthenticated, q)
          else
            case user_issue U c user of
              Inl e \<Rightarrow> (Inl e, q)
            | Inr (access, expiry) \<Rightarrow>
                (case mintSession U c (us_ID user) now of
                   Inl e \<Rightarrow> (Inl e, q)
                 | Inr (minted, next_session) \<Rightarrow>
                     (case RotateAdminSession (rt_ID tok) next_session q of
                        (Inr _, q') \<Rightarrow> (Inr \<lparr>st_AccessToken = access, st_ExpiresAt = expiry,
                                            st_RefreshToken = mi_Secret minted, st_User = user\<rparr>, q')
                      | (Inl e, q') \<Rightarrow>
                          if e = ErrConflict then (Inl ErrUnauthenticated, auditSessionReuse U c user now q')
                          else (Inl e, q'))))"

definition Logout :: "Users \<Rightarrow> session_call \<Rightarrow> string \<Rightarrow> string \<Rightarrow> unit action" where
  "Logout U c actor0 refreshToken =
     pg_try (AdminSessionByTokenHash (hashSecret (uz_sha256 U) refreshToken)) (\<lambda>r.
       case r of
         Inl e \<Rightarrow> if e = ErrNotFound then pg_return () else pg_fail e
       | Inr (tok, user) \<Rightarrow>
           let actor = (if actor0 = '''' then AdminUser_Actor user else actor0) in
           pg_bind (pg_lift (auditEntry U c actor ''user.logout'' (userDetail user))) (\<lambda>entry.
           EndAdminSession (rt_ID tok) (sc_now c) entry))"

subsection \<open>Machine credentials\<close>

definition AdminKeyPrefix :: string where "AdminKeyPrefix = ''gr_admin_''"

definition cred_auditEntry :: "Users \<Rightarrow> session_call \<Rightarrow> string \<Rightarrow> string \<Rightarrow> AdminCredential \<Rightarrow> admin_error + AuditEntry" where
  "cred_auditEntry U c w action cred =
     auditEntry U c w action (CredentialDetail (cr_ID cred) (cr_Name cred) (cr_Prefix cred) (cr_Role cred) (cr_ExpiresAt cred))"

definition Credentials_Create ::
  "Users \<Rightarrow> session_call \<Rightarrow> string \<Rightarrow> string \<Rightarrow> Role \<Rightarrow> time option \<Rightarrow> (AdminCredential \<times> string) action" where
  "Credentials_Create U c w name role expires =
     (if \<not> validCredentialName name then pg_fail (ErrInvalid CredentialName)
      else if \<not> Role_Valid role then pg_fail (ErrInvalid (InvalidRole role))
      else
        case Mint (uz_sha256 U) AdminKeyPrefix (sc_random c) of
          None \<Rightarrow> pg_fail ErrEntropy
        | Some minted \<Rightarrow>
            pg_bind (pg_lift (user_newID c)) (\<lambda>i.
            let cred = \<lparr>cr_ID = i, cr_Name = name, cr_Prefix = mi_Prefix minted, cr_Role = role, cr_ExpiresAt = expires,
                        cr_CreatedAt = zero_time, cr_LastUsedAt = None, cr_RevokedAt = None\<rparr> in
            pg_bind (pg_lift (cred_auditEntry U c w ''admin_credential.create'' cred)) (\<lambda>entry.
            pg_bind (CreateAdminCredential cred (mi_Hash minted) entry) (\<lambda>stored.
            pg_return (stored, mi_Secret minted)))))"

definition Credentials_List :: "AdminCredential list action" where
  "Credentials_List = ListAdminCredentials"

definition Credentials_Revoke :: "Users \<Rightarrow> session_call \<Rightarrow> string \<Rightarrow> string \<Rightarrow> AdminCredential action" where
  "Credentials_Revoke U c w ref =
     pg_bind (AdminCredentialByRef (jw_text (uz_jwt U)) ref) (\<lambda>cred.
     if AdminCredential_Revoked cred then pg_return cred
     else
       pg_bind (pg_lift (cred_auditEntry U c w ''admin_credential.revoke'' cred)) (\<lambda>entry.
       RevokeAdminCredential (jw_text (uz_jwt U)) (cr_ID cred) entry))"

section \<open>Facts\<close>

subsection \<open>The throttle against a reference without sweeping\<close>

datatype login_event = Failed string time | Succeeded string

fun event_time :: "login_event \<Rightarrow> time option" where
  "event_time (Failed _ t) = Some t"
| "event_time (Succeeded _) = None"

fun throttle_step :: "throttle \<Rightarrow> login_event \<Rightarrow> throttle" where
  "throttle_step th (Failed key t) = throttle_fail key t th"
| "throttle_step th (Succeeded key) = succeed key th"

definition throttle_run :: "login_event list \<Rightarrow> throttle" where
  "throttle_run es = foldl throttle_step newThrottle es"

text \<open>The reference: each key on its own, never forgotten.\<close>

definition next_window :: "time \<Rightarrow> window option \<Rightarrow> window" where
  "next_window t w =
     \<lparr>wi_failures = i64 ((case w of Some x \<Rightarrow> if wi_until x < t then 0 else wi_failures x | None \<Rightarrow> 0) + 1),
      wi_until = t + LoginFailureWindow\<rparr>"

fun streak_step :: "string \<Rightarrow> window option \<Rightarrow> login_event \<Rightarrow> window option" where
  "streak_step key w (Failed k t) = (if k = key then Some (next_window t w) else w)"
| "streak_step key w (Succeeded k) = (if k = key then None else w)"

definition streak :: "string \<Rightarrow> login_event list \<Rightarrow> window option" where
  "streak key es = foldl (streak_step key) None es"

definition streak_blocked :: "string \<Rightarrow> login_event list \<Rightarrow> time \<Rightarrow> bool" where
  "streak_blocked key es now =
     (case streak key es of None \<Rightarrow> False | Some w \<Rightarrow> now < wi_until w \<and> wi_failures w \<ge> MaxLoginFailures)"

text \<open>Events in the order of their times, none after \<open>now\<close>.\<close>

fun in_time_order :: "login_event list \<Rightarrow> time \<Rightarrow> bool" where
  "in_time_order [] now = True"
| "in_time_order (e # es) now \<longleftrightarrow>
     (case event_time e of None \<Rightarrow> True | Some t \<Rightarrow> t \<le> now \<and> list_all (\<lambda>e'. case event_time e' of None \<Rightarrow> True | Some t' \<Rightarrow> t \<le> t') es) \<and>
     in_time_order es now"

text \<open>What the table says of a key: what the reference says, or nothing because its window is over.\<close>

definition tracks :: "(string \<times> window) list \<Rightarrow> time \<Rightarrow> string \<Rightarrow> window option \<Rightarrow> bool" where
  "tracks counts now key w \<longleftrightarrow>
     map_of counts key = w \<or> (map_of counts key = None \<and> (\<exists>x. w = Some x \<and> wi_until x < now))"

lemma swept_lookup:
  assumes "distinct (map fst entries)"
  shows "map_of (filter keep entries) key = Some w \<longleftrightarrow> keep (key, w) \<and> map_of entries key = Some w"
  using assms by (auto simp: map_of_eq_Some_iff distinct_map_filter)

lemma throttle_fail_counts:
  assumes "distinct (map fst (th_counts t))"
  shows "\<exists>swept. distinct (map fst (th_counts (throttle_fail key now t))) \<and>
    (\<forall>k. map_of (th_counts (throttle_fail key now t)) k =
      (let m = (if k = key then Some (next_window now (map_of (th_counts t) key)) else map_of (th_counts t) k) in
       if swept then (case m of None \<Rightarrow> None | Some w \<Rightarrow> if wi_until w < now then None else Some w) else m))"
proof -
  let ?w0 = "case map_of (th_counts t) key of Some w \<Rightarrow> w | None \<Rightarrow> \<lparr>wi_failures = 0, wi_until = zero_time\<rparr>"
  let ?w = "if wi_until ?w0 < now then \<lparr>wi_failures = 0, wi_until = zero_time\<rparr> else ?w0"
  let ?t = "\<lparr>th_counts = AList.update key \<lparr>wi_failures = i64 (wi_failures ?w + 1), wi_until = now + LoginFailureWindow\<rparr>
      (th_counts t), th_writes = i64 (th_writes t + 1)\<rparr>"
  let ?swept = "th_writes ?t smod throttleSweepEvery = 0 \<or> length (th_counts ?t) > maxThrottleTracked"
  have new: "\<lparr>wi_failures = i64 (wi_failures ?w + 1), wi_until = now + LoginFailureWindow\<rparr> =
      next_window now (map_of (th_counts t) key)"
    by (simp add: next_window_def split: option.splits)
  have upd: "map_of (th_counts ?t) k = (if k = key then Some (next_window now (map_of (th_counts t) key)) else map_of (th_counts t) k)" for k
    unfolding new by (simp add: update_conv')
  have dist: "distinct (map fst (th_counts ?t))" using assms by (simp add: distinct_update)
  have eq: "throttle_fail key now t = (if ?swept then sweep now ?t else ?t)"
    unfolding throttle_fail_def Let_def by simp
  show ?thesis
  proof (intro exI [of _ ?swept] conjI allI)
    show "distinct (map fst (th_counts (throttle_fail key now t)))"
      unfolding eq using dist by (auto simp: sweep_def distinct_map_filter)
  next
    fix k
    have "map_of (th_counts (sweep now ?t)) k = (case map_of (th_counts ?t) k of None \<Rightarrow> None | Some w \<Rightarrow> if wi_until w < now then None else Some w)"
      by (rule option_ext) (use swept_lookup [OF dist, of "\<lambda>(_, w). \<not> wi_until w < now" k] in \<open>auto simp: sweep_def split: option.splits\<close>)
    then show "map_of (th_counts (throttle_fail key now t)) k =
      (let m = (if k = key then Some (next_window now (map_of (th_counts t) key)) else map_of (th_counts t) k) in
       if ?swept then (case m of None \<Rightarrow> None | Some w \<Rightarrow> if wi_until w < now then None else Some w) else m)"
      unfolding eq Let_def using upd by auto
  qed
qed

lemma tracks_later: "tracks cs now key w \<Longrightarrow> now \<le> later \<Longrightarrow> tracks cs later key w"
  by (auto simp: tracks_def)

text \<open>A window that is over and one that was forgotten start alike.\<close>

lemma tracks_next:
  assumes "tracks cs now key w" "now \<le> t"
  shows "next_window t (map_of cs key) = next_window t w"
  using assms by (auto simp: tracks_def next_window_def)

lemma tracks_step:
  assumes "distinct (map fst (th_counts th))" "\<And>k. tracks (th_counts th) now k (w k)"
    and "case event_time e of None \<Rightarrow> later = now | Some t \<Rightarrow> now \<le> t \<and> later = t"
  shows "distinct (map fst (th_counts (throttle_step th e))) \<and> tracks (th_counts (throttle_step th e)) later k (streak_step k (w k) e)"
proof (cases e)
  case (Failed key t)
  with assms(3) have t: "now \<le> t" "later = t" by auto
  obtain swept where sw: "distinct (map fst (th_counts (throttle_fail key t th)))"
    "\<forall>k. map_of (th_counts (throttle_fail key t th)) k =
      (let m = (if k = key then Some (next_window t (map_of (th_counts th) key)) else map_of (th_counts th) k) in
       if swept then (case m of None \<Rightarrow> None | Some w \<Rightarrow> if wi_until w < t then None else Some w) else m)"
    using throttle_fail_counts [OF assms(1)] by blast
  have nx: "next_window t (map_of (th_counts th) key) = next_window t (w key)" by (rule tracks_next [OF assms(2) t(1)])
  have live: "\<not> wi_until (next_window t (w key)) < t" by (simp add: next_window_def LoginFailureWindow_def Minute_def)
  have "tracks (th_counts (throttle_fail key t th)) t k (streak_step k (w k) e)"
  proof (cases "k = key")
    case True
    have "map_of (th_counts (throttle_fail key t th)) key = Some (next_window t (w key))"
      using sw(2) live by (simp add: nx Let_def)
    then show ?thesis using True Failed by (simp add: tracks_def)
  next
    case False
    with tracks_later [OF assms(2) t(1), of k] show ?thesis
      unfolding Failed tracks_def by (auto simp: sw(2) Let_def split: option.splits)
  qed
  then show ?thesis using sw(1) t(2) Failed by simp
next
  case (Succeeded key)
  then show ?thesis
    using assms by (auto simp: succeed_def tracks_def delete_conv' distinct_delete)
qed

lemma tracks_run:
  assumes "distinct (map fst (th_counts th))" "\<And>k. tracks (th_counts th) now k (w k)"
    and "in_time_order es later" "\<forall>e \<in> set es. case event_time e of None \<Rightarrow> True | Some t \<Rightarrow> now \<le> t" "now \<le> later"
  shows "tracks (th_counts (foldl throttle_step th es)) later key (foldl (streak_step key) (w key) es)"
  using assms
proof (induction es arbitrary: th now w)
  case Nil
  then show ?case using tracks_later [of "th_counts th" now key "w key" later] by simp
next
  case (Cons e es)
  let ?now = "case event_time e of None \<Rightarrow> now | Some t \<Rightarrow> t"
  have ev: "case event_time e of None \<Rightarrow> ?now = now | Some t \<Rightarrow> now \<le> t \<and> ?now = t"
    using Cons.prems(4) by (auto split: option.splits)
  note step = tracks_step [OF Cons.prems(1,2) ev]
  have rest: "\<forall>e' \<in> set es. case event_time e' of None \<Rightarrow> True | Some t \<Rightarrow> ?now \<le> t"
    using Cons.prems(3,4) by (auto simp: list_all_iff split: option.splits)
  have "?now \<le> later" using Cons.prems(3,5) by (auto split: option.splits)
  then show ?case
    using Cons.IH [of "throttle_step th e" ?now "\<lambda>k. streak_step k (w k) e"] step rest Cons.prems(3) by simp
qed

lemma throttle_tracks:
  assumes "in_time_order es now"
  shows "tracks (th_counts (throttle_run es)) now key (streak key es)"
proof -
  obtain t0 where t0: "t0 \<le> now" "\<forall>e \<in> set es. case event_time e of None \<Rightarrow> True | Some t \<Rightarrow> t0 \<le> t"
  proof (cases "\<exists>t. t \<in> set (List.map_filter event_time es)")
    case True
    let ?ts = "set (List.map_filter event_time es)"
    have "Min ?ts \<in> ?ts" using True by (intro Min_in) auto
    moreover have "t \<le> now" if "t \<in> ?ts" for t
      using that assms by (induction es) (auto simp: List.map_filter_def split: option.splits if_splits)
    moreover have "\<forall>e \<in> set es. case event_time e of None \<Rightarrow> True | Some t \<Rightarrow> Min ?ts \<le> t"
      by (force simp: List.map_filter_def split: option.splits intro!: Min_le)
    ultimately show ?thesis using that by blast
  next
    case False
    then have "\<forall>e \<in> set es. event_time e = None" by (force simp: List.map_filter_def)
    then show ?thesis using that [of now] by auto
  qed
  show ?thesis
    unfolding throttle_run_def streak_def
    by (rule tracks_run [where now = t0]) (use t0 assms in \<open>auto simp: newThrottle_def tracks_def\<close>)
qed

lemma throttle_is_streak: "in_time_order es now \<Longrightarrow> blocked (throttle_run es) key now \<longleftrightarrow> streak_blocked key es now"
  using throttle_tracks [of es now key]
  by (auto simp: blocked_def streak_blocked_def tracks_def split: option.splits)

text \<open>Only the events of a key count for it, and consecutive failures add up.\<close>

definition concerns :: "string \<Rightarrow> login_event \<Rightarrow> bool" where
  "concerns key e \<longleftrightarrow> (case e of Failed k _ \<Rightarrow> k = key | Succeeded k \<Rightarrow> k = key)"

lemma streak_concerns: "foldl (streak_step key) w es = foldl (streak_step key) w (filter (concerns key) es)"
proof (induction es arbitrary: w)
  case (Cons e es)
  then show ?case by (cases e) (auto simp: concerns_def)
qed simp

lemma streak_bounded:
  assumes "case w of None \<Rightarrow> True | Some x \<Rightarrow> 0 \<le> wi_failures x \<and> wi_failures x \<le> n" "0 \<le> n" "n + int (length es) < 2 ^ 63"
  shows "case foldl (streak_step key) w es of None \<Rightarrow> True | Some x \<Rightarrow> 0 \<le> wi_failures x \<and> wi_failures x \<le> n + int (length es)"
  using assms
proof (induction es arbitrary: w n)
  case (Cons e es)
  have "case streak_step key w e of None \<Rightarrow> True | Some x \<Rightarrow> 0 \<le> wi_failures x \<and> wi_failures x \<le> n + 1"
    using Cons.prems by (cases e) (auto simp: next_window_def i64_id in_i64_def split: option.splits)
  from Cons.IH [OF this] Cons.prems(2,3) have "case foldl (streak_step key) (streak_step key w e) es of
      None \<Rightarrow> True | Some x \<Rightarrow> 0 \<le> wi_failures x \<and> wi_failures x \<le> n + 1 + int (length es)" by simp
  then show ?case by (auto split: option.splits)
qed (auto split: option.splits)

text \<open>Failures of one key, each within the window of the one before.\<close>

fun consecutive :: "string \<Rightarrow> time list \<Rightarrow> bool" where
  "consecutive key (a # b # ts) \<longleftrightarrow> b \<le> a + LoginFailureWindow \<and> consecutive key (b # ts)"
| "consecutive key _ \<longleftrightarrow> True"

lemma streak_consecutive:
  assumes "w = Some x" "0 \<le> wi_failures x" "wi_failures x + int (length ts) < 2 ^ 63"
    and "wi_until x = t0 + LoginFailureWindow" "consecutive key (t0 # ts)"
  shows "foldl (streak_step key) w (map (Failed key) ts) =
    Some \<lparr>wi_failures = wi_failures x + int (length ts), wi_until = last (t0 # ts) + LoginFailureWindow\<rparr>"
  using assms
proof (induction ts arbitrary: w x t0)
  case (Cons t ts)
  let ?x = "\<lparr>wi_failures = wi_failures x + 1, wi_until = t + LoginFailureWindow\<rparr>"
  have "streak_step key w (Failed key t) = Some ?x"
    using Cons.prems by (auto simp: next_window_def i64_id in_i64_def)
  then show ?case
    using Cons.IH [of "Some ?x" ?x t] Cons.prems by auto
qed simp

lemma five_failures_streak:
  assumes "filter (concerns key) es = pre @ map (Failed key) ts" "MaxLoginFailures \<le> int (length ts)" "consecutive key ts"
    and "int (length es) < 2 ^ 63" "now < last ts + LoginFailureWindow"
  shows "streak_blocked key es now"
proof -
  obtain t0 rest where ts: "ts = t0 # rest" using assms(2) by (cases ts) (auto simp: MaxLoginFailures_def)
  have "length pre + length ts = length (filter (concerns key) es)" using assms(1) by simp
  also have "\<dots> \<le> length es" by (rule length_filter_le)
  finally have len: "int (length pre) + int (length ts) < 2 ^ 63" using assms(4) by linarith
  let ?w = "foldl (streak_step key) None pre"
  have "case ?w of None \<Rightarrow> True | Some x \<Rightarrow> 0 \<le> wi_failures x \<and> wi_failures x \<le> 0 + int (length pre)"
    by (rule streak_bounded) (use len in auto)
  then have pre: "0 \<le> wi_failures x \<and> wi_failures x \<le> int (length pre)" if "?w = Some x" for x using that by simp
  let ?x = "next_window t0 ?w"
  have x: "1 \<le> wi_failures ?x" "wi_failures ?x \<le> int (length pre) + 1" "wi_until ?x = t0 + LoginFailureWindow"
    using pre len ts by (auto simp: next_window_def i64_id in_i64_def split: option.splits)
  have "streak key es = foldl (streak_step key) (Some ?x) (map (Failed key) rest)"
    unfolding streak_def by (subst streak_concerns) (simp add: assms(1) ts)
  also have "\<dots> = Some \<lparr>wi_failures = wi_failures ?x + int (length rest), wi_until = last (t0 # rest) + LoginFailureWindow\<rparr>"
    by (rule streak_consecutive) (use x len ts assms(3) in auto)
  finally show ?thesis using x(1) assms(2,5) ts by (simp add: streak_blocked_def)
qed

subsection \<open>Every step keeps the constraints of the tables\<close>

lemma keeps_lift [keeps_intros]: "keeps_body I (pg_lift r)"
  by (auto simp: keeps_body_def pg_lift_def pg_fail_def pg_return_def split: sum.splits)

lemmas people_defs = Users_Create_def Users_List_def byEmail_def Users_Disable_def Users_SetPassword_def startSession_def
  Logout_def Credentials_Create_def Credentials_List_def Credentials_Revoke_def Let_def

context query_invariant
begin

lemma people_keep:
  "keeps_body I (Users_Create U c w email role supplied)" "keeps_body I (Users_Disable U c w email)"
  "keeps_body I (Users_SetPassword U c w email supplied)" "keeps_body I (startSession U c user now)"
  "keeps_body I (Logout U c actor token)" "keeps_body I (Credentials_Create U c w name role expires)"
  "keeps_body I (Credentials_Revoke U c w ref)"
  unfolding people_defs by (intro keeps_intros repo_keeps)+

lemma audits_keep:
  assumes "I (pg_db p)"
  shows "I (pg_db (auditLoginFailure U c email ip reason p))" "I (pg_db (auditSessionReuse U c user now p))"
  using assms repo_keeps(12,13) by (auto simp: auditLoginFailure_def auditSessionReuse_def keeps_body_def split: sum.splits)

lemma Login_keeps:
  assumes "I (pg_db p)"
  shows "I (pg_db (snd (snd (Login U c creds th p))))"
  using assms repo_keeps(3) people_keep(4)
  by (auto simp: Login_def Let_def audits_keep split_beta keeps_body_def split: sum.splits prod.splits)

lemma Refresh_keeps: "keeps_body I (Refresh U c token)"
  unfolding keeps_body_def
proof (intro allI impI)
  fix p :: "admin_db pg"
  assume ok: "I (pg_db p)"
  obtain r q where look: "AdminSessionByTokenHash (hashSecret (uz_sha256 U) token) p = (r, q)" by fastforce
  then have q: "I (pg_db q)" by (rule keeps_bodyD [OF repo_keeps(9) _ ok])
  have rot: "I (pg_db (snd (RotateAdminSession i s q)))" for i s
    using q repo_keeps(10) by (auto simp: keeps_body_def)
  show "I (pg_db (snd (Refresh U c token p)))"
    unfolding Refresh_def Let_def look
    using q rot by (auto simp: audits_keep split: sum.splits prod.splits) (metis audits_keep(2) snd_conv)+
qed

end

subsection \<open>The sessions as a state machine\<close>

text \<open>Everything that happens to people, sessions and credentials: the calls, in any order and with any
  arguments, and the server's weather and clock.\<close>

inductive session_step :: "Users \<Rightarrow> throttle \<times> admin_db pg \<Rightarrow> throttle \<times> admin_db pg \<Rightarrow> bool" for U where
  step_create: "Users_Create U c w email role supplied p = (r, q) \<Longrightarrow> session_step U (th, p) (th, q)"
| step_disable: "Users_Disable U c w email p = (r, q) \<Longrightarrow> session_step U (th, p) (th, q)"
| step_password: "Users_SetPassword U c w email supplied p = (r, q) \<Longrightarrow> session_step U (th, p) (th, q)"
| step_login: "Login U c creds th p = (r, th', q) \<Longrightarrow> session_step U (th, p) (th', q)"
| step_refresh: "Refresh U c token p = (r, q) \<Longrightarrow> session_step U (th, p) (th, q)"
| step_logout: "Logout U c actor token p = (r, q) \<Longrightarrow> session_step U (th, p) (th, q)"
| step_credential: "Credentials_Create U c w name role expires p = (r, q) \<Longrightarrow> session_step U (th, p) (th, q)"
| step_revoke: "Credentials_Revoke U c w ref p = (r, q) \<Longrightarrow> session_step U (th, p) (th, q)"
| step_weather: "session_step U (th, p) (th, p\<lparr>pg_faults := faults\<rparr>)"
| step_clock: "session_step U (th, p) (th, p\<lparr>pg_db := (pg_db p)\<lparr>db_now := now\<rparr>\<rparr>)"

lemmas identity_kept = tables.people_keep [THEN keeps_bodyD] tables.Refresh_keeps [THEN keeps_bodyD]

lemma session_step_identity:
  assumes "session_step U s s'" "identity_ok (pg_db (snd s))"
  shows "identity_ok (pg_db (snd s'))"
  using assms
proof (cases rule: session_step.cases)
  case (step_login c creds th p r th' q)
  then show ?thesis using tables.Login_keeps [of p U c creds th] assms(2) by simp
next
  case step_clock
  then show ?thesis using assms(2) by (simp add: identity_ok_def)
qed (use assms(2) in \<open>auto dest: identity_kept\<close>)

subsection \<open>Looking a session up\<close>

lemma token_find:
  assumes "identity_ok db" "r \<in> set (db_tokens db)"
  shows "List.find (\<lambda>r'. tk_Hash r' = tk_Hash r) (db_tokens db) = Some r"
  using assms by (intro find_unique) (auto simp: identity_ok_def tokens_ok_def distinct_map inj_on_def)

lemma user_find:
  assumes "identity_ok db" "r \<in> set (db_users db)"
  shows "user_by_id (us_ID (ur_User r)) db = Some r" "user_by_email (us_Email (ur_User r)) db = Some r"
  using assms unfolding user_by_id_def user_by_email_def
  by (auto simp: identity_ok_def users_ok_def distinct_map inj_on_def intro!: find_unique)

lemma session_by_hash_iff:
  assumes "identity_ok db"
  shows "session_by_hash h db = Some (t, u) \<longleftrightarrow>
    \<lparr>tk_Token = t, tk_Hash = h\<rparr> \<in> set (db_tokens db) \<and> (\<exists>r \<in> set (db_users db). ur_User r = u \<and> us_ID u = rt_UserID t)"
proof
  assume "session_by_hash h db = Some (t, u)"
  then show "\<lparr>tk_Token = t, tk_Hash = h\<rparr> \<in> set (db_tokens db) \<and> (\<exists>r \<in> set (db_users db). ur_User r = u \<and> us_ID u = rt_UserID t)"
    by (auto simp: session_by_hash_def user_by_id_def split: option.splits dest!: find_SomeD) (metis refresh_token_row.surjective unit.exhaust)
next
  assume r: "\<lparr>tk_Token = t, tk_Hash = h\<rparr> \<in> set (db_tokens db) \<and> (\<exists>r \<in> set (db_users db). ur_User r = u \<and> us_ID u = rt_UserID t)"
  then show "session_by_hash h db = Some (t, u)"
    using token_find [OF assms, of "\<lparr>tk_Token = t, tk_Hash = h\<rparr>"] user_find(1) [OF assms]
    by (auto simp: session_by_hash_def) metis
qed

text \<open>What a successful lookup, rotation and refresh did.\<close>

lemma lookup_Inr: "AdminSessionByTokenHash h p = (Inr (t, u), q) \<longleftrightarrow> pg_next p = PgOk \<and> session_by_hash h (pg_db p) = Some (t, u) \<and> q = pg_pop p"
  by (auto simp: AdminSessionByTokenHash_def found_Inr)

lemma create_token_Inr:
  assumes "q_CreateAdminRefreshToken s db = (Inr (), db')"
  shows "db' = db\<lparr>db_tokens := db_tokens db @ [\<lparr>tk_Token = \<lparr>rt_ID = ns_ID s, rt_UserID = ns_UserID s,
      rt_IssuedAt = db_time db (ns_IssuedAt s), rt_ExpiresAt = db_time db (ns_ExpiresAt s), rt_RevokedAt = None, rt_ReplacedBy = None\<rparr>,
      tk_Hash = ns_TokenHash s\<rparr>]\<rparr>"
    and "\<forall>r \<in> set (db_tokens db). rt_ID (tk_Token r) \<noteq> ns_ID s" "user_by_id (ns_UserID s) db \<noteq> None"
  using assms unfolding q_CreateAdminRefreshToken_def Let_def token_by_id_def find_None_all
  by (simp_all split: if_split_asm)

lemma Rotate_Inr:
  assumes "RotateAdminSession i s p = (Inr (), q)"
  shows "\<exists>db. q_CreateAdminRefreshToken s (pg_db p) = (Inr (), db) \<and>
    q_RevokeAdminRefreshToken i (ns_IssuedAt s) (Some (ns_ID s)) db = (Inr True, pg_db q)"
proof -
  obtain s0 t0 where run: "pg_bind (insertSession s) (\<lambda>_. pg_bind (stmt (q_RevokeAdminRefreshToken i (ns_IssuedAt s) (Some (ns_ID s))))
      (\<lambda>hit. if \<not> hit then pg_fail ErrConflict else pg_return ())) s0 = (Inr (), t0)" "pg_db s0 = pg_db p" "pg_db q = pg_db t0"
    using pg_tx.commits [OF assms [unfolded RotateAdminSession_def user_inTx_def]] by blast
  then obtain s1 where "insertSession s s0 = (Inr (), s1)"
    "pg_bind (stmt (q_RevokeAdminRefreshToken i (ns_IssuedAt s) (Some (ns_ID s))))
      (\<lambda>hit. if \<not> hit then pg_fail ErrConflict else pg_return ()) s1 = (Inr (), t0)"
    unfolding pg_bind_Inr [of "insertSession s"] by auto
  then show ?thesis using run(2,3) by (auto simp: pg_bind_Inr insertSession_def stmt_Inr split: if_splits)
qed

lemma Refresh_Inr:
  assumes "Refresh U c token p = (Inr s, q)"
  shows "\<exists>t u minted new. session_by_hash (hashSecret (uz_sha256 U) token) (pg_db p) = Some (t, u) \<and>
    RefreshToken_Usable t (sc_now c) \<and> \<not> AdminUser_Disabled u \<and> mintSession U c (us_ID u) (sc_now c) = Inr (minted, new) \<and>
    RotateAdminSession (rt_ID t) new (pg_pop p) = (Inr (), q) \<and> st_User s = u \<and> st_RefreshToken s = mi_Secret minted"
proof -
  obtain r q0 where look: "AdminSessionByTokenHash (hashSecret (uz_sha256 U) token) p = (r, q0)" by fastforce
  with assms obtain t u where r: "r = Inr (t, u)" by (cases r) (auto simp: Refresh_def split: prod.splits)
  note found = look [unfolded r lookup_Inr]
  show ?thesis
    using assms found unfolding Refresh_def Let_def look r
    by (auto simp: RefreshToken_Usable_def split: if_splits sum.splits prod.splits)
qed

text \<open>A token is renewed at most once, and a person without live tokens has no way to renew one.\<close>

definition cut_off :: "uuid \<Rightarrow> admin_db \<Rightarrow> bool" where
  "cut_off i db \<longleftrightarrow> (\<forall>r \<in> set (db_tokens db). rt_UserID (tk_Token r) = i \<longrightarrow> RefreshToken_Revoked (tk_Token r))"

lemma Refresh_refuses:
  assumes "session_by_hash (hashSecret (uz_sha256 U) token) (pg_db p) = Some (t, u)"
    and "RefreshToken_Revoked t \<or> AdminUser_Disabled u"
  shows "\<exists>e. fst (Refresh U c token p) = Inl e"
proof (cases "fst (Refresh U c token p)")
  case (Inr s)
  then have "Refresh U c token p = (Inr s, snd (Refresh U c token p))" by (simp add: prod_eq_iff)
  from Refresh_Inr [OF this] show ?thesis using assms by (auto simp: RefreshToken_Usable_def)
qed auto

lemma cut_off_refuses:
  assumes "cut_off i (pg_db p)" "session_by_hash (hashSecret (uz_sha256 U) token) (pg_db p) = Some (t, u)" "rt_UserID t = i"
  shows "\<exists>e. fst (Refresh U c token p) = Inl e"
proof (rule Refresh_refuses [OF assms(2)])
  show "RefreshToken_Revoked t \<or> AdminUser_Disabled u"
    using assms by (auto simp: cut_off_def session_by_hash_def split: option.splits dest!: find_SomeD)
qed

lemma revoke_all_cuts_off: "cut_off i (snd (q_RevokeAdminUserRefreshTokens i at db))"
  by (simp add: cut_off_def q_RevokeAdminUserRefreshTokens_def RefreshToken_Revoked_def ball_Un)

lemma audit_cut_off [simp]: "cut_off i (snd (q_CreateAuditEntry e db)) = cut_off i db"
  by (simp add: cut_off_def q_CreateAuditEntry_def Let_def)

lemma create_audit_Inr:
  "q_CreateAuditEntry e db = (Inr (), db') \<Longrightarrow> db' = db\<lparr>db_audit := db_audit db @ [e\<lparr>ae_At := db_time db (ae_At e)\<rparr>]\<rparr>"
  by (simp add: q_CreateAuditEntry_def Let_def split: if_split_asm)

lemma audit_length: "q_CreateAuditEntry e db = (Inr (), db') \<Longrightarrow> length (db_audit db') = Suc (length (db_audit db))"
  by (drule create_audit_Inr) simp

text \<open>The successful end of a transaction that revokes and audits.\<close>

lemma revoke_then_audit:
  assumes "pg_bind (stmt (q_RevokeAdminUserRefreshTokens i at)) (\<lambda>_. pg_bind (insertAudit e) f) p = (Inr a, q)"
    and "\<And>r. f () r = (Inr a, q) \<Longrightarrow> q = r"
  shows "cut_off i (pg_db q)" "db_users (pg_db q) = db_users (pg_db p)"
    "db_audit (pg_db q) = db_audit (pg_db p) @ [e\<lparr>ae_At := db_time (pg_db p) (ae_At e)\<rparr>]"
proof -
  from assms(1) obtain r1 r2 where r: "stmt (q_RevokeAdminUserRefreshTokens i at) p = (Inr (), r1)"
    "insertAudit e r1 = (Inr (), r2)" "f () r2 = (Inr a, q)" by (auto simp: pg_bind_Inr)
  with assms(2) have q: "q = r2" by blast
  have d1: "pg_db r1 = snd (q_RevokeAdminUserRefreshTokens i at (pg_db p))" using r(1) by (auto simp: stmt_Inr)
  have d2: "q_CreateAuditEntry e (pg_db r1) = (Inr (), pg_db r2)" using r(2) by (auto simp: insertAudit_def stmt_Inr)
  show "cut_off i (pg_db q)"
    using revoke_all_cuts_off [of i at "pg_db p"] d1 d2 q audit_cut_off [of i e "pg_db r1"] by simp
  have "db_users (pg_db r2) = db_users (pg_db r1)" "db_audit (pg_db r2) = db_audit (pg_db r1) @ [e\<lparr>ae_At := db_time (pg_db r1) (ae_At e)\<rparr>]"
    using create_audit_Inr [OF d2] by simp_all
  then show "db_users (pg_db q) = db_users (pg_db p)"
    "db_audit (pg_db q) = db_audit (pg_db p) @ [e\<lparr>ae_At := db_time (pg_db p) (ae_At e)\<rparr>]"
    using q d1 by (simp_all add: q_RevokeAdminUserRefreshTokens_def)
qed

lemma updated_in: "x \<in> set xs \<Longrightarrow> P x \<Longrightarrow> f x \<in> set (map (\<lambda>x. if P x then f x else x) xs)"
  by (induction xs) auto

lemma kept_in: "x \<in> set xs \<Longrightarrow> \<not> P x \<Longrightarrow> x \<in> set (map (\<lambda>x. if P x then f x else x) xs)"
  by (induction xs) auto

lemma Disable_commits:
  assumes "DisableAdminUser i at e p = (Inr u, q)"
  shows "(\<forall>r \<in> set (db_users (pg_db p)). us_ID (ur_User r) = i \<longrightarrow> AdminUser_Disabled (ur_User r)) \<or>
    (AdminUser_Disabled u \<and> cut_off i (pg_db q) \<and> u \<in> ur_User ` set (db_users (pg_db q)) \<and> us_ID u = i \<and>
     (\<exists>r \<in> set (db_users (pg_db p)). us_ID (ur_User r) = i \<and> us_Email u = us_Email (ur_User r)))"
proof -
  obtain s t where run: "pg_bind (stmt (q_DisableAdminUser i at)) (\<lambda>row. case row of None \<Rightarrow> AdminUserByID i
      | Some out \<Rightarrow> pg_bind (stmt (q_RevokeAdminUserRefreshTokens i at)) (\<lambda>_. pg_bind (insertAudit e) (\<lambda>_. pg_return out))) s = (Inr u, t)"
    "pg_db s = pg_db p" "pg_db q = pg_db t"
    using pg_tx.commits [OF assms [unfolded DisableAdminUser_def user_inTx_def]] by blast
  then obtain row s1 where row: "stmt (q_DisableAdminUser i at) s = (Inr row, s1)"
    "(case row of None \<Rightarrow> AdminUserByID i
      | Some out \<Rightarrow> pg_bind (stmt (q_RevokeAdminUserRefreshTokens i at)) (\<lambda>_. pg_bind (insertAudit e) (\<lambda>_. pg_return out))) s1 = (Inr u, t)"
    unfolding pg_bind_Inr [of "stmt (q_DisableAdminUser i at)"] by blast
  show ?thesis
  proof (cases row)
    case None
    with row(1) show ?thesis
      unfolding run(2) [symmetric] by (auto simp: stmt_Inr q_DisableAdminUser_def update_user_def Let_def find_None_all AdminUser_Disabled_def)
  next
    case (Some out)
    with row(2) have tail: "pg_bind (stmt (q_RevokeAdminUserRefreshTokens i at)) (\<lambda>_. pg_bind (insertAudit e) (\<lambda>_. pg_return out)) s1 = (Inr u, t)"
      by simp
    then have "out = u" by (auto simp: pg_bind_Inr)
    moreover have "AdminUser_Disabled out \<and> out \<in> ur_User ` set (db_users (pg_db s1)) \<and> us_ID out = i \<and>
        (\<exists>r \<in> set (db_users (pg_db s)). us_ID (ur_User r) = i \<and> us_Email out = us_Email (ur_User r))"
    proof -
      let ?hit = "\<lambda>r. us_ID (ur_User r) = i \<and> us_DisabledAt (ur_User r) = None"
      let ?f = "\<lambda>r. r\<lparr>ur_User := (ur_User r)\<lparr>us_DisabledAt := Some (db_time (pg_db s) at)\<rparr>\<rparr>"
      from row(1) Some obtain r where r: "List.find ?hit (db_users (pg_db s)) = Some r" "out = ur_User (?f r)"
        "db_users (pg_db s1) = map (\<lambda>r. if ?hit r then ?f r else r) (db_users (pg_db s))"
        by (auto simp: stmt_Inr q_DisableAdminUser_def update_user_def Let_def)
      from find_SomeD [OF r(1)] have "?f r \<in> set (db_users (pg_db s1))" unfolding r(3) by (intro updated_in) auto
      then have "out \<in> ur_User ` set (db_users (pg_db s1))" unfolding r(2) by (rule imageI)
      then show ?thesis using find_SomeD [OF r(1)] r(2) by (auto simp: AdminUser_Disabled_def)
    qed
    ultimately show ?thesis using revoke_then_audit(1,2) [OF tail] run(2,3) by simp
  qed
qed

lemma SetPassword_commits:
  assumes "SetAdminUserPassword i hash at e p = (Inr u, q)"
  shows "us_ID u = i \<and> cut_off i (pg_db q) \<and> us_PasswordChangedAt u = db_time (pg_db p) at \<and>
    \<lparr>ur_User = u, ur_PasswordHash = hash\<rparr> \<in> set (db_users (pg_db q))"
proof -
  obtain s t where run: "pg_bind (found (q_SetAdminUserPassword i hash at)) (\<lambda>out.
       pg_bind (stmt (q_RevokeAdminUserRefreshTokens i at)) (\<lambda>_. pg_bind (insertAudit e) (\<lambda>_. pg_return out))) s = (Inr u, t)"
    "pg_db s = pg_db p" "pg_db q = pg_db t"
    using pg_tx.commits [OF assms [unfolded SetAdminUserPassword_def user_inTx_def]] by blast
  then obtain out s1 where out: "found (q_SetAdminUserPassword i hash at) s = (Inr out, s1)"
    "pg_bind (stmt (q_RevokeAdminUserRefreshTokens i at)) (\<lambda>_. pg_bind (insertAudit e) (\<lambda>_. pg_return out)) s1 = (Inr u, t)"
    unfolding pg_bind_Inr [of "found (q_SetAdminUserPassword i hash at)"] by blast
  from out(2) have eq: "out = u" by (auto simp: pg_bind_Inr)
  have upd: "us_ID u = i \<and> us_PasswordChangedAt u = db_time (pg_db s) at \<and> \<lparr>ur_User = u, ur_PasswordHash = hash\<rparr> \<in> set (db_users (pg_db s1))"
    using out(1) unfolding eq found_Inr q_SetAdminUserPassword_def update_user_def
    by (auto simp: Let_def image_iff intro!: admin_user_row.equality split: if_splits dest!: find_SomeD)
  with revoke_then_audit(1,2) [OF out(2)] run(2,3) eq show ?thesis by simp
qed

lemma byEmail_Inr: "byEmail U email p = (Inr u, q) \<longleftrightarrow>
    pg_next p = PgOk \<and> map_option ur_User (user_by_email (NormaliseEmail (uz_text U) email) (pg_db p)) = Some u \<and> q = pg_pop p"
  by (auto simp: byEmail_def AdminUserByEmail_def found_Inr dest!: sym [of "Some _"])

lemma lift_Inr: "pg_lift r p = (Inr a, q) \<longleftrightarrow> r = Inr a \<and> q = p"
  by (auto simp: pg_lift_def split: sum.splits)

lemma bind_lift_Inr: "pg_bind (pg_lift r) f p = (Inr b, q) \<longleftrightarrow> (\<exists>a. r = Inr a \<and> f a p = (Inr b, q))"
  by (auto simp: pg_bind_Inr lift_Inr)

lemma startSession_Inr:
  assumes "startSession U c user now p = (Inr s, q)"
  shows "\<exists>minted new entry. mintSession U c (us_ID user) now = Inr (minted, new) \<and> StartAdminSession new entry p = (Inr (), q) \<and>
    st_User s = user \<and> st_RefreshToken s = mi_Secret minted"
proof -
  from assms obtain access expiry minted new entry where
    "mintSession U c (us_ID user) now = Inr (minted, new)"
    "pg_bind (StartAdminSession new entry) (\<lambda>_. pg_return \<lparr>st_AccessToken = access, st_ExpiresAt = expiry,
       st_RefreshToken = mi_Secret minted, st_User = user\<rparr>) p = (Inr s, q)"
    unfolding startSession_def bind_lift_Inr by (auto simp: bind_lift_Inr)
  then show ?thesis by (auto simp: pg_bind_Inr)
qed

lemma Start_Inr:
  assumes "StartAdminSession s e p = (Inr (), q)"
  shows "\<exists>d1 d2 d3. q_DeleteExpiredAdminRefreshTokens (ns_UserID s) (ns_IssuedAt s) (pg_db p) = (Inr (), d1) \<and>
    q_CreateAdminRefreshToken s d1 = (Inr (), d2) \<and> q_TouchAdminUserLogin (ns_UserID s) (ns_IssuedAt s) d2 = (Inr (), d3) \<and>
    q_CreateAuditEntry e d3 = (Inr (), pg_db q)"
proof -
  obtain s0 t0 where run: "pg_bind (stmt (q_DeleteExpiredAdminRefreshTokens (ns_UserID s) (ns_IssuedAt s))) (\<lambda>_.
       pg_bind (insertSession s) (\<lambda>_. pg_bind (stmt (q_TouchAdminUserLogin (ns_UserID s) (ns_IssuedAt s))) (\<lambda>_. insertAudit e))) s0 = (Inr (), t0)"
    "pg_db s0 = pg_db p" "pg_db q = pg_db t0"
    using pg_tx.commits [OF assms [unfolded StartAdminSession_def user_inTx_def]] by blast
  then obtain s1 where s1: "stmt (q_DeleteExpiredAdminRefreshTokens (ns_UserID s) (ns_IssuedAt s)) s0 = (Inr (), s1)"
    "pg_bind (insertSession s) (\<lambda>_. pg_bind (stmt (q_TouchAdminUserLogin (ns_UserID s) (ns_IssuedAt s))) (\<lambda>_. insertAudit e)) s1 = (Inr (), t0)"
    unfolding pg_bind_Inr [of "stmt (q_DeleteExpiredAdminRefreshTokens _ _)"] by auto
  then obtain s2 where s2: "insertSession s s1 = (Inr (), s2)"
    "pg_bind (stmt (q_TouchAdminUserLogin (ns_UserID s) (ns_IssuedAt s))) (\<lambda>_. insertAudit e) s2 = (Inr (), t0)"
    unfolding pg_bind_Inr [of "insertSession s"] by auto
  then obtain s3 where s3: "stmt (q_TouchAdminUserLogin (ns_UserID s) (ns_IssuedAt s)) s2 = (Inr (), s3)" "insertAudit e s3 = (Inr (), t0)"
    unfolding pg_bind_Inr [of "stmt _"] by auto
  have "q_DeleteExpiredAdminRefreshTokens (ns_UserID s) (ns_IssuedAt s) (pg_db p) = (Inr (), pg_db s1)"
    using s1(1) run(2) by (auto simp: stmt_Inr)
  moreover have "q_CreateAdminRefreshToken s (pg_db s1) = (Inr (), pg_db s2)" using s2(1) by (auto simp: insertSession_def stmt_Inr)
  moreover have "q_TouchAdminUserLogin (ns_UserID s) (ns_IssuedAt s) (pg_db s2) = (Inr (), pg_db s3)" using s3(1) by (auto simp: stmt_Inr)
  moreover have "q_CreateAuditEntry e (pg_db s3) = (Inr (), pg_db q)" using s3(2) run(3) by (auto simp: insertAudit_def stmt_Inr)
  ultimately show ?thesis by blast
qed

lemma Login_Inr:
  assumes "Login U c creds th p = (Inr s, th', q)"
  shows "let email = NormaliseEmail (uz_text U) (cd_Email creds); key = login_key email (cd_ClientIP creds) in
    \<not> blocked th key (sc_now c) \<and> \<not> TooLong (cd_Password creds) \<and>
    (\<exists>row. user_by_email email (pg_db p) = Some row \<and> Verify (uz_argon U) (ur_PasswordHash row) (cd_Password creds) = None \<and>
       \<not> AdminUser_Disabled (ur_User row) \<and> th' = succeed key th \<and> startSession U c (ur_User row) (sc_now c) (pg_pop p) = (Inr s, q))"
proof -
  let ?email = "NormaliseEmail (uz_text U) (cd_Email creds)"
  obtain r q0 where look: "AdminUserForLogin ?email p = (r, q0)" by fastforce
  with assms obtain user hash where r: "r = Inr (user, hash)"
    by (cases r) (auto simp: Login_def Let_def split: if_splits prod.splits)
  obtain row where row: "user_by_email ?email (pg_db p) = Some row" "user = ur_User row" "hash = ur_PasswordHash row" "q0 = pg_pop p"
    using look r by (auto simp: AdminUserForLogin_def found_Inr dest!: sym [of "Some _"])
  let ?key = "login_key ?email (cd_ClientIP creds)"
  have "\<not> blocked th ?key (sc_now c) \<and> \<not> TooLong (cd_Password creds) \<and>
      Verify (uz_argon U) hash (cd_Password creds) = None \<and> \<not> AdminUser_Disabled user \<and>
      (case startSession U c user (sc_now c) q0 of (r, q') \<Rightarrow> (r, succeed ?key th, q')) = (Inr s, th', q)"
    using assms unfolding Login_def Let_def look r by (simp split: if_splits)
  then show ?thesis using row unfolding Let_def by (auto split: prod.splits)
qed

lemma mintSession_fields:
  "mintSession U c i now = Inr (minted, new) \<Longrightarrow>
     ns_UserID new = i \<and> ns_TokenHash new = hashSecret (uz_sha256 U) (mi_Secret minted) \<and> ns_IssuedAt new = now \<and>
     ns_ExpiresAt new = now + uz_refreshTTL U"
  by (auto simp: mintSession_def Mint_def hashSecret_def Let_def split: option.splits sum.splits)

lemma Refresh_rotates:
  assumes ok: "identity_ok (pg_db p)" and run: "Refresh U c token p = (Inr s, q)"
  shows "\<exists>t u t' n. session_by_hash (hashSecret (uz_sha256 U) token) (pg_db p) = Some (t, u) \<and>
      RefreshToken_Usable t (sc_now c) \<and> \<not> AdminUser_Disabled u \<and> st_User s = u \<and>
      session_by_hash (hashSecret (uz_sha256 U) token) (pg_db q) = Some (t', u) \<and> RefreshToken_Revoked t' \<and>
      rt_ReplacedBy t' = Some (rt_ID n) \<and>
      session_by_hash (hashSecret (uz_sha256 U) (st_RefreshToken s)) (pg_db q) = Some (n, u) \<and> \<not> RefreshToken_Revoked n"
proof -
  obtain t u minted new where r: "session_by_hash (hashSecret (uz_sha256 U) token) (pg_db p) = Some (t, u)"
    "RefreshToken_Usable t (sc_now c)" "\<not> AdminUser_Disabled u" "mintSession U c (us_ID u) (sc_now c) = Inr (minted, new)"
    "RotateAdminSession (rt_ID t) new (pg_pop p) = (Inr (), q)" "st_User s = u" "st_RefreshToken s = mi_Secret minted"
    using Refresh_Inr [OF run] by blast
  obtain db where db: "q_CreateAdminRefreshToken new (pg_db p) = (Inr (), db)"
    "q_RevokeAdminRefreshToken (rt_ID t) (ns_IssuedAt new) (Some (ns_ID new)) db = (Inr True, pg_db q)"
    using Rotate_Inr [OF r(5)] by auto
  note mint = mintSession_fields [OF r(4)] and created = create_token_Inr [OF db(1)]
  note old = r(1) [unfolded session_by_hash_iff [OF ok]]
  let ?old = "\<lparr>tk_Token = t, tk_Hash = hashSecret (uz_sha256 U) token\<rparr>"
  let ?n = "\<lparr>rt_ID = ns_ID new, rt_UserID = us_ID u, rt_IssuedAt = db_time (pg_db p) (sc_now c),
      rt_ExpiresAt = db_time (pg_db p) (ns_ExpiresAt new), rt_RevokedAt = None, rt_ReplacedBy = None\<rparr>"
  let ?new = "\<lparr>tk_Token = ?n, tk_Hash = ns_TokenHash new\<rparr>"
  let ?hit = "\<lambda>r. rt_ID (tk_Token r) = rt_ID t \<and> rt_RevokedAt (tk_Token r) = None"
  let ?f = "revoke_token (db_time db (ns_IssuedAt new)) (Some (ns_ID new))"
  have db': "db = (pg_db p)\<lparr>db_tokens := db_tokens (pg_db p) @ [?new]\<rparr>" using created(1) mint by simp
  have q: "pg_db q = db\<lparr>db_tokens := map (\<lambda>r. if ?hit r then ?f r else r) (db_tokens db)\<rparr>"
    using db(2) by (auto simp: q_RevokeAdminRefreshToken_def Let_def split: if_splits)
  have fresh: "\<not> ?hit ?new" using created(2) old by auto
  have "?f ?old \<in> set (db_tokens (pg_db q))"
    unfolding q using old r(2) updated_in [of ?old "db_tokens db" ?hit ?f] by (simp add: db' RefreshToken_Usable_def RefreshToken_Revoked_def)
  moreover have "?new \<in> set (db_tokens (pg_db q))"
    unfolding q using kept_in [of ?new "db_tokens db" ?hit ?f, OF _ fresh] by (simp add: db')
  moreover have ok': "identity_ok (pg_db q)" using keeps_bodyD [OF tables.Refresh_keeps run ok] .
  moreover have "\<exists>r \<in> set (db_users (pg_db q)). ur_User r = u \<and> us_ID u = rt_UserID t" using old by (simp add: q db')
  ultimately have "session_by_hash (hashSecret (uz_sha256 U) token) (pg_db q) = Some (tk_Token (?f ?old), u)"
    "session_by_hash (hashSecret (uz_sha256 U) (st_RefreshToken s)) (pg_db q) = Some (?n, u)"
    using mint r(7) by (auto simp: session_by_hash_iff [OF ok'] revoke_token_def)
  then show ?thesis using r by (auto simp: RefreshToken_Revoked_def revoke_token_def)
qed

lemma Users_Disable_result:
  assumes ok: "identity_ok (pg_db p)" and run: "Users_Disable U c w email p = (Inr user, q)"
  shows "(\<exists>row \<in> set (db_users (pg_db q)). ur_User row = user) \<and> AdminUser_Disabled user \<and>
    us_Email user = NormaliseEmail (uz_text U) email"
proof -
  from run obtain u where u: "byEmail U email p = (Inr u, pg_pop p)" and rest:
    "(if AdminUser_Disabled u then pg_return u
      else pg_bind (pg_lift (auditEntry U c w ''user.disable'' (userDetail u))) (DisableAdminUser (us_ID u) (sc_now c))) (pg_pop p) =
      (Inr user, q)"
    unfolding Users_Disable_def pg_bind_Inr [of "byEmail U email"] by (auto simp: byEmail_Inr)
  from u obtain row where row: "row \<in> set (db_users (pg_db p))" "u = ur_User row" "us_Email u = NormaliseEmail (uz_text U) email"
    by (auto simp: byEmail_Inr user_by_email_def dest!: find_SomeD)
  show ?thesis
  proof (cases "AdminUser_Disabled u")
    case True
    with rest row show ?thesis by auto
  next
    case False
    with rest obtain entry where dis: "DisableAdminUser (us_ID u) (sc_now c) entry (pg_pop p) = (Inr user, q)"
      by (auto simp: bind_lift_Inr)
    from Disable_commits [OF dis] row(1,2) False obtain r where r: "AdminUser_Disabled user" "user \<in> ur_User ` set (db_users (pg_db q))"
      "r \<in> set (db_users (pg_db p))" "us_ID (ur_User r) = us_ID u" "us_Email user = us_Email (ur_User r)" by auto
    have "r = row" using user_find(1) [OF ok r(3)] user_find(1) [OF ok row(1)] unfolding r(4) row(2) by simp
    then show ?thesis using r row(2,3) by auto
  qed
qed

text \<open>What neither a lookup nor an audit row touches.\<close>

definition same_people :: "admin_db \<Rightarrow> admin_db \<Rightarrow> bool" where
  "same_people db db' \<longleftrightarrow> db_users db' = db_users db \<and> db_tokens db' = db_tokens db \<and> db_creds db' = db_creds db"

lemma same_people_audit: "same_people d db \<Longrightarrow> same_people d (snd (q_CreateAuditEntry e db))"
  by (simp add: same_people_def q_CreateAuditEntry_def Let_def)

lemma keeps_people:
  "keeps_body (same_people d) (AdminUserForLogin email)" "keeps_body (same_people d) (WriteAudit e)"
  unfolding AdminUserForLogin_def WriteAudit_def insertAudit_def
  by (rule keeps_found, simp add: select_one_def) (rule keeps_query, rule same_people_audit)

lemma auditLoginFailure_people: "same_people d (pg_db p) \<Longrightarrow> same_people d (pg_db (auditLoginFailure U c email ip reason p))"
  using keeps_people(2) by (auto simp: auditLoginFailure_def keeps_body_def split: sum.splits)

lemma definite_lift [definite_intros]: "definite_body (pg_lift r)"
  by (auto simp: definite_body_def pg_lift_def pg_fail_def pg_return_def split: sum.splits)

lemma lift_Inl: "pg_lift r p = (Inl e, q) \<longleftrightarrow> r = Inl e \<and> q = p"
  by (auto simp: pg_lift_def split: sum.splits)

lemma bind_lift_Inl: "pg_bind (pg_lift r) f p = (Inl e, q) \<longleftrightarrow> (r = Inl e \<and> q = p) \<or> (\<exists>a. r = Inr a \<and> f a p = (Inl e, q))"
  by (auto simp: pg_bind_def pg_lift_def pg_fail_def pg_return_def split: sum.splits)

lemma startSession_Inl:
  assumes "startSession U c user now p = (Inl e, q)" "pg_definite p"
  shows "pg_db q = pg_db p"
proof -
  have "pg_db q = pg_db p \<or> (\<exists>new entry. StartAdminSession new entry p = (Inl e, q))"
    using assms(1) unfolding startSession_def by (auto simp: bind_lift_Inl) (auto simp: pg_bind_def split: prod.splits sum.splits)
  moreover have "pg_db q = pg_db p" if "StartAdminSession new entry p = (Inl e, q)" for new entry
    using pg_tx.aborts [OF that [unfolded StartAdminSession_def user_inTx_def] assms(2)]
    by (simp add: definite_bind definite_query insertSession_def insertAudit_def)
  ultimately show ?thesis by blast
qed

lemma Login_Inl:
  assumes "Login U c creds th p = (Inl e, th', q)" "pg_definite p"
  shows "same_people (pg_db p) (pg_db q)"
proof -
  obtain r q0 where look: "AdminUserForLogin (NormaliseEmail (uz_text U) (cd_Email creds)) p = (r, q0)" by fastforce
  have refl: "same_people (pg_db p) (pg_db p)" by (simp add: same_people_def)
  have q0: "same_people (pg_db p) (pg_db q0)" by (rule keeps_bodyD [OF keeps_people(1) look refl])
  have "definite_body (AdminUserForLogin (NormaliseEmail (uz_text U) (cd_Email creds)))"
    unfolding AdminUserForLogin_def by (intro definite_intros)
  then have def: "pg_definite q0" using look assms(2) by (auto simp: definite_body_def split_pairs)
  have failed: "same_people (pg_db p) (pg_db q')" if "startSession U c user (sc_now c) q0 = (Inl e, q')" for user q'
    using startSession_Inl [OF that def] q0 by simp
  note audits = auditLoginFailure_people [OF q0] auditLoginFailure_people [OF refl]
  show ?thesis
    using assms(1) audits q0 failed unfolding Login_def Let_def look
    by (auto split: if_splits sum.splits prod.splits)
qed

lemma Login_starts:
  assumes ok: "identity_ok (pg_db p)" and start: "startSession U c user now p = (Inr s, q)" and u: "user_by_id (us_ID user) (pg_db p) \<noteq> None"
  shows "\<exists>t u. session_by_hash (hashSecret (uz_sha256 U) (st_RefreshToken s)) (pg_db q) = Some (t, u) \<and> us_ID u = us_ID user \<and>
    \<not> RefreshToken_Revoked t \<and> rt_ExpiresAt t = db_time (pg_db p) (now + uz_refreshTTL U)"
proof -
  obtain minted new entry where m: "mintSession U c (us_ID user) now = Inr (minted, new)" "StartAdminSession new entry p = (Inr (), q)"
    "st_RefreshToken s = mi_Secret minted" using startSession_Inr [OF start] by blast
  obtain d1 d2 d3 where d: "q_DeleteExpiredAdminRefreshTokens (ns_UserID new) (ns_IssuedAt new) (pg_db p) = (Inr (), d1)"
    "q_CreateAdminRefreshToken new d1 = (Inr (), d2)" "q_TouchAdminUserLogin (ns_UserID new) (ns_IssuedAt new) d2 = (Inr (), d3)"
    "q_CreateAuditEntry entry d3 = (Inr (), pg_db q)"
    using Start_Inr [OF m(2)] by (elim exE conjE) (rule that)
  note mint = mintSession_fields [OF m(1)]
  let ?t = "\<lparr>rt_ID = ns_ID new, rt_UserID = us_ID user, rt_IssuedAt = db_time d1 now,
      rt_ExpiresAt = db_time d1 (now + uz_refreshTTL U), rt_RevokedAt = None, rt_ReplacedBy = None\<rparr>"
  have "db_tokens d2 = db_tokens d1 @ [\<lparr>tk_Token = ?t, tk_Hash = ns_TokenHash new\<rparr>]"
    using create_token_Inr(1) [OF d(2)] mint by simp
  moreover have "db_tokens d3 = db_tokens d2" using d(3) by (auto simp: q_TouchAdminUserLogin_def update_user_def Let_def)
  moreover have "db_tokens (pg_db q) = db_tokens d3" using create_audit_Inr [OF d(4)] by simp
  ultimately have tok: "\<lparr>tk_Token = ?t, tk_Hash = ns_TokenHash new\<rparr> \<in> set (db_tokens (pg_db q))" by simp
  have ok': "identity_ok (pg_db q)" by (rule keeps_bodyD [OF tables.people_keep(4) start ok])
  with tok have "us_ID user \<in> set (map (\<lambda>r. us_ID (ur_User r)) (db_users (pg_db q)))"
    by (force simp: identity_ok_def tokens_ok_def)
  then obtain r where r: "r \<in> set (db_users (pg_db q))" "us_ID (ur_User r) = us_ID user" by auto
  have "db_time d1 = db_time (pg_db p)"
    using d(1) by (auto simp: q_DeleteExpiredAdminRefreshTokens_def Let_def split: if_splits)
  moreover have "session_by_hash (hashSecret (uz_sha256 U) (st_RefreshToken s)) (pg_db q) = Some (?t, ur_User r)"
    using tok r mint m(3) by (auto simp: session_by_hash_iff [OF ok'])
  ultimately show ?thesis using r(2) by (auto simp: RefreshToken_Revoked_def)
qed

section \<open>Properties\<close>

text \<open>
  C27. The throttle forgets nothing that matters. It deletes entries as it goes, every 256 writes and
  whenever more than 4096 are tracked; for events in the order of their times it blocks a
  login exactly when a table that never deletes anything would.
\<close>

theorem throttle_sweep_invisible:
  assumes "in_time_order es now"
  shows "blocked (throttle_run es) key now \<longleftrightarrow> streak_blocked key es now"
  by (rule throttle_is_streak [OF assms])

theorem throttle_sweep_invisible_witness:
  "blocked (throttle_run [Failed ''a'' 1, Failed ''b'' 2, Succeeded ''a'', Failed ''a'' 3]) ''a'' 4 \<longleftrightarrow>
   streak_blocked ''a'' [Failed ''a'' 1, Failed ''b'' 2, Succeeded ''a'', Failed ''a'' 3] 4"
  by (rule throttle_sweep_invisible) simp

text \<open>
  C28. Five failed logins of one email from one address, each within fifteen minutes of the one before
  and with no success among them, block the pair until fifteen minutes after the last of them,
  whatever other logins fail or succeed in between. The bound on the number of events keeps the
  counter within an \<open>int\<close>.
\<close>

theorem five_failures_block:
  assumes "in_time_order es now" "filter (concerns key) es = pre @ map (Failed key) ts"
    and "MaxLoginFailures \<le> int (length ts)" "consecutive key ts" "int (length es) < 2 ^ 63"
    and "now < last ts + LoginFailureWindow"
  shows "blocked (throttle_run es) key now"
  using five_failures_streak [OF assms(2-6)] throttle_is_streak [OF assms(1)] by blast

theorem five_failures_block_witness:
  "blocked (throttle_run [Failed ''a'' 1, Failed ''b'' 1, Failed ''a'' 2, Succeeded ''b'', Failed ''a'' 3, Failed ''a'' 4, Failed ''a'' 5]) ''a'' 6"
  by (rule five_failures_block [where pre = "[]" and ts = "[1, 2, 3, 4, 5]"])
    (simp_all add: concerns_def MaxLoginFailures_def LoginFailureWindow_def Minute_def)


text \<open>
  C18. Replaying a spent refresh token costs the thief, and the owner, every session: on a server
  that answers, the replay is refused, an audit row is written and every token of that person is
  revoked.
\<close>

theorem replay_cuts_sessions:
  assumes "pg_up p" "session_by_hash (hashSecret (uz_sha256 U) token) (pg_db p) = Some (t, u)" "RefreshToken_Revoked t"
    and "auditEntry U c (AdminUser_Actor u) ''user.refresh_reuse'' (userDetail u) = Inr entry"
    and "\<not> list_ex (\<lambda>r. ae_ID r = ae_ID entry) (db_audit (pg_db p))"
  shows "\<exists>q. Refresh U c token p = (Inl ErrUnauthenticated, q) \<and> cut_off (us_ID u) (pg_db q) \<and>
    length (db_audit (pg_db q)) = Suc (length (db_audit (pg_db p)))"
proof -
  let ?q = "snd (RevokeAdminSessions (us_ID u) (sc_now c) entry (pg_pop p))"
  have "AdminSessionByTokenHash (hashSecret (uz_sha256 U) token) p = (Inr (t, u), pg_pop p)"
    using assms(1,2) by (simp add: lookup_Inr)
  then have "Refresh U c token p = (Inl ErrUnauthenticated, ?q)"
    using assms(3,4) by (simp add: Refresh_def auditSessionReuse_def)
  moreover have entry: "ae_Actor entry \<noteq> ''''" "ae_Action entry \<noteq> ''''"
    using assms(4) by (auto simp: auditEntry_def AdminUser_Actor_def split: option.splits)
  then have "q_CreateAuditEntry entry (snd (q_RevokeAdminUserRefreshTokens (us_ID u) (sc_now c) (pg_db p))) =
      (Inr (), pg_db ?q)"
    using assms(1,5) unfolding RevokeAdminSessions_def user_inTx_def with_tx_def
    by (auto simp: q_CreateAuditEntry_def pg_bind_def stmt_def pg_stmt_def insertAudit_def q_RevokeAdminUserRefreshTokens_def
      Let_def list_ex_iff)
  moreover from this have "cut_off (us_ID u) (pg_db ?q)"
    using audit_cut_off [of "us_ID u" entry] revoke_all_cuts_off [of "us_ID u" "sc_now c" "pg_db p"] by (metis snd_conv)
  moreover from calculation(2) have "length (db_audit (pg_db ?q)) = Suc (length (db_audit (pg_db p)))"
    by (rule audit_length [THEN trans]) (simp add: q_RevokeAdminUserRefreshTokens_def)
  ultimately show ?thesis by blast
qed

text \<open>
  C20. Changing a password ends the sessions it protected: afterwards the new hash is stored for the
  person, every refresh token they had is revoked, and no refresh with one of them succeeds, then
  or whenever the server answers again.
\<close>

theorem password_change_ends_sessions:
  assumes "Users_SetPassword U c w email supplied p = (Inr (user, generated), q)"
  shows "cut_off (us_ID user) (pg_db q) \<and>
    (\<exists>chosen hash. hash_password U c chosen = Inr hash \<and> (generated = '''' \<or> chosen = generated) \<and>
       \<lparr>ur_User = user, ur_PasswordHash = hash\<rparr> \<in> set (db_users (pg_db q))) \<and>
    (\<forall>t u. session_by_hash (hashSecret (uz_sha256 U) token) (pg_db q) = Some (t, u) \<and> rt_UserID t = us_ID user \<longrightarrow>
       (\<exists>e. fst (Refresh U c' token (q\<lparr>pg_faults := faults\<rparr>)) = Inl e))"
proof -
  from assms obtain u where u: "byEmail U email p = (Inr u, pg_pop p)" and rest:
    "pg_bind (pg_lift (choosePassword U c supplied (us_Email u))) (\<lambda>(chosen, generated).
     pg_bind (pg_lift (hash_password U c chosen)) (\<lambda>hash.
     pg_bind (pg_lift (auditEntry U c w ''user.password_change'' (userDetail u))) (\<lambda>entry.
     pg_bind (SetAdminUserPassword (us_ID u) hash (sc_now c) entry) (\<lambda>stored. pg_return (stored, generated))))) (pg_pop p) =
       (Inr (user, generated), q)"
    unfolding Users_SetPassword_def pg_bind_Inr [of "byEmail U email"] by (auto simp: byEmail_Inr)
  from rest obtain chosen hash entry where choice: "choosePassword U c supplied (us_Email u) = Inr (chosen, generated)"
    and hash: "hash_password U c chosen = Inr hash"
    and set: "SetAdminUserPassword (us_ID u) hash (sc_now c) entry (pg_pop p) = (Inr user, q)"
    by (auto simp: bind_lift_Inr pg_bind_Inr [of "SetAdminUserPassword _ _ _ _"])
  have "generated = '''' \<or> chosen = generated"
    using choice by (auto simp: choosePassword_def split: if_splits option.splits)
  with SetPassword_commits [OF set] hash show ?thesis
    using cut_off_refuses [of "us_ID user" "q\<lparr>pg_faults := faults\<rparr>"] by auto
qed

text \<open>
  C19. A disabled account is locked out: once \<open>Disable\<close> has returned, no login under that email and no
  refresh of one of the person's tokens succeeds, whatever the password, the throttle and the server.
\<close>

theorem disabled_locked_out:
  assumes ok: "identity_ok (pg_db p)" and run: "Users_Disable U c w email p = (Inr user, q)"
    and same: "NormaliseEmail (uz_text U) (cd_Email creds) = NormaliseEmail (uz_text U) email"
  shows "AdminUser_Disabled user \<and>
    (\<exists>e. fst (Login U c' creds th (q\<lparr>pg_faults := faults\<rparr>)) = Inl e) \<and>
    (\<forall>t u. session_by_hash (hashSecret (uz_sha256 U) token) (pg_db q) = Some (t, u) \<and> rt_UserID t = us_ID user \<longrightarrow>
       (\<exists>e. fst (Refresh U c' token (q\<lparr>pg_faults := faults\<rparr>)) = Inl e))"
proof -
  note ok' = identity_kept(2) [OF run ok]
  obtain row where row: "row \<in> set (db_users (pg_db q))" "ur_User row = user" and off: "AdminUser_Disabled user"
    and mail: "us_Email user = NormaliseEmail (uz_text U) email"
    using Users_Disable_result [OF ok run] by blast
  have by_mail: "user_by_email (NormaliseEmail (uz_text U) (cd_Email creds)) (pg_db q) = Some row"
    using user_find(2) [OF ok' row(1)] row(2) mail same by simp
  have "\<exists>e. fst (Login U c' creds th (q\<lparr>pg_faults := faults\<rparr>)) = Inl e"
  proof (cases "fst (Login U c' creds th (q\<lparr>pg_faults := faults\<rparr>))")
    case (Inr s)
    then have "Login U c' creds th (q\<lparr>pg_faults := faults\<rparr>) =
        (Inr s, fst (snd (Login U c' creds th (q\<lparr>pg_faults := faults\<rparr>))), snd (snd (Login U c' creds th (q\<lparr>pg_faults := faults\<rparr>))))"
      by (simp add: prod_eq_iff)
    from Login_Inr [OF this] show ?thesis using by_mail row(2) off by (simp add: Let_def)
  qed auto
  moreover have "AdminUser_Disabled u" if "session_by_hash h (pg_db q) = Some (t, u)" "rt_UserID t = us_ID user" for h t u
    using that user_find(1) [OF ok' row(1)] row(2) off by (auto simp: session_by_hash_def split: option.splits)
  ultimately show ?thesis using off Refresh_refuses [of U token "q\<lparr>pg_faults := faults\<rparr>"] by auto
qed

text \<open>
  C7. A login is granted only on the account's own password. A login that succeeds was not throttled,
  named an account that exists and is not disabled, with a password that verifies against its
  stored hash; it clears the pair's failures and leaves a live refresh token of that person, the
  one whose secret is handed out, good for the configured time. A login that fails leaves people,
  tokens and credentials as they were, unless the answer to its commit is lost.
\<close>

theorem login_sound:
  assumes "identity_ok (pg_db p)" "Login U c creds th p = (r, th', q)"
  shows "case r of
     Inr s \<Rightarrow>
       (let email = NormaliseEmail (uz_text U) (cd_Email creds); key = login_key email (cd_ClientIP creds) in
        \<not> blocked th key (sc_now c) \<and> \<not> TooLong (cd_Password creds) \<and> th' = succeed key th \<and>
        (\<exists>row t u. user_by_email email (pg_db p) = Some row \<and>
           Verify (uz_argon U) (ur_PasswordHash row) (cd_Password creds) = None \<and>
           \<not> AdminUser_Disabled (ur_User row) \<and> st_User s = ur_User row \<and>
           session_by_hash (hashSecret (uz_sha256 U) (st_RefreshToken s)) (pg_db q) = Some (t, u) \<and>
           us_ID u = us_ID (ur_User row) \<and> \<not> RefreshToken_Revoked t \<and>
           rt_ExpiresAt t = db_time (pg_db p) (sc_now c + uz_refreshTTL U)))
   | Inl e \<Rightarrow> pg_definite p \<longrightarrow> same_people (pg_db p) (pg_db q)"
proof (cases r)
  case (Inl e)
  then show ?thesis using Login_Inl assms(2) by auto
next
  case (Inr s)
  let ?email = "NormaliseEmail (uz_text U) (cd_Email creds)"
  let ?key = "login_key ?email (cd_ClientIP creds)"
  from Login_Inr [OF assms(2) [unfolded Inr]] obtain row where row:
    "\<not> blocked th ?key (sc_now c)" "\<not> TooLong (cd_Password creds)" "user_by_email ?email (pg_db p) = Some row"
    "Verify (uz_argon U) (ur_PasswordHash row) (cd_Password creds) = None" "\<not> AdminUser_Disabled (ur_User row)"
    "th' = succeed ?key th" "startSession U c (ur_User row) (sc_now c) (pg_pop p) = (Inr s, q)"
    by (auto simp: Let_def)
  have "row \<in> set (db_users (pg_db p))" using row(3) by (auto simp: user_by_email_def dest: find_SomeD)
  then have "user_by_id (us_ID (ur_User row)) (pg_db (pg_pop p)) \<noteq> None" using user_find(1) [OF assms(1)] by simp
  from Login_starts [OF _ row(7) this] assms(1) obtain t u where
    "session_by_hash (hashSecret (uz_sha256 U) (st_RefreshToken s)) (pg_db q) = Some (t, u)" "us_ID u = us_ID (ur_User row)"
    "\<not> RefreshToken_Revoked t" "rt_ExpiresAt t = db_time (pg_db p) (sc_now c + uz_refreshTTL U)" by auto
  then show ?thesis using row startSession_Inr [OF row(7)] Inr by (auto simp: Let_def)
qed


text \<open>An installation of one person with two sessions, one of them spent, for the examples.\<close>

definition sample_users :: Users where
  "sample_users =
     NewUsers \<lparr>te_ToLower = id, te_ParseAddress = (\<lambda>s. Some ('''', s))\<rparr>
       \<lparr>ar_IDKey = (\<lambda>p s t m n k. take k (p @ replicate k CHR ''.'')), ar_Version = 19\<rparr>
       (\<lambda>s. take 32 (s @ replicate 32 CHR ''.'')) (\<lambda>_. Some ''{}'')
       \<lparr>jw_sign = (\<lambda>_ c. Some (jc_Subject c)), jw_parse = (\<lambda>_ _ _ _. Inl ErrTokenOther), jw_text = (\<lambda>_. ''id''), jw_uuid = (\<lambda>_. None)\<rparr>
       (Some (replicate 16 CHR ''d'')) (NewIssuer (replicate 32 CHR ''k'') ''go-route'' Hour) 0"

definition sample_session_call :: "uuid \<Rightarrow> session_call" where
  "sample_session_call i =
     \<lparr>sc_now = 100, sc_audit_at = 100, sc_issue_at = 100, sc_id = Some i, sc_audit_id = Some i, sc_jti = Some i,
      sc_random = Some ''0123456789'', sc_salt = Some (replicate 16 CHR ''s'')\<rparr>"

definition sample_person :: AdminUser where
  "sample_person = \<lparr>us_ID = 1, us_Email = ''ann@x'', us_Role = ''admin'', us_CreatedAt = 0, us_DisabledAt = None,
     us_LastLoginAt = None, us_PasswordChangedAt = 0\<rparr>"

definition sample_people :: "string \<Rightarrow> admin_db pg" where
  "sample_people hash =
     \<lparr>pg_db = \<lparr>db_now = 7, db_time = id, db_jsonb = id, db_tenants = [], db_keys = [], db_quotas = [], db_audit = [],
        db_users = [\<lparr>ur_User = sample_person, ur_PasswordHash = hash\<rparr>],
        db_tokens = [\<lparr>tk_Token = \<lparr>rt_ID = 11, rt_UserID = 1, rt_IssuedAt = 0, rt_ExpiresAt = 1000, rt_RevokedAt = Some 5,
                        rt_ReplacedBy = Some 12\<rparr>, tk_Hash = hashSecret (uz_sha256 sample_users) ''spent''\<rparr>,
                     \<lparr>tk_Token = \<lparr>rt_ID = 12, rt_UserID = 1, rt_IssuedAt = 5, rt_ExpiresAt = 1000, rt_RevokedAt = None,
                        rt_ReplacedBy = None\<rparr>, tk_Hash = hashSecret (uz_sha256 sample_users) ''live''\<rparr>],
        db_creds = []\<rparr>,
      pg_faults = []\<rparr>"

lemma sample_people_ok: "identity_ok (pg_db (sample_people hash))"
  by (auto simp: sample_people_def identity_ok_def users_ok_def tokens_ok_def creds_ok_def RefreshToken_Revoked_def hashSecret_def
    sample_users_def NewUsers_def sample_person_def)


theorem replay_cuts_sessions_witness:
  "\<exists>q. Refresh sample_users (sample_session_call 20) ''spent'' (sample_people ''h'') = (Inl ErrUnauthenticated, q) \<and>
     cut_off 1 (pg_db q) \<and> length (db_audit (pg_db q)) = 1"
proof -
  let ?t = "\<lparr>rt_ID = 11, rt_UserID = 1, rt_IssuedAt = 0, rt_ExpiresAt = 1000, rt_RevokedAt = Some 5, rt_ReplacedBy = Some 12\<rparr>"
  have s: "session_by_hash (hashSecret (uz_sha256 sample_users) ''spent'') (pg_db (sample_people ''h'')) = Some (?t, sample_person)"
    by code_simp
  have e: "auditEntry sample_users (sample_session_call 20) (AdminUser_Actor sample_person) ''user.refresh_reuse'' (userDetail sample_person) =
      Inr \<lparr>ae_ID = 20, ae_At = 100, ae_TenantID = None, ae_KeyID = None, ae_Actor = ''user:ann@x'', ae_Action = ''user.refresh_reuse'',
           ae_Detail = ''{}''\<rparr>"
    by code_simp
  from replay_cuts_sessions [OF _ s _ e] show ?thesis
    by (simp add: sample_people_def pg_up_def RefreshToken_Revoked_def sample_person_def)
qed

lemma sample_hash:
  assumes "checkLength pw = None"
  shows "\<exists>hash. Hash (uz_argon sample_users) (Some (replicate 16 CHR ''s'')) pw = Inr hash \<and> hash \<noteq> '''' \<and>
    Verify (uz_argon sample_users) hash pw = None"
proof -
  let ?A = "uz_argon sample_users"
  let ?salt = "replicate 16 CHR ''s''"
  let ?d = "derive ?A pw ?salt timeCost memoryCost parallelism keyLength"
  let ?h = "phc_encode ?A ?salt ?d"
  have d: "length ?d = keyLength" by (simp add: derive_def sample_users_def NewUsers_def)
  have v: "ar_Version ?A = 19" by (simp add: sample_users_def NewUsers_def)
  have "phc_decode ?A ?h = Some (timeCost, memoryCost, parallelism, ?salt, ?d)"
    by (rule phc_decode_encode) (use d v in \<open>auto simp: keyLength_def in_i64_def\<close>)
  then have "Verify ?A ?h pw = None" by (simp add: Verify_def d)
  moreover have "?h \<noteq> ''''" by (simp add: phc_encode_def)
  ultimately show ?thesis using assms by (simp add: Hash_def)
qed

theorem login_sound_witness:
  "\<exists>hash s th q. Login sample_users (sample_session_call 20)
       \<lparr>cd_Email = ''ann@x'', cd_Password = ''correct-horse'', cd_ClientIP = ''10.0.0.1''\<rparr> newThrottle (sample_people hash) = (Inr s, th, q) \<and>
     (\<exists>t u. session_by_hash (hashSecret (uz_sha256 sample_users) (st_RefreshToken s)) (pg_db q) = Some (t, u) \<and> us_ID u = 1 \<and>
        \<not> RefreshToken_Revoked t \<and> rt_ExpiresAt t = 100 + DefaultRefreshTTL)"
proof -
  let ?creds = "\<lparr>cd_Email = ''ann@x'', cd_Password = ''correct-horse'', cd_ClientIP = ''10.0.0.1''\<rparr>"
  have "checkLength ''correct-horse'' = None" by code_simp
  then obtain hash where v: "Verify (uz_argon sample_users) hash ''correct-horse'' = None" using sample_hash by blast
  let ?p = "sample_people hash"
  have norm: "NormaliseEmail (uz_text sample_users) ''ann@x'' = ''ann@x''" by code_simp
  have look: "AdminUserForLogin ''ann@x'' ?p = (Inr (sample_person, hash), pg_pop ?p)"
    by (simp add: AdminUserForLogin_def found_Inr sample_people_def user_by_email_def sample_person_def pg_next_def)
  have "\<not> isl (fst (startSession sample_users (sample_session_call 20) sample_person 100 (pg_pop ?p)))" by code_simp
  then obtain s q where "startSession sample_users (sample_session_call 20) sample_person 100 (pg_pop ?p) = (Inr s, q)"
    by (metis isl_def prod.collapse sum.exhaust)
  moreover have "\<not> TooLong ''correct-horse''" by code_simp
  ultimately have run: "Login sample_users (sample_session_call 20) ?creds newThrottle ?p =
      (Inr s, succeed (login_key ''ann@x'' ''10.0.0.1'') newThrottle, q)"
    by (simp add: Login_def Let_def norm look v blocked_def newThrottle_def sample_session_call_def sample_person_def AdminUser_Disabled_def)
  have facts: "user_by_email ''ann@x'' (pg_db ?p) = Some \<lparr>ur_User = sample_person, ur_PasswordHash = hash\<rparr>"
    "db_time (pg_db ?p) = id" "uz_refreshTTL sample_users = DefaultRefreshTTL" "us_ID sample_person = 1" "sc_now (sample_session_call 20) = 100"
    by (simp_all add: sample_people_def user_by_email_def sample_person_def sample_users_def NewUsers_def sample_session_call_def)
  from login_sound [OF sample_people_ok run] have
    "\<exists>t u. session_by_hash (hashSecret (uz_sha256 sample_users) (st_RefreshToken s)) (pg_db q) = Some (t, u) \<and> us_ID u = 1 \<and>
      \<not> RefreshToken_Revoked t \<and> rt_ExpiresAt t = 100 + DefaultRefreshTTL"
    by (auto simp: Let_def norm facts)
  with run show ?thesis by blast
qed

theorem password_change_ends_sessions_witness:
  "\<exists>q u generated. Users_SetPassword sample_users (sample_session_call 20) ''admin:ops'' ''ann@x'' ''battery-staple'' (sample_people ''h'') =
       (Inr (u, generated), q) \<and> cut_off (us_ID u) (pg_db q)"
proof -
  let ?p = "sample_people ''h''" and ?c = "sample_session_call 20"
  have "checkLength ''battery-staple'' = None" by code_simp
  then obtain hash where h: "Hash (uz_argon sample_users) (Some (replicate 16 CHR ''s'')) ''battery-staple'' = Inr hash" "hash \<noteq> ''''"
    using sample_hash by blast
  have "NormaliseEmail (uz_text sample_users) ''ann@x'' = ''ann@x''" by code_simp
  then have email: "byEmail sample_users ''ann@x'' ?p = (Inr sample_person, pg_pop ?p)"
    by (simp add: byEmail_Inr sample_people_def user_by_email_def sample_person_def pg_next_def)
  have choice: "choosePassword sample_users ?c ''battery-staple'' (us_Email sample_person) = Inr (''battery-staple'', '''')" by code_simp
  have hash: "hash_password sample_users ?c ''battery-staple'' = Inr hash" using h by (simp add: hash_password_def sample_session_call_def)
  obtain entry where entry: "auditEntry sample_users ?c ''admin:ops'' ''user.password_change'' (userDetail sample_person) = Inr entry"
    "ae_ID entry = 20" "ae_Actor entry = ''admin:ops''" "ae_Action entry = ''user.password_change''"
    by (simp add: auditEntry_def sample_users_def NewUsers_def sample_session_call_def)
  have "\<not> isl (fst (SetAdminUserPassword (us_ID sample_person) hash (sc_now ?c) entry (pg_pop ?p)))"
    using h(2) entry(2-4)
    by (simp add: SetAdminUserPassword_def user_inTx_def with_tx_def found_def pg_bind_def stmt_def pg_stmt_def insertAudit_def
      q_SetAdminUserPassword_def q_RevokeAdminUserRefreshTokens_def q_CreateAuditEntry_def update_user_def sample_people_def
      sample_person_def pg_next_def pg_pop_def pg_return_def Let_def)
  then obtain u q where "SetAdminUserPassword (us_ID sample_person) hash (sc_now ?c) entry (pg_pop ?p) = (Inr u, q)"
    by (metis isl_def prod.collapse sum.exhaust)
  then have run: "Users_SetPassword sample_users ?c ''admin:ops'' ''ann@x'' ''battery-staple'' ?p = (Inr (u, ''''), q)"
    by (simp add: Users_SetPassword_def pg_bind_def email choice hash entry(1) pg_lift_def pg_return_def)
  with password_change_ends_sessions [OF run] show ?thesis by blast
qed

theorem disabled_locked_out_witness:
  "let (r, q) = Users_Disable sample_users (sample_session_call 20) ''admin:ops'' ''ann@x'' (sample_people ''h'');
       creds = \<lparr>cd_Email = ''ann@x'', cd_Password = ''correct-horse'', cd_ClientIP = ''10.0.0.1''\<rparr>
   in case r of
        Inl _ \<Rightarrow> False
      | Inr u \<Rightarrow> AdminUser_Disabled u \<and>
          (\<exists>e. fst (Login sample_users (sample_session_call 30) creds newThrottle (q\<lparr>pg_faults := []\<rparr>)) = Inl e)"
proof -
  let ?run = "Users_Disable sample_users (sample_session_call 20) ''admin:ops'' ''ann@x'' (sample_people ''h'')"
  have "\<not> isl (fst ?run)" by code_simp
  then obtain u q where run: "?run = (Inr u, q)" by (metis isl_def prod.collapse sum.exhaust)
  from disabled_locked_out [OF sample_people_ok run, of "\<lparr>cd_Email = ''ann@x'', cd_Password = ''correct-horse'', cd_ClientIP = ''10.0.0.1''\<rparr>"
      "sample_session_call 30" newThrottle "[]"]
  show ?thesis unfolding run by simp
qed


end
