(* ===== verification/Admin_Api.thy ===== *)
theory Admin_Api
  imports Admin_Sessions
begin

text \<open>
  The HTTP surface of the admin server (\<open>adapters/inbound/adminapi\<close>): authentication, the guard and
  the role check, the middleware chain, routing, the handlers of tenants, keys, quotas and
  sessions, and the mapping of results and errors to responses.

  A request carries what the handlers read of the clock and of the generators (\<open>rq_\<dots>\<close>), its path both
  as \<open>URL.Path\<close> and as the segments the router splits \<open>URL.EscapedPath\<close> into. Parameters
  (\<open>api_env\<close>): the OpenAPI validator, JSON decoding of bodies and parameters, and the dashboard reads
  of the record tables, which see none of the state below. A credential's last use is written by a
  goroutine of its own: the request leaves it in \<open>as_touches\<close> and \<open>run_touch\<close> is its turn.
\<close>

section \<open>Definitions\<close>

subsection \<open>Wire types\<close>

datatype 'a nullable = Unspecified | Null | Value 'a

definition nullableOf :: "'a option \<Rightarrow> 'a nullable" where
  "nullableOf p = (case p of None \<Rightarrow> Null | Some v \<Rightarrow> Value v)"

definition pointerOf :: "'a nullable \<Rightarrow> 'a option" where
  "pointerOf n = (case n of Value v \<Rightarrow> Some v | _ \<Rightarrow> None)"

record gTenant =
  gt_Id :: uuid
  gt_ExternalId :: string
  gt_Name :: string
  gt_Metadata :: string
  gt_CreatedAt :: time
  gt_DisabledAt :: "time nullable"

definition toTenant :: "TenantAccount \<Rightarrow> gTenant" where
  "toTenant t =
     \<lparr>gt_Id = ta_ID t, gt_ExternalId = ta_ExternalID t, gt_Name = ta_Name t,
      gt_Metadata = (if ta_Metadata t = '''' then ''{}'' else ta_Metadata t),
      gt_CreatedAt = ta_CreatedAt t, gt_DisabledAt = nullableOf (ta_DisabledAt t)\<rparr>"

definition toAllowlist :: "string list option \<Rightarrow> string list nullable" where
  "toAllowlist l = (case l of None \<Rightarrow> Null | Some xs \<Rightarrow> Value xs)"

definition fromAllowlist :: "string list nullable \<Rightarrow> string list option" where
  "fromAllowlist n = (case n of Value xs \<Rightarrow> Some xs | _ \<Rightarrow> None)"

record gKey =
  gk_Id :: uuid
  gk_TenantId :: uuid
  gk_KeyPrefix :: string
  gk_ModelAllowlist :: "string list nullable"
  gk_CreatedAt :: time
  gk_LastUsedAt :: "time nullable"
  gk_RevokedAt :: "time nullable"

definition toKey :: "APIKey \<Rightarrow> gKey" where
  "toKey k =
     \<lparr>gk_Id = ak_ID k, gk_TenantId = ak_TenantID k, gk_KeyPrefix = ak_Prefix k,
      gk_ModelAllowlist = toAllowlist (ak_ModelAllowlist k), gk_CreatedAt = ak_CreatedAt k,
      gk_LastUsedAt = nullableOf (ak_LastUsedAt k), gk_RevokedAt = nullableOf (ak_RevokedAt k)\<rparr>"

record gQuota =
  gq_WindowKind :: WindowKind
  gq_PeriodStart :: "time nullable"
  gq_PeriodEnd :: "time nullable"
  gq_MaxCostNanos :: int
  gq_OnExceed :: QuotaAction
  gq_UpdatedAt :: time

definition toQuota :: "Quota \<Rightarrow> gQuota" where
  "toQuota q =
     \<lparr>gq_WindowKind = q_WindowKind q, gq_PeriodStart = nullableOf (q_PeriodStart q), gq_PeriodEnd = nullableOf (q_PeriodEnd q),
      gq_MaxCostNanos = q_MaxCost q, gq_OnExceed = q_OnExceed q, gq_UpdatedAt = q_UpdatedAt q\<rparr>"

record QuotaInput =
  qi_WindowKind :: "WindowKind option"
  qi_PeriodStart :: "time nullable"
  qi_PeriodEnd :: "time nullable"
  qi_MaxCostNanos :: int
  qi_OnExceed :: "QuotaAction option"

definition fromQuota :: "QuotaInput \<Rightarrow> Quota" where
  "fromQuota i =
     \<lparr>q_WindowKind = (case qi_WindowKind i of None \<Rightarrow> '''' | Some w \<Rightarrow> w),
      q_PeriodStart = pointerOf (qi_PeriodStart i), q_PeriodEnd = pointerOf (qi_PeriodEnd i),
      q_MaxCost = qi_MaxCostNanos i, q_OnExceed = (case qi_OnExceed i of None \<Rightarrow> '''' | Some a \<Rightarrow> a), q_UpdatedAt = zero_time\<rparr>"

record gAdminUser =
  gu_Id :: uuid
  gu_Email :: string
  gu_Role :: Role
  gu_CreatedAt :: time
  gu_DisabledAt :: "time nullable"
  gu_LastLoginAt :: "time nullable"

definition toAdminUser :: "AdminUser \<Rightarrow> gAdminUser" where
  "toAdminUser u =
     \<lparr>gu_Id = us_ID u, gu_Email = us_Email u, gu_Role = us_Role u, gu_CreatedAt = us_CreatedAt u,
      gu_DisabledAt = nullableOf (us_DisabledAt u), gu_LastLoginAt = nullableOf (us_LastLoginAt u)\<rparr>"

record gSession =
  gs_AccessToken :: string
  gs_TokenType :: string
  gs_ExpiresAt :: time
  gs_RefreshToken :: string
  gs_User :: gAdminUser

definition toSession :: "AdminSessionTokens \<Rightarrow> gSession" where
  "toSession s =
     \<lparr>gs_AccessToken = st_AccessToken s, gs_TokenType = ''Bearer'', gs_ExpiresAt = st_ExpiresAt s,
      gs_RefreshToken = st_RefreshToken s, gs_User = toAdminUser (st_User s)\<rparr>"

subsection \<open>Identities\<close>

type_synonym identityKind = string

definition kindUser :: identityKind where "kindUser = ''user''"
definition kindMachine :: identityKind where "kindMachine = ''machine''"

record identity =
  in_Kind :: identityKind
  in_Actor :: string
  in_Role :: Role
  in_User :: "AdminUser option"

definition machineIdentity :: "AdminCredential \<Rightarrow> identity" where
  "machineIdentity cred = \<lparr>in_Kind = kindMachine, in_Actor = AdminCredential_Actor cred, in_Role = cr_Role cred, in_User = None\<rparr>"

definition userIdentity :: "AdminUser \<Rightarrow> identity" where
  "userIdentity u = \<lparr>in_Kind = kindUser, in_Actor = AdminUser_Actor u, in_Role = us_Role u, in_User = Some u\<rparr>"

definition unknownActor :: string where "unknownActor = ''admin:unknown''"

definition actorFrom :: "identity option \<Rightarrow> string" where
  "actorFrom ctx = (case ctx of Some i \<Rightarrow> if in_Actor i \<noteq> '''' then in_Actor i else unknownActor | None \<Rightarrow> unknownActor)"

definition roleFrom :: "identity option \<Rightarrow> Role" where
  "roleFrom ctx = (case ctx of Some i \<Rightarrow> in_Role i | None \<Rightarrow> '''')"

subsection \<open>Requests, responses and the server\<close>

record admin_request =
  rq_Method :: string
  rq_Path :: string
  rq_Segments :: "string list"
  rq_Query :: string
  rq_Authorization :: string
  rq_RemoteAddr :: string
  rq_Body :: string
  rq_BodyCut :: bool
  rq_TimedOut :: bool
  rq_now :: time
  rq_touch_at :: time
  rq_call :: call_env
  rq_session :: session_call

datatype error_type =
    InvalidRequestError | NotFoundError | ConflictError | TimeoutError | InternalError | AuthenticationError | PermissionError

datatype api_error = Failed_call admin_error | Invalidf string

datatype message = Text string | Of api_error

datatype api_result =
    TenantResult gTenant
  | TenantsResult "gTenant list"
  | KeyResult gKey
  | IssuedKeyResult gKey string
  | KeysResult "gKey list"
  | QuotaResult gQuota
  | QuotasResult "gQuota list"
  | SessionResult gSession
  | IdentityResult string identityKind Role "gAdminUser option"
  | Dashboard string
  | NoContent
  | ErrorResult message error_type

text \<open>The status, whether \<open>WWW-Authenticate\<close> is set, and the body.\<close>

record admin_response =
  rs_Status :: int
  rs_Challenge :: bool
  rs_Body :: api_result

definition respond :: "int \<Rightarrow> api_result \<Rightarrow> admin_response" where
  "respond status body = \<lparr>rs_Status = status, rs_Challenge = False, rs_Body = body\<rparr>"

definition admin_writeError :: "int \<Rightarrow> message \<Rightarrow> error_type \<Rightarrow> admin_response" where
  "admin_writeError status m t = respond status (ErrorResult m t)"

definition admin_fail :: "admin_request \<Rightarrow> api_error \<Rightarrow> admin_response" where
  "admin_fail r e =
     (case e of
        Invalidf _ \<Rightarrow> admin_writeError 400 (Of e) InvalidRequestError
      | Failed_call (ErrInvalid _) \<Rightarrow> admin_writeError 400 (Of e) InvalidRequestError
      | Failed_call ErrNotFound \<Rightarrow> admin_writeError 404 (Of e) NotFoundError
      | Failed_call ErrConflict \<Rightarrow> admin_writeError 409 (Of e) ConflictError
      | _ \<Rightarrow> if rq_TimedOut r then admin_writeError 504 (Text ''request timed out'') TimeoutError
             else admin_writeError 500 (Text ''internal error'') InternalError)"

text \<open>What the generated decoding reports: a parameter with its chain of causes, or anything else.\<close>

datatype decode_error = InvalidParamFormat string "string list" | OtherDecode string

definition badRequest :: "decode_error \<Rightarrow> admin_response" where
  "badRequest e =
     admin_writeError 400 (Text (case e of
         InvalidParamFormat name causes \<Rightarrow> ''parameter '' @ name @ '': '' @ last causes
       | OtherDecode msg \<Rightarrow> msg)) InvalidRequestError"

definition admin_unauthorized :: "string \<Rightarrow> admin_response" where
  "admin_unauthorized m = \<lparr>rs_Status = 401, rs_Challenge = True, rs_Body = ErrorResult (Text m) AuthenticationError\<rparr>"

text \<open>What the validator reports of a request that matched a route, and of one that did not.\<close>

datatype request_cause =
    SchemaError "string list" string string
  | ErrInvalidRequired
  | OtherCause string
  | NoCause

record request_error =
  re_Parameter :: "(string \<times> string) option"
  re_Err :: request_cause
  re_Error :: string

datatype validation_error = MethodNotAllowed | NoSuchRoute | NotARequestError | BadRequest request_error

text \<open>\<open>strings.Cut\<close> up to a separator: all before its first occurrence.\<close>

fun cut_before :: "string \<Rightarrow> string \<Rightarrow> string" where
  "cut_before sep [] = []"
| "cut_before sep (c # cs) = (if take (length sep) (c # cs) = sep then [] else c # cut_before sep cs)"

definition validationMessage :: "request_error \<Rightarrow> string" where
  "validationMessage e =
     (let loc = (case re_Parameter e of None \<Rightarrow> ''request body'' | Some (kind, name) \<Rightarrow> kind @ '' parameter '' @ name) in
      case re_Err e of
        SchemaError path reason field \<Rightarrow>
          (let at = (if path = [] then loc else loc @ '' field '' @ Join (CHR ''.'') path) in
           if field = ''required'' then at @ '' is required''
           else at @ '': '' @ (if field = ''format'' then cut_before '' ('' reason else reason))
      | ErrInvalidRequired \<Rightarrow> loc @ '' is required''
      | OtherCause msg \<Rightarrow> loc @ '': '' @ cut_before [CHR 0x0A] msg
      | NoCause \<Rightarrow> cut_before [CHR 0x0A] (re_Error e))"

subsection \<open>Routes\<close>

datatype operation =
    OpLogin | OpRefreshSession | OpLogout | OpWhoami | OpListTenants | OpCreateTenant | OpDisableTenant | OpGetTenant
  | OpUpdateTenant | OpEnableTenant | OpListAPIKeys | OpCreateAPIKey | OpRevokeAPIKey | OpGetAPIKey | OpUpdateAPIKey
  | OpListQuotas | OpReplaceQuotas | OpDeleteQuota | OpGetQuota | OpPutQuota | OpGetUsage | OpListAudit | OpGetRequest

datatype seg = Lit string | Wild

definition admin_path :: "seg list \<Rightarrow> seg list" where
  "admin_path rest = Lit ''admin'' # Lit ''v1'' # rest"

definition routes :: "(operation \<times> string \<times> seg list) list" where
  "routes =
     [(OpLogin, ''POST'', admin_path [Lit ''auth'', Lit ''login'']),
      (OpRefreshSession, ''POST'', admin_path [Lit ''auth'', Lit ''refresh'']),
      (OpLogout, ''POST'', admin_path [Lit ''auth'', Lit ''logout'']),
      (OpWhoami, ''GET'', admin_path [Lit ''auth'', Lit ''me'']),
      (OpListTenants, ''GET'', admin_path [Lit ''tenants'']),
      (OpCreateTenant, ''POST'', admin_path [Lit ''tenants'']),
      (OpDisableTenant, ''DELETE'', admin_path [Lit ''tenants'', Wild]),
      (OpGetTenant, ''GET'', admin_path [Lit ''tenants'', Wild]),
      (OpUpdateTenant, ''PATCH'', admin_path [Lit ''tenants'', Wild]),
      (OpEnableTenant, ''POST'', admin_path [Lit ''tenants'', Wild, Lit ''enable'']),
      (OpListAPIKeys, ''GET'', admin_path [Lit ''tenants'', Wild, Lit ''keys'']),
      (OpCreateAPIKey, ''POST'', admin_path [Lit ''tenants'', Wild, Lit ''keys'']),
      (OpRevokeAPIKey, ''DELETE'', admin_path [Lit ''keys'', Wild]),
      (OpGetAPIKey, ''GET'', admin_path [Lit ''keys'', Wild]),
      (OpUpdateAPIKey, ''PATCH'', admin_path [Lit ''keys'', Wild]),
      (OpListQuotas, ''GET'', admin_path [Lit ''tenants'', Wild, Lit ''quotas'']),
      (OpReplaceQuotas, ''PUT'', admin_path [Lit ''tenants'', Wild, Lit ''quotas'']),
      (OpDeleteQuota, ''DELETE'', admin_path [Lit ''tenants'', Wild, Lit ''quotas'', Wild]),
      (OpGetQuota, ''GET'', admin_path [Lit ''tenants'', Wild, Lit ''quotas'', Wild]),
      (OpPutQuota, ''PUT'', admin_path [Lit ''tenants'', Wild, Lit ''quotas'', Wild]),
      (OpGetUsage, ''GET'', admin_path [Lit ''tenants'', Wild, Lit ''usage'']),
      (OpListAudit, ''GET'', admin_path [Lit ''tenants'', Wild, Lit ''audit'']),
      (OpGetRequest, ''GET'', admin_path [Lit ''requests'', Wild])]"

text \<open>\<open>ServeMux\<close>: a literal matches itself, a wildcard any non-empty segment; the wildcards' values are
  returned. A \<open>GET\<close> pattern serves \<open>HEAD\<close> too. No two of the patterns of one method overlap.\<close>

fun match_path :: "seg list \<Rightarrow> string list \<Rightarrow> string list option" where
  "match_path [] [] = Some []"
| "match_path (Lit l # ps) (s # ss) = (if s = l then match_path ps ss else None)"
| "match_path (Wild # ps) (s # ss) = (if s = '''' then None else map_option (\<lambda>vs. s # vs) (match_path ps ss))"
| "match_path _ _ = None"

definition route :: "admin_request \<Rightarrow> (operation \<times> string list) option" where
  "route r =
     (case List.find (\<lambda>(op, m, p). (rq_Method r = m \<or> (m = ''GET'' \<and> rq_Method r = ''HEAD'')) \<and>
                         match_path p (rq_Segments r) \<noteq> None) routes of
        None \<Rightarrow> None
      | Some (op, m, p) \<Rightarrow> Some (op, the (match_path p (rq_Segments r))))"

subsection \<open>Authentication\<close>

record api_state =
  as_throttle :: throttle
  as_pg :: "admin_db pg"
  as_touches :: "(uuid \<times> time) list"

record 'r api_env =
  ap_service :: "'r Service"
  ap_users :: Users
  ap_validate :: "admin_request \<Rightarrow> validation_error option"
  ap_json_error :: "string \<Rightarrow> string option"
  ap_login :: "string \<Rightarrow> decode_error + (string \<times> string)"
  ap_token :: "string \<Rightarrow> decode_error + string"
  ap_tenant :: "string \<Rightarrow> decode_error + (string \<times> string \<times> string option)"
  ap_patch :: "string \<Rightarrow> decode_error + (string option \<times> string option)"
  ap_key :: "string \<Rightarrow> decode_error + string list nullable option"
  ap_allowlist :: "string \<Rightarrow> decode_error + string list nullable"
  ap_quotas :: "string \<Rightarrow> decode_error + QuotaInput list option"
  ap_quota :: "string \<Rightarrow> decode_error + QuotaInput"
  ap_uuid :: "string \<Rightarrow> decode_error + uuid"
  ap_list :: "string \<Rightarrow> decode_error + (bool option \<times> int option)"
  ap_dashboard :: "operation \<Rightarrow> admin_request \<Rightarrow> admin_response"

definition admin_bearerPrefix :: string where "admin_bearerPrefix = ''bearer ''"

definition admin_bearerToken :: "string \<Rightarrow> string" where
  "admin_bearerToken header =
     (let v = TrimSpace header in
      if length v < length admin_bearerPrefix \<or> ToLower (take (length admin_bearerPrefix) v) \<noteq> admin_bearerPrefix then ''''
      else TrimSpace (drop (length admin_bearerPrefix) v))"

definition authenticateMachine :: "'r api_env \<Rightarrow> admin_request \<Rightarrow> string \<Rightarrow> api_state \<Rightarrow> identity option \<times> api_state" where
  "authenticateMachine E r presented st =
     (case AdminCredentialByTokenHash (uz_sha256 (ap_users E) presented) (as_pg st) of
        (Inl _, q) \<Rightarrow> (None, st\<lparr>as_pg := q\<rparr>)
      | (Inr cred, q) \<Rightarrow>
          if AdminCredential_Revoked cred \<or> AdminCredential_Expired cred (rq_now r) then (None, st\<lparr>as_pg := q\<rparr>)
          else (Some (machineIdentity cred), st\<lparr>as_pg := q, as_touches := as_touches st @ [(cr_ID cred, rq_touch_at r)]\<rparr>))"

definition authenticateUser :: "'r api_env \<Rightarrow> admin_request \<Rightarrow> string \<Rightarrow> api_state \<Rightarrow> identity option \<times> api_state" where
  "authenticateUser E r presented st =
     (case uz_issuer (ap_users E) of
        None \<Rightarrow> (None, st)
      | Some verifier \<Rightarrow>
          (case Issuer_Verify (uz_jwt (ap_users E)) verifier (rq_now r) presented of
             Inl _ \<Rightarrow> (None, st)
           | Inr claims \<Rightarrow>
               (case AdminUserByID (cl_UserID claims) (as_pg st) of
                  (Inl _, q) \<Rightarrow> (None, st\<lparr>as_pg := q\<rparr>)
                | (Inr user, q) \<Rightarrow>
                    if AdminUser_Disabled user \<or> \<not> TokenIssuedAfterPasswordChange user (cl_Issued claims)
                    then (None, st\<lparr>as_pg := q\<rparr>)
                    else (Some (userIdentity user), st\<lparr>as_pg := q\<rparr>))))"

definition authenticate :: "'r api_env \<Rightarrow> admin_request \<Rightarrow> api_state \<Rightarrow> identity option \<times> api_state" where
  "authenticate E r st =
     (let presented = admin_bearerToken (rq_Authorization r) in
      if presented = '''' then (None, st)
      else if length (filter (\<lambda>c. c = CHR ''.'') presented) = 2 then authenticateUser E r presented st
      else authenticateMachine E r presented st)"

type_synonym handler = "identity option \<Rightarrow> admin_request \<Rightarrow> api_state \<Rightarrow> admin_response \<times> api_state"

definition RequireToken :: "'r api_env \<Rightarrow> handler \<Rightarrow> handler" where
  "RequireToken E next_handler ctx r st =
     (case authenticate E r st of
        (None, st') \<Rightarrow> (admin_unauthorized ''missing or invalid admin token'', st')
      | (Some i, st') \<Rightarrow> next_handler (Some i) r st')"

text \<open>The goroutine of \<open>touch\<close>.\<close>

definition run_touch :: "api_state \<Rightarrow> api_state" where
  "run_touch st =
     (case as_touches st of
        [] \<Rightarrow> st
      | (i, at) # rest \<Rightarrow> st\<lparr>as_touches := rest, as_pg := snd (TouchAdminCredential i at (as_pg st))\<rparr>)"

text \<open>\<open>net.SplitHostPort\<close>: the host, or \<open>None\<close> for an error.\<close>

definition SplitHost :: "string \<Rightarrow> string option" where
  "SplitHost s =
     (if CHR '':'' \<notin> set s then None
      else
        let i = length s - 1 - the (index_of (CHR '':'') (rev s)) in
        if hd s = CHR ''['' then
          (case index_of (CHR '']'') s of
             None \<Rightarrow> None
           | Some e \<Rightarrow>
               if e + 1 \<noteq> i then None
               else if CHR ''['' \<in> set (drop 1 s) \<or> CHR '']'' \<in> set (drop (e + 1) s) then None
               else Some (take (e - 1) (drop 1 s)))
        else if CHR '':'' \<in> set (take i s) then None
        else if CHR ''['' \<in> set s \<or> CHR '']'' \<in> set s then None
        else Some (take i s))"

definition clientIP :: "admin_request \<Rightarrow> string" where
  "clientIP r = (case SplitHost (rq_RemoteAddr r) of None \<Rightarrow> rq_RemoteAddr r | Some host \<Rightarrow> host)"

subsection \<open>The role check and the guard\<close>

definition permissionFor :: "string \<Rightarrow> Permission" where
  "permissionFor method = (if method = ''GET'' \<or> method = ''HEAD'' then PermissionRead else PermissionWrite)"

definition RequirePermission :: "handler \<Rightarrow> handler" where
  "RequirePermission next_handler ctx r st =
     (if \<not> Allows (roleFrom ctx) (permissionFor (rq_Method r))
      then (admin_writeError 403 (Text ''this credential is read-only and may not make changes'') PermissionError, st)
      else next_handler ctx r st)"

definition openPaths :: "string list" where
  "openPaths = [''POST /admin/v1/auth/login'', ''POST /admin/v1/auth/refresh'']"

definition selfServicePaths :: "string list" where
  "selfServicePaths = [''POST /admin/v1/auth/logout'']"

definition Guard :: "(handler \<Rightarrow> handler) \<Rightarrow> (handler \<Rightarrow> handler) \<Rightarrow> handler \<Rightarrow> handler" where
  "Guard auth permit next_handler ctx r st =
     (let route = rq_Method r @ '' '' @ rq_Path r in
      if route \<in> set openPaths then next_handler ctx r st
      else if route \<in> set selfServicePaths then auth next_handler ctx r st
      else auth (permit next_handler) ctx r st)"

subsection \<open>Bodies and validation\<close>

definition admin_maxBodyBytes :: nat where "admin_maxBodyBytes = 2 ^ 20"

text \<open>\<open>rq_BodyCut\<close>: reading fails after \<open>rq_Body\<close>.\<close>

definition Body :: "'r api_env \<Rightarrow> handler \<Rightarrow> handler" where
  "Body E next_handler ctx r st =
     (if length (rq_Body r) > admin_maxBodyBytes then (admin_writeError 413 (Text ''request body too large'') InvalidRequestError, st)
      else if rq_BodyCut r then (admin_writeError 400 (Text ''could not read request body'') InvalidRequestError, st)
      else
        case (if TrimSpace (rq_Body r) \<noteq> '''' then ap_json_error E (rq_Body r) else None) of
          Some err \<Rightarrow> (admin_writeError 400 (Text (''invalid JSON body: '' @ err)) InvalidRequestError, st)
        | None \<Rightarrow> next_handler ctx r st)"

definition validationFailed :: "validation_error \<Rightarrow> admin_response" where
  "validationFailed e =
     (case e of
        MethodNotAllowed \<Rightarrow> admin_writeError 405 (Text ''method not allowed'') InvalidRequestError
      | NoSuchRoute \<Rightarrow> admin_writeError 404 (Text ''no such endpoint'') NotFoundError
      | NotARequestError \<Rightarrow> admin_writeError 500 (Text ''internal error'') InternalError
      | BadRequest re \<Rightarrow> admin_writeError 400 (Text (validationMessage re)) InvalidRequestError)"

definition Validate :: "'r api_env \<Rightarrow> handler \<Rightarrow> handler" where
  "Validate E next_handler ctx r st =
     (case ap_validate E r of Some e \<Rightarrow> (validationFailed e, st) | None \<Rightarrow> next_handler ctx r st)"

subsection \<open>Handlers\<close>

text \<open>A handler over an action of the store: its error goes to \<open>admin_fail\<close>.\<close>

definition answer :: "admin_request \<Rightarrow> 'a action \<Rightarrow> ('a \<Rightarrow> admin_response) \<Rightarrow> api_state \<Rightarrow> admin_response \<times> api_state" where
  "answer r m f st =
     (case m (as_pg st) of
        (Inl e, q) \<Rightarrow> (admin_fail r (Failed_call e), st\<lparr>as_pg := q\<rparr>)
      | (Inr a, q) \<Rightarrow> (f a, st\<lparr>as_pg := q\<rparr>))"

definition decoded :: "decode_error + 'a \<Rightarrow> ('a \<Rightarrow> api_state \<Rightarrow> admin_response \<times> api_state) \<Rightarrow> api_state \<Rightarrow> admin_response \<times> api_state" where
  "decoded d f st = (case d of Inl e \<Rightarrow> (badRequest e, st) | Inr a \<Rightarrow> f a st)"

definition h_CreateTenant :: "'r api_env \<Rightarrow> string \<times> string \<times> string option \<Rightarrow> handler" where
  "h_CreateTenant E body ctx r st =
     (case body of (external, name, metadata) \<Rightarrow>
        answer r (CreateTenant (ap_service E) (rq_call r) (actorFrom ctx)
            \<lparr>nt_ExternalID = external, nt_Name = name, nt_Metadata = (case metadata of None \<Rightarrow> '''' | Some m \<Rightarrow> m)\<rparr>)
          (\<lambda>(t, created). respond (if created then 201 else 200) (TenantResult (toTenant t))) st)"

definition h_ListTenants :: "bool option \<times> int option \<Rightarrow> handler" where
  "h_ListTenants params ctx r =
     (case params of (include_disabled, limit) \<Rightarrow>
        answer r (ListTenants (case include_disabled of None \<Rightarrow> False | Some b \<Rightarrow> b) (case limit of None \<Rightarrow> 0 | Some n \<Rightarrow> n))
          (\<lambda>ts. respond 200 (TenantsResult (map toTenant ts))))"

definition h_GetTenant :: "'r api_env \<Rightarrow> string \<Rightarrow> handler" where
  "h_GetTenant E ref ctx r = answer r (GetTenant (ap_service E) ref) (\<lambda>t. respond 200 (TenantResult (toTenant t)))"

definition h_UpdateTenant :: "'r api_env \<Rightarrow> string \<Rightarrow> string option \<times> string option \<Rightarrow> handler" where
  "h_UpdateTenant E ref body ctx r =
     (case body of (name, metadata) \<Rightarrow>
        answer r (UpdateTenant (ap_service E) (rq_call r) (actorFrom ctx) ref \<lparr>tp_Name = name, tp_Metadata = metadata\<rparr>)
          (\<lambda>t. respond 200 (TenantResult (toTenant t))))"

definition h_DisableTenant :: "'r api_env \<Rightarrow> string \<Rightarrow> handler" where
  "h_DisableTenant E ref ctx r =
     answer r (DisableTenant (ap_service E) (rq_call r) (actorFrom ctx) ref) (\<lambda>t. respond 200 (TenantResult (toTenant t)))"

definition h_EnableTenant :: "'r api_env \<Rightarrow> string \<Rightarrow> handler" where
  "h_EnableTenant E ref ctx r =
     answer r (EnableTenant (ap_service E) (rq_call r) (actorFrom ctx) ref) (\<lambda>t. respond 200 (TenantResult (toTenant t)))"

definition h_CreateAPIKey :: "'r api_env \<Rightarrow> string \<Rightarrow> string list nullable option \<Rightarrow> handler" where
  "h_CreateAPIKey E ref body ctx r =
     answer r (CreateAPIKey (ap_service E) (rq_call r) (actorFrom ctx) ref
         (case body of None \<Rightarrow> None | Some n \<Rightarrow> fromAllowlist n))
       (\<lambda>(k, secret). respond 201 (IssuedKeyResult (toKey k) secret))"

definition h_ListAPIKeys :: "'r api_env \<Rightarrow> string \<Rightarrow> handler" where
  "h_ListAPIKeys E ref ctx r = answer r (ListAPIKeys (ap_service E) ref) (\<lambda>ks. respond 200 (KeysResult (map toKey ks)))"

definition h_GetAPIKey :: "uuid \<Rightarrow> handler" where
  "h_GetAPIKey i ctx r = answer r (GetAPIKey i) (\<lambda>k. respond 200 (KeyResult (toKey k)))"

definition h_UpdateAPIKey :: "'r api_env \<Rightarrow> uuid \<Rightarrow> string list nullable \<Rightarrow> handler" where
  "h_UpdateAPIKey E i n ctx r st =
     (if n = Unspecified then
        (admin_fail r (Invalidf ''model_allowlist is required: an array of aliases, [] for none, or null for every alias''), st)
      else answer r (UpdateAPIKey (ap_service E) (rq_call r) (actorFrom ctx) i (fromAllowlist n))
             (\<lambda>k. respond 200 (KeyResult (toKey k))) st)"

definition h_RevokeAPIKey :: "'r api_env \<Rightarrow> uuid \<Rightarrow> handler" where
  "h_RevokeAPIKey E i ctx r =
     answer r (RevokeAPIKey (ap_service E) (rq_call r) (actorFrom ctx) i) (\<lambda>k. respond 200 (KeyResult (toKey k)))"

definition h_ListQuotas :: "'r api_env \<Rightarrow> string \<Rightarrow> handler" where
  "h_ListQuotas E ref ctx r = answer r (ListQuotas (ap_service E) ref) (\<lambda>qs. respond 200 (QuotasResult (map toQuota qs)))"

definition h_ReplaceQuotas :: "'r api_env \<Rightarrow> string \<Rightarrow> QuotaInput list option \<Rightarrow> handler" where
  "h_ReplaceQuotas E ref body ctx r st =
     (case body of
        None \<Rightarrow> (admin_fail r (Invalidf ''quotas is required; send \"quotas\": [] to remove every limit''), st)
      | Some qs \<Rightarrow>
          answer r (ReplaceQuotas (ap_service E) (rq_call r) (actorFrom ctx) ref (map fromQuota qs))
            (\<lambda>written. respond 200 (QuotasResult (map toQuota written))) st)"

definition h_GetQuota :: "'r api_env \<Rightarrow> string \<Rightarrow> WindowKind \<Rightarrow> handler" where
  "h_GetQuota E ref kind ctx r = answer r (GetQuota (ap_service E) ref kind) (\<lambda>q. respond 200 (QuotaResult (toQuota q)))"

definition h_PutQuota :: "'r api_env \<Rightarrow> string \<Rightarrow> WindowKind \<Rightarrow> QuotaInput \<Rightarrow> handler" where
  "h_PutQuota E ref kind body ctx r st =
     (case qi_WindowKind body of
        Some w \<Rightarrow>
          if w \<noteq> kind then
            (admin_fail r (Invalidf (''window_kind in the body ('' @ w @ '') does not match the path ('' @ kind @ '')'')), st)
          else answer r (PutQuota (ap_service E) (rq_call r) (actorFrom ctx) ref ((fromQuota body)\<lparr>q_WindowKind := kind\<rparr>))
                 (\<lambda>q. respond 200 (QuotaResult (toQuota q))) st
      | None \<Rightarrow>
          answer r (PutQuota (ap_service E) (rq_call r) (actorFrom ctx) ref ((fromQuota body)\<lparr>q_WindowKind := kind\<rparr>))
            (\<lambda>q. respond 200 (QuotaResult (toQuota q))) st)"

definition h_DeleteQuota :: "'r api_env \<Rightarrow> string \<Rightarrow> WindowKind \<Rightarrow> handler" where
  "h_DeleteQuota E ref kind ctx r =
     answer r (DeleteQuota (ap_service E) (rq_call r) (actorFrom ctx) ref kind) (\<lambda>_. respond 204 NoContent)"

definition h_Login :: "'r api_env \<Rightarrow> string \<times> string \<Rightarrow> handler" where
  "h_Login E body ctx r st =
     (case Login (ap_users E) (rq_session r) \<lparr>cd_Email = fst body, cd_Password = snd body, cd_ClientIP = clientIP r\<rparr>
             (as_throttle st) (as_pg st) of
        (res, th, q) \<Rightarrow>
          (case res of
             Inr s \<Rightarrow> respond 200 (SessionResult (toSession s))
           | Inl e \<Rightarrow> if e = ErrUnauthenticated then admin_unauthorized ''invalid email or password'' else admin_fail r (Failed_call e),
           st\<lparr>as_throttle := th, as_pg := q\<rparr>))"

definition h_RefreshSession :: "'r api_env \<Rightarrow> string \<Rightarrow> handler" where
  "h_RefreshSession E token ctx r st =
     (case Refresh (ap_users E) (rq_session r) token (as_pg st) of
        (res, q) \<Rightarrow>
          (case res of
             Inr s \<Rightarrow> respond 200 (SessionResult (toSession s))
           | Inl e \<Rightarrow> if e = ErrUnauthenticated then admin_unauthorized ''invalid refresh token'' else admin_fail r (Failed_call e),
           st\<lparr>as_pg := q\<rparr>))"

definition h_Logout :: "'r api_env \<Rightarrow> string \<Rightarrow> handler" where
  "h_Logout E token ctx r = answer r (Logout (ap_users E) (rq_session r) (actorFrom ctx) token) (\<lambda>_. respond 204 NoContent)"

definition h_Whoami :: handler where
  "h_Whoami ctx r st =
     (respond 200 (case ctx of
         Some i \<Rightarrow> IdentityResult (in_Actor i) (in_Kind i) (in_Role i) (map_option toAdminUser (in_User i))
       | None \<Rightarrow> IdentityResult '''' '''' '''' None), st)"

text \<open>Routing and decoding, then the handler.\<close>

definition api :: "'r api_env \<Rightarrow> handler" where
  "api E ctx r st =
     (case route r of
        None \<Rightarrow> (admin_writeError 404 (Text ''404 page not found'') NotFoundError, st)
      | Some (op, vs) \<Rightarrow>
          (case op of
             OpLogin \<Rightarrow> decoded (ap_login E (rq_Body r)) (\<lambda>b. h_Login E b ctx r) st
           | OpRefreshSession \<Rightarrow> decoded (ap_token E (rq_Body r)) (\<lambda>t. h_RefreshSession E t ctx r) st
           | OpLogout \<Rightarrow> decoded (ap_token E (rq_Body r)) (\<lambda>t. h_Logout E t ctx r) st
           | OpWhoami \<Rightarrow> h_Whoami ctx r st
           | OpListTenants \<Rightarrow> decoded (ap_list E (rq_Query r)) (\<lambda>p. h_ListTenants p ctx r) st
           | OpCreateTenant \<Rightarrow> decoded (ap_tenant E (rq_Body r)) (\<lambda>b. h_CreateTenant E b ctx r) st
           | OpDisableTenant \<Rightarrow> h_DisableTenant E (vs ! 0) ctx r st
           | OpGetTenant \<Rightarrow> h_GetTenant E (vs ! 0) ctx r st
           | OpUpdateTenant \<Rightarrow> decoded (ap_patch E (rq_Body r)) (\<lambda>b. h_UpdateTenant E (vs ! 0) b ctx r) st
           | OpEnableTenant \<Rightarrow> h_EnableTenant E (vs ! 0) ctx r st
           | OpListAPIKeys \<Rightarrow> h_ListAPIKeys E (vs ! 0) ctx r st
           | OpCreateAPIKey \<Rightarrow> decoded (ap_key E (rq_Body r)) (\<lambda>b. h_CreateAPIKey E (vs ! 0) b ctx r) st
           | OpRevokeAPIKey \<Rightarrow> decoded (ap_uuid E (vs ! 0)) (\<lambda>i. h_RevokeAPIKey E i ctx r) st
           | OpGetAPIKey \<Rightarrow> decoded (ap_uuid E (vs ! 0)) (\<lambda>i. h_GetAPIKey i ctx r) st
           | OpUpdateAPIKey \<Rightarrow> decoded (ap_uuid E (vs ! 0)) (\<lambda>i.
               decoded (ap_allowlist E (rq_Body r)) (\<lambda>n. h_UpdateAPIKey E i n ctx r)) st
           | OpListQuotas \<Rightarrow> h_ListQuotas E (vs ! 0) ctx r st
           | OpReplaceQuotas \<Rightarrow> decoded (ap_quotas E (rq_Body r)) (\<lambda>b. h_ReplaceQuotas E (vs ! 0) b ctx r) st
           | OpDeleteQuota \<Rightarrow> h_DeleteQuota E (vs ! 0) (vs ! 1) ctx r st
           | OpGetQuota \<Rightarrow> h_GetQuota E (vs ! 0) (vs ! 1) ctx r st
           | OpPutQuota \<Rightarrow> decoded (ap_quota E (rq_Body r)) (\<lambda>b. h_PutQuota E (vs ! 0) (vs ! 1) b ctx r) st
           | OpGetUsage \<Rightarrow> (ap_dashboard E op r, st)
           | OpListAudit \<Rightarrow> (ap_dashboard E op r, st)
           | OpGetRequest \<Rightarrow> (ap_dashboard E op r, st)))"

text \<open>The chain of \<open>NewServer\<close>, and the root of the server.\<close>

definition admin_chain :: "'r api_env \<Rightarrow> handler" where
  "admin_chain E = Guard (RequireToken E) RequirePermission (Body E (Validate E (api E)))"

definition serve_admin :: "'r api_env \<Rightarrow> admin_request \<Rightarrow> api_state \<Rightarrow> admin_response \<times> api_state" where
  "serve_admin E r st =
     (if take 7 (rq_Path r) = ''/admin/'' then admin_chain E None r st
      else if rq_Path r = ''/healthz'' \<and> (rq_Method r = ''GET'' \<or> rq_Method r = ''HEAD'') then (respond 200 NoContent, st)
      else (admin_writeError 404 (Text ''404 page not found'') NotFoundError, st))"

section \<open>Facts\<close>

subsection \<open>Who is let in\<close>

lemma authenticateMachine_Some:
  assumes "authenticateMachine E r presented st = (Some i, st')"
  shows "\<exists>cred. cred_by_hash (uz_sha256 (ap_users E) presented) (pg_db (as_pg st)) = Some cred \<and>
    \<not> AdminCredential_Revoked cred \<and> \<not> AdminCredential_Expired cred (rq_now r) \<and> i = machineIdentity cred"
  using assms
  by (auto simp: authenticateMachine_def AdminCredentialByTokenHash_def found_Inr split: prod.splits sum.splits if_splits
      dest!: sym [of "Some _"])

lemma authenticateUser_Some:
  assumes "authenticateUser E r presented st = (Some i, st')"
  shows "\<exists>verifier claims row. uz_issuer (ap_users E) = Some verifier \<and>
    Issuer_Verify (uz_jwt (ap_users E)) verifier (rq_now r) presented = Inr claims \<and>
    user_by_id (cl_UserID claims) (pg_db (as_pg st)) = Some row \<and> \<not> AdminUser_Disabled (ur_User row) \<and>
    TokenIssuedAfterPasswordChange (ur_User row) (cl_Issued claims) \<and> i = userIdentity (ur_User row)"
  using assms
  by (auto simp: authenticateUser_def AdminUserByID_def found_Inr split: option.splits prod.splits sum.splits if_splits
      dest!: sym [of "Some _"])

lemma identity_actor: "in_Actor (machineIdentity cred) \<noteq> ''''" "in_Actor (userIdentity u) \<noteq> ''''"
  by (simp_all add: machineIdentity_def userIdentity_def AdminCredential_Actor_def AdminUser_Actor_def)

lemma authenticate_actor:
  assumes "authenticate E r st = (Some i, st')"
  shows "actorFrom (Some i) = in_Actor i"
proof -
  have "in_Actor i \<noteq> ''''"
    using assms identity_actor by (auto simp: authenticate_def Let_def split: if_splits
      dest!: authenticateMachine_Some authenticateUser_Some)
  then show ?thesis by (simp add: actorFrom_def)
qed

text \<open>A read leaves the tables alone.\<close>

lemma found_pure: "pg_db (snd (found (select_one f) p)) = pg_db p"
  by (auto simp: found_def pg_bind_def stmt_def pg_stmt_def select_one_def pg_fail_def pg_return_def
      split: pg_fault.splits option.splits)

text \<open>Looking a credential up changes nothing but the server's state and the list of touches.\<close>

lemma lookups_pure:
  "pg_db (snd (AdminCredentialByTokenHash h p)) = pg_db p" "pg_db (snd (AdminUserByID u p)) = pg_db p"
  by (simp_all add: AdminCredentialByTokenHash_def AdminUserByID_def found_pure)

lemma authenticate_pure:
  assumes "authenticate E r st = (res, st')"
  shows "pg_db (as_pg st') = pg_db (as_pg st)" "as_throttle st' = as_throttle st"
    "pg_definite (as_pg st) \<Longrightarrow> pg_definite (as_pg st')"
proof -
  have cred: "pg_definite p \<Longrightarrow> pg_definite (snd (AdminCredentialByTokenHash h p))" for h p
    using definite_found by (auto simp: AdminCredentialByTokenHash_def definite_body_def)
  have user: "pg_definite p \<Longrightarrow> pg_definite (snd (AdminUserByID u p))" for u p
    using definite_found by (auto simp: AdminUserByID_def definite_body_def)
  let ?c = "AdminCredentialByTokenHash (uz_sha256 (ap_users E) (admin_bearerToken (rq_Authorization r))) (as_pg st)"
  have "as_pg st' = as_pg st \<or> as_pg st' = snd ?c \<or> (\<exists>u. as_pg st' = snd (AdminUserByID u (as_pg st)))"
    and "as_throttle st' = as_throttle st"
    using assms by (auto simp: authenticate_def authenticateMachine_def authenticateUser_def Let_def
      split: if_splits prod.splits sum.splits option.splits) (metis snd_conv)+
  then show "pg_db (as_pg st') = pg_db (as_pg st)" "as_throttle st' = as_throttle st"
    "pg_definite (as_pg st) \<Longrightarrow> pg_definite (as_pg st')"
    using lookups_pure cred user by metis+
qed

subsection \<open>What a handler does to the state\<close>

definition session_ops :: "operation set" where
  "session_ops = {OpLogin, OpRefreshSession, OpLogout}"

definition write_ops :: "operation set" where
  "write_ops = {OpCreateTenant, OpUpdateTenant, OpDisableTenant, OpEnableTenant, OpCreateAPIKey, OpUpdateAPIKey, OpRevokeAPIKey,
     OpReplaceQuotas, OpPutQuota, OpDeleteQuota}"

lemma answer_state [simp]: "snd (answer r m f st) = st\<lparr>as_pg := snd (m (as_pg st))\<rparr>"
  by (auto simp: answer_def split: prod.splits sum.splits)

lemma decoded_state: "snd (decoded d f st) = (case d of Inl _ \<Rightarrow> st | Inr a \<Rightarrow> snd (f a st))"
  by (auto simp: decoded_def split: sum.splits)

lemma completed_state: "snd (completed m p) = snd (m p)"
  by (auto simp: completed_def split: prod.splits sum.splits)

text \<open>The state after a mutation, or as it was.\<close>

definition mutated :: "'r api_env \<Rightarrow> string \<Rightarrow> admin_request \<Rightarrow> api_state \<Rightarrow> api_state \<Rightarrow> bool" where
  "mutated E w r st st' \<longleftrightarrow>
     st' = st \<or> (\<exists>m. st' = st\<lparr>as_pg := snd (run_mutation (ap_service E) (rq_call r) w m (as_pg st))\<rparr>)"

lemma mutatedI:
  "snd (run_mutation (ap_service E) (rq_call r) w m (as_pg st)) = q \<Longrightarrow> mutated E w r st (st\<lparr>as_pg := q\<rparr>)"
  by (auto simp: mutated_def)

lemma mutated_refl [simp]: "mutated E w r st st"
  by (simp add: mutated_def)

lemmas write_handlers = h_CreateTenant_def h_UpdateTenant_def h_DisableTenant_def h_EnableTenant_def h_CreateAPIKey_def
  h_UpdateAPIKey_def h_RevokeAPIKey_def h_ReplaceQuotas_def h_PutQuota_def h_DeleteQuota_def

lemma write_handlers_mutate:
  "mutated E (actorFrom ctx) r st (snd (h_CreateTenant E body1 ctx r st))"
  "mutated E (actorFrom ctx) r st (snd (h_UpdateTenant E ref body2 ctx r st))"
  "mutated E (actorFrom ctx) r st (snd (h_DisableTenant E ref ctx r st))"
  "mutated E (actorFrom ctx) r st (snd (h_EnableTenant E ref ctx r st))"
  "mutated E (actorFrom ctx) r st (snd (h_CreateAPIKey E ref body3 ctx r st))"
  "mutated E (actorFrom ctx) r st (snd (h_UpdateAPIKey E i n ctx r st))"
  "mutated E (actorFrom ctx) r st (snd (h_RevokeAPIKey E i ctx r st))"
  "mutated E (actorFrom ctx) r st (snd (h_ReplaceQuotas E ref body4 ctx r st))"
  "mutated E (actorFrom ctx) r st (snd (h_PutQuota E ref kind body5 ctx r st))"
  "mutated E (actorFrom ctx) r st (snd (h_DeleteQuota E ref kind ctx r st))"
  unfolding write_handlers
  by (auto split: prod.splits option.splits intro!: mutatedI run_mutation.simps [THEN fun_cong, THEN arg_cong [of _ _ snd], THEN trans]
      completed_state)

text \<open>The tables of the gateway's configuration, which sessions and reads do not touch.\<close>

definition same_rows :: "admin_db \<Rightarrow> admin_db \<Rightarrow> bool" where
  "same_rows db db' \<longleftrightarrow> db_tenants db' = db_tenants db \<and> db_keys db' = db_keys db \<and> db_quotas db' = db_quotas db"

interpretation rows: query_invariant "same_rows db"
  by unfold_locales
    (auto simp: same_rows_def q_CreateAdminUser_def q_DisableAdminUser_def q_SetAdminUserPassword_def q_TouchAdminUserLogin_def
      q_CreateAdminRefreshToken_def q_RevokeAdminUserRefreshTokens_def q_RevokeAdminRefreshToken_def
      q_DeleteExpiredAdminRefreshTokens_def q_CreateAdminCredential_def q_RevokeAdminCredential_def q_TouchAdminCredential_def
      q_CreateAuditEntry_def update_user_def Let_def)

lemma same_rows_refl [simp]: "same_rows db db"
  by (simp add: same_rows_def)

lemma session_handlers_rows:
  "same_rows (pg_db (as_pg st)) (pg_db (as_pg (snd (h_Login E body ctx r st))))"
  "same_rows (pg_db (as_pg st)) (pg_db (as_pg (snd (h_RefreshSession E token ctx r st))))"
  "same_rows (pg_db (as_pg st)) (pg_db (as_pg (snd (h_Logout E token ctx r st))))"
  using rows.Login_keeps [of "pg_db (as_pg st)" "as_pg st"] rows.Refresh_keeps [of "pg_db (as_pg st)"]
    rows.people_keep(5) [of "pg_db (as_pg st)"]
  by (auto simp: h_Login_def h_RefreshSession_def h_Logout_def keeps_body_def split_beta)

text \<open>The reads of the use cases.\<close>

definition pure_body :: "'a action \<Rightarrow> bool" where
  "pure_body m \<longleftrightarrow> (\<forall>p. pg_db (snd (m p)) = pg_db p)"

lemma pure_keeps: "pure_body m \<longleftrightarrow> (\<forall>db. keeps_body ((=) db) m)"
  by (auto simp: pure_body_def keeps_body_def)

lemma pure_reads:
  "pure_body (ListTenants b n)" "pure_body (GetTenant S ref)" "pure_body (ListAPIKeys S ref)" "pure_body (GetAPIKey i)"
  "pure_body (ListQuotas S ref)" "pure_body (GetQuota S ref kind)"
  unfolding pure_keeps ListTenants_def GetTenant_def ListAPIKeys_def GetAPIKey_def ListQuotas_def GetQuota_def resolveTenant_def
    tenantRepo_List_def tenantRepo_Get_def tenantRepo_GetByExternalID_def apiKeyRepo_ListByTenant_def apiKeyRepo_Get_def
    quotaRepo_List_def quotaRepo_Get_def
  by (intro allI keeps_intros; simp add: select_one_def q_ListTenants_def q_ListAPIKeysByTenant_def q_ListQuotas_def)+

lemma api_effect:
  assumes "route r = Some (op, vs)"
  shows "op \<in> write_ops \<Longrightarrow> mutated E (actorFrom ctx) r st (snd (api E ctx r st))"
    and "op \<in> session_ops \<Longrightarrow> same_rows (pg_db (as_pg st)) (pg_db (as_pg (snd (api E ctx r st))))"
    and "op \<notin> write_ops \<union> session_ops \<Longrightarrow> pg_db (as_pg (snd (api E ctx r st))) = pg_db (as_pg st) \<and>
      as_throttle (snd (api E ctx r st)) = as_throttle st"
proof -
  show "mutated E (actorFrom ctx) r st (snd (api E ctx r st))" if "op \<in> write_ops"
    using that assms by (auto simp: write_ops_def api_def decoded_state write_handlers_mutate split: sum.splits)
  show "same_rows (pg_db (as_pg st)) (pg_db (as_pg (snd (api E ctx r st))))" if "op \<in> session_ops"
    using that assms session_handlers_rows by (auto simp: session_ops_def api_def decoded_state split: sum.splits)
  show "pg_db (as_pg (snd (api E ctx r st))) = pg_db (as_pg st) \<and> as_throttle (snd (api E ctx r st)) = as_throttle st"
    if "op \<notin> write_ops \<union> session_ops"
    using that assms
    by (cases op) (auto simp: write_ops_def session_ops_def api_def decoded_state h_Whoami_def h_ListTenants_def h_GetTenant_def
      h_ListAPIKeys_def h_GetAPIKey_def h_ListQuotas_def h_GetQuota_def pure_reads [unfolded pure_body_def] split: sum.splits prod.splits)
qed

subsection \<open>Routing\<close>

definition path_ok :: "admin_request \<Rightarrow> bool" where
  "path_ok r \<longleftrightarrow> rq_Path r = concat (map (\<lambda>s. CHR ''/'' # s) (rq_Segments r))"

lemma route_in:
  assumes "route r = Some (op, vs)"
  shows "\<exists>m p. (op, m, p) \<in> set routes \<and> (rq_Method r = m \<or> (m = ''GET'' \<and> rq_Method r = ''HEAD'')) \<and>
    match_path p (rq_Segments r) = Some vs"
  using assms by (auto simp: route_def split: option.splits prod.splits dest!: find_SomeD) blast+

lemma write_method:
  assumes "route r = Some (op, vs)" "op \<in> write_ops"
  shows "permissionFor (rq_Method r) = PermissionWrite"
  using route_in [OF assms(1)] assms(2) by (auto simp: routes_def write_ops_def permissionFor_def)

lemma match_Lit: "match_path (Lit l # ps) ss = Some vs \<longleftrightarrow> (\<exists>t. ss = l # t \<and> match_path ps t = Some vs)"
  by (cases ss) auto

lemma match_Wild: "match_path (Wild # ps) ss = Some vs \<longleftrightarrow> (\<exists>s t ws. ss = s # t \<and> s \<noteq> '''' \<and> match_path ps t = Some ws \<and> vs = s # ws)"
  by (cases ss) auto

lemma match_Nil: "match_path [] ss = Some vs \<longleftrightarrow> ss = [] \<and> vs = []"
  by (cases ss) auto

lemma open_routes:
  assumes "path_ok r" "rq_Method r @ '' '' @ rq_Path r \<in> set openPaths" "route r = Some (op, vs)"
  shows "op \<in> {OpLogin, OpRefreshSession}"
  using route_in [OF assms(3)] assms(1,2)
  by (auto simp: routes_def admin_path_def match_Lit match_Wild match_Nil path_ok_def openPaths_def)

lemma self_service_routes:
  assumes "path_ok r" "rq_Method r @ '' '' @ rq_Path r \<in> set selfServicePaths" "route r = Some (op, vs)"
  shows "op = OpLogout"
  using route_in [OF assms(3)] assms(1,2)
  by (auto simp: routes_def admin_path_def match_Lit match_Wild match_Nil path_ok_def selfServicePaths_def)

subsection \<open>The chain\<close>

lemma inner_state: "snd (Body E (Validate E (api E)) ctx r st) = st \<or>
    (\<exists>op vs. route r = Some (op, vs) \<and> snd (Body E (Validate E (api E)) ctx r st) = snd (api E ctx r st))"
proof (cases "route r")
  case None
  then have "snd (api E ctx r st) = st" by (simp add: api_def)
  then show ?thesis by (auto simp: Body_def Validate_def split: option.splits)
next
  case (Some x)
  then show ?thesis by (cases x) (auto simp: Body_def Validate_def split: option.splits)
qed

lemma serve_cases:
  obtains (outside) "snd (serve_admin E r st) = st"
  | (opened) "rq_Method r @ '' '' @ rq_Path r \<in> set openPaths"
      "serve_admin E r st = Body E (Validate E (api E)) None r st"
  | (refused) st1 where "authenticate E r st = (None, st1)" "serve_admin E r st = (admin_unauthorized ''missing or invalid admin token'', st1)"
  | (self) i st1 where "rq_Method r @ '' '' @ rq_Path r \<in> set selfServicePaths" "authenticate E r st = (Some i, st1)"
      "serve_admin E r st = Body E (Validate E (api E)) (Some i) r st1"
  | (forbidden) i st1 where "authenticate E r st = (Some i, st1)" "snd (serve_admin E r st) = st1"
  | (permitted) i st1 where "authenticate E r st = (Some i, st1)" "Allows (in_Role i) (permissionFor (rq_Method r))"
      "serve_admin E r st = Body E (Validate E (api E)) (Some i) r st1"
proof (cases "take 7 (rq_Path r) = ''/admin/''")
  case False
  then show ?thesis using outside by (auto simp: serve_admin_def)
next
  case True
  show ?thesis
  proof (cases "rq_Method r @ '' '' @ rq_Path r \<in> set openPaths")
    case opn: True
    then show ?thesis using opened True by (simp add: serve_admin_def admin_chain_def Guard_def Let_def)
  next
    case False
    obtain res st1 where auth: "authenticate E r st = (res, st1)" by fastforce
    show ?thesis
    proof (cases res)
      case None
      then show ?thesis
        using refused auth True False by (auto simp: serve_admin_def admin_chain_def Guard_def RequireToken_def Let_def)
    next
      case (Some i)
      note auth = auth [unfolded Some]
      have serve: "serve_admin E r st = (if rq_Method r @ '' '' @ rq_Path r \<in> set selfServicePaths
          then Body E (Validate E (api E)) (Some i) r st1 else RequirePermission (Body E (Validate E (api E))) (Some i) r st1)"
        using auth True False by (simp add: serve_admin_def admin_chain_def Guard_def RequireToken_def Let_def)
      consider "rq_Method r @ '' '' @ rq_Path r \<in> set selfServicePaths"
        | "rq_Method r @ '' '' @ rq_Path r \<notin> set selfServicePaths" "Allows (in_Role i) (permissionFor (rq_Method r))"
        | "rq_Method r @ '' '' @ rq_Path r \<notin> set selfServicePaths" "\<not> Allows (in_Role i) (permissionFor (rq_Method r))" by blast
      then show ?thesis
        by cases (use self [of i st1] forbidden [of i st1] permitted [of i st1] auth serve in
          \<open>simp_all add: RequirePermission_def roleFrom_def\<close>)
    qed
  qed
qed

lemma definite_mutation: "pg_definite (as_pg st) \<Longrightarrow> mutated E w r st st' \<Longrightarrow> pg_definite (as_pg st')"
  using definite_run_mutation [of "ap_service E"] by (auto simp: mutated_def definite_body_def)

lemma mutated_audited:
  assumes "mutated E w r st st'" "pg_definite (as_pg st)" "admin_ok (pg_db (as_pg st))"
  shows "pg_db (as_pg st') = pg_db (as_pg st) \<or>
    (\<exists>e t. db_audit (pg_db (as_pg st')) = db_audit (pg_db (as_pg st)) @ [e] \<and> ae_Actor e = w \<and> ae_TenantID e = Some t \<and>
       only_tenant t (pg_db (as_pg st)) (pg_db (as_pg st')))"
  using assms(1) unfolding mutated_def
proof (elim disjE exE)
  fix m assume st': "st' = st\<lparr>as_pg := snd (run_mutation (ap_service E) (rq_call r) w m (as_pg st))\<rparr>"
  let ?run = "run_mutation (ap_service E) (rq_call r) w m (as_pg st)"
  have "?run = (fst ?run, snd ?run)" by simp
  from run_mutation_audited [OF this assms(2,3)] show ?thesis
    unfolding st' by (auto simp: audited_change_def)
qed simp

text \<open>A request that went through the chain as somebody, or as nobody.\<close>

lemma inner_rows:
  assumes "pg_definite (as_pg st)" "admin_ok (pg_db (as_pg st))"
  shows "same_rows (pg_db (as_pg st)) (pg_db (as_pg (snd (Body E (Validate E (api E)) ctx r st)))) \<or>
    (\<exists>op vs e t. route r = Some (op, vs) \<and> op \<in> write_ops \<and>
       db_audit (pg_db (as_pg (snd (Body E (Validate E (api E)) ctx r st)))) = db_audit (pg_db (as_pg st)) @ [e] \<and>
       ae_Actor e = actorFrom ctx \<and> ae_TenantID e = Some t \<and>
       only_tenant t (pg_db (as_pg st)) (pg_db (as_pg (snd (Body E (Validate E (api E)) ctx r st)))))"
proof -
  consider "snd (Body E (Validate E (api E)) ctx r st) = st"
    | op vs where "route r = Some (op, vs)" "snd (Body E (Validate E (api E)) ctx r st) = snd (api E ctx r st)"
    using inner_state [of E ctx r st] by blast
  then show ?thesis
  proof cases
    case (2 op vs)
    consider "op \<in> write_ops" | "op \<in> session_ops" | "op \<notin> write_ops \<union> session_ops" by blast
    then show ?thesis
    proof cases
      case 1
      from mutated_audited [OF api_effect(1) [OF 2(1) 1, where E = E and ctx = ctx and st = st] assms] show ?thesis using 2 1 by auto
    next
      case b: 2
      then show ?thesis using api_effect(2) [OF 2(1), where E = E and ctx = ctx and st = st] 2(2) by simp
    next
      case 3
      then show ?thesis using api_effect(3) [OF 2(1), where E = E and ctx = ctx and st = st] 2(2) by simp
    qed
  qed simp
qed

section \<open>Properties\<close>

text \<open>
  C5. Nothing in the gateway's configuration changes without leave. Whatever request arrives, tenants,
  keys and quotas are afterwards as they were, or the request authenticated as somebody whose
  role may write, and exactly one audit row was added, in that caller's name and for the one tenant
  whose rows changed. Read-only credentials, sessions' own endpoints and anonymous callers change
  nothing there.
\<close>

theorem admin_writes_authorised:
  assumes "serve_admin E r st = (resp, st')" "path_ok r" "pg_definite (as_pg st)" "admin_ok (pg_db (as_pg st))"
  shows "same_rows (pg_db (as_pg st)) (pg_db (as_pg st')) \<or>
    (\<exists>i st1 e t. authenticate E r st = (Some i, st1) \<and> Allows (in_Role i) PermissionWrite \<and>
       db_audit (pg_db (as_pg st')) = db_audit (pg_db (as_pg st)) @ [e] \<and> ae_Actor e = in_Actor i \<and> ae_TenantID e = Some t \<and>
       only_tenant t (pg_db (as_pg st)) (pg_db (as_pg st')))"
proof -
  have st': "st' = snd (serve_admin E r st)" using assms(1) by simp
  note inner = inner_rows [where E = E]
  show ?thesis
  proof (cases rule: serve_cases [of E r st])
    case opened
    then show ?thesis using inner [OF assms(3,4), where ctx = None and r = r] open_routes [OF assms(2) opened(1)] st'
      by (auto simp: write_ops_def)
  next
    case (refused st1)
    then show ?thesis using authenticate_pure [OF refused(1)] st' by simp
  next
    case (self i st1)
    note pure = authenticate_pure [OF self(2)]
    show ?thesis using inner [where st = st1 and ctx = "Some i" and r = r] pure assms(3,4) self_service_routes [OF assms(2) self(1)] self(3) st'
      by (auto simp: write_ops_def)
  next
    case (forbidden i st1)
    then show ?thesis using authenticate_pure [OF forbidden(1)] st' by simp
  next
    case (permitted i st1)
    note pure = authenticate_pure [OF permitted(1)]
    show ?thesis using inner [where st = st1 and ctx = "Some i" and r = r] pure assms(3,4) permitted st' write_method [of r] authenticate_actor [OF permitted(1)]
      by auto
  qed (simp add: st')
qed

text \<open>
  C10. Whoever is let in is entitled to be, on this request's reading of the store: a machine
  credential that is stored under the hash of the presented secret, not revoked and not expired,
  or a person named by a valid access token who exists, is not disabled and has not changed their
  password in a later second than the token's. The role and the name are those of the row, never
  those copied into a token.
\<close>

theorem authentication_sound:
  assumes "authenticate E r st = (Some i, st')"
  shows "(\<exists>cred. cred_by_hash (uz_sha256 (ap_users E) (admin_bearerToken (rq_Authorization r))) (pg_db (as_pg st)) = Some cred \<and>
       \<not> AdminCredential_Revoked cred \<and> \<not> AdminCredential_Expired cred (rq_now r) \<and>
       in_Actor i = AdminCredential_Actor cred \<and> in_Role i = cr_Role cred) \<or>
    (\<exists>verifier claims row. uz_issuer (ap_users E) = Some verifier \<and>
       Issuer_Verify (uz_jwt (ap_users E)) verifier (rq_now r) (admin_bearerToken (rq_Authorization r)) = Inr claims \<and>
       user_by_id (cl_UserID claims) (pg_db (as_pg st)) = Some row \<and> \<not> AdminUser_Disabled (ur_User row) \<and>
       TokenIssuedAfterPasswordChange (ur_User row) (cl_Issued claims) \<and>
       in_Actor i = AdminUser_Actor (ur_User row) \<and> in_Role i = us_Role (ur_User row))"
  using assms
  by (auto simp: authenticate_def Let_def machineIdentity_def userIdentity_def split: if_splits
      dest!: authenticateMachine_Some authenticateUser_Some)

text \<open>
  C9. A caller that does not authenticate reaches the login and refresh endpoints and nothing else:
  for any other request the tables and the throttle are as they were, and below \<open>/admin/\<close> the answer
  is the challenge. The path the guard compares and the segments the router matches are two readings
  of one URL, so no spelling of a path slips between them.
\<close>

theorem anonymous_reach:
  assumes "serve_admin E r st = (resp, st')" "path_ok r" "fst (authenticate E r st) = None"
  shows "(\<exists>op vs. route r = Some (op, vs) \<and> op \<in> {OpLogin, OpRefreshSession}) \<or>
    (pg_db (as_pg st') = pg_db (as_pg st) \<and> as_throttle st' = as_throttle st \<and>
     (take 7 (rq_Path r) \<noteq> ''/admin/'' \<or> rq_Method r @ '' '' @ rq_Path r \<in> set openPaths \<or>
      resp = admin_unauthorized ''missing or invalid admin token''))"
proof -
  have st': "st' = snd (serve_admin E r st)" using assms(1) by simp
  show ?thesis
  proof (cases rule: serve_cases [of E r st])
    case outside
    then show ?thesis
      using st' assms(1,3) by (cases "authenticate E r st")
        (auto simp: serve_admin_def admin_chain_def Guard_def RequireToken_def Let_def split: if_splits)
  next
    case opened
    consider "st' = st" | op vs where "route r = Some (op, vs)"
      using inner_state [of E None r st] st' opened(2) by auto
    then show ?thesis using open_routes [OF assms(2) opened(1)] opened(1) by cases auto
  next
    case (refused st1)
    then show ?thesis using authenticate_pure [OF refused(1)] assms(1) by simp
  qed (use assms(3) in simp_all)
qed

text \<open>A token issued in the second in which the password is changed, but before, stays good.\<close>

lemma same_second_token_survives:
  assumes "issued < us_PasswordChangedAt u" "truncate_second issued = truncate_second (us_PasswordChangedAt u)"
  shows "TokenIssuedAfterPasswordChange u issued"
  using assms(2) by (simp add: TokenIssuedAfterPasswordChange_def)

text \<open>An operator's machine credential and a read-only one, for the examples.\<close>

definition sample_api :: "int api_env" where
  "sample_api =
     \<lparr>ap_service = sample_service, ap_users = sample_users, ap_validate = (\<lambda>_. None), ap_json_error = (\<lambda>_. None),
      ap_login = (\<lambda>s. Inr (s, s)), ap_token = Inr, ap_tenant = (\<lambda>s. Inr (s, s, None)), ap_patch = (\<lambda>s. Inr (Some s, None)),
      ap_key = (\<lambda>_. Inr None), ap_allowlist = (\<lambda>_. Inr Null), ap_quotas = (\<lambda>_. Inr None),
      ap_quota = (\<lambda>_. Inl (OtherDecode ''quota'')), ap_uuid = (\<lambda>_. Inr 8), ap_list = (\<lambda>_. Inr (None, None)),
      ap_dashboard = (\<lambda>_ _. respond 200 (Dashboard '''')),
      \<dots> = ()\<rparr>"

definition sample_cred :: "uuid \<Rightarrow> string \<Rightarrow> Role \<Rightarrow> credential_row" where
  "sample_cred i name role =
     \<lparr>dr_Cred = \<lparr>cr_ID = i, cr_Name = name, cr_Prefix = ''gr_admin_'', cr_Role = role, cr_ExpiresAt = Some 200, cr_CreatedAt = 0,
                 cr_LastUsedAt = None, cr_RevokedAt = None\<rparr>,
      dr_Hash = uz_sha256 sample_users name\<rparr>"

definition sample_state :: api_state where
  "sample_state =
     \<lparr>as_throttle = newThrottle,
      as_pg = sample_db\<lparr>pg_db := (pg_db sample_db)\<lparr>db_creds := [sample_cred 31 ''ops'' RoleAdmin, sample_cred 32 ''eye'' RoleReadonly]\<rparr>\<rparr>,
      as_touches = []\<rparr>"

definition sample_request :: "string \<Rightarrow> string \<Rightarrow> string list \<Rightarrow> admin_request" where
  "sample_request method auth segs =
     \<lparr>rq_Method = method, rq_Path = concat (map (\<lambda>s. CHR ''/'' # s) segs), rq_Segments = segs, rq_Query = '''', rq_Authorization = auth,
      rq_RemoteAddr = ''10.0.0.1:4000'', rq_Body = '''', rq_BodyCut = False, rq_TimedOut = False, rq_now = 100, rq_touch_at = 100,
      rq_call = sample_call 40, rq_session = sample_session_call 41\<rparr>"

lemma sample_state_ok: "pg_definite (as_pg sample_state) \<and> admin_ok (pg_db (as_pg sample_state))"
  using sample_db_ok by (simp add: sample_state_def admin_ok_def)

lemma sample_path: "path_ok (sample_request m a segs)"
  by (simp add: path_ok_def sample_request_def)

text \<open>The operator's credential disables a tenant; the read-only one is refused and nobody is challenged.\<close>

theorem admin_writes_authorised_witness:
  "let r = sample_request ''DELETE'' ''Bearer ops'' [''admin'', ''v1'', ''tenants'', ''acme''];
       (resp, st') = serve_admin sample_api r sample_state
   in \<not> same_rows (pg_db (as_pg sample_state)) (pg_db (as_pg st')) \<and>
      (\<exists>i st1 e. authenticate sample_api r sample_state = (Some i, st1) \<and> Allows (in_Role i) PermissionWrite \<and>
         db_audit (pg_db (as_pg st')) = db_audit (pg_db (as_pg sample_state)) @ [e] \<and> ae_Actor e = in_Actor i)"
proof -
  let ?r = "sample_request ''DELETE'' ''Bearer ops'' [''admin'', ''v1'', ''tenants'', ''acme'']"
  let ?s = "serve_admin sample_api ?r sample_state"
  let ?i = "machineIdentity (dr_Cred (sample_cred 31 ''ops'' RoleAdmin))"
  have "fst (authenticate sample_api ?r sample_state) = Some ?i" by code_simp
  then obtain st1 where auth: "authenticate sample_api ?r sample_state = (Some ?i, st1)" by (metis prod.collapse)
  have "pg_faults (as_pg (snd (authenticate sample_api ?r sample_state))) = []" by code_simp
  then have "pg_faults (as_pg st1) = pg_faults (as_pg sample_state)" unfolding auth by (simp add: sample_state_def sample_db_def)
  with authenticate_pure(1) [OF auth] have st: "as_pg st1 = as_pg sample_state" by (intro pg.equality) auto
  have path: "take 7 (rq_Path ?r) = ''/admin/''" "rq_Method ?r @ '' '' @ rq_Path ?r \<notin> set openPaths"
    "rq_Method ?r @ '' '' @ rq_Path ?r \<notin> set selfServicePaths" "Allows (in_Role ?i) (permissionFor (rq_Method ?r))" by code_simp+
  have body: "Body sample_api (Validate sample_api (api sample_api)) (Some ?i) ?r st1 = api sample_api (Some ?i) ?r st1"
    by (simp add: Body_def Validate_def sample_api_def sample_request_def maxBodyBytes_def TrimSpace_def trim_left.simps [of _ "''''"] space_runes_def)
  have chain: "?s = Body sample_api (Validate sample_api (api sample_api)) (Some ?i) ?r st1"
    unfolding serve_admin_def admin_chain_def Guard_def RequireToken_def RequirePermission_def Let_def auth
    using path by (simp add: roleFrom_def)
  have fields: "ap_service sample_api = sample_service" "rq_call ?r = sample_call 40" "actorFrom (Some ?i) = ''admin:ops''"
    by (simp_all add: sample_api_def sample_request_def actorFrom_def machineIdentity_def AdminCredential_Actor_def sample_cred_def)
  have "route ?r = Some (OpDisableTenant, [''acme''])" by code_simp
  then have s: "snd ?s = st1\<lparr>as_pg := snd (DisableTenant sample_service (sample_call 40) ''admin:ops'' ''acme'' (as_pg st1))\<rparr>"
    unfolding chain body by (simp add: api_def h_DisableTenant_def fields)
  have "db_tenants (pg_db (snd (DisableTenant sample_service (sample_call 40) ''admin:ops'' ''acme'' (as_pg sample_state)))) \<noteq>
      db_tenants (pg_db (as_pg sample_state))" by code_simp
  then have "db_tenants (pg_db (as_pg (snd ?s))) \<noteq> db_tenants (pg_db (as_pg sample_state))" by (simp add: s st)
  then have changed: "\<not> same_rows (pg_db (as_pg sample_state)) (pg_db (as_pg (snd ?s)))" by (simp add: same_rows_def)
  have run: "?s = (fst ?s, snd ?s)" by simp
  from admin_writes_authorised [OF run sample_path] sample_state_ok changed
  have "\<exists>i st1 e. authenticate sample_api ?r sample_state = (Some i, st1) \<and> Allows (in_Role i) PermissionWrite \<and>
      db_audit (pg_db (as_pg (snd ?s))) = db_audit (pg_db (as_pg sample_state)) @ [e] \<and> ae_Actor e = in_Actor i" by blast
  with changed show ?thesis by (simp add: Let_def split_beta)
qed

theorem authentication_sound_witness:
  "let r = sample_request ''GET'' ''bearer eye'' [''admin'', ''v1'', ''tenants''] in
   case authenticate sample_api r sample_state of
     (None, _) \<Rightarrow> False
   | (Some i, _) \<Rightarrow> in_Role i = RoleReadonly \<and>
       (\<exists>cred. cred_by_hash (uz_sha256 (ap_users sample_api) (admin_bearerToken (rq_Authorization r))) (pg_db (as_pg sample_state)) = Some cred \<and>
          in_Actor i = AdminCredential_Actor cred)"
proof -
  let ?r = "sample_request ''GET'' ''bearer eye'' [''admin'', ''v1'', ''tenants'']"
  let ?a = "authenticate sample_api ?r sample_state"
  have role: "map_option in_Role (fst ?a) = Some RoleReadonly" by code_simp
  then obtain i where i: "fst ?a = Some i" "in_Role i = RoleReadonly" by auto
  have jwt: "Issuer_Verify (uz_jwt (ap_users sample_api)) v t b = Inl ErrInvalidToken" for v t b
    by (simp add: Issuer_Verify_def sample_api_def sample_users_def NewUsers_def)
  have run: "?a = (Some i, snd ?a)" using i(1) by (simp add: prod_eq_iff)
  from authentication_sound [OF run] obtain cred where
    "cred_by_hash (uz_sha256 (ap_users sample_api) (admin_bearerToken (rq_Authorization ?r))) (pg_db (as_pg sample_state)) = Some cred"
    "in_Actor i = AdminCredential_Actor cred" by (auto simp: jwt)
  with i run show ?thesis unfolding Let_def by (subst run) auto
qed

theorem anonymous_reach_witness:
  "let r = sample_request ''DELETE'' '''' [''admin'', ''v1'', ''tenants'', ''acme'']; (resp, st') = serve_admin sample_api r sample_state
   in resp = admin_unauthorized ''missing or invalid admin token'' \<and> pg_db (as_pg st') = pg_db (as_pg sample_state)"
proof -
  let ?r = "sample_request ''DELETE'' '''' [''admin'', ''v1'', ''tenants'', ''acme'']"
  let ?s = "serve_admin sample_api ?r sample_state"
  have run: "?s = (fst ?s, snd ?s)" by simp
  have none: "fst (authenticate sample_api ?r sample_state) = None" by code_simp
  have op: "map_option fst (route ?r) = Some OpDisableTenant" by code_simp
  have path: "take 7 (rq_Path ?r) = ''/admin/''" "rq_Method ?r @ '' '' @ rq_Path ?r \<notin> set openPaths" by code_simp+
  have "\<not> (\<exists>op vs. route ?r = Some (op, vs) \<and> op \<in> {OpLogin, OpRefreshSession})" using op by auto
  with anonymous_reach [OF run sample_path none] path
  have "fst ?s = admin_unauthorized ''missing or invalid admin token'' \<and> pg_db (as_pg (snd ?s)) = pg_db (as_pg sample_state)" by blast
  then show ?thesis by (simp add: Let_def split_beta)
qed

end
