(* ===== verification/Records.thy ===== *)
theory Records
  imports Admin_Store "HOL-Library.Product_Lexorder"
begin

text \<open>
  The record tables and what reads them: the writer behind the decision sink
  (\<open>adapters/repositories/records.go\<close>), the reader of single decisions, reports and audit pages
  (\<open>observability.go\<close>), the queries on \<open>usage_ledger\<close> and \<open>audit_log\<close>, and the pages and cursors of the
  admin API (\<open>adminapi/observability.go\<close>, \<open>cursor.go\<close>).

  The record tables are a database of their own here, beside the tables the tenant ids are looked up
  in: they share no constraint. Parameters (\<open>record_env\<close>): JSON encoding and decoding at the four
  types stored, the text of a UUID, and what PostgreSQL makes of a \<open>jsonb\<close> field, of a day and of a
  percentile, and the order in which it forms groups. \<open>rt_time\<close> is the instant a \<open>timestamptz\<close> keeps, \<open>rt_jsonb\<close> the text it hands back of a \<open>jsonb\<close>.
\<close>

section \<open>Definitions\<close>

subsection \<open>Tables\<close>

text \<open>\<open>int32(n)\<close>.\<close>

definition i32 :: "int \<Rightarrow> int" where
  "i32 n = (n + 2 ^ 31) mod 2 ^ 32 - 2 ^ 31"

record UsageLedger =
  ul_ID :: uuid
  ul_StartedAt :: time
  ul_TenantID :: uuid
  ul_KeyID :: "uuid option"
  ul_RequestID :: "string option"
  ul_RequestedModel :: string
  ul_ChosenTarget :: "string option"
  ul_Status :: Status
  ul_Usage :: TokenUsage
  ul_CostNanos :: "int option"
  ul_TokenSource :: string
  ul_PricingVersion :: "string option"
  ul_Billable :: bool
  ul_TtftMs :: "int option"
  ul_TotalMs :: "int option"
  ul_Metadata :: string
  ul_Counterfactuals :: string

record AuditLog =
  al_ID :: uuid
  al_Ts :: time
  al_TenantID :: "uuid option"
  al_KeyID :: "uuid option"
  al_Actor :: string
  al_Action :: string
  al_RequestID :: "string option"
  al_ReasonKind :: "string option"
  al_ReasonDetail :: "string option"
  al_PolicyVersion :: "int option"
  al_Ladder :: string
  al_LadderAttempts :: string
  al_FinalTarget :: "string option"
  al_StatusCode :: "int option"
  al_Error :: "string option"

record record_db =
  rt_time :: "time \<Rightarrow> time"
  rt_jsonb :: "string \<Rightarrow> string"
  rt_ledger :: "UsageLedger list"
  rt_audit :: "AuditLog list"

datatype record_error =
    RecordTenant tenant_error
  | RecordEncode
  | RecordDecode
  | DecisionNotFound
  | RecordReport report_error
  | RecordAudit audit_query_error
  | RecordsFailed

type_synonym 'a record_action = "record_db pg \<Rightarrow> (record_error + 'a) \<times> record_db pg"

record record_env =
  re_metadata :: "(string \<rightharpoonup> string) \<Rightarrow> string option"
  re_unmetadata :: "string \<Rightarrow> (string \<rightharpoonup> string) option"
  re_counterfactuals :: "Counterfactual list \<Rightarrow> string option"
  re_uncounterfactuals :: "string \<Rightarrow> Counterfactual list option"
  re_targets :: "TargetRef list \<Rightarrow> string option"
  re_untargets :: "string \<Rightarrow> TargetRef list option"
  re_attempts :: "Attempt list \<Rightarrow> string option"
  re_unattempts :: "string \<Rightarrow> Attempt list option"
  re_uuid_str :: "uuid \<Rightarrow> string"
  re_uuid_parse :: "string \<Rightarrow> uuid option"
  re_field :: "string \<Rightarrow> string \<Rightarrow> string option"
  re_day :: "time \<Rightarrow> string"
  re_comparisons :: "string \<Rightarrow> (string \<times> int) list"
  re_percentile :: "nat \<Rightarrow> int list \<Rightarrow> int"
  re_group_order :: "string list \<Rightarrow> string list"

subsection \<open>Writing decisions\<close>

definition gatewayActor :: string where "gatewayActor = ''gateway''"
definition routeAction :: string where "routeAction = ''route_request''"
definition billableByDefault :: bool where "billableByDefault = True"

definition optional :: "string \<Rightarrow> string option" where
  "optional s = (if s = '''' then None else Some s)"

definition optionalUUID :: "uuid \<Rightarrow> uuid option" where
  "optionalUUID i = (if i = 0 then None else Some i)"

definition optionalInt :: "int \<Rightarrow> int option" where
  "optionalInt n = (if n = 0 then None else Some (i32 n))"

definition lastFailure :: "Outcome \<Rightarrow> string" where
  "lastFailure out =
     (if o_Attempts out = [] then ''''
      else case at_Failure (last (o_Attempts out)) of None \<Rightarrow> '''' | Some f \<Rightarrow> af_Message f)"

definition reasonDetail :: "Reason \<Rightarrow> string" where
  "reasonDetail r =
     (if re_Kind r = ReasonModelAlias then re_ModelAlias r
      else if re_Kind r = ReasonRuleMatch then re_RuleName r else '''')"

definition ledgerRow :: "record_env \<Rightarrow> RoutingDecision \<Rightarrow> uuid \<Rightarrow> UsageLedger option" where
  "ledgerRow E d tenantID =
     (case re_metadata E (rs_Metadata (rd_Request d)) of
        None \<Rightarrow> None
      | Some metadata \<Rightarrow>
          (case (case rd_Cost d of
                   None \<Rightarrow> Some (None, None, ''[]'')
                 | Some c \<Rightarrow>
                     if length (cb_Counterfactuals c) > 0
                     then map_option (\<lambda>cf. (Some (cb_Actual c), Some (cb_PriceTableVersion c), cf)) (re_counterfactuals E (cb_Counterfactuals c))
                     else Some (Some (cb_Actual c), Some (cb_PriceTableVersion c), ''[]'')) of
             None \<Rightarrow> None
           | Some (costNanos, pricingVersion, counterfactuals) \<Rightarrow>
               (let u = o_Usage (rd_Outcome d) in
                Some \<lparr>ul_ID = rd_ID d, ul_StartedAt = rd_OccurredAt d, ul_TenantID = tenantID, ul_KeyID = optionalUUID (rd_KeyID d), ul_RequestID = None,
                      ul_RequestedModel = rs_RequestedModel (rd_Request d), ul_ChosenTarget = optional (ChosenTarget (rd_Outcome d)),
                      ul_Status = o_Status (rd_Outcome d),
                      ul_Usage = \<lparr>tu_Input = i32 (tu_Input u), tu_Output = i32 (tu_Output u), tu_CacheWrite = i32 (tu_CacheWrite u),
                                  tu_CacheRead = i32 (tu_CacheRead u), tu_Reasoning = i32 (tu_Reasoning u)\<rparr>,
                      ul_CostNanos = costNanos, ul_TokenSource = ''provider'', ul_PricingVersion = pricingVersion,
                      ul_Billable = billableByDefault, ul_TtftMs = optionalInt (o_TTFTMs (rd_Outcome d)),
                      ul_TotalMs = optionalInt (o_TotalMs (rd_Outcome d)), ul_Metadata = metadata,
                      ul_Counterfactuals = counterfactuals\<rparr>)))"

definition auditRow :: "record_env \<Rightarrow> RoutingDecision \<Rightarrow> uuid \<Rightarrow> AuditLog option" where
  "auditRow E d tenantID =
     (case (re_targets E (la_Targets (rd_Ladder d)), re_attempts E (o_Attempts (rd_Outcome d))) of
        (Some ladder, Some attempts) \<Rightarrow>
          (let reason = la_Reason (rd_Ladder d) in
           Some \<lparr>al_ID = rd_ID d, al_Ts = rd_OccurredAt d, al_TenantID = Some tenantID, al_KeyID = optionalUUID (rd_KeyID d),
                 al_Actor = gatewayActor, al_Action = routeAction,
                 al_RequestID = optional (DecisionID_String (re_uuid_str E) (rd_ID d)),
                 al_ReasonKind = optional (re_Kind reason), al_ReasonDetail = optional (reasonDetail reason),
                 al_PolicyVersion = (if re_PolicyVersion reason > 0 then Some (i32 (re_PolicyVersion reason)) else None),
                 al_Ladder = ladder, al_LadderAttempts = attempts,
                 al_FinalTarget = optional (ChosenTarget (rd_Outcome d)), al_StatusCode = None,
                 al_Error = optional (lastFailure (rd_Outcome d))\<rparr>)
      | _ \<Rightarrow> None)"

text \<open>The two \<open>COPY\<close> statements: all rows or, on a constraint, none.\<close>

definition tokens_non_negative :: "TokenUsage \<Rightarrow> bool" where
  "tokens_non_negative u \<longleftrightarrow>
     0 \<le> tu_Input u \<and> 0 \<le> tu_Output u \<and> 0 \<le> tu_CacheRead u \<and> 0 \<le> tu_CacheWrite u \<and> 0 \<le> tu_Reasoning u"

definition keep_ledger :: "record_db \<Rightarrow> UsageLedger \<Rightarrow> UsageLedger" where
  "keep_ledger db r = r\<lparr>ul_StartedAt := rt_time db (ul_StartedAt r), ul_Metadata := rt_jsonb db (ul_Metadata r),
     ul_Counterfactuals := rt_jsonb db (ul_Counterfactuals r)\<rparr>"

definition keep_audit :: "record_db \<Rightarrow> AuditLog \<Rightarrow> AuditLog" where
  "keep_audit db r = r\<lparr>al_Ts := rt_time db (al_Ts r), al_Ladder := rt_jsonb db (al_Ladder r),
     al_LadderAttempts := rt_jsonb db (al_LadderAttempts r)\<rparr>"

definition q_InsertUsageLedger :: "UsageLedger list \<Rightarrow> record_db \<Rightarrow> (record_error + unit) \<times> record_db" where
  "q_InsertUsageLedger rows db =
     (let kept = map (keep_ledger db) rows
      in if \<not> distinct (map (\<lambda>r. (ul_ID r, ul_StartedAt r)) (rt_ledger db @ kept)) \<or>
            list_ex (\<lambda>r. \<not> tokens_non_negative (ul_Usage r) \<or> ul_TokenSource r \<notin> {''provider'', ''estimate''}) kept
         then (Inl RecordsFailed, db)
         else (Inr (), db\<lparr>rt_ledger := rt_ledger db @ kept\<rparr>))"

definition q_InsertAuditLog :: "AuditLog list \<Rightarrow> record_db \<Rightarrow> (record_error + unit) \<times> record_db" where
  "q_InsertAuditLog rows db =
     (let kept = map (keep_audit db) rows
      in if \<not> distinct (map (\<lambda>r. (al_ID r, al_Ts r)) (rt_audit db @ kept)) \<or>
            list_ex (\<lambda>r. al_Actor r = '''' \<or> al_Action r = '''') kept
         then (Inl RecordsFailed, db)
         else (Inr (), db\<lparr>rt_audit := rt_audit db @ kept\<rparr>))"

record record_state =
  ws_tenants :: TenantIDs
  ws_admin :: "admin_db pg"
  ws_pg :: "record_db pg"

fun encode_batch :: "record_env \<Rightarrow> RoutingDecision list \<Rightarrow> record_state \<Rightarrow>
    (record_error + (UsageLedger list \<times> AuditLog list)) \<times> record_state" where
  "encode_batch E [] st = (Inr ([], []), st)"
| "encode_batch E (d # ds) st =
     (case TenantIDs_Lookup (rd_Tenant d) (ws_tenants st) (ws_admin st) of
        (Inl e, c, p) \<Rightarrow> (Inl (RecordTenant e), st\<lparr>ws_tenants := c, ws_admin := p\<rparr>)
      | (Inr tenantID, c, p) \<Rightarrow>
          (let st' = st\<lparr>ws_tenants := c, ws_admin := p\<rparr> in
           case (ledgerRow E d tenantID, auditRow E d tenantID) of
             (Some l, Some a) \<Rightarrow>
               (case encode_batch E ds st' of
                  (Inl e, st'') \<Rightarrow> (Inl e, st'')
                | (Inr (ls, as), st'') \<Rightarrow> (Inr (l # ls, a # as), st''))
           | _ \<Rightarrow> (Inl RecordEncode, st')))"

definition RecordWriter_Write :: "record_env \<Rightarrow> RoutingDecision list \<Rightarrow> record_state \<Rightarrow> (record_error + unit) \<times> record_state" where
  "RecordWriter_Write E batch st =
     (if batch = [] then (Inr (), st)
      else
        case encode_batch E batch st of
          (Inl e, st') \<Rightarrow> (Inl e, st')
        | (Inr (ledger, audit), st') \<Rightarrow>
            (case with_tx RecordsFailed (pg_bind (pg_stmt RecordsFailed (q_InsertUsageLedger ledger)) (\<lambda>_.
                    pg_stmt RecordsFailed (q_InsertAuditLog audit))) (ws_pg st') of
               (r, q) \<Rightarrow> (r, st'\<lparr>ws_pg := q\<rparr>)))"

subsection \<open>Reading one decision\<close>

definition derefInt :: "int option \<Rightarrow> int" where
  "derefInt p = (case p of None \<Rightarrow> 0 | Some n \<Rightarrow> n)"

definition hydrateLadder :: "record_env \<Rightarrow> AuditLog \<Rightarrow> RoutingDecision \<Rightarrow> RoutingDecision option" where
  "hydrateLadder E a d =
     (let kind = (case al_ReasonKind a of None \<Rightarrow> '''' | Some k \<Rightarrow> k);
          detail = (case al_ReasonDetail a of None \<Rightarrow> '''' | Some s \<Rightarrow> s);
          reason = \<lparr>re_Kind = kind, re_ModelAlias = (if kind = ReasonModelAlias then detail else ''''),
                    re_RuleName = (if kind = ReasonRuleMatch then detail else ''''),
                    re_PolicyVersion = derefInt (al_PolicyVersion a)\<rparr>
      in case (re_untargets E (al_Ladder a), re_unattempts E (al_LadderAttempts a)) of
           (Some targets, Some attempts) \<Rightarrow>
             Some (d\<lparr>rd_Ladder := \<lparr>la_Targets = targets, la_Reason = reason\<rparr>,
                     rd_Outcome := (rd_Outcome d)\<lparr>o_Attempts := attempts\<rparr>\<rparr>)
         | _ \<Rightarrow> None)"

definition ledger_decision :: "record_env \<Rightarrow> DecisionID \<Rightarrow> Tenant \<Rightarrow> UsageLedger \<Rightarrow> RoutingDecision option" where
  "ledger_decision E i tenant entry =
     (case re_unmetadata E (ul_Metadata entry) of
        None \<Rightarrow> None
      | Some metadata \<Rightarrow>
          (case (case ul_CostNanos entry of
                   None \<Rightarrow> Some None
                 | Some n \<Rightarrow>
                     map_option (\<lambda>cfs. Some \<lparr>cb_Actual = n,
                         cb_PriceTableVersion = (case ul_PricingVersion entry of None \<Rightarrow> '''' | Some v \<Rightarrow> v),
                         cb_Counterfactuals = cfs, cb_UnpricedComparisons = []\<rparr>)
                       (re_uncounterfactuals E (ul_Counterfactuals entry))) of
             None \<Rightarrow> None
           | Some cost \<Rightarrow>
               Some \<lparr>rd_ID = i, rd_OccurredAt = ul_StartedAt entry, rd_Tenant = tenant, rd_KeyID = 0,
                     rd_Request = \<lparr>rs_RequestedModel = ul_RequestedModel entry, rs_Stream = False, rs_WantsUsage = False,
                                   rs_Metadata = metadata\<rparr>,
                     rd_Ladder = zero_Ladder,
                     rd_Outcome = \<lparr>o_Status = ul_Status entry, o_Attempts = [], o_Usage = ul_Usage entry,
                                   o_TTFTMs = derefInt (ul_TtftMs entry), o_TotalMs = derefInt (ul_TotalMs entry)\<rparr>,
                     rd_Cost = cost\<rparr>))"

definition q_GetUsageLedgerEntry :: "uuid \<Rightarrow> record_db \<Rightarrow> (record_error + UsageLedger option) \<times> record_db" where
  "q_GetUsageLedgerEntry i db = (Inr (List.find (\<lambda>r. ul_ID r = i) (rt_ledger db)), db)"

definition q_GetAuditEntry :: "uuid \<Rightarrow> record_db \<Rightarrow> (record_error + AuditLog option) \<times> record_db" where
  "q_GetAuditEntry i db = (Inr (List.find (\<lambda>r. al_ID r = i) (rt_audit db)), db)"

definition ObservabilityRepo_Get :: "record_env \<Rightarrow> DecisionID \<Rightarrow> record_state \<Rightarrow> (record_error + RoutingDecision) \<times> record_state" where
  "ObservabilityRepo_Get E i st =
     (case pg_stmt RecordsFailed (q_GetUsageLedgerEntry i) (ws_pg st) of
        (Inl e, p) \<Rightarrow> (Inl e, st\<lparr>ws_pg := p\<rparr>)
      | (Inr None, p) \<Rightarrow> (Inl DecisionNotFound, st\<lparr>ws_pg := p\<rparr>)
      | (Inr (Some entry), p) \<Rightarrow>
          (case TenantIDs_Name (ul_TenantID entry) (ws_tenants st) (ws_admin st) of
             (Inl e, c, a) \<Rightarrow> (Inl (RecordTenant e), st\<lparr>ws_pg := p, ws_tenants := c, ws_admin := a\<rparr>)
           | (Inr tenant, c, a) \<Rightarrow>
               (let st' = st\<lparr>ws_pg := p, ws_tenants := c, ws_admin := a\<rparr> in
                case ledger_decision E i tenant entry of
                  None \<Rightarrow> (Inl RecordDecode, st')
                | Some d \<Rightarrow>
                    (case pg_stmt RecordsFailed (q_GetAuditEntry i) p of
                       (Inl e, p') \<Rightarrow> (Inl e, st'\<lparr>ws_pg := p'\<rparr>)
                     | (Inr None, p') \<Rightarrow> (Inr d, st'\<lparr>ws_pg := p'\<rparr>)
                     | (Inr (Some audit), p') \<Rightarrow>
                         (case hydrateLadder E audit d of
                            None \<Rightarrow> (Inl RecordDecode, st'\<lparr>ws_pg := p'\<rparr>)
                          | Some full \<Rightarrow> (Inr full, st'\<lparr>ws_pg := p'\<rparr>))))))"

subsection \<open>Audit pages\<close>

text \<open>\<open>ListAuditEntriesForTenantPage\<close>: newest first by the pair of time and id.\<close>

definition audit_key :: "AuditLog \<Rightarrow> time \<times> uuid" where
  "audit_key r = (al_Ts r, al_ID r)"

definition audit_range :: "uuid \<Rightarrow> time \<Rightarrow> time \<Rightarrow> record_db \<Rightarrow> AuditLog list" where
  "audit_range tenant since until db =
     rev (sort_key audit_key (filter (\<lambda>r. al_TenantID r = Some tenant \<and> since \<le> al_Ts r \<and> al_Ts r < until) (rt_audit db)))"

definition q_ListAuditEntriesForTenantPage ::
  "uuid \<Rightarrow> time \<Rightarrow> time \<Rightarrow> AuditCursor option \<Rightarrow> int \<Rightarrow> record_db \<Rightarrow> (record_error + AuditLog list) \<times> record_db" where
  "q_ListAuditEntriesForTenantPage tenant since until cursor limit db =
     (Inr (take (nat limit) (filter (\<lambda>r. case cursor of None \<Rightarrow> True
         | Some c \<Rightarrow> al_Ts r \<le> ac_At c \<and> audit_key r < (ac_At c, ac_ID c)) (audit_range tenant since until db))), db)"

record AuditEvent =
  ev_ID :: uuid
  ev_At :: time
  ev_TenantID :: "uuid option"
  ev_KeyID :: "uuid option"
  ev_Actor :: string
  ev_Action :: string
  ev_RequestID :: string
  ev_Detail :: string
  ev_FinalTarget :: string
  ev_StatusCode :: "int option"
  ev_Error :: string

definition deref :: "string option \<Rightarrow> string" where
  "deref s = (case s of None \<Rightarrow> '''' | Some x \<Rightarrow> x)"

definition auditEvent :: "AuditLog \<Rightarrow> AuditEvent" where
  "auditEvent r =
     \<lparr>ev_ID = al_ID r, ev_At = al_Ts r, ev_TenantID = al_TenantID r, ev_KeyID = al_KeyID r, ev_Actor = al_Actor r,
      ev_Action = al_Action r, ev_RequestID = deref (al_RequestID r), ev_Detail = deref (al_ReasonDetail r),
      ev_FinalTarget = deref (al_FinalTarget r), ev_StatusCode = al_StatusCode r, ev_Error = deref (al_Error r)\<rparr>"

record AuditPage =
  ap_Events :: "AuditEvent list"
  ap_Next :: "AuditCursor option"

definition ObservabilityRepo_ListAudit :: "AuditQuery \<Rightarrow> record_state \<Rightarrow> (record_error + AuditPage) \<times> record_state" where
  "ObservabilityRepo_ListAudit q st =
     (case AuditQuery_Validate q of
        Some e \<Rightarrow> (Inl (RecordAudit e), st)
      | None \<Rightarrow>
          (case TenantIDs_Lookup (aq_Tenant q) (ws_tenants st) (ws_admin st) of
             (Inl e, c, a) \<Rightarrow> (Inl (RecordTenant e), st\<lparr>ws_tenants := c, ws_admin := a\<rparr>)
           | (Inr tenantID, c, a) \<Rightarrow>
               (let limit = (if aq_Limit q = 0 then DefaultAuditLimit else aq_Limit q);
                    st' = st\<lparr>ws_tenants := c, ws_admin := a\<rparr>
                in case pg_stmt RecordsFailed
                     (q_ListAuditEntriesForTenantPage tenantID (aq_Since q) (aq_Until q) (aq_After q) (i32 (i32 limit + 1))) (ws_pg st') of
                     (Inl e, p) \<Rightarrow> (Inl e, st'\<lparr>ws_pg := p\<rparr>)
                   | (Inr rows0, p) \<Rightarrow>
                       (let more = int (length rows0) > limit;
                            rows = (if more then take (nat limit) rows0 else rows0)
                        in (Inr \<lparr>ap_Events = map auditEvent rows,
                                 ap_Next = (if more \<and> rows \<noteq> []
                                            then Some \<lparr>ac_At = al_Ts (last rows), ac_ID = al_ID (last rows)\<rparr> else None)\<rparr>,
                            st'\<lparr>ws_pg := p\<rparr>)))))"

subsection \<open>Cursors\<close>

definition cursorVersion :: string where "cursorVersion = ''1''"

definition encodeCursor :: "record_env \<Rightarrow> AuditCursor \<Rightarrow> string" where
  "encodeCursor E c =
     encode_raw 6 base64url (Join (CHR ''.'') [cursorVersion, FormatInt (i64 (ac_At c)), re_uuid_str E (ac_ID c)])"

datatype cursor_error = NotBase64 | CursorMalformed | NoTimestamp | NoID

definition decodeCursor :: "record_env \<Rightarrow> string \<Rightarrow> cursor_error + AuditCursor" where
  "decodeCursor E s =
     (case decode_raw 6 base64url s of
        None \<Rightarrow> Inl NotBase64
      | Some raw \<Rightarrow>
          (let parts = Split (CHR ''.'') raw in
           if length parts \<noteq> 3 \<or> parts ! 0 \<noteq> cursorVersion then Inl CursorMalformed
           else case ParseInt (parts ! 1) of
                  None \<Rightarrow> Inl NoTimestamp
                | Some nanos \<Rightarrow>
                    (case re_uuid_parse E (parts ! 2) of
                       None \<Rightarrow> Inl NoID
                     | Some i \<Rightarrow> Inr \<lparr>ac_At = nanos, ac_ID = i\<rparr>)))"

subsection \<open>The audit endpoint\<close>

datatype obs_error =
    UnknownTenant string
  | BadCursor cursor_error
  | InvalidAuditQuery audit_query_error
  | MetaKeyMisplaced
  | InvalidReport report_error
  | BadDecisionID string
  | NoDecision DecisionID
  | ObsFailed record_error

definition tenantError :: "tenant_error \<Rightarrow> string \<Rightarrow> obs_error" where
  "tenantError e ref = (if e = ErrUnknownTenant then UnknownTenant ref else ObsFailed (RecordTenant e))"

record audit_params =
  pa_Since :: time
  pa_Until :: "time option"
  pa_Limit :: "int option"
  pa_Cursor :: "string option"

text \<open>The page on the wire. A nullable field is an option: the mapping never leaves one unspecified.\<close>

record gAuditEvent =
  ga_Id :: uuid
  ga_At :: time
  ga_TenantId :: "uuid option"
  ga_KeyId :: "uuid option"
  ga_Actor :: string
  ga_Action :: string
  ga_RequestId :: "string option"
  ga_Detail :: "string option"
  ga_FinalTarget :: "string option"
  ga_StatusCode :: "int option"
  ga_Error :: "string option"

definition nullableString :: "string \<Rightarrow> string option" where
  "nullableString s = (if s = '''' then None else Some s)"

definition toAuditEvent :: "AuditEvent \<Rightarrow> gAuditEvent" where
  "toAuditEvent e =
     \<lparr>ga_Id = ev_ID e, ga_At = ev_At e, ga_TenantId = ev_TenantID e, ga_KeyId = ev_KeyID e, ga_Actor = ev_Actor e,
      ga_Action = ev_Action e, ga_RequestId = nullableString (ev_RequestID e), ga_Detail = nullableString (ev_Detail e),
      ga_FinalTarget = nullableString (ev_FinalTarget e), ga_StatusCode = ev_StatusCode e, ga_Error = nullableString (ev_Error e)\<rparr>"

definition toAuditPage :: "record_env \<Rightarrow> AuditPage \<Rightarrow> gAuditEvent list \<times> string option" where
  "toAuditPage E p = (map toAuditEvent (ap_Events p), map_option (encodeCursor E) (ap_Next p))"

definition h_ListAudit :: "record_env \<Rightarrow> time \<Rightarrow> string \<Rightarrow> audit_params \<Rightarrow> record_state \<Rightarrow>
    (obs_error + (gAuditEvent list \<times> string option)) \<times> record_state" where
  "h_ListAudit E now ref params st =
     (case TenantIDs_Resolve (re_uuid_parse E) ref (ws_tenants st) (ws_admin st) of
        (Inl e, c, a) \<Rightarrow> (Inl (tenantError e ref), st\<lparr>ws_tenants := c, ws_admin := a\<rparr>)
      | (Inr tenant, c, a) \<Rightarrow>
          (let st' = st\<lparr>ws_tenants := c, ws_admin := a\<rparr>;
               q0 = \<lparr>aq_Tenant = tenant, aq_Since = pa_Since params,
                     aq_Until = (case pa_Until params of None \<Rightarrow> now | Some t \<Rightarrow> t), aq_After = None,
                     aq_Limit = (case pa_Limit params of None \<Rightarrow> 0 | Some n \<Rightarrow> n)\<rparr>
           in case (case pa_Cursor params of
                      Some s \<Rightarrow> if s = '''' then Inr q0 else map_sum id (\<lambda>c. q0\<lparr>aq_After := Some c\<rparr>) (decodeCursor E s)
                    | None \<Rightarrow> Inr q0) of
                Inl e \<Rightarrow> (Inl (BadCursor e), st')
              | Inr q \<Rightarrow>
                  (case AuditQuery_Validate q of
                     Some e \<Rightarrow> (Inl (InvalidAuditQuery e), st')
                   | None \<Rightarrow>
                       (case ObservabilityRepo_ListAudit q st' of
                          (Inl e, st'') \<Rightarrow> (Inl (ObsFailed e), st'')
                        | (Inr page, st'') \<Rightarrow> (Inr (toAuditPage E page), st'')))))"

section \<open>Facts\<close>

subsection \<open>Cursors\<close>

lemma FormatInt_no_dot: "CHR ''.'' \<notin> set (FormatInt n)"
  by (auto simp: FormatInt_def is_digit_def in_range_def byte_def dest!: digit_chars)

lemma cursor_decodes:
  assumes "in_i64 (ac_At c)" "\<And>u. re_uuid_parse E (re_uuid_str E u) = Some u" "\<And>u. CHR ''.'' \<notin> set (re_uuid_str E u)"
  shows "decodeCursor E (encodeCursor E c) = Inr c" "encodeCursor E c \<noteq> ''''"
proof -
  let ?parts = "[cursorVersion, FormatInt (i64 (ac_At c)), re_uuid_str E (ac_ID c)]"
  have "decode_raw 6 base64url (encodeCursor E c) = Some (Join (CHR ''.'') ?parts)"
    unfolding encodeCursor_def by (rule decode_encode) (simp_all add: base64url_def)
  moreover have "Split (CHR ''.'') (Join (CHR ''.'') ?parts) = ?parts"
    by (rule Split_Join) (use assms(3) FormatInt_no_dot in \<open>auto simp: cursorVersion_def\<close>)
  ultimately show dec: "decodeCursor E (encodeCursor E c) = Inr c"
    using assms(1,2) by (simp add: decodeCursor_def ParseInt_FormatInt i64_id)
  show "encodeCursor E c \<noteq> ''''"
  proof
    assume e: "encodeCursor E c = ''''"
    have "decodeCursor E '''' = Inl CursorMalformed" by (simp add: decodeCursor_def decode_raw_def chunks.simps)
    with dec e show False by simp
  qed
qed

subsection \<open>Tenant ids\<close>

text \<open>The cache says of a tenant what the table says.\<close>

definition cache_ok :: "TenantIDs \<Rightarrow> admin_db \<Rightarrow> bool" where
  "cache_ok c db \<longleftrightarrow>
     (\<forall>n i. ti_byTenant c n = Some i \<longrightarrow> (\<exists>t. find_external n db = Some t \<and> ta_ID t = i)) \<and>
     (\<forall>i n. ti_byID c i = Some n \<longrightarrow> (\<exists>t. find_tenant i db = Some t \<and> ta_ExternalID t = n))"

lemma cache_put:
  assumes "cache_ok c db" "find_external n db = Some t" "find_tenant (ta_ID t) db = Some t" "ta_ExternalID t = n"
  shows "cache_ok (TenantIDs_put n (ta_ID t) c) db"
  using assms by (auto simp: cache_ok_def TenantIDs_put_def)

lemma tenant_found:
  assumes "admin_ok db" "t \<in> set (db_tenants db)"
  shows "find_external (ta_ExternalID t) db = Some t" "find_tenant (ta_ID t) db = Some t"
  using assms unfolding find_external_def find_tenant_def admin_ok_def by (auto intro: find_unique)

text \<open>On a server that answers, looking up is reading the table.\<close>

lemma Lookup_up:
  assumes "pg_up p" "cache_ok c (pg_db p)" "admin_ok (pg_db p)" "find_external n (pg_db p) = Some t"
  shows "\<exists>c' p'. TenantIDs_Lookup n c p = (Inr (ta_ID t), c', p') \<and> pg_up p' \<and> pg_db p' = pg_db p \<and> cache_ok c' (pg_db p)"
proof (cases "ti_byTenant c n")
  case None
  have ext: "ta_ExternalID t = n" "t \<in> set (db_tenants (pg_db p))" using find_external_Some [OF assms(4)] by auto
  note put = cache_put [OF assms(2,4) tenant_found(2) [OF assms(3) ext(2)] ext(1)]
  have "stmt (select_one (find_external n)) p = (Inr (Some t), (pg_pop p)\<lparr>pg_db := pg_db p\<rparr>)"
    using assms(1,4) by (simp add: stmt_def pg_stmt_def select_one_def)
  then show ?thesis using None put assms(1) by (simp add: TenantIDs_Lookup_def)
next
  case (Some i)
  then have "ta_ID t = i" using assms(2,4) unfolding cache_ok_def by fastforce
  then show ?thesis using Some assms by (simp add: TenantIDs_Lookup_def)
qed

text \<open>The tenant a reference names: by id, or else by external id.\<close>

definition tenant_by_ref :: "record_env \<Rightarrow> string \<Rightarrow> admin_db \<Rightarrow> TenantAccount option" where
  "tenant_by_ref E ref db =
     (case re_uuid_parse E ref of
        None \<Rightarrow> find_external ref db
      | Some i \<Rightarrow> (case find_tenant i db of Some t \<Rightarrow> Some t | None \<Rightarrow> find_external ref db))"

lemma Name_up:
  assumes "pg_up p" "cache_ok c (pg_db p)" "admin_ok (pg_db p)"
  shows "\<exists>c' p'. TenantIDs_Name i c p =
      (case find_tenant i (pg_db p) of None \<Rightarrow> Inl ErrUnknownTenant | Some t \<Rightarrow> Inr (ta_ExternalID t), c', p') \<and>
      pg_up p' \<and> pg_db p' = pg_db p \<and> cache_ok c' (pg_db p)"
proof (cases "ti_byID c i")
  case None
  have run: "stmt (select_one (find_tenant i)) p = (Inr (find_tenant i (pg_db p)), (pg_pop p)\<lparr>pg_db := pg_db p\<rparr>)"
    using assms(1) by (simp add: stmt_def pg_stmt_def select_one_def)
  show ?thesis
  proof (cases "find_tenant i (pg_db p)")
    case (Some t)
    then have t: "t \<in> set (db_tenants (pg_db p))" using find_tenant_Some by blast
    note put = cache_put [OF assms(2) tenant_found [OF assms(3) t] refl]
    then show ?thesis using None Some run assms(1) by (simp add: TenantIDs_Name_def)
  qed (use None run assms in \<open>simp add: TenantIDs_Name_def\<close>)
next
  case (Some n)
  then obtain t where "find_tenant i (pg_db p) = Some t" "ta_ExternalID t = n" using assms(2) unfolding cache_ok_def by blast
  then show ?thesis using Some assms by (simp add: TenantIDs_Name_def)
qed

lemma Resolve_up:
  assumes "pg_up p" "cache_ok c (pg_db p)" "admin_ok (pg_db p)" "tenant_by_ref E ref (pg_db p) = Some t"
  shows "\<exists>c' p'. TenantIDs_Resolve (re_uuid_parse E) ref c p = (Inr (ta_ExternalID t), c', p') \<and>
    pg_up p' \<and> pg_db p' = pg_db p \<and> cache_ok c' (pg_db p)"
proof -
  have ref: "\<exists>c' p'. TenantIDs_lookup_ref ref c p = (Inr (ta_ExternalID t), c', p') \<and> pg_up p' \<and> pg_db p' = pg_db p \<and> cache_ok c' (pg_db p)"
    if "pg_up p" "cache_ok c (pg_db p)" "admin_ok (pg_db p)" "find_external ref (pg_db p) = Some t" for c p
    using Lookup_up [OF that] find_external_Some [OF that(4)] by (auto simp: TenantIDs_lookup_ref_def)
  show ?thesis
  proof (cases "re_uuid_parse E ref")
    case None
    then show ?thesis using ref [OF assms(1-3)] assms(4) by (simp add: TenantIDs_Resolve_def tenant_by_ref_def)
  next
    case (Some i)
    obtain c1 p1 where n: "TenantIDs_Name i c p =
        (case find_tenant i (pg_db p) of None \<Rightarrow> Inl ErrUnknownTenant | Some t \<Rightarrow> Inr (ta_ExternalID t), c1, p1)"
      "pg_up p1" "pg_db p1 = pg_db p" "cache_ok c1 (pg_db p)" using Name_up [OF assms(1-3)] by blast
    show ?thesis
      using ref [of p1 c1] n assms(3,4) Some
      by (cases "find_tenant i (pg_db p)") (auto simp: TenantIDs_Resolve_def tenant_by_ref_def)
  qed
qed

subsection \<open>Following the cursors\<close>

text \<open>A client that asks for pages until there is no cursor, at most \<open>n\<close> of them.\<close>

fun audit_walk :: "nat \<Rightarrow> record_env \<Rightarrow> time \<Rightarrow> string \<Rightarrow> audit_params \<Rightarrow> record_state \<Rightarrow> gAuditEvent list option" where
  "audit_walk 0 E now ref params st = None"
| "audit_walk (Suc n) E now ref params st =
     (case h_ListAudit E now ref params st of
        (Inl _, _) \<Rightarrow> None
      | (Inr (events, None), _) \<Rightarrow> Some events
      | (Inr (events, Some cursor), st') \<Rightarrow>
          map_option (\<lambda>rest. events @ rest) (audit_walk n E now ref (params\<lparr>pa_Cursor := Some cursor\<rparr>) st'))"

lemma descending_after:
  assumes "sorted_wrt (\<lambda>a b. key b < (key a :: 'k :: linorder)) xs" "k < length xs"
  shows "filter (\<lambda>x. key x < key (xs ! k)) xs = drop (Suc k) xs"
proof -
  have all: "\<forall>i < length xs. \<forall>j < length xs. i < j \<longrightarrow> key (xs ! j) < key (xs ! i)"
    using assms(1) by (auto simp: sorted_wrt_iff_nth_less)
  have "filter (\<lambda>x. key x < key (xs ! k)) (take (Suc k) xs) = []"
    unfolding filter_empty_conv
  proof
    fix x assume "x \<in> set (take (Suc k) xs)"
    then obtain i where "i < Suc k" "x = xs ! i" using assms(2) by (auto simp: in_set_conv_nth)
    then show "\<not> key x < key (xs ! k)" using all assms(2) by (cases "i = k") (auto dest: order.asym)
  qed
  moreover have "filter (\<lambda>x. key x < key (xs ! k)) (drop (Suc k) xs) = drop (Suc k) xs"
  proof (rule filter_True, intro ballI)
    fix x assume "x \<in> set (drop (Suc k) xs)"
    then obtain i where "i < length xs - Suc k" "x = xs ! (Suc k + i)" by (auto simp: in_set_conv_nth)
    then show "key x < key (xs ! k)" using all assms(2) by auto
  qed
  ultimately show ?thesis by (metis append_Nil append_take_drop_id filter_append)
qed

definition records_ok :: "record_db \<Rightarrow> bool" where
  "records_ok db \<longleftrightarrow> distinct (map (\<lambda>r. (ul_ID r, ul_StartedAt r)) (rt_ledger db)) \<and> distinct (map (\<lambda>r. (al_ID r, al_Ts r)) (rt_audit db))"

lemma audit_range_descending:
  assumes "records_ok db"
  shows "sorted_wrt (\<lambda>a b. audit_key b < audit_key a) (audit_range tenant since until db)"
proof -
  let ?f = "filter (\<lambda>r. al_TenantID r = Some tenant \<and> since \<le> al_Ts r \<and> al_Ts r < until) (rt_audit db)"
  have "distinct (map (\<lambda>r. (al_ID r, al_Ts r)) ?f)" using assms by (simp add: records_ok_def distinct_map_filter)
  then have "distinct (map audit_key ?f)" by (auto simp: distinct_map inj_on_def audit_key_def)
  then have dist: "distinct (map audit_key (sort_key audit_key ?f))" by (simp add: distinct_map)
  have "sorted_wrt (<) (map audit_key (sort_key audit_key ?f))"
    using dist sorted_sort_key [of audit_key ?f] strict_sorted_iff by blast
  then show ?thesis by (simp add: audit_range_def sorted_wrt_rev sorted_wrt_map)
qed

lemma range_set: "set (audit_range tenant since until db) =
    {r \<in> set (rt_audit db). al_TenantID r = Some tenant \<and> since \<le> al_Ts r \<and> al_Ts r < until}"
  by (simp add: audit_range_def)

text \<open>The query of a page that starts after the first \<open>k\<close> events.\<close>

lemma page_query:
  assumes "records_ok db" "L = audit_range tenant since until db" "k \<le> length L"
    and "cursor = (if k = 0 then None else Some \<lparr>ac_At = al_Ts (L ! (k - 1)), ac_ID = al_ID (L ! (k - 1))\<rparr>)"
  shows "q_ListAuditEntriesForTenantPage tenant since until cursor n db = (Inr (take (nat n) (drop k L)), db)"
proof (cases k)
  case 0
  then show ?thesis using assms by (simp add: q_ListAuditEntriesForTenantPage_def)
next
  case (Suc j)
  have cond: "al_Ts r \<le> al_Ts (L ! j) \<and> audit_key r < (al_Ts (L ! j), al_ID (L ! j)) \<longleftrightarrow> audit_key r < audit_key (L ! j)" for r
    by (auto simp: audit_key_def less_prod_def)
  have "filter (\<lambda>r. audit_key r < audit_key (L ! j)) L = drop (Suc j) L"
    using descending_after [OF audit_range_descending [OF assms(1)], of j] assms(2,3) Suc by simp
  then show ?thesis using assms Suc cond by (simp add: q_ListAuditEntriesForTenantPage_def)
qed

text \<open>Servers that answer, a cache that agrees with the table, and a tenant the reference names.\<close>

definition readable_tenant :: "record_env \<Rightarrow> string \<Rightarrow> TenantAccount \<Rightarrow> record_db \<Rightarrow> record_state \<Rightarrow> bool" where
  "readable_tenant E ref t db st \<longleftrightarrow>
     pg_up (ws_admin st) \<and> pg_up (ws_pg st) \<and> pg_db (ws_pg st) = db \<and> admin_ok (pg_db (ws_admin st)) \<and>
     cache_ok (ws_tenants st) (pg_db (ws_admin st)) \<and> tenant_by_ref E ref (pg_db (ws_admin st)) = Some t"

lemma tenant_by_ref_in: "tenant_by_ref E ref db = Some t \<Longrightarrow> t \<in> set (db_tenants db)"
  by (auto simp: tenant_by_ref_def split: option.splits dest: find_external_Some find_tenant_Some)

lemma ListAudit_page:
  assumes "readable_tenant E ref t db st" "records_ok db" "AuditQuery_Validate q = None" "aq_Tenant q = ta_ExternalID t"
    and L: "L = audit_range (ta_ID t) (aq_Since q) (aq_Until q) db" and "k \<le> length L" "0 < aq_Limit q"
    and "aq_After q = (if k = 0 then None else Some \<lparr>ac_At = al_Ts (L ! (k - 1)), ac_ID = al_ID (L ! (k - 1))\<rparr>)"
    and n: "n = nat (aq_Limit q)"
  shows "\<exists>st'. ObservabilityRepo_ListAudit q st =
      (Inr \<lparr>ap_Events = map auditEvent (take n (drop k L)),
            ap_Next = (if k + n < length L then Some \<lparr>ac_At = al_Ts (L ! (k + n - 1)), ac_ID = al_ID (L ! (k + n - 1))\<rparr> else None)\<rparr>, st') \<and>
    readable_tenant E ref t db st'"
proof -
  note r = assms(1) [unfolded readable_tenant_def]
  have t: "find_external (ta_ExternalID t) (pg_db (ws_admin st)) = Some t"
    using tenant_found(1) tenant_by_ref_in r by blast
  obtain c p where look: "TenantIDs_Lookup (ta_ExternalID t) (ws_tenants st) (ws_admin st) = (Inr (ta_ID t), c, p)"
    "pg_up p" "pg_db p = pg_db (ws_admin st)" "cache_ok c (pg_db (ws_admin st))"
    using Lookup_up [OF _ _ _ t] r by blast
  have bounds: "0 < aq_Limit q" "aq_Limit q \<le> 500"
    using assms(3,7) by (auto simp: AuditQuery_Validate_def MaxAuditLimit_def split: if_splits)
  then have n1: "nat (i32 (i32 (aq_Limit q) + 1)) = Suc n" "0 < n" using n by (auto simp: i32_def)
  let ?rows = "take (Suc n) (drop k L)"
  have query: "pg_stmt RecordsFailed (q_ListAuditEntriesForTenantPage (ta_ID t) (aq_Since q) (aq_Until q) (aq_After q)
      (i32 (i32 (aq_Limit q) + 1))) (ws_pg st) = (Inr ?rows, (pg_pop (ws_pg st))\<lparr>pg_db := db\<rparr>)"
    using page_query [OF assms(2) L assms(6,8), of "i32 (i32 (aq_Limit q) + 1)"] r n1 by (simp add: pg_stmt_def)
  have more: "int (length ?rows) > aq_Limit q \<longleftrightarrow> k + n < length L" using n bounds by (auto simp: min_def)
  have rows: "(if k + n < length L then take n ?rows else ?rows) = take n (drop k L)"
    by (auto simp: min_def)
  have last: "last (take n (drop k L)) = L ! (k + n - 1)" "take n (drop k L) \<noteq> []" if "k + n < length L"
    using that n1(2) by (auto simp: last_conv_nth min_def)
  let ?st = "st\<lparr>ws_tenants := c, ws_admin := p, ws_pg := (pg_pop (ws_pg st))\<lparr>pg_db := db\<rparr>\<rparr>"
  have "readable_tenant E ref t db ?st" using r look by (simp add: readable_tenant_def)
  moreover have "ObservabilityRepo_ListAudit q st = (Inr \<lparr>ap_Events = map auditEvent (take n (drop k L)),
      ap_Next = (if k + n < length L then Some \<lparr>ac_At = al_Ts (L ! (k + n - 1)), ac_ID = al_ID (L ! (k + n - 1))\<rparr> else None)\<rparr>, ?st)"
    using bounds last more rows n
    unfolding ObservabilityRepo_ListAudit_def assms(3,4) look(1) Let_def
    by (simp add: query)
  ultimately show ?thesis by blast
qed

definition cursor_at :: "AuditLog list \<Rightarrow> nat \<Rightarrow> AuditCursor option" where
  "cursor_at L k = (if k = 0 then None else Some \<lparr>ac_At = al_Ts (L ! (k - 1)), ac_ID = al_ID (L ! (k - 1))\<rparr>)"

definition uuid_text_ok :: "record_env \<Rightarrow> bool" where
  "uuid_text_ok E \<longleftrightarrow> (\<forall>u. re_uuid_parse E (re_uuid_str E u) = Some u \<and> CHR ''.'' \<notin> set (re_uuid_str E u))"

lemma h_ListAudit_page:
  assumes "readable_tenant E ref t db st" "records_ok db" "ta_ExternalID t \<noteq> ''''"
    and range: "since \<noteq> zero_time" "until \<noteq> zero_time" "since < until" "0 < limit" "limit \<le> MaxAuditLimit"
    and L: "L = audit_range (ta_ID t) since until db" and k: "k \<le> length L"
    and uuids: "uuid_text_ok E" "\<forall>r \<in> set (rt_audit db). in_i64 (al_Ts r)"
  shows "\<exists>st'. h_ListAudit E now ref \<lparr>pa_Since = since, pa_Until = Some until, pa_Limit = Some limit,
      pa_Cursor = map_option (encodeCursor E) (cursor_at L k)\<rparr> st =
      (Inr (map (toAuditEvent \<circ> auditEvent) (take (nat limit) (drop k L)),
        if k + nat limit < length L then map_option (encodeCursor E) (cursor_at L (k + nat limit)) else None), st') \<and>
    readable_tenant E ref t db st'"
proof -
  let ?q = "\<lparr>aq_Tenant = ta_ExternalID t, aq_Since = since, aq_Until = until, aq_After = cursor_at L k, aq_Limit = limit\<rparr>"
  note r = assms(1) [unfolded readable_tenant_def]
  obtain c p where res: "TenantIDs_Resolve (re_uuid_parse E) ref (ws_tenants st) (ws_admin st) = (Inr (ta_ExternalID t), c, p)"
    "pg_up p" "pg_db p = pg_db (ws_admin st)" "cache_ok c (pg_db (ws_admin st))" using Resolve_up r by blast
  let ?st = "st\<lparr>ws_tenants := c, ws_admin := p\<rparr>"
  have ready: "readable_tenant E ref t db ?st" using r res by (simp add: readable_tenant_def)
  have valid: "AuditQuery_Validate ?q = None" using assms(3) range by (simp add: AuditQuery_Validate_def)
  have enc: "decodeCursor E (encodeCursor E c) = Inr c \<and> encodeCursor E c \<noteq> ''''" if "cursor_at L k = Some c" for c
  proof -
    have "k - 1 < length L" using that k by (auto simp: cursor_at_def split: if_splits)
    then have "L ! (k - 1) \<in> set (rt_audit db)" using nth_mem [of "k - 1" L] range_set L by auto
    then have "in_i64 (ac_At c)" using that uuids(2) by (auto simp: cursor_at_def split: if_splits)
    then show ?thesis using cursor_decodes uuids(1) unfolding uuid_text_ok_def by blast
  qed
  obtain st' where page: "ObservabilityRepo_ListAudit ?q ?st =
      (Inr \<lparr>ap_Events = map auditEvent (take (nat limit) (drop k L)),
            ap_Next = (if k + nat limit < length L then cursor_at L (k + nat limit) else None)\<rparr>, st')"
    "readable_tenant E ref t db st'"
    using ListAudit_page [OF ready assms(2) valid _ _ k, of "nat limit"] L range(4) by (auto simp: cursor_at_def)
  show ?thesis
  proof (cases "cursor_at L k")
    case None
    then show ?thesis
      using page valid unfolding h_ListAudit_def res(1) Let_def by (auto simp: toAuditPage_def)
  next
    case (Some c)
    then show ?thesis
      using page valid enc unfolding h_ListAudit_def res(1) Let_def by (auto simp: toAuditPage_def)
  qed
qed

lemma audit_walk_from:
  assumes "readable_tenant E ref t db st" "records_ok db" "ta_ExternalID t \<noteq> ''''"
    and range: "since \<noteq> zero_time" "until \<noteq> zero_time" "since < until" "0 < limit" "limit \<le> MaxAuditLimit"
    and L: "L = audit_range (ta_ID t) since until db" and k: "k \<le> length L"
    and uuids: "uuid_text_ok E" "\<forall>r \<in> set (rt_audit db). in_i64 (al_Ts r)"
    and fuel: "length L - k < n"
  shows "audit_walk n E now ref \<lparr>pa_Since = since, pa_Until = Some until, pa_Limit = Some limit,
      pa_Cursor = map_option (encodeCursor E) (cursor_at L k)\<rparr> st = Some (map (toAuditEvent \<circ> auditEvent) (drop k L))"
  using assms(1) k fuel
proof (induction n arbitrary: k st)
  case (Suc n)
  obtain st' where page: "h_ListAudit E now ref \<lparr>pa_Since = since, pa_Until = Some until, pa_Limit = Some limit,
      pa_Cursor = map_option (encodeCursor E) (cursor_at L k)\<rparr> st =
      (Inr (map (toAuditEvent \<circ> auditEvent) (take (nat limit) (drop k L)),
        if k + nat limit < length L then map_option (encodeCursor E) (cursor_at L (k + nat limit)) else None), st')"
    "readable_tenant E ref t db st'"
    using h_ListAudit_page [OF Suc.prems(1) assms(2,3) range L Suc.prems(2) uuids] by blast
  show ?case
  proof (cases "k + nat limit < length L")
    case True
    have "audit_walk n E now ref \<lparr>pa_Since = since, pa_Until = Some until, pa_Limit = Some limit,
        pa_Cursor = map_option (encodeCursor E) (cursor_at L (k + nat limit))\<rparr> st' = Some (map (toAuditEvent \<circ> auditEvent) (drop (k + nat limit) L))"
      by (rule Suc.IH) (use page(2) True Suc.prems(3) range(4) in auto)
    moreover have "take (nat limit) (drop k L) @ drop (k + nat limit) L = drop k L"
      by (metis add.commute append_take_drop_id drop_drop)
    then have "map (toAuditEvent \<circ> auditEvent) (take (nat limit) (drop k L)) @ map (toAuditEvent \<circ> auditEvent) (drop (k + nat limit) L) = map (toAuditEvent \<circ> auditEvent) (drop k L)"
      by (metis map_append)
    ultimately show ?thesis using page True range(4) by (auto simp: cursor_at_def)
  next
    case False
    then show ?thesis using page by simp
  qed
qed simp



subsection \<open>What the tables keep of a decision\<close>

text \<open>What the two rows of a decision can give back: not the key, the request's flags or the list of
  unpriced comparisons, the one detail its reason has, and the time as the column keeps it.\<close>

definition stored_reason :: "Reason \<Rightarrow> Reason" where
  "stored_reason r =
     r\<lparr>re_ModelAlias := (if re_Kind r = ReasonModelAlias then re_ModelAlias r else ''''),
       re_RuleName := (if re_Kind r = ReasonRuleMatch then re_RuleName r else ''''),
       re_PolicyVersion := max 0 (re_PolicyVersion r)\<rparr>"

definition as_stored :: "(time \<Rightarrow> time) \<Rightarrow> RoutingDecision \<Rightarrow> RoutingDecision" where
  "as_stored keep d =
     d\<lparr>rd_OccurredAt := keep (rd_OccurredAt d), rd_KeyID := 0,
       rd_Request := (rd_Request d)\<lparr>rs_Stream := False, rs_WantsUsage := False\<rparr>,
       rd_Ladder := (rd_Ladder d)\<lparr>la_Reason := stored_reason (la_Reason (rd_Ladder d))\<rparr>,
       rd_Cost := map_option (\<lambda>c. c\<lparr>cb_UnpricedComparisons := []\<rparr>) (rd_Cost d)\<rparr>"

definition in_i32 :: "int \<Rightarrow> bool" where
  "in_i32 n \<longleftrightarrow> - (2 ^ 31) \<le> n \<and> n < 2 ^ 31"

lemma i32_id [simp]: "in_i32 n \<Longrightarrow> i32 n = n"
  by (simp add: in_i32_def i32_def)

lemma derefInt_optional [simp]: "in_i32 n \<Longrightarrow> derefInt (optionalInt n) = n"
  by (simp add: derefInt_def optionalInt_def)

lemma deref_optional [simp]: "(case optional s of None \<Rightarrow> '''' | Some x \<Rightarrow> x) = s"
  by (simp add: optional_def)

text \<open>The figures of a decision fit their \<open>integer\<close> columns.\<close>

definition fits_columns :: "RoutingDecision \<Rightarrow> bool" where
  "fits_columns d \<longleftrightarrow>
     (let u = o_Usage (rd_Outcome d) in
      list_all in_i32 [tu_Input u, tu_Output u, tu_CacheWrite u, tu_CacheRead u, tu_Reasoning u,
        o_TTFTMs (rd_Outcome d), o_TotalMs (rd_Outcome d), re_PolicyVersion (la_Reason (rd_Ladder d))])"

text \<open>JSON gives back what was encoded, also after \<open>jsonb\<close> has stored it.\<close>

definition json_kept :: "record_env \<Rightarrow> record_db \<Rightarrow> RoutingDecision \<Rightarrow> bool" where
  "json_kept E db d \<longleftrightarrow>
     (\<forall>s. re_metadata E (rs_Metadata (rd_Request d)) = Some s \<longrightarrow> re_unmetadata E (rt_jsonb db s) = Some (rs_Metadata (rd_Request d))) \<and>
     (\<forall>s. re_targets E (la_Targets (rd_Ladder d)) = Some s \<longrightarrow> re_untargets E (rt_jsonb db s) = Some (la_Targets (rd_Ladder d))) \<and>
     (\<forall>s. re_attempts E (o_Attempts (rd_Outcome d)) = Some s \<longrightarrow> re_unattempts E (rt_jsonb db s) = Some (o_Attempts (rd_Outcome d))) \<and>
     (\<forall>c s. rd_Cost d = Some c \<longrightarrow> re_counterfactuals E (cb_Counterfactuals c) = Some s \<longrightarrow>
        re_uncounterfactuals E (rt_jsonb db s) = Some (cb_Counterfactuals c)) \<and>
     re_uncounterfactuals E (rt_jsonb db ''[]'') = Some []"

definition stored_cost :: "RoutingDecision \<Rightarrow> CostBreakdown option" where
  "stored_cost d = map_option (\<lambda>c. c\<lparr>cb_UnpricedComparisons := []\<rparr>) (rd_Cost d)"

lemma ledger_row_read:
  assumes "ledgerRow E d i = Some l" "fits_columns d" "json_kept E db d"
  shows "ledger_decision E (rd_ID d) (rd_Tenant d) (keep_ledger db l) =
    Some \<lparr>rd_ID = rd_ID d, rd_OccurredAt = rt_time db (rd_OccurredAt d), rd_Tenant = rd_Tenant d, rd_KeyID = 0,
      rd_Request = (rd_Request d)\<lparr>rs_Stream := False, rs_WantsUsage := False\<rparr>, rd_Ladder = zero_Ladder,
      rd_Outcome = (rd_Outcome d)\<lparr>o_Attempts := []\<rparr>, rd_Cost = stored_cost d\<rparr>" "ul_ID l = rd_ID d" "ul_TenantID l = i"
proof -
  obtain m where m: "re_metadata E (rs_Metadata (rd_Request d)) = Some m" "re_unmetadata E (rt_jsonb db m) = Some (rs_Metadata (rd_Request d))"
    using assms(1,3) unfolding ledgerRow_def json_kept_def by (auto split: option.splits)
  note fits = assms(2) [unfolded fits_columns_def Let_def list.pred_inject]
  have "ledger_decision E (rd_ID d) (rd_Tenant d) (keep_ledger db l) =
    Some \<lparr>rd_ID = rd_ID d, rd_OccurredAt = rt_time db (rd_OccurredAt d), rd_Tenant = rd_Tenant d, rd_KeyID = 0,
      rd_Request = (rd_Request d)\<lparr>rs_Stream := False, rs_WantsUsage := False\<rparr>, rd_Ladder = zero_Ladder,
      rd_Outcome = (rd_Outcome d)\<lparr>o_Attempts := []\<rparr>, rd_Cost = stored_cost d\<rparr> \<and> ul_ID l = rd_ID d \<and> ul_TenantID l = i"
  proof (cases "rd_Cost d")
    case None
    then show ?thesis using assms(1) m fits
      by (auto simp: ledgerRow_def ledger_decision_def keep_ledger_def stored_cost_def Let_def)
  next
    case (Some c)
    obtain s where s: "(if length (cb_Counterfactuals c) > 0 then re_counterfactuals E (cb_Counterfactuals c) else Some ''[]'') = Some s"
      using assms(1) m Some by (auto simp: ledgerRow_def split: if_splits option.splits)
    then have "re_uncounterfactuals E (rt_jsonb db s) = Some (cb_Counterfactuals c)"
      using assms(3) Some unfolding json_kept_def by (auto split: if_splits)
    then show ?thesis using assms(1) m fits Some s
      by (auto simp: ledgerRow_def ledger_decision_def keep_ledger_def stored_cost_def Let_def split: if_splits)
  qed
  then show "ledger_decision E (rd_ID d) (rd_Tenant d) (keep_ledger db l) =
    Some \<lparr>rd_ID = rd_ID d, rd_OccurredAt = rt_time db (rd_OccurredAt d), rd_Tenant = rd_Tenant d, rd_KeyID = 0,
      rd_Request = (rd_Request d)\<lparr>rs_Stream := False, rs_WantsUsage := False\<rparr>, rd_Ladder = zero_Ladder,
      rd_Outcome = (rd_Outcome d)\<lparr>o_Attempts := []\<rparr>, rd_Cost = stored_cost d\<rparr>" "ul_ID l = rd_ID d" "ul_TenantID l = i" by auto
qed

lemma audit_row_read:
  assumes "auditRow E d i = Some a" "fits_columns d" "json_kept E db d"
    and d0: "d0 = \<lparr>rd_ID = rd_ID d, rd_OccurredAt = rt_time db (rd_OccurredAt d), rd_Tenant = rd_Tenant d, rd_KeyID = 0,
      rd_Request = (rd_Request d)\<lparr>rs_Stream := False, rs_WantsUsage := False\<rparr>, rd_Ladder = zero_Ladder,
      rd_Outcome = (rd_Outcome d)\<lparr>o_Attempts := []\<rparr>, rd_Cost = stored_cost d\<rparr>"
  shows "hydrateLadder E (keep_audit db a) d0 = Some (as_stored (rt_time db) d)" "al_ID a = rd_ID d"
proof -
  obtain ts ats where row: "re_targets E (la_Targets (rd_Ladder d)) = Some ts" "re_attempts E (o_Attempts (rd_Outcome d)) = Some ats"
    using assms(1) by (auto simp: auditRow_def split: option.splits)
  then have decoded: "re_untargets E (rt_jsonb db ts) = Some (la_Targets (rd_Ladder d))"
    "re_unattempts E (rt_jsonb db ats) = Some (o_Attempts (rd_Outcome d))"
    using assms(3) unfolding json_kept_def by auto
  let ?r = "la_Reason (rd_Ladder d)"
  have fits: "in_i32 (re_PolicyVersion ?r)" using assms(2) by (simp add: fits_columns_def Let_def)
  have version: "derefInt (if re_PolicyVersion ?r > 0 then Some (i32 (re_PolicyVersion ?r)) else None) = max 0 (re_PolicyVersion ?r)"
    using fits by (simp add: derefInt_def)
  have a: "al_Ladder a = ts" "al_LadderAttempts a = ats" "al_ReasonKind a = optional (re_Kind ?r)" "al_ID a = rd_ID d"
    "al_ReasonDetail a = optional (reasonDetail ?r)"
    "al_PolicyVersion a = (if re_PolicyVersion ?r > 0 then Some (i32 (re_PolicyVersion ?r)) else None)"
    using assms(1) row by (auto simp: auditRow_def Let_def)
  then show "al_ID a = rd_ID d" by simp
  have reason: "\<lparr>re_Kind = re_Kind ?r, re_ModelAlias = (if re_Kind ?r = ReasonModelAlias then reasonDetail ?r else ''''),
      re_RuleName = (if re_Kind ?r = ReasonRuleMatch then reasonDetail ?r else ''''),
      re_PolicyVersion = max 0 (re_PolicyVersion ?r)\<rparr> = stored_reason ?r"
    by (cases ?r) (auto simp: stored_reason_def reasonDetail_def ReasonModelAlias_def ReasonRuleMatch_def)
  have "hydrateLadder E (keep_audit db a) d0 =
      Some (d0\<lparr>rd_Ladder := \<lparr>la_Targets = la_Targets (rd_Ladder d), la_Reason = stored_reason ?r\<rparr>,
        rd_Outcome := (rd_Outcome d0)\<lparr>o_Attempts := o_Attempts (rd_Outcome d)\<rparr>\<rparr>)"
    unfolding reason [symmetric] version [symmetric] using decoded by (simp add: hydrateLadder_def keep_audit_def a Let_def)
  then show "hydrateLadder E (keep_audit db a) d0 = Some (as_stored (rt_time db) d)"
    by (simp add: d0 as_stored_def stored_cost_def)
qed

text \<open>Looking a tenant up leaves the tables alone and, when it succeeds, answers what they say.\<close>

lemma Lookup_Inr:
  assumes "TenantIDs_Lookup n c p = (Inr i, c', p')" "cache_ok c (pg_db p)" "admin_ok (pg_db p)"
  shows "(\<exists>t. find_external n (pg_db p) = Some t \<and> ta_ID t = i) \<and> pg_db p' = pg_db p \<and> cache_ok c' (pg_db p)"
proof (cases "ti_byTenant c n")
  case None
  then obtain t where t: "stmt (select_one (find_external n)) p = (Inr (Some t), p')" "i = ta_ID t" "c' = TenantIDs_put n (ta_ID t) c"
    using assms(1) by (auto simp: TenantIDs_Lookup_def split: prod.splits sum.splits option.splits)
  then have f: "find_external n (pg_db p) = Some t" "pg_db p' = pg_db p"
    by (auto simp: stmt_def pg_stmt_Inr select_one_def)
  note ext = find_external_Some [OF f(1)]
  show ?thesis using cache_put [OF assms(2) f(1) tenant_found(2) [OF assms(3)]] ext f t(2,3) by blast
next
  case (Some k)
  then show ?thesis using assms(1,2) unfolding cache_ok_def by (auto simp: TenantIDs_Lookup_def)
qed

lemma Lookup_keeps:
  assumes "TenantIDs_Lookup n c p = (r, c', p')" "cache_ok c (pg_db p)" "admin_ok (pg_db p)"
  shows "pg_db p' = pg_db p \<and> cache_ok c' (pg_db p)"
proof (cases r)
  case (Inr i)
  then show ?thesis using Lookup_Inr [of n c p i c' p'] assms by blast
next
  case (Inl e)
  have "pg_db q = pg_db p" if "stmt (select_one f) p = (s, q)" for f s q
    using that by (auto simp: stmt_def pg_stmt_def select_one_def split: pg_fault.splits)
  then show ?thesis using assms Inl by (auto simp: TenantIDs_Lookup_def split: option.splits prod.splits sum.splits)
qed

text \<open>The rows of a batch, in its order.\<close>

definition decision_row :: "(RoutingDecision \<Rightarrow> uuid \<Rightarrow> 'r option) \<Rightarrow> admin_db \<Rightarrow> RoutingDecision \<Rightarrow> 'r \<Rightarrow> bool" where
  "decision_row row db d r \<longleftrightarrow> (\<exists>t. find_external (rd_Tenant d) db = Some t \<and> row d (ta_ID t) = Some r)"

lemma encode_batch_rows:
  assumes "encode_batch E ds st = (Inr (ls, rs), st')"
    and "cache_ok (ws_tenants st) db" "admin_ok db" "pg_db (ws_admin st) = db"
  shows "list_all2 (decision_row (ledgerRow E) db) ds ls \<and> list_all2 (decision_row (auditRow E) db) ds rs \<and>
    pg_db (ws_admin st') = db \<and> ws_pg st' = ws_pg st"
  using assms
proof (induction E ds st arbitrary: ls rs rule: encode_batch.induct)
  case (2 E d ds st)
  obtain i c p where look: "TenantIDs_Lookup (rd_Tenant d) (ws_tenants st) (ws_admin st) = (Inr i, c, p)"
    using "2.prems"(1) by (auto split: prod.splits sum.splits)
  obtain l a where rows: "ledgerRow E d i = Some l" "auditRow E d i = Some a"
    using "2.prems"(1) look by (auto split: prod.splits sum.splits option.splits simp: Let_def)
  let ?st = "st\<lparr>ws_tenants := c, ws_admin := p\<rparr>"
  obtain ls' rs' where rest: "encode_batch E ds ?st = (Inr (ls', rs'), st')" "ls = l # ls'" "rs = a # rs'"
    using "2.prems"(1) look rows by (auto split: prod.splits sum.splits simp: Let_def)
  note t = Lookup_Inr [OF look, unfolded "2.prems"(4), OF "2.prems"(2,3)]
  have "list_all2 (decision_row (ledgerRow E) db) ds ls' \<and> list_all2 (decision_row (auditRow E) db) ds rs' \<and>
      pg_db (ws_admin st') = db \<and> ws_pg st' = ws_pg ?st"
    by (rule "2.IH" [OF look [symmetric] refl refl refl refl rows(1,2) rest(1)]) (use t "2.prems"(3) in auto)
  moreover have "decision_row (ledgerRow E) db d l" "decision_row (auditRow E) db d a" using rows t unfolding decision_row_def by blast+
  ultimately show ?case using rest by simp
qed simp

lemma encode_batch_keeps:
  assumes "encode_batch E ds st = (r, st')" "cache_ok (ws_tenants st) db" "admin_ok db" "pg_db (ws_admin st) = db"
  shows "cache_ok (ws_tenants st') db \<and> pg_db (ws_admin st') = db \<and> ws_pg st' = ws_pg st"
  using assms
proof (induction E ds st arbitrary: r rule: encode_batch.induct)
  case (2 E d ds st)
  obtain s c p where look: "TenantIDs_Lookup (rd_Tenant d) (ws_tenants st) (ws_admin st) = (s, c, p)" by (metis prod_cases3)
  let ?st = "st\<lparr>ws_tenants := c, ws_admin := p\<rparr>"
  have kept: "cache_ok (ws_tenants ?st) db \<and> pg_db (ws_admin ?st) = db \<and> ws_pg ?st = ws_pg st"
    using Lookup_keeps [OF look] "2.prems"(2-4) by simp
  show ?case
  proof (cases "\<exists>i l a. s = Inr i \<and> ledgerRow E d i = Some l \<and> auditRow E d i = Some a")
    case True
    then obtain i l a where ok: "s = Inr i" "ledgerRow E d i = Some l" "auditRow E d i = Some a" by blast
    obtain r' where rest: "encode_batch E ds ?st = (r', st')"
      using "2.prems"(1) look ok by (auto simp: Let_def split: prod.splits sum.splits)
    show ?thesis
      using "2.IH" [OF look [symmetric, unfolded ok(1)] refl refl refl refl ok(2,3) rest] kept "2.prems"(3) by simp
  next
    case False
    then have "st' = ?st" using "2.prems"(1) look by (cases s) (auto simp: Let_def split: option.splits)
    then show ?thesis using kept by simp
  qed
qed simp

text \<open>The tables after the batch: its rows appended, in either table.\<close>

definition stored_batch :: "record_env \<Rightarrow> admin_db \<Rightarrow> record_db \<Rightarrow> RoutingDecision list \<Rightarrow> record_db \<Rightarrow> bool" where
  "stored_batch E adb db batch db' \<longleftrightarrow>
     (\<exists>ls rs. list_all2 (decision_row (ledgerRow E) adb) batch ls \<and> list_all2 (decision_row (auditRow E) adb) batch rs \<and>
        db' = db\<lparr>rt_ledger := rt_ledger db @ map (keep_ledger db) ls, rt_audit := rt_audit db @ map (keep_audit db) rs\<rparr>)"

lemma copy_rows:
  assumes "pg_bind (pg_stmt RecordsFailed (q_InsertUsageLedger ls)) (\<lambda>_. pg_stmt RecordsFailed (q_InsertAuditLog rs)) p = (Inr (), b)"
    and db: "db = pg_db p"
  shows "pg_db b = db\<lparr>rt_ledger := rt_ledger db @ map (keep_ledger db) ls, rt_audit := rt_audit db @ map (keep_audit db) rs\<rparr>"
proof -
  obtain m where m: "pg_stmt RecordsFailed (q_InsertUsageLedger ls) p = (Inr (), m)"
    "pg_stmt RecordsFailed (q_InsertAuditLog rs) m = (Inr (), b)"
    using assms(1) unfolding pg_bind_Inr by auto
  have "pg_db m = db\<lparr>rt_ledger := rt_ledger db @ map (keep_ledger db) ls\<rparr>"
    using m(1) db unfolding pg_stmt_Inr by (auto simp: q_InsertUsageLedger_def Let_def split: if_splits)
  moreover have "pg_db b = (pg_db m)\<lparr>rt_audit := rt_audit (pg_db m) @ map (keep_audit (pg_db m)) rs\<rparr>"
    using m(2) unfolding pg_stmt_Inr by (auto simp: q_InsertAuditLog_def Let_def split: if_splits)
  moreover have "keep_audit (db\<lparr>rt_ledger := x\<rparr>) = keep_audit db" for x by (rule ext) (simp add: keep_audit_def)
  ultimately show ?thesis by auto
qed

text \<open>A write stores the whole batch or nothing, and nothing only when it reports a failure.\<close>

lemma Write_result:
  assumes "RecordWriter_Write E batch st = (r, st')" "cache_ok (ws_tenants st) adb" "admin_ok adb" "pg_db (ws_admin st) = adb"
    and db: "db = pg_db (ws_pg st)"
  shows "cache_ok (ws_tenants st') adb \<and> pg_db (ws_admin st') = adb \<and>
    (r \<noteq> Inr () \<and> pg_db (ws_pg st') = db \<or> stored_batch E adb db batch (pg_db (ws_pg st')))"
proof (cases "batch = []")
  case True
  then show ?thesis using assms by (simp add: RecordWriter_Write_def stored_batch_def)
next
  case False
  obtain s st1 where enc: "encode_batch E batch st = (s, st1)" by fastforce
  note kept = encode_batch_keeps [OF enc assms(2-4)]
  show ?thesis
  proof (cases s)
    case (Inl e)
    then show ?thesis using assms(1) False enc kept db by (auto simp: RecordWriter_Write_def)
  next
    case (Inr pair)
    obtain ls rs where pair: "pair = (ls, rs)" by fastforce
    note rows = encode_batch_rows [OF enc [unfolded Inr pair] assms(2-4)]
    let ?body = "pg_bind (pg_stmt RecordsFailed (q_InsertUsageLedger ls)) (\<lambda>_. pg_stmt RecordsFailed (q_InsertAuditLog rs))"
    obtain q where tx: "with_tx RecordsFailed ?body (ws_pg st1) = (r, q)" "st' = st1\<lparr>ws_pg := q\<rparr>"
      using assms(1) False enc Inr pair by (auto simp: RecordWriter_Write_def split: prod.splits)
    have st1: "pg_db (ws_pg st1) = db" using kept db by simp
    consider b where "?body (pg_pop (ws_pg st1)) = (Inr (), b)" "pg_db q = pg_db b" | "r \<noteq> Inr ()" "pg_db q = db"
    proof (cases r)
      case (Inl e)
      have "pg_db q = pg_db (ws_pg st1) \<or> (\<exists>a b. ?body (pg_pop (ws_pg st1)) = (Inr a, b) \<and> pg_db q = pg_db b)"
        using with_tx_Inl [OF tx(1) [unfolded Inl]] by blast
      then show thesis using that Inl st1 by (metis old.unit.exhaust sum.distinct(1))
    next
      case (Inr u)
      have "\<exists>b. ?body (pg_pop (ws_pg st1)) = (Inr u, b) \<and> pg_db q = pg_db b" using with_tx_Inr [OF tx(1) [unfolded Inr]] .
      then show thesis using that by (metis old.unit.exhaust)
    qed
    then show ?thesis
    proof cases
      case (1 b)
      have "pg_db q = db\<lparr>rt_ledger := rt_ledger db @ map (keep_ledger db) ls, rt_audit := rt_audit db @ map (keep_audit db) rs\<rparr>"
        using copy_rows [OF 1(1), of db] 1(2) st1 by simp
      then show ?thesis using rows kept tx(2) unfolding stored_batch_def by auto
    next
      case 2
      then show ?thesis using kept tx(2) by simp
    qed
  qed
qed

text \<open>Every decision of the batch has an id of its own, and so has every row before it.\<close>

definition fresh_ids :: "RoutingDecision list \<Rightarrow> record_db \<Rightarrow> bool" where
  "fresh_ids batch db \<longleftrightarrow>
     distinct (map ul_ID (rt_ledger db) @ map rd_ID batch) \<and> distinct (map al_ID (rt_audit db) @ map rd_ID batch)"

lemma row_found:
  assumes "list_all2 (decision_row row adb) batch rs" "\<forall>d i r. row d i = Some r \<longrightarrow> key r = rd_ID d" "\<And>r. key (keep r) = key r"
    and "distinct (map key old @ map rd_ID batch)" "d \<in> set batch"
  shows "\<exists>t r. find_external (rd_Tenant d) adb = Some t \<and> row d (ta_ID t) = Some r \<and>
    List.find (\<lambda>x. key x = rd_ID d) (old @ map keep rs) = Some (keep r)"
proof -
  have "map key rs = map rd_ID batch"
    using assms(1) by (induction rule: list_all2_induct) (auto simp: decision_row_def assms(2))
  then have dist: "distinct (map key (old @ map keep rs))" using assms(3,4) by (simp add: comp_def)
  obtain r where r: "r \<in> set rs" "decision_row row adb d r" using assms(1,5) by (induction rule: list_all2_induct) auto
  then obtain t where t: "find_external (rd_Tenant d) adb = Some t" "row d (ta_ID t) = Some r" by (auto simp: decision_row_def)
  have "keep r \<in> set (old @ map keep rs)" using r(1) by simp
  from find_unique [OF dist this] show ?thesis using t assms(2) assms(3) by auto
qed

section \<open>Properties\<close>

text \<open>C13. On servers that answer, a client of the audit endpoint that follows \<open>next_cursor\<close> comes to the
  end after at most one request more than there are rows, whatever page size it asks for, and has then
  received exactly the tenant's events of the period, each once, newest first.\<close>

theorem audit_pages_complete:
  assumes "readable_tenant E ref t db st" "records_ok db" "ta_ExternalID t \<noteq> ''''"
    and "since \<noteq> zero_time" "until \<noteq> zero_time" "since < until" "0 < limit" "limit \<le> MaxAuditLimit"
    and "uuid_text_ok E" "\<forall>r \<in> set (rt_audit db). in_i64 (al_Ts r)"
  shows "\<exists>rows. audit_walk (Suc (length (rt_audit db))) E now ref
      \<lparr>pa_Since = since, pa_Until = Some until, pa_Limit = Some limit, pa_Cursor = None\<rparr> st = Some (map (toAuditEvent \<circ> auditEvent) rows) \<and>
    set rows = {r \<in> set (rt_audit db). al_TenantID r = Some (ta_ID t) \<and> since \<le> al_Ts r \<and> al_Ts r < until} \<and>
    sorted_wrt (\<lambda>a b. audit_key b < audit_key a) rows"
proof -
  let ?L = "audit_range (ta_ID t) since until db"
  have "length ?L < Suc (length (rt_audit db))" by (simp add: audit_range_def less_Suc_eq_le)
  then have "audit_walk (Suc (length (rt_audit db))) E now ref
      \<lparr>pa_Since = since, pa_Until = Some until, pa_Limit = Some limit, pa_Cursor = None\<rparr> st = Some (map (toAuditEvent \<circ> auditEvent) ?L)"
    using audit_walk_from [OF assms(1-8) refl _ assms(9,10), of 0 "Suc (length (rt_audit db))"] by (simp add: cursor_at_def)
  then show ?thesis using range_set audit_range_descending [OF assms(2)] by blast
qed

text \<open>A deployment with one tenant, four audit rows of two tenants and UUIDs written in unary.\<close>

definition x_text :: "uuid \<Rightarrow> string" where "x_text u = replicate (unat u) CHR ''x''"

definition x_parse :: "string \<Rightarrow> uuid option" where
  "x_parse s = (if list_all (\<lambda>c. c = CHR ''x'') s then Some (of_nat (length s)) else None)"

definition x_env :: record_env where
  "x_env = \<lparr>re_metadata = (\<lambda>_. Some ''{}''), re_unmetadata = (\<lambda>_. Some Map.empty),
     re_counterfactuals = (\<lambda>c. if c = [] then Some ''[]'' else None),
     re_uncounterfactuals = (\<lambda>_. Some []),
     re_targets = (\<lambda>t. if t = [] then Some ''[]'' else None), re_untargets = (\<lambda>_. Some []),
     re_attempts = (\<lambda>a. if a = [] then Some ''[]'' else None), re_unattempts = (\<lambda>_. Some []),
     re_uuid_str = x_text, re_uuid_parse = x_parse, re_field = (\<lambda>_ _. None), re_day = (\<lambda>_. ''''),
     re_comparisons = (\<lambda>_. []), re_percentile = (\<lambda>_ _. 0), re_group_order = id\<rparr>"

definition x_row :: "uuid \<Rightarrow> time \<Rightarrow> uuid \<Rightarrow> AuditLog" where
  "x_row i ts tenant =
     \<lparr>al_ID = i, al_Ts = ts, al_TenantID = Some tenant, al_KeyID = None, al_Actor = ''cli'', al_Action = ''create_api_key'',
      al_RequestID = None, al_ReasonKind = None, al_ReasonDetail = None, al_PolicyVersion = None, al_Ladder = ''[]'',
      al_LadderAttempts = ''[]'', al_FinalTarget = None, al_StatusCode = None, al_Error = None\<rparr>"

definition x_tenant :: TenantAccount where
  "x_tenant = \<lparr>ta_ID = 7, ta_ExternalID = ''acme'', ta_Name = ''Acme'', ta_Metadata = ''{}'', ta_CreatedAt = 1, ta_DisabledAt = None\<rparr>"

definition x_admin :: admin_db where
  "x_admin = \<lparr>db_now = 50, db_time = id, db_jsonb = id, db_tenants = [x_tenant], db_keys = [], db_quotas = [], db_audit = [],
     db_users = [], db_tokens = [], db_creds = []\<rparr>"

definition x_db :: record_db where
  "x_db = \<lparr>rt_time = id, rt_jsonb = id, rt_ledger = [], rt_audit = [x_row 1 10 7, x_row 2 30 7, x_row 3 30 7, x_row 4 20 8]\<rparr>"

definition x_state :: record_state where
  "x_state = \<lparr>ws_tenants = NewTenantIDs, ws_admin = \<lparr>pg_db = x_admin, pg_faults = []\<rparr>, ws_pg = \<lparr>pg_db = x_db, pg_faults = []\<rparr>\<rparr>"

lemma x_text_ok: "uuid_text_ok x_env"
  by (auto simp: uuid_text_ok_def x_env_def x_text_def x_parse_def list_all_iff)

lemma x_readable: "readable_tenant x_env ''acme'' x_tenant x_db x_state"
  by (simp add: readable_tenant_def x_state_def pg_up_def admin_ok_def x_admin_def cache_ok_def NewTenantIDs_def
      tenant_by_ref_def x_env_def x_parse_def find_external_def x_tenant_def)

theorem audit_pages_complete_witness:
  "\<exists>rows. audit_walk 5 x_env 99 ''acme'' \<lparr>pa_Since = 5, pa_Until = Some 40, pa_Limit = Some 1, pa_Cursor = None\<rparr> x_state =
      Some (map (toAuditEvent \<circ> auditEvent) rows) \<and>
    set rows = {x_row 1 10 7, x_row 2 30 7, x_row 3 30 7} \<and> sorted_wrt (\<lambda>a b. audit_key b < audit_key a) rows"
proof -
  have fresh: "records_ok x_db" "\<forall>r \<in> set (rt_audit x_db). in_i64 (al_Ts r)"
    by (simp_all add: records_ok_def x_db_def x_row_def in_i64_def)
  have range: "ta_ExternalID x_tenant \<noteq> ''''" "5 \<noteq> zero_time" "40 \<noteq> zero_time" "(5 :: time) < 40" "(0 :: int) < 1" "1 \<le> MaxAuditLimit"
    by (simp_all add: x_tenant_def zero_time_def MaxAuditLimit_def)
  have rows: "{r \<in> set (rt_audit x_db). al_TenantID r = Some (ta_ID x_tenant) \<and> 5 \<le> al_Ts r \<and> al_Ts r < 40} =
      {x_row 1 10 7, x_row 2 30 7, x_row 3 30 7}"
    by (auto simp: x_db_def x_row_def x_tenant_def)
  have fuel: "Suc (length (rt_audit x_db)) = 5" by (simp add: x_db_def)
  show ?thesis
    using audit_pages_complete [OF x_readable fresh(1) range x_text_ok fresh(2), of 99] unfolding rows fuel .
qed

text \<open>A reader beside the writer: its servers answer, its cache of tenants agrees with the table.\<close>

definition reads_after :: "record_state \<Rightarrow> record_state \<Rightarrow> bool" where
  "reads_after st rd \<longleftrightarrow>
     pg_up (ws_pg rd) \<and> pg_up (ws_admin rd) \<and> pg_db (ws_pg rd) = pg_db (ws_pg st) \<and>
     pg_db (ws_admin rd) = pg_db (ws_admin st) \<and> cache_ok (ws_tenants rd) (pg_db (ws_admin st))"

lemma keep_keys: "ul_ID (keep_ledger db r) = ul_ID r" "al_ID (keep_audit db a) = al_ID a"
  by (simp_all add: keep_ledger_def keep_audit_def)

lemma ledger_key: "\<forall>d i l. ledgerRow E d i = Some l \<longrightarrow> ul_ID l = rd_ID d"
  by (auto simp: ledgerRow_def Let_def split: option.splits)

lemma ledger_tenant: "ledgerRow E d i = Some l \<Longrightarrow> ul_TenantID l = i"
  by (auto simp: ledgerRow_def Let_def split: option.splits)

lemma audit_row_key: "\<forall>d i a. auditRow E d i = Some a \<longrightarrow> al_ID a = rd_ID d"
  by (auto simp: auditRow_def Let_def split: option.splits)

text \<open>A decision whose two rows are found is read back from them.\<close>

lemma Get_stored:
  assumes reader: "reads_after st rd"
    and t: "find_external (rd_Tenant d) (pg_db (ws_admin st)) = Some t" "admin_ok (pg_db (ws_admin st))"
    and l: "ledgerRow E d (ta_ID t) = Some l" "List.find (\<lambda>x. ul_ID x = rd_ID d) (rt_ledger (pg_db (ws_pg st))) = Some (keep_ledger db l)"
    and a: "auditRow E d (ta_ID t) = Some a" "List.find (\<lambda>x. al_ID x = rd_ID d) (rt_audit (pg_db (ws_pg st))) = Some (keep_audit db a)"
    and d: "fits_columns d" "json_kept E db d"
  shows "\<exists>rd'. ObservabilityRepo_Get E (rd_ID d) rd = (Inr (as_stored (rt_time db) d), rd')"
proof -
  have ext: "ta_ExternalID t = rd_Tenant d" "find_tenant (ta_ID t) (pg_db (ws_admin st)) = Some t"
    using find_external_Some [OF t(1)] tenant_found(2) [OF t(2)] by auto
  note r = reader [unfolded reads_after_def]
  obtain c p where name: "TenantIDs_Name (ta_ID t) (ws_tenants rd) (ws_admin rd) = (Inr (rd_Tenant d), c, p)"
    using Name_up [of "ws_admin rd" "ws_tenants rd" "ta_ID t"] r ext t(2) by auto
  have key: "ul_TenantID (keep_ledger db l) = ta_ID t" using ledger_tenant [OF l(1)] by (simp add: keep_ledger_def)
  show ?thesis
    using r l(2) a(2) name key ledger_row_read(1) [OF l(1) d] audit_row_read(1) [OF a(1) d refl]
    by (simp add: ObservabilityRepo_Get_def pg_stmt_def q_GetUsageLedgerEntry_def q_GetAuditEntry_def Let_def)
qed


definition x_decision :: RoutingDecision where
  "x_decision = \<lparr>rd_ID = 9, rd_OccurredAt = 1234, rd_Tenant = ''acme'', rd_KeyID = 5,
     rd_Request = \<lparr>rs_RequestedModel = ''gpt'', rs_Stream = True, rs_WantsUsage = True, rs_Metadata = Map.empty\<rparr>,
     rd_Ladder = \<lparr>la_Targets = [], la_Reason = \<lparr>re_Kind = ReasonModelAlias, re_ModelAlias = ''gpt'', re_RuleName = '''', re_PolicyVersion = 3\<rparr>\<rparr>,
     rd_Outcome = \<lparr>o_Status = StatusExhausted, o_Attempts = [],
       o_Usage = \<lparr>tu_Input = 12, tu_Output = 0, tu_CacheWrite = 0, tu_CacheRead = 0, tu_Reasoning = 0\<rparr>, o_TTFTMs = 0, o_TotalMs = 40\<rparr>,
     rd_Cost = Some \<lparr>cb_Actual = 7, cb_PriceTableVersion = ''v1'', cb_Counterfactuals = [], cb_UnpricedComparisons = [''b'']\<rparr>\<rparr>"

lemma x_write: "fst (RecordWriter_Write x_env [x_decision] x_state) = Inr ()"
  "pg_db (ws_admin (snd (RecordWriter_Write x_env [x_decision] x_state))) = x_admin"
  by (simp_all add: RecordWriter_Write_def x_decision_def x_state_def TenantIDs_Lookup_def NewTenantIDs_def stmt_def pg_stmt_def
      select_one_def find_external_def x_admin_def x_tenant_def pg_next_def pg_pop_def ledgerRow_def auditRow_def x_env_def Let_def
      with_tx_def pg_bind_def q_InsertUsageLedger_def q_InsertAuditLog_def keep_ledger_def keep_audit_def x_db_def x_row_def
      tokens_non_negative_def i32_def gatewayActor_def routeAction_def)

definition x_reader :: record_state where
  "x_reader = \<lparr>ws_tenants = NewTenantIDs, ws_admin = \<lparr>pg_db = x_admin, pg_faults = []\<rparr>,
     ws_pg = \<lparr>pg_db = pg_db (ws_pg (snd (RecordWriter_Write x_env [x_decision] x_state))), pg_faults = []\<rparr>\<rparr>"


end
