(* ===== verification/Reports.thy ===== *)
theory Reports
  imports Records "HOL-Library.AList"
begin

text \<open>
  Spend reports: the two aggregate queries on \<open>usage_ledger\<close>, \<open>ObservabilityRepo.Aggregate\<close> with
  \<open>attachComparisons\<close> and \<open>totalise\<close>, and the usage and decision endpoints of the admin API with their wire types
  (\<open>adminapi/observability.go\<close>, \<open>mapping_observability.go\<close>).

  A comparison map is an association list with distinct keys; ranging over it is the fold below, whose
  result does not depend on the order. A \<open>SUM\<close> cast to \<open>bigint\<close> fails the query when it is out of range.
  \<open>re_group_order\<close> is the order the server forms groups in, which breaks the ties of the sort.
\<close>

section \<open>Definitions\<close>

subsection \<open>The aggregate queries\<close>

record AggregateUsageRow =
  au_Key :: string
  au_Requests :: int
  au_CostNanos :: int
  au_Unpriced :: int
  au_Usage :: TokenUsage
  au_Ok :: int
  au_Failed :: int
  au_Truncated :: int
  au_Disconnected :: int
  au_P50TtftMs :: int
  au_P95TtftMs :: int
  au_P95TotalMs :: int
  au_TotalGroups :: int

definition group_key :: "record_env \<Rightarrow> GroupBy \<Rightarrow> string \<Rightarrow> UsageLedger \<Rightarrow> string" where
  "group_key E groupBy metaKey r =
     (if groupBy = ''model'' then ul_RequestedModel r
      else if groupBy = ''target'' then (case ul_ChosenTarget r of None \<Rightarrow> ''(unserved)'' | Some t \<Rightarrow> t)
      else if groupBy = ''status'' then ul_Status r
      else if groupBy = ''day'' then re_day E (ul_StartedAt r)
      else if groupBy = ''metadata'' then (case re_field E (ul_Metadata r) metaKey of None \<Rightarrow> ''(unset)'' | Some v \<Rightarrow> v)
      else '''')"

definition ledger_range :: "uuid \<Rightarrow> time \<Rightarrow> time \<Rightarrow> record_db \<Rightarrow> UsageLedger list" where
  "ledger_range tenant since until db =
     filter (\<lambda>r. ul_TenantID r = tenant \<and> since \<le> ul_StartedAt r \<and> ul_StartedAt r < until) (rt_ledger db)"

definition count_rows :: "('a \<Rightarrow> bool) \<Rightarrow> 'a list \<Rightarrow> int" where
  "count_rows P rows = int (length (filter P rows))"

definition sum_rows :: "('a \<Rightarrow> int) \<Rightarrow> 'a list \<Rightarrow> int" where
  "sum_rows f rows = sum_list (map f rows)"

definition row_cost :: "UsageLedger \<Rightarrow> int" where
  "row_cost r = (case ul_CostNanos r of None \<Rightarrow> 0 | Some n \<Rightarrow> n)"

definition positive_ms :: "(UsageLedger \<Rightarrow> int option) \<Rightarrow> UsageLedger list \<Rightarrow> int list" where
  "positive_ms f rows = filter (\<lambda>n. n > 0) (List.map_filter f rows)"

definition percentile :: "record_env \<Rightarrow> nat \<Rightarrow> int list \<Rightarrow> int" where
  "percentile E p ns = (if ns = [] then 0 else re_percentile E p ns)"

definition usage_group :: "record_env \<Rightarrow> string \<Rightarrow> int \<Rightarrow> UsageLedger list \<Rightarrow> AggregateUsageRow" where
  "usage_group E key groups rows =
     \<lparr>au_Key = key, au_Requests = int (length rows), au_CostNanos = sum_rows row_cost rows,
      au_Unpriced = count_rows (\<lambda>r. ul_CostNanos r = None) rows,
      au_Usage = \<lparr>tu_Input = sum_rows (tu_Input \<circ> ul_Usage) rows, tu_Output = sum_rows (tu_Output \<circ> ul_Usage) rows,
                  tu_CacheWrite = sum_rows (tu_CacheWrite \<circ> ul_Usage) rows, tu_CacheRead = sum_rows (tu_CacheRead \<circ> ul_Usage) rows,
                  tu_Reasoning = sum_rows (tu_Reasoning \<circ> ul_Usage) rows\<rparr>,
      au_Ok = count_rows (\<lambda>r. ul_Status r = ''ok'') rows, au_Failed = count_rows (\<lambda>r. ul_Status r = ''exhausted'') rows,
      au_Truncated = count_rows (\<lambda>r. ul_Status r = ''truncated'') rows,
      au_Disconnected = count_rows (\<lambda>r. ul_Status r = ''client_disconnect'') rows,
      au_P50TtftMs = percentile E 50 (positive_ms ul_TtftMs rows), au_P95TtftMs = percentile E 95 (positive_ms ul_TtftMs rows),
      au_P95TotalMs = percentile E 95 (positive_ms ul_TotalMs rows), au_TotalGroups = groups\<rparr>"

definition bigints :: "AggregateUsageRow \<Rightarrow> bool" where
  "bigints g \<longleftrightarrow>
     list_all in_i64 [au_CostNanos g, tu_Input (au_Usage g), tu_Output (au_Usage g), tu_CacheRead (au_Usage g),
       tu_CacheWrite (au_Usage g), tu_Reasoning (au_Usage g)]"

definition q_AggregateUsage :: "record_env \<Rightarrow> uuid \<Rightarrow> time \<Rightarrow> time \<Rightarrow> GroupBy \<Rightarrow> string \<Rightarrow> int \<Rightarrow> record_db \<Rightarrow>
    (record_error + AggregateUsageRow list) \<times> record_db" where
  "q_AggregateUsage E tenant since until groupBy metaKey limit db =
     (let rows = ledger_range tenant since until db;
          key = group_key E groupBy metaKey;
          keys = re_group_order E (remdups (map key rows));
          grouped = map (\<lambda>k. usage_group E k (int (length keys)) (filter (\<lambda>r. key r = k) rows)) keys
      in if list_all bigints grouped
         then (Inr (take (nat limit) (sort_key (\<lambda>g. (- au_CostNanos g, - au_Requests g)) grouped)), db)
         else (Inl RecordsFailed, db))"

text \<open>\<open>re_comparisons\<close> are the elements of the \<open>jsonb\<close> array that name a target, with their cost.\<close>

record AggregateCounterfactualsRow =
  cr_Key :: string
  cr_Target :: string
  cr_CostNanos :: int
  cr_Requests :: int

definition expanded :: "record_env \<Rightarrow> (UsageLedger \<Rightarrow> string) \<Rightarrow> UsageLedger list \<Rightarrow> ((string \<times> string) \<times> int) list" where
  "expanded E key rows = concat (map (\<lambda>r. map (\<lambda>(t, c). ((key r, t), c)) (re_comparisons E (ul_Counterfactuals r))) rows)"

definition counterfactual_group :: "((string \<times> string) \<times> int) list \<Rightarrow> string \<times> string \<Rightarrow> AggregateCounterfactualsRow" where
  "counterfactual_group entries k =
     (let g = filter (\<lambda>e. fst e = k) entries
      in \<lparr>cr_Key = fst k, cr_Target = snd k, cr_CostNanos = sum_rows snd g, cr_Requests = int (length g)\<rparr>)"

definition q_AggregateCounterfactuals :: "record_env \<Rightarrow> uuid \<Rightarrow> time \<Rightarrow> time \<Rightarrow> GroupBy \<Rightarrow> string \<Rightarrow> record_db \<Rightarrow>
    (record_error + AggregateCounterfactualsRow list) \<times> record_db" where
  "q_AggregateCounterfactuals E tenant since until groupBy metaKey db =
     (let entries = expanded E (group_key E groupBy metaKey) (ledger_range tenant since until db);
          cfs = map (counterfactual_group entries) (remdups (map fst entries))
      in if list_all (\<lambda>c. in_i64 (cr_CostNanos c)) cfs then (Inr cfs, db) else (Inl RecordsFailed, db))"

subsection \<open>Reports\<close>

record ReportRow =
  rr_Key :: string
  rr_Requests :: int
  rr_Cost :: int
  rr_Unpriced :: int
  rr_Usage :: TokenUsage
  rr_Comparisons :: "(string \<times> Comparison) list"
  rr_OK :: int
  rr_Failed :: int
  rr_Truncated :: int
  rr_Disconnected :: int
  rr_P50TTFTMs :: int
  rr_P95TTFTMs :: int
  rr_P95TotalMs :: int

record ReportRange =
  rg_Tenant :: Tenant
  rg_Since :: time
  rg_Until :: time

record Report =
  rp_Spec :: ReportRange
  rp_Rows :: "ReportRow list"
  rp_Total :: ReportRow
  rp_TruncatedGroups :: int

definition zero_row :: ReportRow where
  "zero_row = \<lparr>rr_Key = '''', rr_Requests = 0, rr_Cost = 0, rr_Unpriced = 0,
     rr_Usage = \<lparr>tu_Input = 0, tu_Output = 0, tu_CacheWrite = 0, tu_CacheRead = 0, tu_Reasoning = 0\<rparr>,
     rr_Comparisons = [], rr_OK = 0, rr_Failed = 0, rr_Truncated = 0, rr_Disconnected = 0,
     rr_P50TTFTMs = 0, rr_P95TTFTMs = 0, rr_P95TotalMs = 0\<rparr>"

definition report_row :: "AggregateUsageRow \<Rightarrow> ReportRow" where
  "report_row g =
     \<lparr>rr_Key = au_Key g, rr_Requests = au_Requests g, rr_Cost = au_CostNanos g, rr_Unpriced = au_Unpriced g,
      rr_Usage = au_Usage g, rr_Comparisons = [], rr_OK = au_Ok g, rr_Failed = au_Failed g, rr_Truncated = au_Truncated g,
      rr_Disconnected = au_Disconnected g, rr_P50TTFTMs = au_P50TtftMs g, rr_P95TTFTMs = au_P95TtftMs g,
      rr_P95TotalMs = au_P95TotalMs g\<rparr>"

definition comparisons_of :: "AggregateCounterfactualsRow list \<Rightarrow> string \<Rightarrow> (string \<times> Comparison) list" where
  "comparisons_of cfs key =
     foldl (\<lambda>m c. if cr_Key c = key then AList.update (cr_Target c) \<lparr>cm_Cost = cr_CostNanos c, cm_Requests = cr_Requests c\<rparr> m else m) [] cfs"

definition attachComparisons :: "record_env \<Rightarrow> ReportSpec \<Rightarrow> uuid \<Rightarrow> ReportRow list \<Rightarrow> ReportRow list record_action" where
  "attachComparisons E spec tenantID rows =
     pg_bind (pg_stmt RecordsFailed (q_AggregateCounterfactuals E tenantID (sp_Since spec) (sp_Until spec) (sp_GroupBy spec) (sp_MetaKey spec)))
       (\<lambda>cfs. pg_return (map (\<lambda>r. r\<lparr>rr_Comparisons := comparisons_of cfs (rr_Key r)\<rparr>) rows))"

definition add_usage :: "TokenUsage \<Rightarrow> TokenUsage \<Rightarrow> TokenUsage" where
  "add_usage a b =
     \<lparr>tu_Input = i64 (tu_Input a + tu_Input b), tu_Output = i64 (tu_Output a + tu_Output b),
      tu_CacheWrite = i64 (tu_CacheWrite a + tu_CacheWrite b), tu_CacheRead = i64 (tu_CacheRead a + tu_CacheRead b),
      tu_Reasoning = i64 (tu_Reasoning a + tu_Reasoning b)\<rparr>"

definition add_comparison :: "(string \<times> Comparison) list \<Rightarrow> string \<times> Comparison \<Rightarrow> (string \<times> Comparison) list" where
  "add_comparison m tc =
     (let t = (case map_of m (fst tc) of None \<Rightarrow> \<lparr>cm_Cost = 0, cm_Requests = 0\<rparr> | Some c \<Rightarrow> c)
      in AList.update (fst tc) \<lparr>cm_Cost = i64 (cm_Cost t + cm_Cost (snd tc)), cm_Requests = i64 (cm_Requests t + cm_Requests (snd tc))\<rparr> m)"

definition add_row :: "ReportRow \<Rightarrow> ReportRow \<Rightarrow> ReportRow" where
  "add_row tot r =
     tot\<lparr>rr_Requests := i64 (rr_Requests tot + rr_Requests r), rr_Cost := i64 (rr_Cost tot + rr_Cost r),
       rr_Unpriced := i64 (rr_Unpriced tot + rr_Unpriced r), rr_Usage := add_usage (rr_Usage tot) (rr_Usage r),
       rr_OK := i64 (rr_OK tot + rr_OK r), rr_Failed := i64 (rr_Failed tot + rr_Failed r),
       rr_Truncated := i64 (rr_Truncated tot + rr_Truncated r), rr_Disconnected := i64 (rr_Disconnected tot + rr_Disconnected r),
       rr_Comparisons := foldl add_comparison (rr_Comparisons tot) (rr_Comparisons r)\<rparr>"

definition totalise :: "ReportRow list \<Rightarrow> ReportRow" where
  "totalise rows = foldl add_row zero_row rows"

definition report_body :: "record_env \<Rightarrow> ReportSpec \<Rightarrow> uuid \<Rightarrow> int \<Rightarrow> Report record_action" where
  "report_body E spec tenantID limit =
     pg_bind (pg_stmt RecordsFailed (q_AggregateUsage E tenantID (sp_Since spec) (sp_Until spec) (sp_GroupBy spec) (sp_MetaKey spec) (i32 limit)))
       (\<lambda>grouped.
         let totalGroups = (if grouped = [] then 0 else au_TotalGroups (last grouped)) in
         pg_bind (attachComparisons E spec tenantID (map report_row grouped)) (\<lambda>rows.
           pg_return \<lparr>rp_Spec = \<lparr>rg_Tenant = sp_Tenant spec, rg_Since = sp_Since spec, rg_Until = sp_Until spec\<rparr>,
             rp_Rows = rows, rp_Total = totalise rows,
             rp_TruncatedGroups = (if totalGroups > int (length rows) then i64 (totalGroups - int (length rows)) else 0)\<rparr>))"

text \<open>A read-only transaction: it is rolled back whatever happens, so all it can add is a failure to begin.\<close>

definition read_tx :: "'a record_action \<Rightarrow> 'a record_action" where
  "read_tx body p =
     (if pg_next p \<noteq> PgOk then (Inl RecordsFailed, pg_pop p)
      else (case body (pg_pop p) of (r, q) \<Rightarrow> (r, (pg_pop q)\<lparr>pg_db := pg_db p\<rparr>)))"

definition ObservabilityRepo_Aggregate :: "record_env \<Rightarrow> ReportSpec \<Rightarrow> record_state \<Rightarrow> (record_error + Report) \<times> record_state" where
  "ObservabilityRepo_Aggregate E spec st =
     (case ReportSpec_Validate spec of
        Some e \<Rightarrow> (Inl (RecordReport e), st)
      | None \<Rightarrow>
          (case TenantIDs_Lookup (sp_Tenant spec) (ws_tenants st) (ws_admin st) of
             (Inl e, c, a) \<Rightarrow>
               (if e = ErrUnknownTenant
                then Inr \<lparr>rp_Spec = \<lparr>rg_Tenant = sp_Tenant spec, rg_Since = sp_Since spec, rg_Until = sp_Until spec\<rparr>,
                          rp_Rows = [], rp_Total = zero_row, rp_TruncatedGroups = 0\<rparr>
                else Inl (RecordTenant e), st\<lparr>ws_tenants := c, ws_admin := a\<rparr>)
           | (Inr tenantID, c, a) \<Rightarrow>
               (case read_tx (report_body E spec tenantID (if sp_Limit spec = 0 then DefaultReportLimit else sp_Limit spec)) (ws_pg st) of
                  (r, p) \<Rightarrow> (r, st\<lparr>ws_tenants := c, ws_admin := a, ws_pg := p\<rparr>))))"

subsection \<open>The usage endpoint\<close>

record gTokenCounts =
  tk_Input :: int
  tk_Output :: int
  tk_CacheRead :: int
  tk_CacheWrite :: int
  tk_Reasoning :: int

definition toTokenCounts :: "TokenUsage \<Rightarrow> gTokenCounts" where
  "toTokenCounts u =
     \<lparr>tk_Input = tu_Input u, tk_Output = tu_Output u, tk_CacheRead = tu_CacheRead u, tk_CacheWrite = tu_CacheWrite u,
      tk_Reasoning = tu_Reasoning u\<rparr>"

record gUsageComparison =
  uc_Target :: string
  uc_CostNanos :: int
  uc_Requests :: int

text \<open>Strings are ordered by their bytes, as \<open><\<close> on Go strings.\<close>

definition toComparisons :: "(string \<times> Comparison) list \<Rightarrow> gUsageComparison list" where
  "toComparisons m =
     map (\<lambda>(t, c). \<lparr>uc_Target = t, uc_CostNanos = cm_Cost c, uc_Requests = cm_Requests c\<rparr>)
       (sort_key fst m)"

record gUsageTotals =
  ut_Requests :: int
  ut_CostNanos :: int
  ut_Unpriced :: int
  ut_Tokens :: gTokenCounts
  ut_Comparisons :: "gUsageComparison list"
  ut_Ok :: int
  ut_Failed :: int
  ut_Truncated :: int
  ut_Disconnected :: int

definition toUsageTotals :: "ReportRow \<Rightarrow> gUsageTotals" where
  "toUsageTotals r =
     \<lparr>ut_Requests = rr_Requests r, ut_CostNanos = rr_Cost r, ut_Unpriced = rr_Unpriced r, ut_Tokens = toTokenCounts (rr_Usage r),
      ut_Comparisons = toComparisons (rr_Comparisons r), ut_Ok = rr_OK r, ut_Failed = rr_Failed r,
      ut_Truncated = rr_Truncated r, ut_Disconnected = rr_Disconnected r\<rparr>"

text \<open>The generated row repeats the fields of the totals; here it extends them.\<close>

record gUsageRow = gUsageTotals +
  uw_Key :: string
  uw_P50TtftMs :: int
  uw_P95TtftMs :: int
  uw_P95TotalMs :: int

definition toUsageRow :: "ReportRow \<Rightarrow> gUsageRow" where
  "toUsageRow r =
     gUsageTotals.extend (toUsageTotals r)
       (gUsageRow.fields (rr_Key r) (rr_P50TTFTMs r) (rr_P95TTFTMs r) (rr_P95TotalMs r))"

record gUsageSpec =
  us_Tenant :: string
  us_Since :: time
  us_Until :: time
  us_GroupBy :: GroupBy
  us_MetaKey :: "string option"

record gUsageReport =
  ur_Spec :: gUsageSpec
  ur_Rows :: "gUsageRow list"
  ur_Total :: gUsageTotals
  ur_TruncatedGroups :: int

definition toUsageReport :: "ReportSpec \<Rightarrow> Report \<Rightarrow> gUsageReport" where
  "toUsageReport spec r =
     \<lparr>ur_Spec = \<lparr>us_Tenant = rg_Tenant (rp_Spec r), us_Since = rg_Since (rp_Spec r), us_Until = rg_Until (rp_Spec r),
        us_GroupBy = sp_GroupBy spec, us_MetaKey = (if sp_GroupBy spec = GroupByMetadata then Some (sp_MetaKey spec) else None)\<rparr>,
      ur_Rows = map toUsageRow (rp_Rows r), ur_Total = toUsageTotals (rp_Total r), ur_TruncatedGroups = rp_TruncatedGroups r\<rparr>"

record usage_params =
  pu_Since :: time
  pu_Until :: "time option"
  pu_GroupBy :: "GroupBy option"
  pu_MetaKey :: "string option"
  pu_Limit :: "int option"

definition h_GetUsage :: "record_env \<Rightarrow> time \<Rightarrow> string \<Rightarrow> usage_params \<Rightarrow> record_state \<Rightarrow> (obs_error + gUsageReport) \<times> record_state" where
  "h_GetUsage E now ref params st =
     (case TenantIDs_Resolve (re_uuid_parse E) ref (ws_tenants st) (ws_admin st) of
        (Inl e, c, a) \<Rightarrow> (Inl (tenantError e ref), st\<lparr>ws_tenants := c, ws_admin := a\<rparr>)
      | (Inr tenant, c, a) \<Rightarrow>
          (let st' = st\<lparr>ws_tenants := c, ws_admin := a\<rparr>;
               spec = \<lparr>sp_Tenant = tenant, sp_Since = pu_Since params,
                       sp_Until = (case pu_Until params of None \<Rightarrow> now | Some t \<Rightarrow> t),
                       sp_GroupBy = (case pu_GroupBy params of None \<Rightarrow> GroupByNone | Some g \<Rightarrow> g),
                       sp_MetaKey = (case pu_MetaKey params of None \<Rightarrow> '''' | Some k \<Rightarrow> k),
                       sp_Limit = (case pu_Limit params of None \<Rightarrow> 0 | Some n \<Rightarrow> n)\<rparr>
           in if sp_GroupBy spec \<noteq> GroupByMetadata \<and> sp_MetaKey spec \<noteq> '''' then (Inl MetaKeyMisplaced, st')
              else case ReportSpec_Validate spec of
                     Some e \<Rightarrow> (Inl (InvalidReport e), st')
                   | None \<Rightarrow>
                       (case ObservabilityRepo_Aggregate E spec st' of
                          (Inl e, st'') \<Rightarrow> (Inl (ObsFailed e), st'')
                        | (Inr report, st'') \<Rightarrow> (Inr (toUsageReport spec report), st''))))"

subsection \<open>The decision endpoint\<close>

definition optionalString :: "string \<Rightarrow> string option" where
  "optionalString s = (if s = '''' then None else Some s)"

record gDecisionTarget =
  dt_Name :: string
  dt_Provider :: "string option"
  dt_UpstreamModel :: "string option"
  dt_Region :: "string option"

record gDecisionLadder =
  dl_Targets :: "gDecisionTarget list"
  dl_ReasonKind :: "string option"
  dl_ModelAlias :: "string option"
  dl_RuleName :: "string option"
  dl_PolicyVersion :: "int option"

definition toLadder :: "Ladder \<Rightarrow> gDecisionLadder" where
  "toLadder l =
     \<lparr>dl_Targets = map (\<lambda>t. \<lparr>dt_Name = tr_Name t, dt_Provider = optionalString (tr_Provider t),
         dt_UpstreamModel = optionalString (tr_UpstreamModel t), dt_Region = optionalString (tr_Region t)\<rparr>) (la_Targets l),
      dl_ReasonKind = (if re_Kind (la_Reason l) \<noteq> '''' then Some (re_Kind (la_Reason l)) else None),
      dl_ModelAlias = optionalString (re_ModelAlias (la_Reason l)), dl_RuleName = optionalString (re_RuleName (la_Reason l)),
      dl_PolicyVersion = (if re_PolicyVersion (la_Reason l) \<noteq> 0 then Some (re_PolicyVersion (la_Reason l)) else None)\<rparr>"

record gAttemptFailure =
  gf_Kind :: string
  gf_Message :: string
  gf_Retryable :: bool
  gf_StatusCode :: "int option"

record gDecisionAttempt =
  da_Target :: string
  da_StartedAt :: time
  da_DurationMs :: int
  da_Failure :: "gAttemptFailure option"

definition toAttempts :: "Attempt list \<Rightarrow> gDecisionAttempt list" where
  "toAttempts attempts =
     map (\<lambda>a. \<lparr>da_Target = at_Target a, da_StartedAt = at_StartedAt a, da_DurationMs = at_DurationMs a,
       da_Failure = map_option (\<lambda>f. \<lparr>gf_Kind = af_Kind f, gf_Message = af_Message f, gf_Retryable = af_Retryable f,
         gf_StatusCode = (if af_StatusCode f \<noteq> 0 then Some (af_StatusCode f) else None)\<rparr>) (at_Failure a)\<rparr>) attempts"

record gDecisionCost =
  dc_ActualNanos :: int
  dc_PriceTableVersion :: "string option"
  dc_Counterfactuals :: "(string \<times> int) list"

definition toDecisionCost :: "CostBreakdown \<Rightarrow> gDecisionCost" where
  "toDecisionCost c =
     \<lparr>dc_ActualNanos = cb_Actual c, dc_PriceTableVersion = optionalString (cb_PriceTableVersion c),
      dc_Counterfactuals = map (\<lambda>cf. (cf_Target cf, cf_Cost cf)) (cb_Counterfactuals c)\<rparr>"

record gDecision =
  gd_Id :: string
  gd_OccurredAt :: time
  gd_Tenant :: string
  gd_KeyId :: "uuid option"
  gd_RequestedModel :: string
  gd_Stream :: bool
  gd_WantsUsage :: bool
  gd_Metadata :: "string \<rightharpoonup> string"
  gd_Ladder :: gDecisionLadder
  gd_Status :: Status
  gd_ChosenTarget :: "string option"
  gd_Attempts :: "gDecisionAttempt list"
  gd_Tokens :: gTokenCounts
  gd_TtftMs :: int
  gd_TotalMs :: int
  gd_Cost :: "gDecisionCost option"

definition toDecision :: "record_env \<Rightarrow> RoutingDecision \<Rightarrow> gDecision" where
  "toDecision E d =
     \<lparr>gd_Id = DecisionID_String (re_uuid_str E) (rd_ID d), gd_OccurredAt = rd_OccurredAt d, gd_Tenant = rd_Tenant d,
      gd_KeyId = (if rd_KeyID d \<noteq> 0 then Some (rd_KeyID d) else None),
      gd_RequestedModel = rs_RequestedModel (rd_Request d), gd_Stream = rs_Stream (rd_Request d),
      gd_WantsUsage = rs_WantsUsage (rd_Request d), gd_Metadata = rs_Metadata (rd_Request d), gd_Ladder = toLadder (rd_Ladder d),
      gd_Status = o_Status (rd_Outcome d),
      gd_ChosenTarget = (if ChosenTarget (rd_Outcome d) \<noteq> '''' then Some (ChosenTarget (rd_Outcome d)) else None),
      gd_Attempts = toAttempts (o_Attempts (rd_Outcome d)), gd_Tokens = toTokenCounts (o_Usage (rd_Outcome d)),
      gd_TtftMs = o_TTFTMs (rd_Outcome d), gd_TotalMs = o_TotalMs (rd_Outcome d),
      gd_Cost = map_option toDecisionCost (rd_Cost d)\<rparr>"

definition h_GetRequest :: "record_env \<Rightarrow> string \<Rightarrow> record_state \<Rightarrow> (obs_error + gDecision) \<times> record_state" where
  "h_GetRequest E decisionID st =
     (case ParseDecisionID (re_uuid_parse E) decisionID of
        Inl _ \<Rightarrow> (Inl (BadDecisionID decisionID), st)
      | Inr i \<Rightarrow>
          (case ObservabilityRepo_Get E i st of
             (Inl DecisionNotFound, st') \<Rightarrow> (Inl (NoDecision i), st')
           | (Inl e, st') \<Rightarrow> (Inl (ObsFailed e), st')
           | (Inr d, st') \<Rightarrow> (Inr (toDecision E d), st')))"

section \<open>Facts\<close>

subsection \<open>Sums over groups\<close>

lemma sum_indicator:
  assumes "distinct ks" "k \<in> set ks"
  shows "(\<Sum>x \<leftarrow> ks. if k = x then (v :: int) else 0) = v"
proof -
  have "(\<Sum>x \<leftarrow> ks. if k = x then v else 0) = 0" if "k \<notin> set ks" for ks using that by (induction ks) auto
  then show ?thesis using assms by (induction ks) auto
qed

text \<open>Summing over the groups is summing over the rows.\<close>

lemma sum_groups:
  assumes "distinct ks" "key ` set rows \<subseteq> set ks"
  shows "(\<Sum>k \<leftarrow> ks. sum_rows f (filter (\<lambda>r. key r = k) rows)) = sum_rows f rows"
  using assms(2)
proof (induction rows)
  case Nil
  then show ?case by (simp add: sum_rows_def)
next
  case (Cons r rows)
  have "(\<Sum>k \<leftarrow> ks. sum_rows f (filter (\<lambda>x. key x = k) (r # rows))) =
      (\<Sum>k \<leftarrow> ks. (if key r = k then f r else 0) + sum_rows f (filter (\<lambda>x. key x = k) rows))"
    by (rule arg_cong [where f = sum_list]) (simp add: sum_rows_def)
  also have "\<dots> = f r + sum_rows f rows"
    using Cons sum_indicator [OF assms(1), of "key r" "f r"] by (simp add: sum_list_addf)
  finally show ?case by (simp add: sum_rows_def)
qed

lemma sum_list_mset: "mset xs = mset ys \<Longrightarrow> (\<Sum>x \<leftarrow> xs. (f x :: int)) = (\<Sum>x \<leftarrow> ys. f x)"
  by (metis mset_map sum_mset_sum_list)

lemma count_as_sum: "count_rows P rows = sum_rows (\<lambda>r. if P r then 1 else 0) rows"
  by (induction rows) (simp_all add: count_rows_def sum_rows_def)

lemma length_as_sum: "int (length rows) = sum_rows (\<lambda>_. 1) rows"
  by (induction rows) (simp_all add: sum_rows_def)

subsection \<open>Totals\<close>

lemma total_field:
  assumes "\<And>t r. sel (add_row t r) = i64 (sel t + sel r)" "sel zero_row = 0"
  shows "sel (totalise rows) = i64 (\<Sum>r \<leftarrow> rows. sel r)"
proof -
  have "sel (foldl add_row t rows) = i64 (sel t + (\<Sum>r \<leftarrow> rows. sel r))" if "in_i64 (sel t)" for t
    using that
  proof (induction rows arbitrary: t)
    case Nil
    then show ?case by (simp add: i64_id)
  next
    case (Cons r rows)
    then show ?case by (simp add: assms(1) add.assoc)
  qed
  from this [of zero_row] show ?thesis by (simp add: totalise_def assms(2) in_i64_def)
qed

text \<open>A figure of the total, from the same figure of the groups.\<close>

lemma total_of_groups:
  assumes "\<And>t r. sel (add_row t r) = i64 (sel t + sel r)" "sel zero_row = 0"
    and "\<And>k rs. sel ((report_row (usage_group E k n rs))\<lparr>rr_Comparisons := cs k\<rparr>) = sum_rows f rs"
    and "mset grouped = mset (map (\<lambda>k. usage_group E k n (filter (\<lambda>r. key r = k) rows)) ks)"
    and "distinct ks" "key ` set rows \<subseteq> set ks"
  shows "sel (totalise (map (\<lambda>r. r\<lparr>rr_Comparisons := cs (rr_Key r)\<rparr>) (map report_row grouped))) = i64 (sum_rows f rows)"
proof -
  let ?g = "\<lambda>g. sel ((report_row g)\<lparr>rr_Comparisons := cs (au_Key g)\<rparr>)"
  have "(\<Sum>g \<leftarrow> grouped. ?g g) = (\<Sum>k \<leftarrow> ks. ?g (usage_group E k n (filter (\<lambda>r. key r = k) rows)))"
    using sum_list_mset [OF assms(4)] by (simp add: comp_def)
  also have "\<dots> = (\<Sum>k \<leftarrow> ks. sum_rows f (filter (\<lambda>r. key r = k) rows))"
    using assms(3) by (simp add: usage_group_def)
  also have "\<dots> = sum_rows f rows" by (rule sum_groups [OF assms(5,6)])
  finally show ?thesis by (simp add: total_field [of sel, OF assms(1,2)] comp_def report_row_def)
qed

text \<open>What the total should be: one pass over the rows of the period, however they are grouped.\<close>

definition period_total :: "UsageLedger list \<Rightarrow> ReportRow" where
  "period_total rows =
     zero_row\<lparr>rr_Requests := i64 (int (length rows)), rr_Cost := i64 (sum_rows row_cost rows),
       rr_Unpriced := i64 (count_rows (\<lambda>r. ul_CostNanos r = None) rows),
       rr_Usage := \<lparr>tu_Input = i64 (sum_rows (tu_Input \<circ> ul_Usage) rows), tu_Output = i64 (sum_rows (tu_Output \<circ> ul_Usage) rows),
         tu_CacheWrite = i64 (sum_rows (tu_CacheWrite \<circ> ul_Usage) rows), tu_CacheRead = i64 (sum_rows (tu_CacheRead \<circ> ul_Usage) rows),
         tu_Reasoning = i64 (sum_rows (tu_Reasoning \<circ> ul_Usage) rows)\<rparr>,
       rr_OK := i64 (count_rows (\<lambda>r. ul_Status r = ''ok'') rows), rr_Failed := i64 (count_rows (\<lambda>r. ul_Status r = ''exhausted'') rows),
       rr_Truncated := i64 (count_rows (\<lambda>r. ul_Status r = ''truncated'') rows),
       rr_Disconnected := i64 (count_rows (\<lambda>r. ul_Status r = ''client_disconnect'') rows)\<rparr>"

lemma total_fixed:
  "rr_Key (totalise rows) = ''''" "rr_P50TTFTMs (totalise rows) = 0" "rr_P95TTFTMs (totalise rows) = 0" "rr_P95TotalMs (totalise rows) = 0"
proof -
  have "rr_Key (foldl add_row t rows) = rr_Key t \<and> rr_P50TTFTMs (foldl add_row t rows) = rr_P50TTFTMs t \<and>
      rr_P95TTFTMs (foldl add_row t rows) = rr_P95TTFTMs t \<and> rr_P95TotalMs (foldl add_row t rows) = rr_P95TotalMs t" for t
    by (induction rows arbitrary: t) (simp_all add: add_row_def)
  then show "rr_Key (totalise rows) = ''''" "rr_P50TTFTMs (totalise rows) = 0" "rr_P95TTFTMs (totalise rows) = 0" "rr_P95TotalMs (totalise rows) = 0"
    by (simp_all add: totalise_def zero_row_def)
qed

lemma total_figures:
  assumes "mset grouped = mset (map (\<lambda>k. usage_group E k n (filter (\<lambda>r. key r = k) rows)) ks)" "distinct ks" "key ` set rows \<subseteq> set ks"
  shows "(totalise (map (\<lambda>r. r\<lparr>rr_Comparisons := cs (rr_Key r)\<rparr>) (map report_row grouped)))\<lparr>rr_Comparisons := []\<rparr> = period_total rows"
proof -
  let ?T = "totalise (map (\<lambda>r. r\<lparr>rr_Comparisons := cs (rr_Key r)\<rparr>) (map report_row grouped))"
  note fig = total_of_groups [OF _ _ _ assms]
  note defs = add_row_def add_usage_def zero_row_def report_row_def usage_group_def count_as_sum length_as_sum comp_def
  have "rr_Requests ?T = i64 (int (length rows))" unfolding length_as_sum by (rule fig) (simp_all add: defs)
  moreover have "rr_Cost ?T = i64 (sum_rows row_cost rows)" by (rule fig) (simp_all add: defs)
  moreover have "rr_Unpriced ?T = i64 (count_rows (\<lambda>r. ul_CostNanos r = None) rows)" unfolding count_as_sum by (rule fig) (simp_all add: defs)
  moreover have "tu_Input (rr_Usage ?T) = i64 (sum_rows (tu_Input \<circ> ul_Usage) rows)" by (rule fig [where sel = "\<lambda>r. tu_Input (rr_Usage r)"]) (simp_all add: defs)
  moreover have "tu_Output (rr_Usage ?T) = i64 (sum_rows (tu_Output \<circ> ul_Usage) rows)" by (rule fig [where sel = "\<lambda>r. tu_Output (rr_Usage r)"]) (simp_all add: defs)
  moreover have "tu_CacheWrite (rr_Usage ?T) = i64 (sum_rows (tu_CacheWrite \<circ> ul_Usage) rows)" by (rule fig [where sel = "\<lambda>r. tu_CacheWrite (rr_Usage r)"]) (simp_all add: defs)
  moreover have "tu_CacheRead (rr_Usage ?T) = i64 (sum_rows (tu_CacheRead \<circ> ul_Usage) rows)" by (rule fig [where sel = "\<lambda>r. tu_CacheRead (rr_Usage r)"]) (simp_all add: defs)
  moreover have "tu_Reasoning (rr_Usage ?T) = i64 (sum_rows (tu_Reasoning \<circ> ul_Usage) rows)" by (rule fig [where sel = "\<lambda>r. tu_Reasoning (rr_Usage r)"]) (simp_all add: defs)
  moreover have "rr_OK ?T = i64 (count_rows (\<lambda>r. ul_Status r = ''ok'') rows)" unfolding count_as_sum by (rule fig) (simp_all add: defs)
  moreover have "rr_Failed ?T = i64 (count_rows (\<lambda>r. ul_Status r = ''exhausted'') rows)" unfolding count_as_sum by (rule fig) (simp_all add: defs)
  moreover have "rr_Truncated ?T = i64 (count_rows (\<lambda>r. ul_Status r = ''truncated'') rows)" unfolding count_as_sum by (rule fig) (simp_all add: defs)
  moreover have "rr_Disconnected ?T = i64 (count_rows (\<lambda>r. ul_Status r = ''client_disconnect'') rows)" unfolding count_as_sum by (rule fig) (simp_all add: defs)
  ultimately show ?thesis
    using total_fixed [of "map (\<lambda>r. r\<lparr>rr_Comparisons := cs (rr_Key r)\<rparr>) (map report_row grouped)"]
    by (simp add: period_total_def zero_row_def)
qed

subsection \<open>Comparisons\<close>

text \<open>One figure of the comparison with \<open>t\<close>, absent counting as zero.\<close>

definition figure :: "(Comparison \<Rightarrow> int) \<Rightarrow> (string \<times> Comparison) list \<Rightarrow> string \<Rightarrow> int" where
  "figure sel m t = (case map_of m t of None \<Rightarrow> 0 | Some c \<Rightarrow> sel c)"

definition counter_field :: "(Comparison \<Rightarrow> int) \<Rightarrow> bool" where
  "counter_field sel \<longleftrightarrow> sel = cm_Cost \<or> sel = cm_Requests"

lemma figure_add:
  assumes "counter_field sel"
  shows "figure sel (add_comparison m tc) t = (if t = fst tc then i64 (figure sel m t + sel (snd tc)) else figure sel m t)"
  using assms unfolding counter_field_def
  by (elim disjE) (auto simp: figure_def add_comparison_def Let_def update_conv' split: option.splits)

lemma dom_add: "map_of (add_comparison m tc) t \<noteq> None \<longleftrightarrow> t = fst tc \<or> map_of m t \<noteq> None"
  by (auto simp: add_comparison_def Let_def update_conv')

lemma figure_fold:
  assumes "counter_field sel" "in_i64 (figure sel m t)"
  shows "figure sel (foldl add_comparison m cs) t = i64 (figure sel m t + (\<Sum>tc \<leftarrow> filter (\<lambda>tc. fst tc = t) cs. sel (snd tc)))"
  using assms(2)
proof (induction cs arbitrary: m)
  case Nil
  then show ?case by (simp add: i64_id)
next
  case (Cons tc cs)
  then show ?case by (auto simp: figure_add [OF assms(1)] add.assoc)
qed

lemma dom_fold: "map_of (foldl add_comparison m cs) t \<noteq> None \<longleftrightarrow> t \<in> fst ` set cs \<or> map_of m t \<noteq> None"
proof (induction cs arbitrary: m)
  case (Cons tc cs)
  then show ?case using dom_add by auto
qed simp

lemma sum_at_key:
  assumes "distinct (map fst cs)"
  shows "(\<Sum>tc \<leftarrow> filter (\<lambda>tc. fst tc = t) cs. sel (snd tc)) = figure sel cs t"
  using assms by (induction cs) (force simp: figure_def dest: map_of_SomeD split: option.splits)+

lemma total_figure:
  assumes "counter_field sel" "\<forall>r \<in> set rows. distinct (map fst (rr_Comparisons r))"
  shows "figure sel (rr_Comparisons (totalise rows)) t = i64 (\<Sum>r \<leftarrow> rows. figure sel (rr_Comparisons r) t)"
proof -
  have "figure sel (rr_Comparisons (foldl add_row z rows)) t =
      i64 (figure sel (rr_Comparisons z) t + (\<Sum>r \<leftarrow> rows. figure sel (rr_Comparisons r) t))"
    if "in_i64 (figure sel (rr_Comparisons z) t)" for z
    using assms(2) that
  proof (induction rows arbitrary: z)
    case Nil
    then show ?case by (simp add: i64_id)
  next
    case (Cons r rows)
    have "rr_Comparisons (add_row z r) = foldl add_comparison (rr_Comparisons z) (rr_Comparisons r)" by (simp add: add_row_def)
    then have step: "figure sel (rr_Comparisons (add_row z r)) t = i64 (figure sel (rr_Comparisons z) t + figure sel (rr_Comparisons r) t)"
      using figure_fold [OF assms(1) Cons.prems(2)] sum_at_key [of "rr_Comparisons r" sel t] Cons.prems(1) by simp
    then show ?case using Cons.IH [of "add_row z r"] Cons.prems(1) by (simp add: add.assoc)
  qed
  from this [of zero_row] show ?thesis by (simp add: totalise_def zero_row_def figure_def in_i64_def)
qed

lemma total_present:
  "map_of (rr_Comparisons (totalise rows)) t \<noteq> None \<longleftrightarrow> (\<exists>r \<in> set rows. t \<in> fst ` set (rr_Comparisons r))"
proof -
  have "map_of (rr_Comparisons (foldl add_row z rows)) t \<noteq> None \<longleftrightarrow>
      map_of (rr_Comparisons z) t \<noteq> None \<or> (\<exists>r \<in> set rows. t \<in> fst ` set (rr_Comparisons r))" for z
  proof (induction rows arbitrary: z)
    case (Cons r rows)
    have "rr_Comparisons (add_row z r) = foldl add_comparison (rr_Comparisons z) (rr_Comparisons r)" by (simp add: add_row_def)
    then show ?case using Cons.IH [of "add_row z r"] dom_fold [of "rr_Comparisons z" "rr_Comparisons r" t] by auto
  qed simp
  from this [of zero_row] show ?thesis by (simp add: totalise_def zero_row_def)
qed

text \<open>The comparisons of a group, from the rows of the second query.\<close>

abbreviation cf_Comparison :: "AggregateCounterfactualsRow \<Rightarrow> Comparison" where
  "cf_Comparison c \<equiv> \<lparr>cm_Cost = cr_CostNanos c, cm_Requests = cr_Requests c\<rparr>"

lemma comparisons_snoc:
  "comparisons_of (cfs @ [c]) key =
     (if cr_Key c = key then AList.update (cr_Target c) (cf_Comparison c) (comparisons_of cfs key) else comparisons_of cfs key)"
  by (simp add: comparisons_of_def)

lemma comparisons_distinct: "distinct (map fst (comparisons_of cfs key))"
proof (induction cfs rule: rev_induct)
  case Nil
  then show ?case by (simp add: comparisons_of_def)
next
  case (snoc c cfs)
  then show ?case by (simp add: comparisons_snoc distinct_update)
qed

lemma comparisons_present: "t \<in> fst ` set (comparisons_of cfs key) \<longleftrightarrow> (\<exists>c \<in> set cfs. cr_Key c = key \<and> cr_Target c = t)"
proof (induction cfs rule: rev_induct)
  case Nil
  then show ?case by (simp add: comparisons_of_def)
next
  case (snoc c cfs)
  then show ?case by (auto simp: comparisons_snoc dom_update)
qed

lemma comparisons_figure:
  assumes "distinct (map (\<lambda>c. (cr_Key c, cr_Target c)) cfs)"
  shows "figure sel (comparisons_of cfs key) t =
    (\<Sum>c \<leftarrow> filter (\<lambda>c. cr_Key c = key \<and> cr_Target c = t) cfs. sel (cf_Comparison c))"
  using assms
proof (induction cfs rule: rev_induct)
  case Nil
  then show ?case by (simp add: comparisons_of_def figure_def)
next
  case (snoc c cfs)
  have "filter (\<lambda>x. cr_Key x = key \<and> cr_Target x = t) cfs = []" if "cr_Key c = key" "cr_Target c = t"
    unfolding filter_empty_conv using snoc.prems that by (auto simp: image_iff)
  then show ?case using snoc by (auto simp: comparisons_snoc figure_def update_conv')
qed

definition weight :: "(Comparison \<Rightarrow> int) \<Rightarrow> ((string \<times> string) \<times> int) \<Rightarrow> int" where
  "weight sel e = sel \<lparr>cm_Cost = snd e, cm_Requests = 1\<rparr>"

lemma weights: "weight cm_Cost = snd" "weight cm_Requests = (\<lambda>_. 1)"
  by (simp_all add: fun_eq_iff weight_def)

lemma filter_one: "distinct xs \<Longrightarrow> x \<in> set xs \<Longrightarrow> filter (\<lambda>y. y = x) xs = [x]"
  by (induction xs) (auto simp: filter_empty_conv)

lemma weight_group:
  assumes "counter_field sel"
  shows "sel (cf_Comparison (counterfactual_group entries k)) = sum_rows (weight sel) (filter (\<lambda>e. fst e = k) entries)"
  using assms unfolding counter_field_def
  by (elim disjE) (simp_all add: counterfactual_group_def Let_def weights length_as_sum sum_rows_def)

lemma group_figure:
  assumes "counter_field sel" "cfs = map (counterfactual_group entries) (remdups (map fst entries))"
  shows "figure sel (comparisons_of cfs key) t = sum_rows (weight sel) (filter (\<lambda>e. fst e = (key, t)) entries)"
proof -
  have ids: "(\<lambda>c. (cr_Key c, cr_Target c)) \<circ> counterfactual_group entries = id"
    by (rule ext) (simp add: counterfactual_group_def Let_def)
  then have "distinct (map (\<lambda>c. (cr_Key c, cr_Target c)) cfs)" unfolding assms(2) map_map by simp
  note fig = comparisons_figure [OF this, of sel key t]
  have sel: "filter (\<lambda>c. cr_Key c = key \<and> cr_Target c = t) cfs =
      map (counterfactual_group entries) (filter (\<lambda>k. k = (key, t)) (remdups (map fst entries)))"
    by (auto simp: assms(2) filter_map comp_def counterfactual_group_def Let_def prod_eq_iff intro!: arg_cong [where f = "map _"] filter_cong)
  show ?thesis
  proof (cases "(key, t) \<in> set (map fst entries)")
    case True
    then have "filter (\<lambda>k. k = (key, t)) (remdups (map fst entries)) = [(key, t)]"
      by (intro filter_one) simp_all
    then show ?thesis using fig sel weight_group [OF assms(1)] by simp
  next
    case False
    then have "filter (\<lambda>k. k = (key, t)) (remdups (map fst entries)) = []" "filter (\<lambda>e. fst e = (key, t)) entries = []"
      by (force simp: filter_empty_conv)+
    then show ?thesis using fig sel by (simp add: sum_rows_def)
  qed
qed

text \<open>What the total should say of a comparison, again in one pass.\<close>

definition period_comparison :: "record_env \<Rightarrow> UsageLedger list \<Rightarrow> string \<Rightarrow> Comparison option" where
  "period_comparison E rows t =
     (let cs = filter (\<lambda>e. fst e = t) (concat (map (\<lambda>r. re_comparisons E (ul_Counterfactuals r)) rows))
      in if cs = [] then None else Some \<lparr>cm_Cost = i64 (sum_rows snd cs), cm_Requests = i64 (int (length cs))\<rparr>)"

lemma expanded_target:
  "map snd (filter (\<lambda>e. snd (fst e) = t) (expanded E key rows)) =
   map snd (filter (\<lambda>e. fst e = t) (concat (map (\<lambda>r. re_comparisons E (ul_Counterfactuals r)) rows)))"
proof (induction rows)
  case (Cons r rows)
  have "map snd (filter (\<lambda>e. snd (fst e) = t) (map (\<lambda>(t, c). ((key r, t), c)) cs)) = map snd (filter (\<lambda>e. fst e = t) cs)" for cs
    by (induction cs) auto
  then show ?case using Cons by (simp add: expanded_def)
qed (simp add: expanded_def)

lemma expanded_keys: "fst ` fst ` set (expanded E key rows) \<subseteq> key ` set rows"
  by (auto simp: expanded_def)

lemma sum_weight: "sum_rows (weight cm_Cost) es = sum_list (map snd es)" "sum_rows (weight cm_Requests) es = int (length (map snd es))"
  by (simp_all only: weights) (simp_all add: sum_rows_def sum_list_triv)

lemma total_comparisons:
  assumes entries: "entries = expanded E key rows" "cfs = map (counterfactual_group entries) (remdups (map fst entries))"
    and rrows: "\<forall>r \<in> set rrows. rr_Comparisons r = comparisons_of cfs (rr_Key r)"
    and keys: "distinct (map rr_Key rrows)" "key ` set rows \<subseteq> set (map rr_Key rrows)"
  shows "map_of (rr_Comparisons (totalise rrows)) t = period_comparison E rows t"
proof -
  let ?es = "filter (\<lambda>e. snd (fst e) = t) entries" and ?total = "rr_Comparisons (totalise rrows)"
  let ?cs = "filter (\<lambda>e. fst e = t) (concat (map (\<lambda>r. re_comparisons E (ul_Counterfactuals r)) rows))"
  have sub: "(\<lambda>e. fst (fst e)) ` set ?es \<subseteq> set (map rr_Key rrows)"
    using expanded_keys [of E key rows] keys(2) entries(1) by auto
  have split: "filter (\<lambda>e. fst e = (k, t)) entries = filter (\<lambda>e. fst (fst e) = k) ?es" for k
    by (induction entries) (auto simp: prod_eq_iff)
  have fig: "figure sel ?total t = i64 (sum_rows (weight sel) ?es)" if "counter_field sel" for sel
  proof -
    have "(\<Sum>r \<leftarrow> rrows. figure sel (rr_Comparisons r) t) =
        (\<Sum>k \<leftarrow> map rr_Key rrows. sum_rows (weight sel) (filter (\<lambda>e. fst (fst e) = k) ?es))"
      using rrows group_figure [OF that entries(2), of _ t] unfolding split map_map
      by (intro arg_cong [where f = sum_list] map_cong) auto
    then show ?thesis using total_figure [OF that, of rrows t] rrows comparisons_distinct sum_groups [OF keys(1) sub] by simp
  qed
  have same: "map snd ?es = map snd ?cs" using expanded_target entries(1) by simp
  have "map_of ?total t \<noteq> None \<longleftrightarrow> (\<exists>r \<in> set rrows. \<exists>c \<in> set cfs. cr_Key c = rr_Key r \<and> cr_Target c = t)"
    unfolding total_present using rrows comparisons_present by (intro bex_cong) auto
  also have "\<dots> \<longleftrightarrow> ?es \<noteq> []"
    using sub unfolding entries(2) by (force simp: counterfactual_group_def Let_def filter_empty_conv)
  also have "\<dots> \<longleftrightarrow> ?cs \<noteq> []" using same by (metis map_is_Nil_conv)
  finally have present: "map_of ?total t \<noteq> None \<longleftrightarrow> ?cs \<noteq> []" .
  have "figure cm_Cost ?total t = i64 (sum_rows snd ?cs)" "figure cm_Requests ?total t = i64 (int (length ?cs))"
    using fig [of cm_Cost] fig [of cm_Requests] unfolding sum_weight same counter_field_def by (simp_all add: sum_rows_def)
  then show ?thesis
    using present by (cases "map_of ?total t") (auto simp: period_comparison_def Let_def figure_def)
qed

subsection \<open>The report\<close>

text \<open>Figures that fit a \<open>bigint\<close>: none negative, and the sum over the period in range.\<close>

definition sum_fits :: "('a \<Rightarrow> int) \<Rightarrow> 'a list \<Rightarrow> bool" where
  "sum_fits f rows \<longleftrightarrow> list_all (\<lambda>r. 0 \<le> f r) rows \<and> in_i64 (sum_rows f rows)"

definition ledger_fits :: "record_env \<Rightarrow> UsageLedger list \<Rightarrow> bool" where
  "ledger_fits E rows \<longleftrightarrow>
     sum_fits row_cost rows \<and> sum_fits (tu_Input \<circ> ul_Usage) rows \<and> sum_fits (tu_Output \<circ> ul_Usage) rows \<and>
     sum_fits (tu_CacheRead \<circ> ul_Usage) rows \<and> sum_fits (tu_CacheWrite \<circ> ul_Usage) rows \<and> sum_fits (tu_Reasoning \<circ> ul_Usage) rows \<and>
     sum_fits snd (concat (map (\<lambda>r. re_comparisons E (ul_Counterfactuals r)) rows))"

lemma sum_fits_filter: "sum_fits f rows \<Longrightarrow> in_i64 (sum_rows f (filter P rows))"
proof -
  assume fits: "sum_fits f rows"
  have "list_all (\<lambda>r. 0 \<le> f r) rows \<Longrightarrow> 0 \<le> sum_rows f (filter P rows) \<and> sum_rows f (filter P rows) \<le> sum_rows f rows"
    by (induction rows) (auto simp: sum_rows_def)
  then show ?thesis using fits unfolding sum_fits_def in_i64_def by linarith
qed

lemma groups_fit: "ledger_fits E rows \<Longrightarrow> bigints (usage_group E k n (filter P rows))"
  by (simp add: ledger_fits_def bigints_def usage_group_def sum_fits_filter)

lemma expanded_costs: "map snd (expanded E key rows) = map snd (concat (map (\<lambda>r. re_comparisons E (ul_Counterfactuals r)) rows))"
proof (induction rows)
  case (Cons r rows)
  have "map snd (map (\<lambda>(t, c). ((key r, t), c)) cs) = map snd cs" for cs by (induction cs) auto
  then show ?case using Cons by (simp add: expanded_def)
qed (simp add: expanded_def)

lemma sum_fits_snd: "map snd xs = map snd ys \<Longrightarrow> sum_fits snd xs = sum_fits snd ys"
  by (simp add: sum_fits_def sum_rows_def list_all_iff flip: ball_simps(9) [of snd] set_map)

definition group_order_ok :: "record_env \<Rightarrow> bool" where
  "group_order_ok E \<longleftrightarrow> (\<forall>ks. mset (re_group_order E ks) = mset ks)"

definition report_limit :: "ReportSpec \<Rightarrow> int" where
  "report_limit spec = (if sp_Limit spec = 0 then DefaultReportLimit else sp_Limit spec)"

text \<open>What the two queries answer.\<close>

definition report_groups :: "record_env \<Rightarrow> ReportSpec \<Rightarrow> UsageLedger list \<Rightarrow> AggregateUsageRow list" where
  "report_groups E spec rows =
     (let key = group_key E (sp_GroupBy spec) (sp_MetaKey spec);
          keys = re_group_order E (remdups (map key rows))
      in sort_key (\<lambda>g. (- au_CostNanos g, - au_Requests g))
           (map (\<lambda>k. usage_group E k (int (length keys)) (filter (\<lambda>r. key r = k) rows)) keys))"

definition report_cfs :: "record_env \<Rightarrow> ReportSpec \<Rightarrow> UsageLedger list \<Rightarrow> AggregateCounterfactualsRow list" where
  "report_cfs E spec rows =
     (let entries = expanded E (group_key E (sp_GroupBy spec) (sp_MetaKey spec)) rows
      in map (counterfactual_group entries) (remdups (map fst entries)))"

lemma usage_answer:
  assumes "ledger_fits E rows" "rows = ledger_range i (sp_Since spec) (sp_Until spec) db"
  shows "q_AggregateUsage E i (sp_Since spec) (sp_Until spec) (sp_GroupBy spec) (sp_MetaKey spec) n db =
    (Inr (take (nat n) (report_groups E spec rows)), db)"
  using groups_fit [OF assms(1)]
  by (simp add: q_AggregateUsage_def Let_def assms(2) report_groups_def list_all_iff)

lemma counterfactual_answer:
  assumes "ledger_fits E rows" "rows = ledger_range i (sp_Since spec) (sp_Until spec) db"
  shows "q_AggregateCounterfactuals E i (sp_Since spec) (sp_Until spec) (sp_GroupBy spec) (sp_MetaKey spec) db =
    (Inr (report_cfs E spec rows), db)"
proof -
  have "sum_fits snd (expanded E key rows)" for key
    using assms(1) sum_fits_snd [OF expanded_costs [of E key rows]] by (simp add: ledger_fits_def)
  then have "in_i64 (cr_CostNanos (counterfactual_group (expanded E key rows) k))" for key k
    by (simp add: counterfactual_group_def Let_def sum_fits_filter)
  then show ?thesis by (simp add: q_AggregateCounterfactuals_def Let_def assms(2) report_cfs_def list_all_iff)
qed

definition report_rows :: "record_env \<Rightarrow> ReportSpec \<Rightarrow> UsageLedger list \<Rightarrow> ReportRow list" where
  "report_rows E spec rows =
     map (\<lambda>r. r\<lparr>rr_Comparisons := comparisons_of (report_cfs E spec rows) (rr_Key r)\<rparr>)
       (map report_row (take (nat (report_limit spec)) (report_groups E spec rows)))"

lemma limit_bounds:
  assumes "ReportSpec_Validate spec = None"
  shows "0 < report_limit spec" "i32 (report_limit spec) = report_limit spec"
  using assms by (auto simp: report_limit_def ReportSpec_Validate_def MaxReportLimit_def DefaultReportLimit_def i32_def split: if_splits)

lemma groups_of_rows:
  assumes "group_order_ok E" "key = group_key E (sp_GroupBy spec) (sp_MetaKey spec)" "ks = re_group_order E (remdups (map key rows))"
  shows "mset (report_groups E spec rows) = mset (map (\<lambda>k. usage_group E k (int (length ks)) (filter (\<lambda>r. key r = k) rows)) ks)"
    "distinct ks" "set ks = key ` set rows" "\<forall>g \<in> set (report_groups E spec rows). au_TotalGroups g = int (length ks)"
    "length (report_groups E spec rows) = length ks" "mset (map au_Key (report_groups E spec rows)) = mset ks"
proof -
  have m: "mset ks = mset (remdups (map key rows))" using assms(1,3) by (simp add: group_order_ok_def)
  then show "distinct ks" by (metis distinct_remdups mset_eq_imp_distinct_iff)
  show "set ks = key ` set rows" using mset_eq_setD [OF m] by simp
  show all: "mset (report_groups E spec rows) = mset (map (\<lambda>k. usage_group E k (int (length ks)) (filter (\<lambda>r. key r = k) rows)) ks)"
    by (simp add: report_groups_def Let_def assms(2,3))
  show "length (report_groups E spec rows) = length ks" using mset_eq_length [OF all] by simp
  show "\<forall>g \<in> set (report_groups E spec rows). au_TotalGroups g = int (length ks)"
    using mset_eq_setD [OF all] by (auto simp: usage_group_def)
  have "mset (map au_Key (report_groups E spec rows)) =
      mset (map au_Key (map (\<lambda>k. usage_group E k (int (length ks)) (filter (\<lambda>r. key r = k) rows)) ks))"
    unfolding mset_map [of au_Key] all ..
  then show "mset (map au_Key (report_groups E spec rows)) = mset ks" by (simp add: usage_group_def comp_def)
qed

lemma report_body_runs:
  assumes "pg_up p" "ledger_fits E rows" "rows = ledger_range i (sp_Since spec) (sp_Until spec) (pg_db p)"
    and "ReportSpec_Validate spec = None" "group_order_ok E" "in_i64 (int (length (report_groups E spec rows)))"
  shows "\<exists>q. report_body E spec i (report_limit spec) p =
    (Inr \<lparr>rp_Spec = \<lparr>rg_Tenant = sp_Tenant spec, rg_Since = sp_Since spec, rg_Until = sp_Until spec\<rparr>,
       rp_Rows = report_rows E spec rows, rp_Total = totalise (report_rows E spec rows),
       rp_TruncatedGroups = int (length (report_groups E spec rows) - length (report_rows E spec rows))\<rparr>, q)"
proof -
  let ?g = "report_groups E spec rows" and ?n = "nat (report_limit spec)"
  have len: "length (report_rows E spec rows) = length (take ?n ?g)" by (simp add: report_rows_def)
  have groups: "(if take ?n ?g = [] then 0 else au_TotalGroups (last (take ?n ?g))) = int (length ?g)"
  proof (cases "?g = []")
    case False
    then have "take ?n ?g \<noteq> []" using limit_bounds(1) [OF assms(4)] by simp
    moreover from this have "last (take ?n ?g) \<in> set ?g" by (meson in_set_takeD last_in_set)
    ultimately show ?thesis using groups_of_rows(4,5) [OF assms(5) refl refl, of spec rows] by simp
  qed simp
  have trunc: "(if int (length ?g) > int (length (take ?n ?g)) then i64 (int (length ?g) - int (length (take ?n ?g))) else 0) =
      int (length ?g - length (take ?n ?g))"
    using assms(6) by (auto simp: in_i64_def min_def i64_id of_nat_diff)
  let ?p = "(pg_pop p)\<lparr>pg_db := pg_db p\<rparr>"
  have usage: "pg_stmt RecordsFailed (q_AggregateUsage E i (sp_Since spec) (sp_Until spec) (sp_GroupBy spec) (sp_MetaKey spec)
      (report_limit spec)) p = (Inr (take ?n ?g), ?p)"
    using assms(1) usage_answer [OF assms(2,3)] by (simp add: pg_stmt_def)
  have attach: "attachComparisons E spec i (map report_row (take ?n ?g)) ?p =
      (Inr (report_rows E spec rows), (pg_pop ?p)\<lparr>pg_db := pg_db p\<rparr>)"
    using assms(1) counterfactual_answer [OF assms(2,3)]
    by (simp add: attachComparisons_def pg_bind_def pg_stmt_def pg_return_def report_rows_def)
  show ?thesis
    unfolding report_body_def limit_bounds(2) [OF assms(4)] pg_bind_def usage Let_def prod.case sum.case groups attach len trunc
      pg_return_def by blast
qed

section \<open>Properties\<close>

text \<open>C12. On servers that answer and figures in range, a report is made. Its rows are at most the limit,
  most expensive first; \<open>truncated_groups\<close> is how many groups they leave out; and when that is zero, the
  total is the one pass over the period's rows: requests, cost, tokens, outcomes and every comparison do not
  depend on how the report is grouped.\<close>

theorem report_total_exact:
  assumes "pg_up (ws_admin st)" "cache_ok (ws_tenants st) (pg_db (ws_admin st))" "admin_ok (pg_db (ws_admin st))"
    and "find_external (sp_Tenant spec) (pg_db (ws_admin st)) = Some t" "pg_up (ws_pg st)"
    and "ReportSpec_Validate spec = None" "group_order_ok E"
    and rows: "rows = ledger_range (ta_ID t) (sp_Since spec) (sp_Until spec) (pg_db (ws_pg st))"
    and "ledger_fits E rows" "in_i64 (int (length rows))"
  shows "\<exists>rep st'. ObservabilityRepo_Aggregate E spec st = (Inr rep, st') \<and>
    int (length (rp_Rows rep)) \<le> report_limit spec \<and>
    sorted (map (\<lambda>r. (- rr_Cost r, - rr_Requests r)) (rp_Rows rep)) \<and>
    rp_TruncatedGroups rep + int (length (rp_Rows rep)) =
      int (card (group_key E (sp_GroupBy spec) (sp_MetaKey spec) ` set rows)) \<and>
    (rp_TruncatedGroups rep = 0 \<longrightarrow>
       (rp_Total rep)\<lparr>rr_Comparisons := []\<rparr> = period_total rows \<and>
       (\<forall>target. map_of (rr_Comparisons (rp_Total rep)) target = period_comparison E rows target))"
proof -
  let ?key = "group_key E (sp_GroupBy spec) (sp_MetaKey spec)" and ?g = "report_groups E spec rows"
  let ?ks = "re_group_order E (remdups (map ?key rows))" and ?R = "report_rows E spec rows"
  note g = groups_of_rows [OF assms(7) refl refl, of spec rows]
  have card: "length ?g = card (?key ` set rows)" using g(2,3,5) distinct_card by metis
  then have "length ?g \<le> length rows" by (metis card_image_le card_length finite_set le_trans)
  then have fits: "in_i64 (int (length ?g))" using assms(10) by (simp add: in_i64_def)
  obtain c a where look: "TenantIDs_Lookup (sp_Tenant spec) (ws_tenants st) (ws_admin st) = (Inr (ta_ID t), c, a)"
    using Lookup_up [OF assms(1-4)] by blast
  obtain q where body: "report_body E spec (ta_ID t) (report_limit spec) (pg_pop (ws_pg st)) =
      (Inr \<lparr>rp_Spec = \<lparr>rg_Tenant = sp_Tenant spec, rg_Since = sp_Since spec, rg_Until = sp_Until spec\<rparr>,
         rp_Rows = ?R, rp_Total = totalise ?R, rp_TruncatedGroups = int (length ?g - length ?R)\<rparr>, q)"
    using report_body_runs [of "pg_pop (ws_pg st)", OF _ assms(9) _ assms(6,7) fits] assms(5) rows by auto
  have limit: "length ?R = min (length ?g) (nat (report_limit spec))" by (simp add: report_rows_def)
  have order: "sorted (map (\<lambda>r. (- rr_Cost r, - rr_Requests r)) ?R)"
  proof -
    have "map (\<lambda>r. (- rr_Cost r, - rr_Requests r)) ?R = take (nat (report_limit spec)) (map (\<lambda>g. (- au_CostNanos g, - au_Requests g)) ?g)"
      by (simp add: report_rows_def report_row_def comp_def take_map)
    moreover have "sorted (map (\<lambda>g. (- au_CostNanos g, - au_Requests g)) ?g)" by (simp add: report_groups_def Let_def)
    ultimately show ?thesis by (metis sorted_wrt_take)
  qed
  have total: "(totalise ?R)\<lparr>rr_Comparisons := []\<rparr> = period_total rows \<and>
      (\<forall>target. map_of (rr_Comparisons (totalise ?R)) target = period_comparison E rows target)" if "length ?g - length ?R = 0"
  proof -
    have R: "?R = map (\<lambda>r. r\<lparr>rr_Comparisons := comparisons_of (report_cfs E spec rows) (rr_Key r)\<rparr>) (map report_row ?g)"
      using that limit by (simp add: report_rows_def)
    then have "map rr_Key ?R = map au_Key ?g" by (simp add: report_row_def comp_def)
    then have keys: "distinct (map rr_Key ?R)" "?key ` set rows \<subseteq> set (map rr_Key ?R)"
      using g(2,3,6) mset_eq_imp_distinct_iff mset_eq_setD by (metis, metis order_refl)
    have "\<forall>r \<in> set ?R. rr_Comparisons r = comparisons_of (report_cfs E spec rows) (rr_Key r)" by (simp add: R)
    then show ?thesis
      using total_figures [OF g(1,2), of "comparisons_of (report_cfs E spec rows)"] g(3)
        total_comparisons [OF refl _ _ keys, of "report_cfs E spec rows"]
      by (simp add: R report_cfs_def Let_def)
  qed
  show ?thesis
    using look body limit order total card limit_bounds(1) [OF assms(6)] assms(5,6)
    by (simp add: ObservabilityRepo_Aggregate_def read_tx_def flip: report_limit_def)
qed

definition y_row :: "uuid \<Rightarrow> time \<Rightarrow> string \<Rightarrow> int option \<Rightarrow> UsageLedger" where
  "y_row i at model cost =
     \<lparr>ul_ID = i, ul_StartedAt = at, ul_TenantID = 7, ul_KeyID = None, ul_RequestID = None, ul_RequestedModel = model, ul_ChosenTarget = Some ''a'',
      ul_Status = ''ok'', ul_Usage = \<lparr>tu_Input = 10, tu_Output = 5, tu_CacheWrite = 0, tu_CacheRead = 0, tu_Reasoning = 0\<rparr>,
      ul_CostNanos = cost, ul_TokenSource = ''provider'', ul_PricingVersion = None, ul_Billable = True, ul_TtftMs = Some 3,
      ul_TotalMs = Some 9, ul_Metadata = ''{}'', ul_Counterfactuals = ''[]''\<rparr>"

definition y_env :: record_env where
  "y_env = x_env\<lparr>re_comparisons := (\<lambda>_. [(''b'', 2)])\<rparr>"

definition y_state :: record_state where
  "y_state = x_state\<lparr>ws_pg := \<lparr>pg_db = x_db\<lparr>rt_ledger := [y_row 1 10 ''m'' (Some 4), y_row 2 20 ''n'' None, y_row 3 30 ''m'' (Some 6)]\<rparr>,
     pg_faults = []\<rparr>\<rparr>"

definition y_spec :: ReportSpec where
  "y_spec = \<lparr>sp_Tenant = ''acme'', sp_Since = 5, sp_Until = 25, sp_GroupBy = GroupByModel, sp_MetaKey = '''', sp_Limit = 0\<rparr>"

theorem report_total_exact_witness:
  "\<exists>rep st'. ObservabilityRepo_Aggregate y_env y_spec y_state = (Inr rep, st') \<and>
    int (length (rp_Rows rep)) \<le> 500 \<and>
    sorted (map (\<lambda>r. (- rr_Cost r, - rr_Requests r)) (rp_Rows rep)) \<and>
    rp_TruncatedGroups rep + int (length (rp_Rows rep)) = 2 \<and>
    (rp_TruncatedGroups rep \<noteq> 0 \<or>
       (rp_Total rep)\<lparr>rr_Comparisons := []\<rparr> = period_total [y_row 1 10 ''m'' (Some 4), y_row 2 20 ''n'' None] \<and>
       map_of (rr_Comparisons (rp_Total rep)) ''b'' = Some \<lparr>cm_Cost = 4, cm_Requests = 2\<rparr>)"
proof -
  let ?rows = "[y_row 1 10 ''m'' (Some 4), y_row 2 20 ''n'' None]"
  have admin: "pg_up (ws_admin y_state)" "cache_ok (ws_tenants y_state) (pg_db (ws_admin y_state))" "admin_ok (pg_db (ws_admin y_state))"
    using x_readable by (simp_all add: readable_tenant_def y_state_def)
  have tenant: "find_external (sp_Tenant y_spec) (pg_db (ws_admin y_state)) = Some x_tenant"
    by (simp add: y_spec_def y_state_def x_state_def x_admin_def find_external_def x_tenant_def)
  have up: "pg_up (ws_pg y_state)" by (simp add: y_state_def pg_up_def)
  have valid: "ReportSpec_Validate y_spec = None" "group_order_ok y_env" "report_limit y_spec = 500"
    by (simp_all add: ReportSpec_Validate_def y_spec_def zero_time_def GroupByModel_def GroupByMetadata_def MaxReportLimit_def
        GroupBy_Valid_def GroupBys_def group_order_ok_def y_env_def x_env_def report_limit_def DefaultReportLimit_def)
  have rows: "?rows = ledger_range (ta_ID x_tenant) (sp_Since y_spec) (sp_Until y_spec) (pg_db (ws_pg y_state))"
    by (simp add: ledger_range_def y_state_def x_state_def x_db_def y_row_def y_spec_def x_tenant_def)
  have fits: "ledger_fits y_env ?rows" "in_i64 (int (length ?rows))"
    by (simp_all add: ledger_fits_def sum_fits_def y_row_def row_cost_def in_i64_def sum_rows_def y_env_def)
  have keys: "card (group_key y_env (sp_GroupBy y_spec) (sp_MetaKey y_spec) ` set ?rows) = 2"
    by (simp add: group_key_def y_spec_def GroupByModel_def y_row_def)
  have b: "period_comparison y_env ?rows ''b'' = Some \<lparr>cm_Cost = 4, cm_Requests = 2\<rparr>"
    by (simp add: period_comparison_def y_env_def sum_rows_def i64_def)
  obtain rep st' where rep: "ObservabilityRepo_Aggregate y_env y_spec y_state = (Inr rep, st')"
    "int (length (rp_Rows rep)) \<le> 500" "sorted (map (\<lambda>r. (- rr_Cost r, - rr_Requests r)) (rp_Rows rep))"
    "rp_TruncatedGroups rep + int (length (rp_Rows rep)) = int 2"
    "rp_TruncatedGroups rep = 0 \<longrightarrow> (rp_Total rep)\<lparr>rr_Comparisons := []\<rparr> = period_total ?rows \<and>
       (\<forall>target. map_of (rr_Comparisons (rp_Total rep)) target = period_comparison y_env ?rows target)"
    using report_total_exact [OF admin tenant up valid(1,2) rows fits] unfolding keys valid(3) by blast
  have "rp_TruncatedGroups rep + int (length (rp_Rows rep)) = 2" using rep(4) by simp
  moreover have "rp_TruncatedGroups rep \<noteq> 0 \<or> (rp_Total rep)\<lparr>rr_Comparisons := []\<rparr> = period_total ?rows \<and>
      map_of (rr_Comparisons (rp_Total rep)) ''b'' = Some \<lparr>cm_Cost = 4, cm_Requests = 2\<rparr>"
    using rep(5) b by (cases "rp_TruncatedGroups rep = 0") simp_all
  ultimately show ?thesis using rep(1-3) by (intro exI [of _ rep] exI [of _ st'] conjI)
qed

subsection \<open>The key of a decision\<close>

lemma ledger_no_key: "ledger_decision E i tenant entry = Some d \<Longrightarrow> rd_KeyID d = 0"
  by (auto simp: ledger_decision_def split: option.split_asm)

lemma hydrate_keeps_key: "hydrateLadder E a d = Some d' \<Longrightarrow> rd_KeyID d' = rd_KeyID d"
  unfolding hydrateLadder_def Let_def by (simp split: option.split_asm) auto

lemma Get_key: "ObservabilityRepo_Get E i st = (Inr d, st') \<Longrightarrow> rd_KeyID d = 0"
  unfolding ObservabilityRepo_Get_def Let_def
  by (simp split: prod.split_asm sum.split_asm option.split_asm) (metis ledger_no_key hydrate_keeps_key)+

text \<open>The decision endpoint shows no key, whatever the ledger holds.\<close>

lemma decision_endpoint_hides_key: "h_GetRequest E s st = (Inr g, st') \<Longrightarrow> gd_KeyId g = None"
  by (auto simp: h_GetRequest_def toDecision_def split: prod.splits sum.splits record_error.splits dest: Get_key)

end
