(* ===== verification/Record_Pipeline.thy ===== *)
theory Record_Pipeline
  imports Decision_Sink Records
begin

text \<open>
  The sink of \<open>bootstrap/sink.go\<close>: the buffered sink over the record writer. The writer's state carries beside
  the databases the decisions it was given and those it reported as stored, in order.
\<close>

section \<open>Definitions\<close>

type_synonym pipeline = "RoutingDecision list \<times> RoutingDecision list \<times> record_state"

definition store_batch :: "record_env \<Rightarrow> RoutingDecision list \<Rightarrow> pipeline \<Rightarrow> bool \<times> pipeline" where
  "store_batch E batch pl =
     (case pl of (given, stored, st) \<Rightarrow>
        (case RecordWriter_Write E batch st of
           (Inl _, st') \<Rightarrow> (True, given @ batch, stored, st')
         | (Inr _, st') \<Rightarrow> (False, given @ batch, stored @ batch, st')))"

section \<open>Facts\<close>

subsection \<open>The tables under a sequence of writes\<close>

text \<open>The rows of one table: no two of the same id, ids only of old rows and given decisions, and a row for
  every stored decision.\<close>

definition table_ok :: "('r \<Rightarrow> uuid) \<Rightarrow> ('r \<Rightarrow> 'r) \<Rightarrow> (RoutingDecision \<Rightarrow> uuid \<Rightarrow> 'r option) \<Rightarrow> admin_db \<Rightarrow> uuid list \<Rightarrow>
    RoutingDecision list \<Rightarrow> RoutingDecision list \<Rightarrow> 'r list \<Rightarrow> bool" where
  "table_ok key keep row adb old given stored rows \<longleftrightarrow>
     distinct (map key rows) \<and> set (map key rows) \<subseteq> set old \<union> set (map rd_ID given) \<and>
     (\<forall>d \<in> set stored. \<exists>r. decision_row row adb d r \<and> keep r \<in> set rows)"

lemma table_grows:
  assumes "table_ok key keep row adb old given stored rows" "list_all2 (decision_row row adb) batch rs"
    and "\<forall>d i r. row d i = Some r \<longrightarrow> key r = rd_ID d" "\<And>r. key (keep r) = key r" "distinct (old @ map rd_ID (given @ batch))"
  shows "table_ok key keep row adb old (given @ batch) (stored @ batch) (rows @ map keep rs)"
    "table_ok key keep row adb old (given @ batch) stored (rows @ map keep rs)"
proof -
  have keys: "map key rs = map rd_ID batch"
    using assms(2) by (induction rule: list_all2_induct) (use assms(3) in \<open>auto simp: decision_row_def\<close>)
  then have all: "map key (rows @ map keep rs) = map key rows @ map rd_ID batch" using assms(4) by (simp add: comp_def)
  have sub: "set (map key rows) \<subseteq> set old \<union> set (map rd_ID given)" "distinct (map key rows)"
    using assms(1) unfolding table_ok_def by simp_all
  moreover have "(set old \<union> set (map rd_ID given)) \<inter> set (map rd_ID batch) = {}" "distinct (map rd_ID batch)"
    using assms(5) by auto
  ultimately have "distinct (map key rows @ map rd_ID batch)" unfolding distinct_append by blast
  then have "distinct (map key (rows @ map keep rs)) \<and> set (map key (rows @ map keep rs)) \<subseteq> set old \<union> set (map rd_ID (given @ batch))"
    unfolding all using sub by auto
  moreover have "\<exists>r. decision_row row adb d r \<and> keep r \<in> set (map keep rs)" if "d \<in> set batch" for d
    using assms(2) that by (induction rule: list_all2_induct) auto
  ultimately show "table_ok key keep row adb old (given @ batch) (stored @ batch) (rows @ map keep rs)"
    "table_ok key keep row adb old (given @ batch) stored (rows @ map keep rs)"
    using assms(1) unfolding table_ok_def by (auto, metis)
qed

lemma table_given: "table_ok key keep row adb old given stored rows \<Longrightarrow> table_ok key keep row adb old (given @ batch) stored rows"
  unfolding table_ok_def by auto

definition tables_ok :: "record_env \<Rightarrow> admin_db \<Rightarrow> record_db \<Rightarrow> pipeline \<Rightarrow> bool" where
  "tables_ok E adb db0 pl \<longleftrightarrow>
     (case pl of (given, stored, st) \<Rightarrow>
        cache_ok (ws_tenants st) adb \<and> pg_db (ws_admin st) = adb \<and>
        rt_time (pg_db (ws_pg st)) = rt_time db0 \<and> rt_jsonb (pg_db (ws_pg st)) = rt_jsonb db0 \<and>
        table_ok ul_ID (keep_ledger db0) (ledgerRow E) adb (map ul_ID (rt_ledger db0)) given stored (rt_ledger (pg_db (ws_pg st))) \<and>
        table_ok al_ID (keep_audit db0) (auditRow E) adb (map al_ID (rt_audit db0)) given stored (rt_audit (pg_db (ws_pg st))))"

lemma keep_same: "rt_time db = rt_time db0 \<Longrightarrow> rt_jsonb db = rt_jsonb db0 \<Longrightarrow> keep_ledger db = keep_ledger db0 \<and> keep_audit db = keep_audit db0"
  by (simp add: fun_eq_iff keep_ledger_def keep_audit_def)

lemma store_batch_ok:
  assumes "tables_ok E adb db0 (given, stored, st)" "admin_ok adb"
    and "distinct (map ul_ID (rt_ledger db0) @ map rd_ID (given @ batch))" "distinct (map al_ID (rt_audit db0) @ map rd_ID (given @ batch))"
    and "store_batch E batch (given, stored, st) = (err, given', stored', st')"
  shows "tables_ok E adb db0 (given', stored', st') \<and> given' = given @ batch \<and> stored' = (if err then stored else stored @ batch)"
proof -
  obtain r where run: "RecordWriter_Write E batch st = (r, st')" and out: "err = (r \<noteq> Inr ())" "given' = given @ batch"
    "stored' = (if err then stored else stored @ batch)"
    using assms(5) by (auto simp: store_batch_def split: prod.splits sum.splits)
  note inv = assms(1) [unfolded tables_ok_def prod.case]
  let ?db = "pg_db (ws_pg st)"
  have same: "keep_ledger ?db = keep_ledger db0" "keep_audit ?db = keep_audit db0" using keep_same inv by blast+
  from Write_result [OF run _ assms(2) _ refl] inv consider
      "r \<noteq> Inr ()" "pg_db (ws_pg st') = ?db" "cache_ok (ws_tenants st') adb" "pg_db (ws_admin st') = adb"
    | "stored_batch E adb ?db batch (pg_db (ws_pg st'))" "cache_ok (ws_tenants st') adb" "pg_db (ws_admin st') = adb" by blast
  then show ?thesis
  proof cases
    case 1
    then show ?thesis using inv out unfolding tables_ok_def by (simp add: table_given)
  next
    case 2
    obtain ls rs where rows: "list_all2 (decision_row (ledgerRow E) adb) batch ls" "list_all2 (decision_row (auditRow E) adb) batch rs"
      and db: "pg_db (ws_pg st') = ?db\<lparr>rt_ledger := rt_ledger ?db @ map (keep_ledger db0) ls, rt_audit := rt_audit ?db @ map (keep_audit db0) rs\<rparr>"
      using 2(1) unfolding stored_batch_def same by blast
    note ledger = table_grows [where key = ul_ID and keep = "keep_ledger db0" and row = "ledgerRow E" and adb = adb and
        old = "map ul_ID (rt_ledger db0)" and given = given and stored = stored and rows = "rt_ledger ?db" and batch = batch and rs = ls,
        OF _ rows(1) ledger_key keep_keys(1) assms(3)]
    note audit = table_grows [where key = al_ID and keep = "keep_audit db0" and row = "auditRow E" and adb = adb and
        old = "map al_ID (rt_audit db0)" and given = given and stored = stored and rows = "rt_audit ?db" and batch = batch and rs = rs,
        OF _ rows(2) audit_row_key keep_keys(2) assms(4)]
    show ?thesis using inv 2(2,3) db out ledger audit unfolding tables_ok_def by (cases err) simp_all
  qed
qed

subsection \<open>The sink over the writer\<close>

text \<open>What the writer was given, the batch and the channel are in the order of the sends; the counter of
  written decisions is the number of stored ones.\<close>

definition pipeline_ok :: "record_env \<Rightarrow> admin_db \<Rightarrow> record_db \<Rightarrow> sink_event list \<Rightarrow> Buffered \<Rightarrow> pipeline \<Rightarrow> bool" where
  "pipeline_ok E adb db0 es b pl \<longleftrightarrow>
     tables_ok E adb db0 pl \<and> subseq (fst pl @ bu_batch b @ bu_ch b) (sent es) \<and> subseq (fst (snd pl)) (fst pl) \<and>
     bu_written b = i64 (int (length (fst (snd pl))))"

definition distinct_ids :: "record_db \<Rightarrow> RoutingDecision list \<Rightarrow> bool" where
  "distinct_ids db ds \<longleftrightarrow> distinct (map ul_ID (rt_ledger db) @ map rd_ID ds) \<and> distinct (map al_ID (rt_audit db) @ map rd_ID ds)"

lemma subseq_distinct: "subseq xs ys \<Longrightarrow> distinct ys \<Longrightarrow> distinct xs"
proof (induction rule: list_emb.induct)
  case (list_emb_Cons2 x y xs ys)
  then have "set xs \<subseteq> set ys" by (auto elim: list_emb_set)
  then show ?case using list_emb_Cons2 by auto
qed auto

lemma distinct_ids_subseq:
  assumes "subseq xs ys" "distinct_ids db ys"
  shows "distinct_ids db xs"
proof -
  have "subseq (old @ map rd_ID xs) (old @ map rd_ID ys)" for old using subseq_map [OF assms(1)] by (simp add: subseq_append')
  then show ?thesis using assms(2) subseq_distinct unfolding distinct_ids_def by blast
qed

lemma pipeline_write:
  assumes "pipeline_ok E adb db0 es b pl" "admin_ok adb" "distinct_ids db0 (sent es)"
    and "Buffered_write (store_batch E) (bu_batch b) b pl = (b', pl')"
  shows "pipeline_ok E adb db0 es (b'\<lparr>bu_batch := []\<rparr>) pl'"
proof (cases "bu_batch b = []")
  case True
  then show ?thesis using assms(1,4) by (simp add: Buffered_write_def pipeline_ok_def)
next
  case False
  obtain given stored st where pl: "pl = (given, stored, st)" by (metis prod_cases3)
  obtain err given' stored' st' where run: "store_batch E (bu_batch b) pl = (err, given', stored', st')" by (metis prod_cases4)
  note inv = assms(1) [unfolded pipeline_ok_def pl fst_conv snd_conv]
  have "subseq (given @ bu_batch b) (sent es)"
    using inv subseq_order.order_trans [OF subseq_snoc_drop [OF subseq_order.order_refl, of "given @ bu_batch b" "bu_ch b"]] by simp
  then have "distinct_ids db0 (given @ bu_batch b)" using distinct_ids_subseq assms(3) by blast
  then have out: "tables_ok E adb db0 (given', stored', st')" "given' = given @ bu_batch b"
      "stored' = (if err then stored else stored @ bu_batch b)"
    using store_batch_ok [of E adb db0 given stored st "bu_batch b" err given' stored' st'] inv assms(2) run pl
    unfolding distinct_ids_def by auto
  have "b' = (if err then b\<lparr>bu_failed := i64 (bu_failed b + int (length (bu_batch b)))\<rparr>
      else b\<lparr>bu_written := i64 (bu_written b + int (length (bu_batch b)))\<rparr>)" "pl' = (given', stored', st')"
    using assms(4) run False by (auto simp: Buffered_write_def split: bool.splits if_splits)
  then show ?thesis using inv out by (auto simp: pipeline_ok_def intro: list_emb_append_mono subseq_order.order_trans)
qed

lemma pipeline_step:
  assumes "sink_step (store_batch E) e (b, pl) (b', pl')" "pipeline_ok E adb db0 es b pl" "admin_ok adb" "distinct_ids db0 (sent es)"
  shows "pipeline_ok E adb db0 (es @ [e]) b' pl'"
  using assms(1)
proof (cases rule: sink_step.cases)
  case (check d)
  then show ?thesis using assms(2) by (auto simp: pipeline_ok_def Record_check_def drop_one_def)
next
  case (send d)
  have "subseq (fst pl @ bu_batch b @ bu_ch b @ [d]) (sent es @ [d])"
    using assms(2) list_emb_append_mono [of "(=)" "fst pl @ bu_batch b @ bu_ch b" "sent es" "[d]" "[d]"] by (simp add: pipeline_ok_def)
  then show ?thesis using send assms(2) by (auto simp: pipeline_ok_def Record_send_def Let_def drop_one_def intro: subseq_snoc_drop)
next
  case recv
  obtain d rest where ch: "bu_ch b = d # rest" using recv by (cases "bu_ch b") auto
  let ?b1 = "b\<lparr>bu_ch := rest, bu_batch := bu_batch b @ [d]\<rparr>"
  have one: "pipeline_ok E adb db0 es ?b1 pl" using assms(2) ch by (simp add: pipeline_ok_def)
  obtain b2 pl2 where w: "Buffered_write (store_batch E) (bu_batch ?b1) ?b1 pl = (b2, pl2)" by (meson surj_pair)
  have "pipeline_ok E adb db0 es b' pl'"
    using recv ch w one pipeline_write [OF one assms(3,4) w] by (auto simp: sink_recv_def Let_def split: if_splits)
  then show ?thesis using recv by (simp add: pipeline_ok_def)
next
  case tick
  obtain b2 pl2 where w: "Buffered_write (store_batch E) (bu_batch b) b pl = (b2, pl2)" by (meson surj_pair)
  have "pipeline_ok E adb db0 es b' pl'"
    using tick w assms(2) pipeline_write [OF assms(2-4) w] by (auto simp: sink_tick_def split: if_splits)
  then show ?thesis using tick by (simp add: pipeline_ok_def)
next
  case drained
  obtain b2 pl2 where w: "Buffered_write (store_batch E) (bu_batch b) b pl = (b2, pl2)" by (meson surj_pair)
  show ?thesis using drained w pipeline_write [OF assms(2-4) w] by (simp add: sink_drained_def pipeline_ok_def)
qed (use assms(2) in \<open>auto simp: pipeline_ok_def Flush_stop_def Flush_close_def\<close>)

lemma pipeline_run:
  assumes "sink_run (store_batch E) es (NewBuffered cfg, [], [], st) (b, pl)"
    and "cache_ok (ws_tenants st) (pg_db (ws_admin st))" "admin_ok (pg_db (ws_admin st))" "distinct_ids (pg_db (ws_pg st)) (sent es)"
  shows "pipeline_ok E (pg_db (ws_admin st)) (pg_db (ws_pg st)) es b pl"
  using assms(1,4)
proof (induction es "(NewBuffered cfg, [] :: RoutingDecision list, [] :: RoutingDecision list, st)" "(b, pl)" arbitrary: b pl rule: sink_run.induct)
  case nil
  have "distinct_ids (pg_db (ws_pg st)) []" using nil.prems distinct_ids_subseq by (simp add: list_emb_Nil)
  then show ?case
    using assms(2) nil by (auto simp: pipeline_ok_def tables_ok_def table_ok_def distinct_ids_def NewBuffered_def Let_def)
next
  case (snoc es c e)
  obtain b1 pl1 where c: "c = (b1, pl1)" by (cases c) auto
  have d: "distinct_ids (pg_db (ws_pg st)) (sent es)"
    using snoc.prems distinct_ids_subseq [of "sent es" "sent (es @ [e])"] by (simp add: subseq_snoc_drop)
  show ?case using pipeline_step [OF snoc(3) [unfolded c] snoc(2) [OF c d] assms(3) d] .
qed

section \<open>Properties\<close>

lemma stored_row_found:
  assumes "table_ok key keep row adb old given stored rows" "d \<in> set stored"
    and "\<forall>d i r. row d i = Some r \<longrightarrow> key r = rd_ID d" "\<And>r. key (keep r) = key r"
  shows "\<exists>t r. find_external (rd_Tenant d) adb = Some t \<and> row d (ta_ID t) = Some r \<and>
    List.find (\<lambda>x. key x = rd_ID d) rows = Some (keep r)"
proof -
  obtain r t where r: "keep r \<in> set rows" "find_external (rd_Tenant d) adb = Some t" "row d (ta_ID t) = Some r"
    using assms(1,2) unfolding table_ok_def decision_row_def by blast
  have "key (keep r) = rd_ID d" using r(3) assms(3,4) by simp
  then have "List.find (\<lambda>x. key x = rd_ID d) rows = Some (keep r)"
    using find_unique [OF _ r(1), of key] assms(1) unfolding table_ok_def by simp
  then show ?thesis using r by blast
qed

text \<open>C14. Whatever the interleaving of the requests, the batching goroutine, the ticker, the shutdown and the
  failures of the databases: the decisions whose batches the writer reported as stored are counted as written, were sent
  in that order, and each of them is afterwards read back by its id as it was recorded, up to what the
  tables do not hold.\<close>

theorem recorded_is_readable:
  assumes run: "sink_run (store_batch E) es (NewBuffered cfg, [], [], st) (b, given, stored, st')"
    and writer: "cache_ok (ws_tenants st) (pg_db (ws_admin st))" "admin_ok (pg_db (ws_admin st))"
    and ids: "distinct_ids (pg_db (ws_pg st)) (sent es)"
    and kept: "\<forall>d \<in> set (sent es). fits_columns d \<and> json_kept E (pg_db (ws_pg st)) d"
    and reader: "reads_after st' rd"
  shows "bu_written b = i64 (int (length stored)) \<and> subseq stored (sent es) \<and>
    (\<forall>d \<in> set stored. \<exists>rd'. ObservabilityRepo_Get E (rd_ID d) rd = (Inr (as_stored (rt_time (pg_db (ws_pg st))) d), rd'))"
proof -
  let ?db = "pg_db (ws_pg st)" and ?adb = "pg_db (ws_admin st)"
  have inv: "pipeline_ok E ?adb ?db es b (given, stored, st')" by (rule pipeline_run [OF run writer ids])
  have sub: "subseq stored (sent es)"
    using inv list_emb_append2 [of "(=)" stored given "[]"] unfolding pipeline_ok_def
    by (metis fst_conv snd_conv subseq_order.order_trans subseq_append_iff list_emb_prefix)
  note tabs = inv [unfolded pipeline_ok_def tables_ok_def prod.case]
  have "\<exists>rd'. ObservabilityRepo_Get E (rd_ID d) rd = (Inr (as_stored (rt_time ?db) d), rd')" if d: "d \<in> set stored" for d
  proof -
    obtain t l where l: "find_external (rd_Tenant d) ?adb = Some t" "ledgerRow E d (ta_ID t) = Some l"
      "List.find (\<lambda>x. ul_ID x = rd_ID d) (rt_ledger (pg_db (ws_pg st'))) = Some (keep_ledger ?db l)"
      using stored_row_found [where key = ul_ID and keep = "keep_ledger ?db", OF _ d ledger_key keep_keys(1)] tabs by blast
    obtain a where a: "auditRow E d (ta_ID t) = Some a"
      "List.find (\<lambda>x. al_ID x = rd_ID d) (rt_audit (pg_db (ws_pg st'))) = Some (keep_audit ?db a)"
      using stored_row_found [where key = al_ID and keep = "keep_audit ?db", OF _ d audit_row_key keep_keys(2)] tabs l(1) by fastforce
    have "fits_columns d" "json_kept E ?db d" using kept sub d by (auto elim: list_emb_set)
    then show ?thesis using Get_stored [OF reader, of d t E l ?db a] tabs l a writer(2) by simp
  qed
  then show ?thesis using sub tabs by simp
qed

text \<open>The sample decision is recorded, batched and stored.\<close>

definition x_stored :: record_state where
  "x_stored = snd (RecordWriter_Write x_env [x_decision] x_state)"

lemma x_pipeline_run:
  "sink_run (store_batch x_env) [SinkCheck x_decision, SinkSend x_decision, SinkRecv]
     (NewBuffered small_config, [], [], x_state)
     (fst (sink_recv (store_batch x_env) (Record_send x_decision (Record_check x_decision (NewBuffered small_config))) ([], [], x_state)),
      [x_decision], [x_decision], x_stored)"
proof -
  let ?W = "store_batch x_env" and ?b0 = "NewBuffered small_config" and ?s = "([] :: RoutingDecision list, [] :: RoutingDecision list, x_state)"
  let ?b1 = "Record_check x_decision ?b0" let ?b2 = "Record_send x_decision ?b1"
  note evals = NewBuffered_def small_config_def Record_check_def Record_send_def
  have "sink_run ?W ([] @ [SinkCheck x_decision]) (?b0, ?s) (?b1, ?s)"
    by (rule sink_run.snoc [OF sink_run.nil sink_step.check]) (simp add: evals)
  then have "sink_run ?W (([] @ [SinkCheck x_decision]) @ [SinkSend x_decision]) (?b0, ?s) (?b2, ?s)"
    by (rule sink_run.snoc) (rule sink_step.send; simp add: evals)
  then have "sink_run ?W ((([] @ [SinkCheck x_decision]) @ [SinkSend x_decision]) @ [SinkRecv]) (?b0, ?s) (sink_recv ?W ?b2 ?s)"
    by (rule sink_run.snoc) (rule sink_step.recv; simp add: evals)
  moreover have "store_batch x_env [x_decision] ?s = (False, [x_decision], [x_decision], x_stored)"
    using x_write(1) by (simp add: store_batch_def x_stored_def case_prod_beta)
  then have "snd (sink_recv ?W ?b2 ?s) = ([x_decision], [x_decision], x_stored)"
    by (simp add: evals sink_recv_def Buffered_write_def Let_def)
  ultimately show ?thesis by (metis append_Cons append_Nil prod.collapse)
qed

theorem recorded_is_readable_witness:
  "\<exists>rd'. ObservabilityRepo_Get x_env 9 x_reader = (Inr (as_stored id x_decision), rd')"
proof -
  have writer: "cache_ok (ws_tenants x_state) (pg_db (ws_admin x_state))" "admin_ok (pg_db (ws_admin x_state))"
    using x_readable by (simp_all add: readable_tenant_def)
  have ids: "distinct_ids (pg_db (ws_pg x_state)) (sent [SinkCheck x_decision, SinkSend x_decision, SinkRecv])"
    by (simp add: distinct_ids_def x_state_def x_db_def x_decision_def x_row_def)
  have kept: "\<forall>d \<in> set (sent [SinkCheck x_decision, SinkSend x_decision, SinkRecv]). fits_columns d \<and> json_kept x_env (pg_db (ws_pg x_state)) d"
    by (auto simp: fits_columns_def json_kept_def x_decision_def in_i32_def x_env_def)
  have after: "reads_after x_stored x_reader"
    using x_write(2) by (simp add: reads_after_def x_reader_def x_stored_def pg_up_def cache_ok_def NewTenantIDs_def)
  show ?thesis
    using recorded_is_readable [OF x_pipeline_run writer ids kept after] by (simp add: x_decision_def x_state_def x_db_def)
qed

end
