(* ===== verification/Partitions.thy ===== *)
theory Partitions
  imports Calendar Postgres
begin

text \<open>
  The monthly partitions of the two record tables: \<open>drivers/postgresql/partitions.go\<close>, which calls
  \<open>ensure_record_partitions\<close> at startup and daily, and that function itself
  (\<open>db/migrations/0003_partitions.sql\<close>). There is no default partition, so a row whose time no partition
  covers is refused. The session's time zone is UTC. A partition's name is its parent's with the year
  and month; the model keeps these two. The goroutine of \<open>Start\<close> is a step relation: ticks that may fail,
  and the stop.
\<close>

section \<open>Definitions\<close>

definition PartitionMonthsAhead :: int where "PartitionMonthsAhead = 3"

text \<open>\<open>date_trunc('month', t)\<close>, and \<open>t + n months\<close>, whose day is at most the last of the month.\<close>

definition date_trunc_month :: "time \<Rightarrow> time" where
  "date_trunc_month t = Date (Year t) (Month t) 1"

definition month_length :: "int \<Rightarrow> int \<Rightarrow> int" where
  "month_length y m = month_start (leap y) m - month_start (leap y) (m - 1)"

definition pg_add_months :: "time \<Rightarrow> int \<Rightarrow> time" where
  "pg_add_months t n =
     (let k = 12 * Year t + (Month t - 1) + n; y = k div 12; m = k mod 12 + 1
      in Date y m (min (Day t) (month_length y m)) + (t - zero_time) mod Day_ns)"

record partition =
  pt_Year :: int
  pt_Month :: int
  pt_From :: time
  pt_To :: time

record part_db =
  pd_usage_ledger :: "partition list"
  pd_audit_log :: "partition list"

text \<open>\<open>CREATE TABLE IF NOT EXISTS\<close>: nothing when the name is taken, an error when the range overlaps.\<close>

definition ensure_month_partition :: "time \<Rightarrow> partition list \<Rightarrow> partition list option" where
  "ensure_month_partition month parts =
     (let start_ts = date_trunc_month month; end_ts = pg_add_months (date_trunc_month month) 1
      in if list_ex (\<lambda>p. pt_Year p = Year start_ts \<and> pt_Month p = Month start_ts) parts then Some parts
         else if list_ex (\<lambda>p. pt_From p < end_ts \<and> start_ts < pt_To p) parts then None
         else Some (parts @ [\<lparr>pt_Year = Year start_ts, pt_Month = Month start_ts, pt_From = start_ts, pt_To = end_ts\<rparr>]))"

fun ensure_months :: "time \<Rightarrow> int list \<Rightarrow> part_db \<Rightarrow> part_db option" where
  "ensure_months from_ts [] db = Some db"
| "ensure_months from_ts (n # ns) db =
     (case (ensure_month_partition (pg_add_months from_ts n) (pd_usage_ledger db),
            ensure_month_partition (pg_add_months from_ts n) (pd_audit_log db)) of
        (Some l, Some a) \<Rightarrow> ensure_months from_ts ns \<lparr>pd_usage_ledger = l, pd_audit_log = a\<rparr>
      | _ \<Rightarrow> None)"

definition ensure_record_partitions :: "time \<Rightarrow> int \<Rightarrow> part_db \<Rightarrow> part_db option" where
  "ensure_record_partitions from_ts months db = ensure_months from_ts [-1 .. max months 1] db"

datatype partition_error = PartitionsFailed

definition q_EnsureRecordPartitions :: "time \<Rightarrow> int \<Rightarrow> part_db \<Rightarrow> (partition_error + unit) \<times> part_db" where
  "q_EnsureRecordPartitions from_ts months db =
     (case ensure_record_partitions from_ts months db of None \<Rightarrow> (Inl PartitionsFailed, db) | Some db' \<Rightarrow> (Inr (), db'))"

definition Partitions_Ensure :: "time \<Rightarrow> part_db pg \<Rightarrow> (partition_error + unit) \<times> part_db pg" where
  "Partitions_Ensure now = pg_stmt PartitionsFailed (q_EnsureRecordPartitions now PartitionMonthsAhead)"

text \<open>The loop: a tick tops coverage up and only logs a failure; \<open>Stop\<close> ends it.\<close>

inductive part_step :: "bool \<times> part_db pg \<Rightarrow> bool \<times> part_db pg \<Rightarrow> bool" where
  tick: "part_step (True, p) (True, snd (Partitions_Ensure now p))"
| stop: "part_step (True, p) (False, p)"

inductive_cases part_stepE: "part_step (b, p) (c, q)"

section \<open>Facts\<close>

subsection \<open>Months\<close>

text \<open>Months numbered through, and their first instants.\<close>

definition month_index :: "time \<Rightarrow> int" where
  "month_index t = 12 * Year t + (Month t - 1)"

definition month_begin :: "int \<Rightarrow> time" where
  "month_begin k = Date (k div 12) (k mod 12 + 1) 1"

lemma Date_month_begin: "Date y m 1 = month_begin (12 * y + (m - 1))"
proof -
  have "(12 * y + (m - 1)) div 12 = y + (m - 1) div 12" "(12 * y + (m - 1)) mod 12 = (m - 1) mod 12" by simp_all
  moreover have "(m - 1) mod 12 div 12 = 0" by (simp add: div_pos_pos_trivial)
  ultimately show ?thesis by (simp add: month_begin_def Date_def Let_def)
qed

lemma month_begin_days:
  "month_begin k = zero_time + (year_start (k div 12) + month_start (leap (k div 12)) (k mod 12)) * Day_ns"
  "month_begin (k + 1) = zero_time + (year_start (k div 12) + month_start (leap (k div 12)) (k mod 12 + 1)) * Day_ns"
proof -
  have m: "1 \<le> k mod 12 + 1" "k mod 12 + 1 \<le> 12" using pos_mod_bound [of 12 k] by auto
  show "month_begin k = zero_time + (year_start (k div 12) + month_start (leap (k div 12)) (k mod 12)) * Day_ns"
    using Date_simp [OF m] by (simp add: month_begin_def)
  have "month_begin (k + 1) = Date (k div 12) (k mod 12 + 1 + 1) 1"
    by (simp add: Date_month_begin)
  then show "month_begin (k + 1) = zero_time + (year_start (k div 12) + month_start (leap (k div 12)) (k mod 12 + 1)) * Day_ns"
    using Date_next_month [OF m] by simp
qed

lemma month_of_day:
  assumes "0 \<le> j" "j < month_length (k div 12) (k mod 12 + 1)" "0 \<le> r" "r < Day_ns"
  shows "month_index (zero_time + (year_start (k div 12) + month_start (leap (k div 12)) (k mod 12) + j) * Day_ns + r) = k"
proof -
  let ?d = "year_start (k div 12) + month_start (leap (k div 12)) (k mod 12) + j"
  have "day_number (zero_time + ?d * Day_ns + r) = ?d"
    using assms(3,4) by (intro day_number_cell) (simp_all add: distrib_right)
  moreover have "civil ?d = (k div 12, k mod 12 + 1, j + 1)"
    using assms(1,2) pos_mod_bound [of 12 k] by (intro civil_unique) (auto simp: month_length_def)
  ultimately show ?thesis by (simp add: month_index_def Year_def Month_def)
qed

text \<open>Every instant lies in exactly one month, the one of its index.\<close>

lemma month_iff: "month_begin k \<le> t \<and> t < month_begin (k + 1) \<longleftrightarrow> month_index t = k"
proof
  assume t: "month_begin k \<le> t \<and> t < month_begin (k + 1)"
  let ?s = "year_start (k div 12) + month_start (leap (k div 12)) (k mod 12)"
  let ?j = "day_number t - ?s" and ?r = "(t - zero_time) mod Day_ns"
  have split: "t = zero_time + day_number t * Day_ns + ?r" by (simp add: day_number_def)
  have r: "0 \<le> ?r" "?r < Day_ns" by simp_all
  have "zero_time + ?s * Day_ns \<le> t" using t month_begin_days(1) by simp
  then have "?s * Day_ns < (day_number t + 1) * Day_ns" using day_number_bounds(2) [of t] by linarith
  then have "0 \<le> ?j" by (simp add: mult_less_cancel_right)
  moreover have "day_number t * Day_ns < (year_start (k div 12) + month_start (leap (k div 12)) (k mod 12 + 1)) * Day_ns"
    using t month_begin_days(2) [of k] day_number_bounds(1) [of t] by linarith
  then have "?j < month_length (k div 12) (k mod 12 + 1)" by (simp add: mult_less_cancel_right month_length_def)
  ultimately show "month_index t = k" using month_of_day [OF _ _ r, of ?j k] split by simp
next
  assume "month_index t = k"
  obtain y m j where c: "civil (day_number t) = (y, m + 1, j + 1)" "0 \<le> m" "m \<le> 11"
    and d: "day_number t = year_start y + month_start (leap y) m + j" "0 \<le> j" "j < month_start (leap y) (m + 1) - month_start (leap y) m"
    by (rule civil_spec)
  then have k: "k div 12 = y" "k mod 12 = m" using \<open>month_index t = k\<close> by (auto simp: month_index_def Year_def Month_def)
  have "month_begin k \<le> zero_time + day_number t * Day_ns"
    using d(2) unfolding month_begin_days(1) k d(1) by (simp add: mult_right_mono)
  moreover have "zero_time + (day_number t + 1) * Day_ns \<le> month_begin (k + 1)"
    using d(3) unfolding month_begin_days(2) k d(1) by (simp add: mult_right_mono)
  ultimately show "month_begin k \<le> t \<and> t < month_begin (k + 1)" using day_number_bounds [of t] by linarith
qed

lemma month_begin_mono: "j < k \<Longrightarrow> month_begin (j + 1) \<le> month_begin k" "month_begin k < month_begin (k + 1)"
proof -
  have step: "month_begin k < month_begin (k + 1)" for k
  proof -
    have "0 \<le> k mod 12" "k mod 12 \<le> 11" using pos_mod_bound [of 12 k] by auto
    from int_upto_11 [OF this] have "month_start lp (k mod 12) < month_start lp (k mod 12 + 1)" for lp
      by (cases lp) (elim disjE; simp add: month_start_def)+
    then show ?thesis unfolding month_begin_days(1) [of k] month_begin_days(2) [of k] by simp
  qed
  show "month_begin k < month_begin (k + 1)" by (rule step)
  show "month_begin (j + 1) \<le> month_begin k" if "j < k"
    using that by (induction k rule: int_gr_induct) (auto intro: less_imp_le [OF step] order_trans)
qed

lemma month_index_begin [simp]: "month_index (month_begin k) = k"
  using month_iff [of k "month_begin k"] month_begin_mono(2) by simp

lemma date_trunc_begin: "date_trunc_month t = month_begin (month_index t)"
  by (simp add: date_trunc_month_def Date_month_begin month_index_def)

lemma month_index_add: "month_index (pg_add_months t n) = month_index t + n"
proof -
  let ?k = "month_index t + n"
  let ?l = "month_length (?k div 12) (?k mod 12 + 1)" and ?r = "(t - zero_time) mod Day_ns"
  have m: "0 \<le> ?k mod 12" "?k mod 12 \<le> 11" using pos_mod_bound [of 12 ?k] by auto
  from int_upto_11 [OF this] have "0 < month_start lp (?k mod 12 + 1) - month_start lp (?k mod 12)" for lp
    by (cases lp) (elim disjE; simp add: month_start_def)+
  then have l: "0 < ?l" by (simp add: month_length_def)
  have day: "1 \<le> Day t" by (rule civil_spec [of "day_number t"]) (simp add: Day_def)
  have "pg_add_months t n = zero_time + (year_start (?k div 12) + month_start (leap (?k div 12)) (?k mod 12) + (min (Day t) ?l - 1)) * Day_ns + ?r"
    using m by (simp add: pg_add_months_def Let_def Date_simp month_index_def)
  then show ?thesis using month_of_day [of "min (Day t) ?l - 1" ?k ?r] l day by (simp only:) (simp add: min_def split: if_splits)
qed
subsection \<open>Partitions are months\<close>

definition month_partition :: "int \<Rightarrow> partition" where
  "month_partition k = \<lparr>pt_Year = k div 12, pt_Month = k mod 12 + 1, pt_From = month_begin k, pt_To = month_begin (k + 1)\<rparr>"

definition months_only :: "partition list \<Rightarrow> bool" where
  "months_only parts \<longleftrightarrow> (\<exists>ks. distinct ks \<and> parts = map month_partition ks)"

definition parts_ok :: "part_db \<Rightarrow> bool" where
  "parts_ok db \<longleftrightarrow> months_only (pd_usage_ledger db) \<and> months_only (pd_audit_log db)"

text \<open>A row at \<open>ts\<close> has one partition to go to.\<close>

definition covered :: "partition list \<Rightarrow> time \<Rightarrow> bool" where
  "covered parts ts \<longleftrightarrow> length (filter (\<lambda>p. pt_From p \<le> ts \<and> ts < pt_To p) parts) = 1"

definition has_month :: "int \<Rightarrow> partition list \<Rightarrow> bool" where
  "has_month k parts \<longleftrightarrow> month_partition k \<in> set parts"

lemma Year_begin: "Year (month_begin k) = k div 12" "Month (month_begin k) = k mod 12 + 1"
proof -
  obtain y m j where c: "civil (day_number (month_begin k)) = (y, m + 1, j + 1)" "0 \<le> m" "m \<le> 11" by (rule civil_spec)
  then have "12 * y + m = k" using month_index_begin [of k] by (simp add: month_index_def Year_def Month_def)
  then show "Year (month_begin k) = k div 12" "Month (month_begin k) = k mod 12 + 1"
    using c by (auto simp: Year_def Month_def)
qed

lemma end_of_month: "pg_add_months (month_begin k) 1 = month_begin (k + 1)"
proof -
  have day: "civil (day_number (month_begin k)) = (k div 12, k mod 12 + 1, 1)"
  proof -
    have "0 \<le> k mod 12" "k mod 12 \<le> 11" using pos_mod_bound [of 12 k] by auto
    moreover from int_upto_11 [OF this] have "0 < month_start lp (k mod 12 + 1) - month_start lp (k mod 12)" for lp
      by (cases lp) (elim disjE; simp add: month_start_def)+
    ultimately show ?thesis using civil_unique [of "k mod 12" 0 "k div 12"] by (simp add: month_begin_days(1))
  qed
  then have d: "Year (month_begin k) = k div 12" "Month (month_begin k) = k mod 12 + 1" "Day (month_begin k) = 1"
    by (simp_all add: Year_def Month_def Day_def)
  let ?j = "k + 1"
  have "0 \<le> ?j mod 12" "?j mod 12 \<le> 11" using pos_mod_bound [of 12 ?j] by auto
  from int_upto_11 [OF this] have "1 \<le> month_start lp (?j mod 12 + 1) - month_start lp (?j mod 12)" for lp
    by (cases lp) (elim disjE; simp add: month_start_def)+
  then have len: "min 1 (month_length (?j div 12) (?j mod 12 + 1)) = 1" by (simp add: month_length_def)
  have mid: "(month_begin k - zero_time) mod Day_ns = 0" by (simp add: month_begin_days(1))
  have idx: "12 * (k div 12) + (k mod 12 + 1 - 1) + 1 = ?j" by simp
  show ?thesis unfolding pg_add_months_def d mid idx Let_def len by (simp add: month_begin_def)
qed

lemma overlap_month: "month_begin j < month_begin (k + 1) \<and> month_begin k < month_begin (j + 1) \<longleftrightarrow> j = k"
  using month_begin_mono(1) [of j k] month_begin_mono(1) [of k j] month_begin_mono(2) [of k]
  by (cases j k rule: linorder_cases) auto

lemma month_name: "pt_Year (month_partition j) = k div 12 \<and> pt_Month (month_partition j) = k mod 12 + 1 \<longleftrightarrow> j = k"
proof
  assume "pt_Year (month_partition j) = k div 12 \<and> pt_Month (month_partition j) = k mod 12 + 1"
  then have "j div 12 = k div 12" "j mod 12 = k mod 12" by (simp_all add: month_partition_def)
  then show "j = k" by (metis mult_div_mod_eq)
qed (simp add: month_partition_def)

lemma inj_month: "inj month_partition"
  by (rule injI) (metis month_name)

text \<open>Ensuring a month adds its index when it is missing, and never overlaps.\<close>

lemma ensure_month:
  assumes "months_only parts"
  shows "\<exists>parts'. ensure_month_partition t parts = Some parts' \<and> months_only parts' \<and>
    set parts' = insert (month_partition (month_index t)) (set parts)"
proof -
  obtain ks where ks: "distinct ks" "parts = map month_partition ks" using assms by (auto simp: months_only_def)
  let ?k = "month_index t"
  have named: "list_ex (\<lambda>p. pt_Year p = ?k div 12 \<and> pt_Month p = ?k mod 12 + 1) parts \<longleftrightarrow> ?k \<in> set ks"
    by (auto simp: ks list_ex_iff month_name)
  have free: "list_ex (\<lambda>p. pt_From p < month_begin (?k + 1) \<and> month_begin ?k < pt_To p) parts \<longleftrightarrow> ?k \<in> set ks"
    using overlap_month [of _ ?k] by (auto simp: ks list_ex_iff month_partition_def)
  have new: "\<lparr>pt_Year = ?k div 12, pt_Month = ?k mod 12 + 1, pt_From = month_begin ?k, pt_To = month_begin (?k + 1)\<rparr> = month_partition ?k"
    by (simp add: month_partition_def)
  have run: "ensure_month_partition t parts = Some (if ?k \<in> set ks then parts else parts @ [month_partition ?k])"
    unfolding ensure_month_partition_def Let_def date_trunc_begin end_of_month Year_begin named free new by simp
  have "months_only (if ?k \<in> set ks then parts else parts @ [month_partition ?k])"
    unfolding months_only_def using ks by (intro exI [of _ "if ?k \<in> set ks then ks else ks @ [?k]"]) auto
  then show ?thesis using run ks by auto
qed

lemma ensure_all:
  assumes "parts_ok db"
  shows "\<exists>db'. ensure_months t ns db = Some db' \<and> parts_ok db' \<and>
    set (pd_usage_ledger db') = (\<lambda>n. month_partition (month_index t + n)) ` set ns \<union> set (pd_usage_ledger db) \<and>
    set (pd_audit_log db') = (\<lambda>n. month_partition (month_index t + n)) ` set ns \<union> set (pd_audit_log db)"
  using assms
proof (induction ns arbitrary: db)
  case (Cons n ns)
  obtain l a where step: "ensure_month_partition (pg_add_months t n) (pd_usage_ledger db) = Some l" "months_only l"
      "set l = insert (month_partition (month_index t + n)) (set (pd_usage_ledger db))"
      "ensure_month_partition (pg_add_months t n) (pd_audit_log db) = Some a" "months_only a"
      "set a = insert (month_partition (month_index t + n)) (set (pd_audit_log db))"
    using ensure_month [of _ "pg_add_months t n"] Cons.prems unfolding parts_ok_def month_index_add by metis
  have "parts_ok \<lparr>pd_usage_ledger = l, pd_audit_log = a\<rparr>" using step by (simp add: parts_ok_def)
  from Cons.IH [OF this] show ?case using step by auto
qed simp

lemma covered_month:
  assumes "months_only parts" "has_month (month_index ts) parts"
  shows "covered parts ts"
proof -
  obtain ks where ks: "distinct ks" "parts = map month_partition ks" using assms(1) by (auto simp: months_only_def)
  have "month_index ts \<in> set ks" using assms(2) ks inj_month by (auto simp: has_month_def inj_def)
  moreover have "filter (\<lambda>p. pt_From p \<le> ts \<and> ts < pt_To p) parts = map month_partition (filter (\<lambda>k. month_index ts = k) ks)"
    by (simp add: ks filter_map comp_def month_partition_def month_iff)
  moreover have "length (filter (\<lambda>k. i = k) ks) = 1" if "i \<in> set ks" for i
    using ks(1) that by (induction ks) (auto simp: filter_empty_conv)
  ultimately show ?thesis by (simp add: covered_def)
qed

subsection \<open>Runs\<close>

text \<open>Whatever the server does to a call, partitions stay months and none is lost.\<close>

lemma Ensure_keeps:
  assumes "parts_ok (pg_db p)"
  shows "parts_ok (pg_db (snd (Partitions_Ensure now p)))"
    "set (pd_usage_ledger (pg_db p)) \<subseteq> set (pd_usage_ledger (pg_db (snd (Partitions_Ensure now p))))"
    "set (pd_audit_log (pg_db p)) \<subseteq> set (pd_audit_log (pg_db (snd (Partitions_Ensure now p))))"
  using ensure_all [OF assms, of now "[-1 .. max PartitionMonthsAhead 1]"] assms
  by (auto simp: Partitions_Ensure_def pg_stmt_def q_EnsureRecordPartitions_def ensure_record_partitions_def split: pg_fault.splits)

lemma Ensure_up:
  assumes "parts_ok (pg_db p)" "pg_up p" "month_index now - 1 \<le> k" "k \<le> month_index now + 3"
  shows "fst (Partitions_Ensure now p) = Inr ()"
    "has_month k (pd_usage_ledger (pg_db (snd (Partitions_Ensure now p))))"
    "has_month k (pd_audit_log (pg_db (snd (Partitions_Ensure now p))))"
proof -
  obtain db where db: "ensure_months now [-1 .. max PartitionMonthsAhead 1] (pg_db p) = Some db"
    "set (pd_usage_ledger db) = (\<lambda>n. month_partition (month_index now + n)) ` {-1 .. 3} \<union> set (pd_usage_ledger (pg_db p))"
    "set (pd_audit_log db) = (\<lambda>n. month_partition (month_index now + n)) ` {-1 .. 3} \<union> set (pd_audit_log (pg_db p))"
    using ensure_all [OF assms(1), of now "[-1 .. max PartitionMonthsAhead 1]"] by (auto simp: PartitionMonthsAhead_def)
  have run: "Partitions_Ensure now p = (Inr (), (pg_pop p)\<lparr>pg_db := db\<rparr>)"
    using assms(2) db(1) by (simp add: Partitions_Ensure_def pg_stmt_def q_EnsureRecordPartitions_def ensure_record_partitions_def)
  have "month_partition k = month_partition (month_index now + (k - month_index now))" "k - month_index now \<in> {-1 .. 3}"
    using assms(3,4) by auto
  then have "month_partition k \<in> (\<lambda>n. month_partition (month_index now + n)) ` {-1 .. 3}" by (rule image_eqI)
  then show "fst (Partitions_Ensure now p) = Inr ()"
    "has_month k (pd_usage_ledger (pg_db (snd (Partitions_Ensure now p))))"
    "has_month k (pd_audit_log (pg_db (snd (Partitions_Ensure now p))))"
    by (simp_all add: run has_month_def db(2,3))
qed

lemma steps_keep:
  assumes "part_step\<^sup>*\<^sup>* (b, p) (c, q)" "parts_ok (pg_db p)"
  shows "parts_ok (pg_db q) \<and> set (pd_usage_ledger (pg_db p)) \<subseteq> set (pd_usage_ledger (pg_db q)) \<and>
    set (pd_audit_log (pg_db p)) \<subseteq> set (pd_audit_log (pg_db q))"
  using assms(1)
proof (induction rule: rtranclp_induct2)
  case refl
  then show ?case using assms(2) by simp
next
  case (step c q d r)
  from step.hyps(2) consider now where "r = snd (Partitions_Ensure now q)" | "r = q" by (auto elim: part_stepE)
  then show ?case
  proof cases
    case (1 now)
    then show ?thesis using step.IH Ensure_keeps [of q now] by auto
  next
    case 2
    then show ?thesis using step.IH by simp
  qed
qed

section \<open>Properties\<close>

text \<open>C16. Where the partitions of the record tables are calendar months, topping them up succeeds on a
  server that answers; and however the maintenance loop goes on from there, failing or stopped, every row
  from the first of the month before to the end of the third month after has exactly one partition in
  either table.\<close>

theorem partitions_cover:
  assumes "parts_ok (pg_db p)" "pg_up p"
    and "part_step\<^sup>*\<^sup>* (True, (snd (Partitions_Ensure now p))\<lparr>pg_faults := faults\<rparr>) (running, q)"
    and "Date (Year now) (Month now - 1) 1 \<le> ts" "ts < Date (Year now) (Month now + 4) 1"
  shows "fst (Partitions_Ensure now p) = Inr () \<and> parts_ok (pg_db q) \<and>
    covered (pd_usage_ledger (pg_db q)) ts \<and> covered (pd_audit_log (pg_db q)) ts"
proof -
  let ?k = "month_index ts" and ?p = "snd (Partitions_Ensure now p)"
  have ts: "month_begin ?k \<le> ts" "ts < month_begin (?k + 1)" using month_iff [of ?k ts] by auto
  have range: "month_begin (month_index now - 1) \<le> ts" "ts < month_begin (month_index now + 4)"
    using assms(4,5) by (simp_all add: Date_month_begin month_index_def algebra_simps)
  have k: "month_index now - 1 \<le> ?k" "?k \<le> month_index now + 3"
    using range ts month_begin_mono(1) [of ?k "month_index now - 1"] month_begin_mono(1) [of "month_index now + 3" ?k]
    by (auto simp: add.assoc not_le [symmetric])
  note up = Ensure_up [OF assms(1,2) k]
  have "parts_ok (pg_db (?p\<lparr>pg_faults := faults\<rparr>))" using Ensure_keeps(1) [OF assms(1)] by simp
  note later = steps_keep [OF assms(3) this]
  have "has_month ?k (pd_usage_ledger (pg_db q))" "has_month ?k (pd_audit_log (pg_db q))"
    using up(2,3) later by (auto simp: has_month_def)
  then show ?thesis using up(1) later covered_month unfolding parts_ok_def by blast
qed

theorem partitions_cover_witness:
  "fst (Partitions_Ensure 0 \<lparr>pg_db = \<lparr>pd_usage_ledger = [], pd_audit_log = []\<rparr>, pg_faults = []\<rparr>) = Inr () \<and>
   covered (pd_usage_ledger (pg_db (snd (Partitions_Ensure 0 \<lparr>pg_db = \<lparr>pd_usage_ledger = [], pd_audit_log = []\<rparr>, pg_faults = []\<rparr>)))) 5"
proof -
  let ?p = "\<lparr>pg_db = \<lparr>pd_usage_ledger = [], pd_audit_log = []\<rparr>, pg_faults = []\<rparr> :: part_db pg"
  let ?q = "(snd (Partitions_Ensure 0 ?p))\<lparr>pg_faults := [PgErr]\<rparr>"
  have ok: "parts_ok (pg_db ?p)" "pg_up ?p" by (simp_all add: parts_ok_def months_only_def pg_up_def)
  have run: "part_step\<^sup>*\<^sup>* (True, ?q) (False, ?q)" by (rule r_into_rtranclp) (rule part_step.stop)
  have ts: "Date (Year 0) (Month 0 - 1) 1 \<le> 5" "5 < Date (Year 0) (Month 0 + 4) 1" by code_simp+
  show ?thesis using partitions_cover [OF ok run ts] by simp
qed

end
