(* ===== verification/Cli.thy ===== *)
theory Cli
  imports Admin_Sessions Partitions
begin

text \<open>
  What the command line of the admin program decides before and around the use cases: the durations
  both programs accept (\<open>clitime\<close>, over \<open>time.ParseDuration\<close>), the flags of \<open>create-token\<close> and \<open>create-user\<close>, the
  name the commands are audited under, and the commands themselves, each of which makes sure of the record
  partitions first (\<open>cmd/go-route-admin/tokens.go\<close>, \<open>users.go\<close>). A command starts with the connection open;
  what it prints is the value it returns. \<open>scaled\<close> is the floating-point product of a decimal fraction with
  its unit.
\<close>

section \<open>Definitions\<close>

subsection \<open>Durations\<close>

definition unit_ns :: "string \<Rightarrow> int option" where
  "unit_ns u = map_of [(''ns'', 1), (''us'', 1000), ([CHR 0xC2, CHR 0xB5, CHR ''s''], 1000), ([CHR 0xCE, CHR 0xBC, CHR ''s''], 1000),
     (''ms'', 1000000), (''s'', Second), (''m'', Minute), (''h'', Hour)] u"

text \<open>\<open>leadingInt\<close> fails past \<open>2 ^ 63\<close>; \<open>leadingFraction\<close> stops accumulating before it.\<close>

fun leadingInt :: "int \<Rightarrow> string \<Rightarrow> (int \<times> string) option" where
  "leadingInt x [] = Some (x, [])"
| "leadingInt x (c # s) =
     (if \<not> is_digit c then Some (x, c # s)
      else if x > 2 ^ 63 div 10 \<or> x * 10 + (int (byte c) - 48) > 2 ^ 63 then None
      else leadingInt (x * 10 + (int (byte c) - 48)) s)"

fun leadingFraction :: "int \<Rightarrow> nat \<Rightarrow> bool \<Rightarrow> string \<Rightarrow> int \<times> nat \<times> string" where
  "leadingFraction x n full [] = (x, n, [])"
| "leadingFraction x n full (c # s) =
     (if \<not> is_digit c then (x, n, c # s)
      else if full \<or> x > (2 ^ 63 - 1) div 10 \<or> x * 10 + (int (byte c) - 48) > 2 ^ 63 then leadingFraction x n True s
      else leadingFraction (x * 10 + (int (byte c) - 48)) (Suc n) False s)"

definition duration_unit :: "string \<Rightarrow> string" where
  "duration_unit s = takeWhile (\<lambda>c. c \<noteq> CHR ''.'' \<and> \<not> is_digit c) s"

text \<open>One number with its unit: the nanoseconds and what is left of the string.\<close>

definition duration_part :: "(int \<Rightarrow> nat \<Rightarrow> int \<Rightarrow> int) \<Rightarrow> string \<Rightarrow> (int \<times> string) option" where
  "duration_part scaled s =
     (if s = [] \<or> \<not> (hd s = CHR ''.'' \<or> is_digit (hd s)) then None
      else case leadingInt 0 s of
             None \<Rightarrow> None
           | Some (v, s1) \<Rightarrow>
               (let pre = length s \<noteq> length s1;
                    dot = (s1 \<noteq> [] \<and> hd s1 = CHR ''.'');
                    (f, n, s2) = (if dot then leadingFraction 0 0 False (tl s1) else (0, 0, s1));
                    post = dot \<and> length (tl s1) \<noteq> length s2;
                    u = duration_unit s2
                in if \<not> pre \<and> \<not> post \<or> u = [] then None
                   else case unit_ns u of
                          None \<Rightarrow> None
                        | Some unit \<Rightarrow>
                            if v > 2 ^ 63 div unit then None
                            else (let ns = v * unit + (if f > 0 then scaled f n unit else 0)
                                  in if f > 0 \<and> ns > 2 ^ 63 then None else Some (ns, drop (length u) s2))))"

lemma leadingInt_length: "leadingInt x s = Some (v, rest) \<Longrightarrow> length rest \<le> length s"
  by (induction x s rule: leadingInt.induct) (auto split: if_splits)

lemma leadingFraction_length: "leadingFraction x n full s = (f, k, rest) \<Longrightarrow> length rest \<le> length s"
  by (induction x n full s rule: leadingFraction.induct) (auto split: if_splits)

lemma duration_part_shorter: "duration_part scaled s = Some (v, rest) \<Longrightarrow> length rest < length s"
proof -
  assume part: "duration_part scaled s = Some (v, rest)"
  obtain w s1 where lead: "leadingInt 0 s = Some (w, s1)"
    using part by (auto simp: duration_part_def split: if_splits option.splits)
  obtain f k s2 where frac: "(if s1 \<noteq> [] \<and> hd s1 = CHR ''.'' then leadingFraction 0 0 False (tl s1) else (0, 0, s1)) = (f, k, s2)"
    by (metis prod_cases3)
  have "length s2 \<le> length s1" using frac leadingFraction_length [of 0 0 False "tl s1" f k s2] by (auto split: if_splits)
  moreover have "rest = drop (length (duration_unit s2)) s2" "duration_unit s2 \<noteq> []"
    using part lead frac by (auto simp: duration_part_def Let_def split: if_splits option.splits)
  moreover from this have "s2 \<noteq> []" by (auto simp: duration_unit_def)
  ultimately show ?thesis using leadingInt_length [OF lead] by (cases "duration_unit s2"; cases s2) auto
qed

function duration_parts :: "(int \<Rightarrow> nat \<Rightarrow> int \<Rightarrow> int) \<Rightarrow> int \<Rightarrow> string \<Rightarrow> int option" where
  "duration_parts scaled d s =
     (if s = [] then Some d
      else case duration_part scaled s of
             None \<Rightarrow> None
           | Some (v, rest) \<Rightarrow> if d + v > 2 ^ 63 then None else duration_parts scaled (d + v) rest)"
  by pat_completeness auto
termination
  by (relation "measure (\<lambda>(_, _, s). length s)") (auto dest: duration_part_shorter)

declare duration_parts.simps [simp del]

definition time_ParseDuration :: "(int \<Rightarrow> nat \<Rightarrow> int \<Rightarrow> int) \<Rightarrow> string \<Rightarrow> duration option" where
  "time_ParseDuration scaled s0 =
     (let neg = (s0 \<noteq> [] \<and> hd s0 = CHR ''-'');
          s = (if s0 \<noteq> [] \<and> hd s0 \<in> {CHR ''-'', CHR ''+''} then tl s0 else s0)
      in if s = ''0'' then Some 0
         else if s = '''' then None
         else case duration_parts scaled 0 s of
                None \<Rightarrow> None
              | Some d \<Rightarrow> if neg then Some (- d) else if d > 2 ^ 63 - 1 then None else Some d)"

text \<open>\<open>time.Duration(n) * 24 * time.Hour\<close>, from left to right.\<close>

definition parseDayDuration :: "string \<Rightarrow> duration option" where
  "parseDayDuration s =
     (if s = [] \<or> last s \<noteq> CHR ''d'' then None
      else case ParseInt (butlast s) of
             None \<Rightarrow> None
           | Some n \<Rightarrow> if n < 0 then None else Some (i64 (i64 (n * 24) * Hour)))"

definition clitime_ParseDuration :: "(int \<Rightarrow> nat \<Rightarrow> int \<Rightarrow> int) \<Rightarrow> string \<Rightarrow> duration option" where
  "clitime_ParseDuration scaled s =
     (case parseDayDuration s of Some d \<Rightarrow> Some d | None \<Rightarrow> time_ParseDuration scaled s)"

subsection \<open>Flags\<close>

datatype cli_error =
    FlagRole string
  | FlagExpiresIn string
  | FlagLifetime duration
  | CliPartitions
  | CliFailed admin_error

definition credentialSpec :: "(int \<Rightarrow> nat \<Rightarrow> int \<Rightarrow> int) \<Rightarrow> string \<Rightarrow> string \<Rightarrow> time \<Rightarrow> cli_error + (Role \<times> time option)" where
  "credentialSpec scaled role expiresIn now =
     (if \<not> Role_Valid role then Inl (FlagRole role)
      else if expiresIn = '''' then Inr (role, None)
      else case clitime_ParseDuration scaled expiresIn of
             None \<Rightarrow> Inl (FlagExpiresIn expiresIn)
           | Some d \<Rightarrow> if d \<le> 0 then Inl (FlagLifetime d) else Inr (role, Some (now + d)))"

definition actorSafe :: "char \<Rightarrow> bool" where
  "actorSafe c \<longleftrightarrow> in_range 65 90 c \<or> in_range 97 122 c \<or> is_digit c \<or> c \<in> set ''._@+-''"

text \<open>\<open>ReplaceAllString\<close> puts one underscore for every rune outside the class.\<close>

function replace_unsafe :: "string \<Rightarrow> string" where
  "replace_unsafe [] = []"
| "replace_unsafe (c # cs) =
     (if actorSafe c then c else CHR ''_'') #
       replace_unsafe (drop (case rune_width (c # cs) of None \<Rightarrow> 1 | Some n \<Rightarrow> n) (c # cs))"
  by pat_completeness auto
termination
  by (relation "measure length") (auto split: option.split dest: rune_width_pos)

definition osUserActor :: "string \<Rightarrow> string" where
  "osUserActor username = (if username = '''' then ''cli'' else ''cli:'' @ replace_unsafe username)"

definition cliActor :: "string option \<Rightarrow> string" where
  "cliActor user = (case user of None \<Rightarrow> ''cli'' | Some username \<Rightarrow> osUserActor username)"

subsection \<open>Commands\<close>

record cli_call =
  cc_U :: Users
  cc_call :: session_call
  cc_user :: "string option"
  cc_ensure_at :: time

record cli_db =
  cl_parts :: "part_db pg"
  cl_admin :: "admin_db pg"

definition withCredentials :: "cli_call \<Rightarrow> 'a action \<Rightarrow> cli_db \<Rightarrow> (cli_error + 'a) \<times> cli_db" where
  "withCredentials C fn st =
     (case Partitions_Ensure (cc_ensure_at C) (cl_parts st) of
        (Inl _, p) \<Rightarrow> (Inl CliPartitions, st\<lparr>cl_parts := p\<rparr>)
      | (Inr _, p) \<Rightarrow>
          (case fn (cl_admin st) of (r, a) \<Rightarrow> (map_sum CliFailed id r, st\<lparr>cl_parts := p, cl_admin := a\<rparr>)))"

definition createToken :: "(int \<Rightarrow> nat \<Rightarrow> int \<Rightarrow> int) \<Rightarrow> cli_call \<Rightarrow> string \<Rightarrow> string \<Rightarrow> string \<Rightarrow> time \<Rightarrow> cli_db \<Rightarrow>
    (cli_error + (AdminCredential \<times> string)) \<times> cli_db" where
  "createToken scaled C name role expiresIn now st =
     (case credentialSpec scaled role expiresIn now of
        Inl e \<Rightarrow> (Inl e, st)
      | Inr (r, expires) \<Rightarrow> withCredentials C (Credentials_Create (cc_U C) (cc_call C) (cliActor (cc_user C)) name r expires) st)"

definition listTokens :: "cli_call \<Rightarrow> cli_db \<Rightarrow> (cli_error + AdminCredential list) \<times> cli_db" where
  "listTokens C = withCredentials C Credentials_List"

definition revokeToken :: "cli_call \<Rightarrow> string \<Rightarrow> cli_db \<Rightarrow> (cli_error + AdminCredential) \<times> cli_db" where
  "revokeToken C ref = withCredentials C (Credentials_Revoke (cc_U C) (cc_call C) (cliActor (cc_user C)) ref)"

text \<open>\<open>withUsers\<close> differs from \<open>withCredentials\<close> in the use case it hands over, which has no token issuer.\<close>

definition withUsers :: "cli_call \<Rightarrow> (Users \<Rightarrow> 'a action) \<Rightarrow> cli_db \<Rightarrow> (cli_error + 'a) \<times> cli_db" where
  "withUsers C fn = withCredentials C (fn ((cc_U C)\<lparr>uz_issuer := None, uz_refreshTTL := DefaultRefreshTTL\<rparr>))"

definition createUser :: "cli_call \<Rightarrow> string \<Rightarrow> string \<Rightarrow> string \<Rightarrow> cli_db \<Rightarrow> (cli_error + (AdminUser \<times> string)) \<times> cli_db" where
  "createUser C email role pass st =
     (if \<not> Role_Valid role then (Inl (FlagRole role), st)
      else withUsers C (\<lambda>U. Users_Create U (cc_call C) (cliActor (cc_user C)) email role pass) st)"

definition listUsers :: "cli_call \<Rightarrow> cli_db \<Rightarrow> (cli_error + AdminUser list) \<times> cli_db" where
  "listUsers C = withUsers C (\<lambda>U. Users_List)"

definition disableUser :: "cli_call \<Rightarrow> string \<Rightarrow> cli_db \<Rightarrow> (cli_error + AdminUser) \<times> cli_db" where
  "disableUser C email = withUsers C (\<lambda>U. Users_Disable U (cc_call C) (cliActor (cc_user C)) email)"

definition setPassword :: "cli_call \<Rightarrow> string \<Rightarrow> string \<Rightarrow> cli_db \<Rightarrow> (cli_error + (AdminUser \<times> string)) \<times> cli_db" where
  "setPassword C email pass = withUsers C (\<lambda>U. Users_SetPassword U (cc_call C) (cliActor (cc_user C)) email pass)"

section \<open>Facts\<close>

text \<open>A token with a lifetime of days expires that many days from now, as far as a duration reaches.\<close>

lemma day_form: "1 \<le> n \<Longrightarrow> n \<le> 106751 \<Longrightarrow> parseDayDuration (FormatInt n @ ''d'') = Some (n * 24 * Hour)"
proof -
  assume n: "1 \<le> n" "n \<le> 106751"
  then have "ParseInt (FormatInt n) = Some n" by (intro ParseInt_FormatInt) (simp add: in_i64_def)
  moreover have "i64 (i64 (n * 24) * Hour) = n * 24 * Hour"
    using n by (simp add: i64_id in_i64_def Hour_def)
  ultimately show ?thesis using n by (simp add: parseDayDuration_def)
qed

lemma token_lifetime:
  assumes "Role_Valid role" "1 \<le> n" "n \<le> 106751"
  shows "credentialSpec scaled role (FormatInt n @ ''d'') now = Inr (role, Some (now + n * 24 * Hour))"
  using assms day_form [OF assms(2,3)] by (simp add: credentialSpec_def clitime_ParseDuration_def Hour_def)

text \<open>Beyond that the multiplication wraps: asking for 213504 days mints a token that lives 25 minutes.\<close>

lemma long_lifetime_wraps:
  "credentialSpec scaled RoleReadonly ''213504d'' now = Inr (RoleReadonly, Some (now + 1526290448384))"
proof -
  have "ParseInt ''213504'' = Some 213504" by (simp add: ParseInt_def is_digit_def in_range_def byte_def in_i64_def)
  then have "parseDayDuration ''213504d'' = Some 1526290448384" by (simp add: parseDayDuration_def i64_def Hour_def)
  moreover have "Role_Valid RoleReadonly" by (simp add: Role_Valid_def Roles_def)
  ultimately show ?thesis by (simp add: credentialSpec_def clitime_ParseDuration_def)
qed

text \<open>A command is never audited as a credential or a person of the API.\<close>

lemma cli_actor_distinct: "cliActor user \<noteq> AdminCredential_Actor cred" "cliActor user \<noteq> AdminUser_Actor u"
  by (auto simp: cliActor_def osUserActor_def AdminCredential_Actor_def AdminUser_Actor_def split: option.splits)

lemma actor_safe: "c \<in> set (replace_unsafe s) \<Longrightarrow> actorSafe c \<or> c = CHR ''_''"
  by (induction s rule: replace_unsafe.induct) (auto split: if_splits option.splits)

text \<open>Flags are judged before the database is touched.\<close>

lemma bad_role_untouched: "\<not> Role_Valid role \<Longrightarrow> createToken scaled C name role expiresIn now st = (Inl (FlagRole role), st)"
  "\<not> Role_Valid role \<Longrightarrow> createUser C email role pass st = (Inl (FlagRole role), st)"
  by (simp_all add: createToken_def credentialSpec_def createUser_def)

end
