(* ===== verification/Spec2Isabelle.thy ===== *)
theory Spec2Isabelle
  imports Redis_Quota Pricing Proxy_Api Decision_Sink Admin_Api Reports Record_Pipeline Cli
begin

text \<open>
  go-route is a gateway for language-model requests. Clients send OpenAI-style completions; the proxy
  authenticates the key, checks the tenant's spending quota, resolves the model alias to a ladder of
  upstream targets, relays the first that answers, prices what was used and records the decision. A
  second server, the admin API, manages tenants, keys, quotas and the people and credentials that may
  do so. This library models both servers down to the statements they send to PostgreSQL and Redis.

  \<^bold>\<open>Conventions.\<close> \<open>Prelude\<close>: a Go \<open>int64\<close> is an integer in \<open>in_i64\<close>, and \<open>i64\<close> wraps after every operation
  that can overflow; a time is its nanoseconds since the epoch, \<open>zero_time\<close> Go's zero value; a UUID is
  a \<open>128 word\<close>; a string is its bytes; an error is a value of the left of a sum or \<open>Some\<close>. A struct is a
  record with the prefix of its fields, a method \<open>T.M\<close> is \<open>T_M\<close> or \<open>M\<close>. \<open>Go_Strings\<close> models what is used of
  \<open>strings\<close>, \<open>strconv\<close>, \<open>utf8\<close> and the base 32 and 64 encodings, \<open>Calendar\<close> of \<open>time\<close>. Code outside the
  repository is a parameter: fields of the \<open>_env\<close> records or of a locale whose assumptions are that
  code's documentation. The two stores are states with a list of faults to come, so every call may
  fail before or after its effect.

  \<^bold>\<open>Requests.\<close> \<open>Sse\<close> (\<open>core/sse\<close>) is the event codec, \<open>Provider_Adapter\<close> (\<open>outbound/providers/oaicompat\<close>)
  the upstream client, \<open>Dispatch\<close> (\<open>usecases/dispatch\<close>) the ladder, \<open>Routing\<close> and \<open>Config\<close> (\<open>usecases/routing\<close>,
  \<open>config\<close>) where targets come from, \<open>Proxy_Api\<close> (\<open>inbound/proxyapi\<close>) the handler. Shown: what the client
  receives is what the chosen target sent, in order; at most one target is committed to; an exhausted
  ladder has written nothing; decoding does not depend on buffer sizes, is inverse to encoding and
  notices truncation; a validated configuration resolves all its aliases; every request is answered
  once and attributed to the key that made it.

  \<^bold>\<open>Quotas.\<close> \<open>Metering\<close>, \<open>Quota_Windows\<close> (\<open>core/domains\<close>): money, usage and the calendar windows.
  \<open>Quota_Counters\<close> is the contract of live counters as a locale; \<open>Redis_Scripts\<close> and \<open>Redis_Counters\<close>
  (\<open>repositories/redisquota\<close>) implement it with the three Lua scripts, over a locale of Redis's
  commands. \<open>Usage_Flusher\<close> (\<open>usecases/quota/flusher.go\<close>, \<open>repositories/usage_counters.go\<close>) is the durable
  copy, \<open>Quota_Enforcer\<close> the enforcer, \<open>Redis_Quota\<close> the composition. Shown: admitted reservations keep
  every counter within its cap; every reservation of a request is settled; usage is neither lost nor
  doubled on its way to the database; windows partition time.

  \<^bold>\<open>Records.\<close> \<open>Decisions\<close> (\<open>core/domains\<close>) is what a request leaves behind, \<open>Pricing\<close> what it cost,
  \<open>Decision_Sink\<close> (\<open>outbound/sink\<close>) the asynchronous buffer as a step relation over the interleavings of
  its goroutines. Shown: every decision is written, failed, dropped or still held and counted as
  such; memory stays bounded; shutdown drains; the price in force is the one used. \<open>Records\<close>
  (\<open>repositories/records.go\<close>, \<open>observability.go\<close>, \<open>adminapi/cursor.go\<close>) is the writer behind the sink, the reader
  of a decision and the pages of the audit log, \<open>Reports\<close> the aggregate queries, spend reports and the
  dashboard endpoints with their wire types. Shown: a decision comes back from the two tables up to a stated
  normal form; following the cursors of the audit log ends and yields every event once; the total of a report
  does not depend on its grouping. \<open>Partitions\<close> (\<open>drivers/postgresql/partitions.go\<close>) keeps the tables a
  partition for every month ahead; shown: rows of five months have one, however its loop fails. That the
  normal form loses the key id is a fault of the reader, and is stated as a lemma. \<open>Record_Pipeline\<close>
  (\<open>bootstrap/sink.go\<close>) puts the buffer over the writer; shown: in every interleaving and under every failure
  of the databases, what the sink counts as written can be read back.

  \<^bold>\<open>Administration.\<close> \<open>Postgres\<close> models statements and transactions with faults and states the contract of a
  transaction as the locale \<open>tx_runner\<close>. \<open>Admin_Domain\<close> and \<open>Password\<close> (\<open>core/domains\<close>, \<open>core/password\<close>) hold
  the vocabulary and the hash format, \<open>Admin_Store\<close> and \<open>Admin_Identities\<close> (\<open>db/queries\<close> through \<open>db/gen\<close>,
  \<open>adapters/repositories\<close>) the tables, queries and repositories, \<open>Admin_Service\<close> and \<open>Admin_Sessions\<close>
  (\<open>usecases/admin\<close>, \<open>core/tokens\<close>) the use cases, \<open>Admin_Api\<close> (\<open>inbound/adminapi\<close>) the HTTP surface, \<open>Cli\<close>
  (\<open>cmd/go-route-admin\<close>, \<open>clitime\<close>) the commands over the same use cases. The
  locale \<open>query_invariant\<close> carries what every query keeps to every use case; it is interpreted for the
  constraints of the identity tables and for the configuration tables. Shown: every mutation is
  atomic and leaves exactly one audit row; replacing quotas is replacement of a map; revocation is
  final; logins, refreshes and lock-outs obey their contracts and keep the tables sound in every
  reachable state; the throttle with its sweeping equals one without; no request changes the
  configuration without a caller that may write, and anonymous callers reach login and refresh only.

  \<^bold>\<open>Bounds and termination.\<close> Loops are recursion with a termination proof. The only bounds are the
  source's own: batch sizes, the number of seeding rounds, the sweep of the throttle. A client that pages
  through the audit log (\<open>audit_walk\<close>) has fuel for one request more than there are rows, which is proved
  to be enough. Statements about counters of events assume fewer than \<open>2 ^ 63\<close> of them, where a Go \<open>int\<close> would wrap.

  \<^bold>\<open>Not modelled.\<close> Of the command lines (\<open>cmd\<close>) the flags' syntax, dates, the printing of reports, decisions and
  lists and the starting of the servers; the rest of \<open>bootstrap\<close> and the opening of connections in \<open>drivers\<close>; YAML
  and environment expansion; generated decoding (\<open>schemas/admin/gen\<close>, but for its routes and wire types) and mocks; logging. Time passing inside a call is
  one reading of the clock per reading in the source. The record tables are a state of their own beside the
  configuration tables, so \<open>Admin_Api\<close> routes to the dashboard endpoints as a parameter. Transactions run one after
  the other, as the row locks of the source make them do for one tenant.
\<close>

end
